(* ===== verification/Gud_Base.thy ===== *)
theory Gud_Base
  imports Main "HOL-Library.Word"
begin

text \<open>
  Prelude of the development: the machine integer types of the Rust sources, the error
  values, the parts of the Rust standard library the crates use (checked arithmetic,
  little-endian conversion, slice copies, \<open>for\<close> loops with early return) and the shared
  lemmas about them.

  \<^item> \<open>u8\<close>, \<open>u16\<close>, \<open>u32\<close>, \<open>u64\<close> are words, so plain \<open>+\<close>, \<open>-\<close>, \<open>*\<close> wrap as they do in a
    release build. \<open>usize\<close> is a natural number: the deployed target is
    \<^verbatim>\<open>aarch64\<close>, whose \<open>usize\<close> has 64 bits, and every checked operation compares with
    \<open>2 ^ 64\<close>.
  \<^item> A Rust \<open>Result\<close> is \<open>err + 'a\<close>. \<open>Error msg\<close> is an \<open>anyhow\<close> error returned to the
    caller, \<open>Panic msg\<close> a panic (slice index out of range, failed \<open>expect\<close>).
  \<^item> Log statements have no effect on the state and are left out.
\<close>

unbundle bit_operations_syntax

section \<open>Types\<close>

type_synonym u8 = "8 word"
type_synonym u16 = "16 word"
type_synonym u32 = "32 word"
type_synonym u64 = "64 word"
type_synonym usize = nat
type_synonym instant = nat  \<comment> \<open>a monotonic clock reading, in milliseconds\<close>
type_synonym bytes = "u8 list"

datatype err = Error string | Panic string

type_synonym 'a result = "err + 'a"

abbreviation Ok :: "'a \<Rightarrow> 'a result" where
  "Ok \<equiv> Inr"

abbreviation Err :: "string \<Rightarrow> 'a result" where
  "Err msg \<equiv> Inl (Error msg)"

abbreviation panic :: "string \<Rightarrow> 'a result" where
  "panic msg \<equiv> Inl (Panic msg)"

definition is_ok :: "'a result \<Rightarrow> bool" where
  "is_ok r = (case r of Inl _ \<Rightarrow> False | Inr _ \<Rightarrow> True)"

definition panics :: "'a result \<Rightarrow> bool" where
  "panics r = (case r of Inl (Panic _) \<Rightarrow> True | _ \<Rightarrow> False)"

lemma is_ok_simps [simp]:
  "is_ok (Inl e) = False"
  "is_ok (Inr x) = True"
  by (simp_all add: is_ok_def)

lemma panics_simps [simp]:
  "panics (Inl (Error m)) = False"
  "panics (Inl (Panic m)) = True"
  "panics (Inr x) = False"
  by (simp_all add: panics_def)

lemma is_ok_iff: "is_ok r \<longleftrightarrow> (\<exists>x. r = Inr x)"
  by (cases r) simp_all

text \<open>\<open>opt.context(msg)\<close>: an absent value becomes an error.\<close>

definition ctx :: "'a option \<Rightarrow> string \<Rightarrow> 'a result" where
  "ctx x msg = (case x of None \<Rightarrow> Err msg | Some v \<Rightarrow> Ok v)"

lemma ctx_simps [simp]:
  "ctx None msg = Err msg"
  "ctx (Some v) msg = Ok v"
  by (simp_all add: ctx_def)

lemma ctx_eq_Inr [simp]: "ctx x msg = Inr v \<longleftrightarrow> x = Some v"
  by (cases x) simp_all

lemma ctx_not_panics [simp]: "\<not> panics (ctx x msg)"
  by (cases x) simp_all

section \<open>Collections of facts\<close>

named_theorems model_defs \<open>definitions of operations, for case analysis over all branches\<close>
named_theorems bounds_simps \<open>facts that read word operations as natural numbers\<close>

lemmas result_splits = if_splits option.splits sum.splits prod.splits

section \<open>Checked arithmetic\<close>

definition usize_bound :: nat where
  "usize_bound = 2 ^ 64"

definition checked_add_usize :: "usize \<Rightarrow> usize \<Rightarrow> usize option" where
  "checked_add_usize a b = (if a + b < usize_bound then Some (a + b) else None)"

definition checked_mul_usize :: "usize \<Rightarrow> usize \<Rightarrow> usize option" where
  "checked_mul_usize a b = (if a * b < usize_bound then Some (a * b) else None)"

definition checked_sub_usize :: "usize \<Rightarrow> usize \<Rightarrow> usize option" where
  "checked_sub_usize a b = (if b \<le> a then Some (a - b) else None)"

definition checked_add :: "'a::len word \<Rightarrow> 'a word \<Rightarrow> 'a word option" where
  "checked_add a b = (if unat a + unat b < 2 ^ LENGTH('a) then Some (a + b) else None)"

definition checked_mul :: "'a::len word \<Rightarrow> 'a word \<Rightarrow> 'a word option" where
  "checked_mul a b = (if unat a * unat b < 2 ^ LENGTH('a) then Some (a * b) else None)"

lemma checked_add_usize_Some [simp]:
  "checked_add_usize a b = Some c \<longleftrightarrow> c = a + b \<and> a + b < usize_bound"
  by (auto simp: checked_add_usize_def)

lemma checked_mul_usize_Some [simp]:
  "checked_mul_usize a b = Some c \<longleftrightarrow> c = a * b \<and> a * b < usize_bound"
  by (auto simp: checked_mul_usize_def)

lemma checked_sub_usize_Some [simp]:
  "checked_sub_usize a b = Some c \<longleftrightarrow> c = a - b \<and> b \<le> a"
  by (auto simp: checked_sub_usize_def)

lemma checked_add_SomeD: "checked_add a b = Some c \<Longrightarrow> c = a + b \<and> unat c = unat a + unat b"
  by (auto simp: checked_add_def unat_word_ariths split: if_splits)

lemma checked_mul_SomeD: "checked_mul a b = Some c \<Longrightarrow> c = a * b \<and> unat c = unat a * unat b"
  by (auto simp: checked_mul_def unat_word_ariths split: if_splits)

text \<open>
  Plain \<open>+\<close> on a machine integer: with the build profile's \<open>overflow-checks\<close> on (debug) an
  overflow panics, otherwise (release) it wraps.
\<close>

definition plain_add :: "bool \<Rightarrow> 'a::len word \<Rightarrow> 'a word \<Rightarrow> 'a word result" where
  "plain_add overflow_checks a b =
     (if overflow_checks \<and> 2 ^ LENGTH('a) \<le> unat a + unat b
      then panic ''attempt to add with overflow'' else Ok (a + b))"

lemma plain_add_release [simp]: "plain_add False a b = Ok (a + b)"
  by (simp add: plain_add_def)

lemma plain_add_Inr: "plain_add oc a b = Inr c \<Longrightarrow> c = a + b"
  by (simp add: plain_add_def split: if_splits)

lemma unat_u32_bound: "unat (w :: u32) < 2 ^ 32"
  using unsigned_less [of w] by simp

lemma unat_u16_bound: "unat (w :: u16) < 2 ^ 16"
  using unsigned_less [of w] by simp

lemma unat_u8_bound: "unat (w :: u8) < 2 ^ 8"
  using unsigned_less [of w] by simp

lemma unat_u64_bound: "unat (w :: u64) < 2 ^ 64"
  using unsigned_less [of w] by simp

lemma unat_u16_as_u32 [simp, bounds_simps]: "unat (ucast (w :: u16) :: u32) = unat w"
  by (simp add: unsigned_ucast_eq take_bit_nat_eq_self unat_u16_bound [THEN less_trans])

lemma u32_mul_fits_usize: "unat (a :: u32) * unat (b :: u32) < usize_bound"
proof -
  have "unat a * unat b < 2 ^ 32 * 2 ^ 32"
    by (rule mult_strict_mono) (use unat_u32_bound [of a] unat_u32_bound [of b] in simp_all)
  then show ?thesis by (simp add: usize_bound_def)
qed

section \<open>Little-endian conversion\<close>

fun to_le_bytes :: "nat \<Rightarrow> 'a::len word \<Rightarrow> bytes" where
  "to_le_bytes 0 w = []"
| "to_le_bytes (Suc n) w = ucast w # to_le_bytes n (drop_bit 8 w)"

fun from_le_bytes :: "bytes \<Rightarrow> 'a::len word" where
  "from_le_bytes [] = 0"
| "from_le_bytes (b # bs) = ucast b OR push_bit 8 (from_le_bytes bs)"

lemma length_to_le_bytes [simp]: "length (to_le_bytes n w) = n"
  by (induction n arbitrary: w) simp_all

lemma bit_to_le_step:
  "ucast (ucast w :: u8) OR push_bit 8 (take_bit n (drop_bit 8 w)) = take_bit (8 + n) (w :: 'a::len word)"
  by (rule bit_word_eqI) (auto simp: bit_simps)

lemma from_to_le_bytes: "from_le_bytes (to_le_bytes n w) = take_bit (8 * n) (w :: 'a::len word)"
  by (induction n arbitrary: w) (simp_all add: bit_to_le_step)

lemma from_to_le_bytes_id [simp]:
  "LENGTH('a) \<le> 8 * n \<Longrightarrow> from_le_bytes (to_le_bytes n w) = (w :: 'a::len word)"
  by (simp add: from_to_le_bytes take_bit_word_eq_self)

lemma ucast_le_head:
  "8 \<le> LENGTH('a) \<Longrightarrow> ucast (ucast (b :: u8) OR push_bit 8 (w :: 'a::len word)) = b"
  by (rule bit_word_eqI) (auto simp: bit_simps)

lemma drop_le_head:
  "8 + n \<le> LENGTH('a) \<Longrightarrow>
    drop_bit 8 (ucast (b :: u8) OR push_bit 8 (take_bit n (w :: 'a::len word))) = take_bit n w"
  by (rule bit_word_eqI) (auto simp: bit_simps dest: bit_imp_le_length)

lemma from_le_bytes_take: "take_bit (8 * length bs) (from_le_bytes bs) = (from_le_bytes bs :: 'a::len word)"
proof (induction bs)
  case Nil
  then show ?case by simp
next
  case (Cons b bs)
  have "take_bit (8 * length (b # bs)) (ucast b OR push_bit 8 (take_bit (8 * length bs) (from_le_bytes bs)))
      = (ucast b OR push_bit 8 (take_bit (8 * length bs) (from_le_bytes bs)) :: 'a word)"
    by (rule bit_word_eqI) (auto simp: bit_simps dest: bit_imp_le_length)
  with Cons.IH show ?case by simp
qed

lemma to_from_le_bytes [simp]:
  "8 * length bs \<le> LENGTH('a) \<Longrightarrow> to_le_bytes (length bs) (from_le_bytes bs :: 'a::len word) = bs"
proof (induction bs)
  case Nil
  then show ?case by simp
next
  case (Cons b bs)
  have "drop_bit 8 (ucast b OR push_bit 8 (take_bit (8 * length bs) (from_le_bytes bs :: 'a word)))
      = take_bit (8 * length bs) (from_le_bytes bs)"
    by (rule drop_le_head) (use Cons.prems in simp)
  with Cons show ?case by (simp add: from_le_bytes_take ucast_le_head)
qed

section \<open>Slices\<close>

text \<open>
  \<open>blit dst at src\<close> overwrites \<open>length src\<close> elements from index \<open>at\<close>. The Rust
  statement \<^verbatim>\<open>dst[at..at+n].copy_from_slice(src)\<close> panics when the range leaves the slice,
  and so does \<^verbatim>\<open>&xs[lo..hi]\<close>.
\<close>

definition blit :: "'a list \<Rightarrow> nat \<Rightarrow> 'a list \<Rightarrow> 'a list" where
  "blit dst at src = take at dst @ src @ drop (at + length src) dst"

definition copy_into :: "'a list \<Rightarrow> nat \<Rightarrow> 'a list \<Rightarrow> 'a list result" where
  "copy_into dst at src =
     (if at + length src \<le> length dst then Ok (blit dst at src)
      else panic ''range end index out of range'')"

definition slice :: "'a list \<Rightarrow> nat \<Rightarrow> nat \<Rightarrow> 'a list result" where
  "slice xs lo hi =
     (if lo \<le> hi \<and> hi \<le> length xs then Ok (take (hi - lo) (drop lo xs))
      else panic ''range end index out of range'')"

lemma length_blit [simp]: "at + length src \<le> length dst \<Longrightarrow> length (blit dst at src) = length dst"
  by (simp add: blit_def)

lemma nth_blit:
  "at + length src \<le> length dst \<Longrightarrow> i < length dst \<Longrightarrow>
    blit dst at src ! i = (if at \<le> i \<and> i < at + length src then src ! (i - at) else dst ! i)"
  by (auto simp: blit_def nth_append)

lemma nth_blit_in [simp]:
  "at + length src \<le> length dst \<Longrightarrow> k < length src \<Longrightarrow> blit dst at src ! (at + k) = src ! k"
  by (simp add: nth_blit)

lemma nth_blit_out:
  "at + length src \<le> length dst \<Longrightarrow> i < length dst \<Longrightarrow> i < at \<or> at + length src \<le> i \<Longrightarrow>
    blit dst at src ! i = dst ! i"
  by (auto simp: nth_blit)

lemma copy_into_Inr [simp]:
  "copy_into dst at src = Inr r \<longleftrightarrow> at + length src \<le> length dst \<and> r = blit dst at src"
  by (auto simp: copy_into_def)

lemma slice_Inr [simp]:
  "slice xs lo hi = Inr r \<longleftrightarrow> lo \<le> hi \<and> hi \<le> length xs \<and> r = take (hi - lo) (drop lo xs)"
  by (auto simp: slice_def)

section \<open>Loops\<close>

text \<open>
  \<^verbatim>\<open>for k in i..n { body }\<close> over an explicit loop state; the body may leave the function
  with an error. \<open>for_range_total\<close> is the total-correctness rule the raster proofs use: an
  invariant indexed by the loop variable, and a body that succeeds under it.
\<close>

function for_range :: "nat \<Rightarrow> nat \<Rightarrow> (nat \<Rightarrow> 's \<Rightarrow> 's result) \<Rightarrow> 's \<Rightarrow> 's result" where
  "for_range i n body s =
     (if i < n then (case body i s of Inl e \<Rightarrow> Inl e | Inr s' \<Rightarrow> for_range (Suc i) n body s')
      else Ok s)"
  by pat_completeness auto
termination
  by (relation "measure (\<lambda>(i, n, body, s). n - i)") auto

declare for_range.simps [simp del]

lemma for_range_done [simp]: "n \<le> i \<Longrightarrow> for_range i n body s = Ok s"
  by (simp add: for_range.simps [of i n])

lemma for_range_step:
  "i < n \<Longrightarrow> for_range i n body s =
     (case body i s of Inl e \<Rightarrow> Inl e | Inr s' \<Rightarrow> for_range (Suc i) n body s')"
  by (simp add: for_range.simps [of i n])

lemma for_range_total:
  assumes "i \<le> n" and "I i s"
    and body: "\<And>k s. i \<le> k \<Longrightarrow> k < n \<Longrightarrow> I k s \<Longrightarrow> \<exists>s'. body k s = Inr s' \<and> I (Suc k) s'"
  shows "\<exists>s'. for_range i n body s = Inr s' \<and> I n s'"
  using assms
proof (induction i n body s rule: for_range.induct)
  case (1 i n body s)
  show ?case
  proof (cases "i < n")
    case False
    with "1.prems" show ?thesis by simp
  next
    case True
    with "1.prems" obtain s' where s': "body i s = Inr s'" "I (Suc i) s'" by blast
    have "\<exists>s''. for_range (Suc i) n body s' = Inr s'' \<and> I n s''"
      by (rule "1.IH" [OF True s'(1)]) (use True s'(2) "1.prems"(3) in auto)
    with True s'(1) show ?thesis by (simp add: for_range_step)
  qed
qed

text \<open>Partial correctness: what every iteration keeps.\<close>

lemma for_range_keeps:
  assumes "for_range i n body s = Inr s'" and "I s" and "\<And>k t t'. body k t = Inr t' \<Longrightarrow> I t \<Longrightarrow> I t'"
  shows "I s'"
  using assms
proof (induction i n body s rule: for_range.induct)
  case (1 i n body s)
  note step = 1(4)
  show ?case
  proof (cases "i < n")
    case True
    then obtain s1 where s1: "body i s = Inr s1" "for_range (Suc i) n body s1 = Inr s'"
      using 1(2) by (auto simp: for_range_step split: sum.splits)
    have "I s1" by (rule step [OF s1(1) 1(3)])
    from 1(1) [OF True s1 this] step show ?thesis by blast
  qed (use 1 in simp)
qed

end
