(* ===== verification/Drm_Session.thy ===== *)
theory Drm_Session
  imports Gud_Base
begin

text \<open>
  Receive ownership of the display service (\<^verbatim>\<open>drm/src/main.rs\<close>): the STATUS_ON_SET cleanup
  drain, the aggregate receive session that the main loop shares with the termination handler,
  and the gadget shutdown handshake.

  The session's state is an atomic that two threads change. A compare-exchange loop is given the
  list of values the other thread stores between its load and its compare-exchange, one per
  iteration; an empty list means no further interference.
\<close>

section \<open>STATUS_ON_SET cleanup drain\<close>

abbreviation STATUS_ON_SET_CLEANUP_DRAIN_DEADLINE :: nat where "STATUS_ON_SET_CLEANUP_DRAIN_DEADLINE \<equiv> 1000"
abbreviation STATUS_ON_SET_CLEANUP_STATUS_COUNT :: nat where "STATUS_ON_SET_CLEANUP_STATUS_COUNT \<equiv> 2"

datatype StatusOnSetCleanupPhase =
    AwaitingInitial
  | Receiving nat
  | AwaitingTrailing nat instant
  | Drained
  | TimedOut

datatype StatusOnSetCleanupObservation =
    Initial
  | TrailingEarly nat nat
  | TrailingAfterPayload nat nat

record StatusOnSetCleanupDrain =
  cd_transaction :: u8
  cd_phase :: StatusOnSetCleanupPhase

definition new_drain :: "u8 \<Rightarrow> StatusOnSetCleanupDrain" where
  "new_drain transaction = \<lparr> cd_transaction = transaction, cd_phase = AwaitingInitial \<rparr>"

definition note_status ::
  "u8 \<Rightarrow> StatusOnSetCleanupDrain \<Rightarrow> StatusOnSetCleanupObservation result \<times> StatusOnSetCleanupDrain" where
  "note_status status d =
     (if \<not> status = 0 then (Err ''STATUS_ON_SET diagnostic STATUS_ON_SET received non-OK status'', d)
      else case cd_phase d of
        AwaitingInitial \<Rightarrow> (Ok Initial, d\<lparr> cd_phase := Receiving 0 \<rparr>)
      | Receiving trailing \<Rightarrow>
          if \<not> trailing < STATUS_ON_SET_CLEANUP_STATUS_COUNT
          then (Err ''received an extra GET_STATUS while all cleanup statuses were already drained'', d)
          else (let drained = trailing + 1; remaining = STATUS_ON_SET_CLEANUP_STATUS_COUNT - drained in
                (Ok (TrailingEarly drained remaining), d\<lparr> cd_phase := Receiving drained \<rparr>))
      | AwaitingTrailing trailing deadline \<Rightarrow>
          if \<not> trailing < STATUS_ON_SET_CLEANUP_STATUS_COUNT
          then (Err ''received an extra GET_STATUS while all cleanup statuses were already drained'', d)
          else (let drained = trailing + 1; remaining = STATUS_ON_SET_CLEANUP_STATUS_COUNT - drained in
                (Ok (TrailingAfterPayload drained remaining),
                 d\<lparr> cd_phase := (if remaining = 0 then Drained else AwaitingTrailing drained deadline) \<rparr>))
      | Drained \<Rightarrow> (Err ''received an extra GET_STATUS after STATUS_ON_SET cleanup was drained'', d)
      | TimedOut \<Rightarrow> (Err ''received GET_STATUS after STATUS_ON_SET cleanup timeout'', d))"

definition payload_processed ::
  "instant \<Rightarrow> StatusOnSetCleanupDrain \<Rightarrow> bool result \<times> StatusOnSetCleanupDrain" where
  "payload_processed now d =
     (case cd_phase d of
        Receiving trailing \<Rightarrow>
          if trailing = STATUS_ON_SET_CLEANUP_STATUS_COUNT then (Ok True, d\<lparr> cd_phase := Drained \<rparr>)
          else (Ok False,
                d\<lparr> cd_phase := AwaitingTrailing trailing (now + STATUS_ON_SET_CLEANUP_DRAIN_DEADLINE) \<rparr>)
      | _ \<Rightarrow> (Err ''STATUS_ON_SET diagnostic payload processing completed in wrong status phase'', d))"

definition timed_out :: "instant \<Rightarrow> StatusOnSetCleanupDrain \<Rightarrow> bool \<times> StatusOnSetCleanupDrain" where
  "timed_out now d =
     (case cd_phase d of
        AwaitingTrailing _ deadline \<Rightarrow>
          if now < deadline then (False, d) else (True, d\<lparr> cd_phase := TimedOut \<rparr>)
      | _ \<Rightarrow> (False, d))"

definition is_drained :: "StatusOnSetCleanupDrain \<Rightarrow> bool" where
  "is_drained d \<longleftrightarrow> cd_phase d = Drained"

section \<open>The aggregate receive session\<close>

datatype BulkReceiveState =
  BrIdle | BrArming | BrInFlight | BrProcessing | BrPoisoned | BrShuttingDown | BrAborted

definition from_raw :: "u8 \<Rightarrow> BulkReceiveState result" where
  "from_raw raw =
     (if raw = 0 then Ok BrIdle else if raw = 1 then Ok BrArming else if raw = 2 then Ok BrInFlight
      else if raw = 3 then Ok BrProcessing else if raw = 4 then Ok BrPoisoned
      else if raw = 5 then Ok BrShuttingDown else if raw = 6 then Ok BrAborted
      else panic ''invalid bulk receive state'')"

fun to_raw :: "BulkReceiveState \<Rightarrow> u8" where
  "to_raw BrIdle = 0" | "to_raw BrArming = 1" | "to_raw BrInFlight = 2" | "to_raw BrProcessing = 3"
| "to_raw BrPoisoned = 4" | "to_raw BrShuttingDown = 5" | "to_raw BrAborted = 6"

record BulkReceiveSession =
  br_state :: BulkReceiveState
  br_epoch_id :: u64
  br_deadline :: nat

definition with_deadline :: "nat \<Rightarrow> BulkReceiveSession" where
  "with_deadline deadline = \<lparr> br_state = BrIdle, br_epoch_id = 0, br_deadline = deadline \<rparr>"

text \<open>\<open>compare_exchange\<close> with the error the caller builds from the actual value.\<close>

definition cas ::
  "BulkReceiveState \<Rightarrow> BulkReceiveState \<Rightarrow> string \<Rightarrow> BulkReceiveSession \<Rightarrow> unit result \<times> BulkReceiveSession" where
  "cas expected new msg s =
     (if br_state s = expected then (Ok (), s\<lparr> br_state := new \<rparr>) else (Err msg, s))"

definition begin_receive :: "instant \<Rightarrow> BulkReceiveSession \<Rightarrow> instant result \<times> BulkReceiveSession" where
  "begin_receive now s =
     (case cas BrIdle BrArming ''FunctionFS bulk receive session; a fresh Pi boot may be required'' s of
        (Inl e, s') \<Rightarrow> (Inl e, s')
      | (Inr _, s') \<Rightarrow> (Ok now, s'))"

definition session_submission_accepted :: "BulkReceiveSession \<Rightarrow> unit result \<times> BulkReceiveSession" where
  "session_submission_accepted s = cas BrArming BrInFlight ''cannot record accepted FunctionFS AIO'' s"

definition session_poison :: "BulkReceiveSession \<Rightarrow> BulkReceiveSession" where
  "session_poison s = s\<lparr> br_state := BrPoisoned \<rparr>"

text \<open>The deadline is tested against the time since \<open>started\<close>.\<close>

definition finish_receive ::
  "instant \<Rightarrow> instant \<Rightarrow> 'a result \<Rightarrow> BulkReceiveSession \<Rightarrow> 'a result \<times> BulkReceiveSession" where
  "finish_receive now started r s =
     (case r of
        Inl e \<Rightarrow> (Inl e, session_poison s)
      | Inr v \<Rightarrow>
          if now - started > br_deadline s
          then (Err ''FunctionFS bulk receive exceeded the conservative safety deadline'', session_poison s)
          else (case cas BrInFlight BrProcessing ''FunctionFS bulk receive state changed unexpectedly'' s of
                  (Inl e, s') \<Rightarrow> (Inl e, session_poison s')
                | (Inr _, s') \<Rightarrow> (Ok v, s')))"

definition session_finish_processing :: "BulkReceiveSession \<Rightarrow> unit result \<times> BulkReceiveSession" where
  "session_finish_processing s = cas BrProcessing BrIdle ''cannot finalize FunctionFS processing'' s"

definition cancel_receive_before_io :: "BulkReceiveSession \<Rightarrow> unit result \<times> BulkReceiveSession" where
  "cancel_receive_before_io s = cas BrArming BrIdle ''cannot cancel unsubmitted FunctionFS receive'' s"

text \<open>
  The compare-exchange loops. \<open>env\<close> holds the states the other thread stores between the load and
  the compare-exchange of each iteration.
\<close>

fun observe_lifecycle ::
  "BulkReceiveState list \<Rightarrow> BulkReceiveSession \<Rightarrow> (BulkReceiveState + unit) \<times> BulkReceiveSession" where
  "observe_lifecycle env s =
     (case br_state s of
        BrIdle \<Rightarrow> (Inr (), s)
      | BrAborted \<Rightarrow> (Inr (), s)
      | BrPoisoned \<Rightarrow> (Inl BrPoisoned, s)
      | BrShuttingDown \<Rightarrow> (Inl BrShuttingDown, s)
      | state \<Rightarrow>
          (case env of
             [] \<Rightarrow> (Inl state, s\<lparr> br_state := BrPoisoned \<rparr>)
           | other # env' \<Rightarrow>
               if other = state then (Inl state, s\<lparr> br_state := BrPoisoned \<rparr>)
               else observe_lifecycle env' (s\<lparr> br_state := other \<rparr>)))"

text \<open>
  \<open>begin_shutdown\<close> loads the state twice in its first branch: once for the match and once for the
  expected value of the compare-exchange. An interference entry is what the other thread stores
  between the two loads, and what it stores before the compare-exchange.
\<close>

definition interfere :: "BulkReceiveState option \<Rightarrow> BulkReceiveSession \<Rightarrow> BulkReceiveSession" where
  "interfere other s = (case other of None \<Rightarrow> s | Some st \<Rightarrow> s\<lparr> br_state := st \<rparr>)"

fun begin_shutdown ::
  "(BulkReceiveState option \<times> BulkReceiveState option) list \<Rightarrow> BulkReceiveSession \<Rightarrow>
   (BulkReceiveState + unit) \<times> BulkReceiveSession" where
  "begin_shutdown env s =
     (let state = br_state s;
          s1 = (case env of [] \<Rightarrow> s | (a, _) # _ \<Rightarrow> interfere a s);
          s2 = (case env of [] \<Rightarrow> s1 | (_, b) # _ \<Rightarrow> interfere b s1) in
      if state = BrPoisoned \<or> state = BrShuttingDown then (Inl state, s)
      else if state = BrIdle \<or> state = BrAborted then
        (let expected = br_state s1 in
         if br_state s2 = expected then (Inr (), s2\<lparr> br_state := BrShuttingDown \<rparr>)
         else case env of [] \<Rightarrow> (Inr (), s2) | _ # env' \<Rightarrow> begin_shutdown env' s2)
      else if br_state s2 = state then (Inl state, s2\<lparr> br_state := BrPoisoned \<rparr>)
      else case env of [] \<Rightarrow> (Inl state, s2) | _ # env' \<Rightarrow> begin_shutdown env' s2)"

declare observe_lifecycle.simps [simp del] begin_shutdown.simps [simp del]

definition currently_owned :: "BulkReceiveSession \<Rightarrow> bool" where
  "currently_owned s \<longleftrightarrow> \<not> (br_state s = BrIdle \<or> br_state s = BrAborted)"

fun session_retire ::
  "BulkReceiveState list \<Rightarrow> BulkReceiveSession \<Rightarrow> (BulkReceiveState + u64) \<times> BulkReceiveSession" where
  "session_retire env s =
     (if \<not> (br_state s = BrArming \<or> br_state s = BrInFlight \<or> br_state s = BrPoisoned)
      then (Inl (br_state s), s)
      else case env of
        [] \<Rightarrow> (Inr (br_epoch_id s), s\<lparr> br_state := BrAborted \<rparr>)
      | other # env' \<Rightarrow>
          if other = br_state s then (Inr (br_epoch_id s), s\<lparr> br_state := BrAborted \<rparr>)
          else session_retire env' (s\<lparr> br_state := other \<rparr>))"

declare session_retire.simps [simp del]

definition session_begin_usb_epoch :: "u64 \<Rightarrow> BulkReceiveSession \<Rightarrow> unit result \<times> BulkReceiveSession" where
  "session_begin_usb_epoch epoch_id s =
     (if \<not> (br_state s = BrIdle \<or> br_state s = BrAborted) then (Err ''cannot begin USB epoch'', s)
      else if \<not> epoch_id > br_epoch_id s then (Err ''USB epoch identifier did not increase'', s)
      else (Ok (), s\<lparr> br_epoch_id := epoch_id, br_state := BrIdle \<rparr>))"

section \<open>Gadget shutdown\<close>

text \<open>
  The target is a weak reference: \<open>alive\<close> says whether it can be upgraded, \<open>unbind\<close> is the outcome
  of the unbind call. The third component tells whether the target was unbound in this call.
\<close>

datatype GadgetUnbindOutcome = Armed | DeferredUntilPublish | Unbound | AlreadyUnbound

record GadgetShutdownState =
  gs_requested :: bool
  gs_unbound :: bool
  gs_target :: bool

definition default_shutdown :: GadgetShutdownState where
  "default_shutdown = \<lparr> gs_requested = False, gs_unbound = False, gs_target = False \<rparr>"

definition unbind_locked ::
  "bool \<Rightarrow> unit result \<Rightarrow> GadgetShutdownState \<Rightarrow> GadgetUnbindOutcome result \<times> GadgetShutdownState \<times> bool" where
  "unbind_locked alive unbind st =
     (if gs_unbound st then (Ok AlreadyUnbound, st, False)
      else if \<not> (gs_target st \<and> alive) then (Ok DeferredUntilPublish, st, False)
      else case unbind of
        Inl e \<Rightarrow> (Inl e, st, False)
      | Inr _ \<Rightarrow> (Ok Unbound, st\<lparr> gs_unbound := True \<rparr>, True))"

definition publish ::
  "unit result \<Rightarrow> GadgetShutdownState \<Rightarrow> GadgetUnbindOutcome result \<times> GadgetShutdownState \<times> bool" where
  "publish unbind st =
     (let st' = st\<lparr> gs_target := True, gs_unbound := False \<rparr> in
      if gs_requested st' then unbind_locked True unbind st' else (Ok Armed, st', False))"

definition request_unbind ::
  "bool \<Rightarrow> unit result \<Rightarrow> GadgetShutdownState \<Rightarrow> GadgetUnbindOutcome result \<times> GadgetShutdownState \<times> bool" where
  "request_unbind alive unbind st = unbind_locked alive unbind (st\<lparr> gs_requested := True \<rparr>)"

definition clear_target :: "GadgetShutdownState \<Rightarrow> GadgetShutdownState" where
  "clear_target st = st\<lparr> gs_target := False \<rparr>"

section \<open>Lemmas\<close>

lemma raw_roundtrip: "from_raw (to_raw st) = Ok st"
  by (cases st) (simp_all add: from_raw_def)

text \<open>The history of a drain: the accepted statuses and whether the payload was processed.\<close>

datatype DrainOp = StatusArrived u8 | Processed instant | Tick instant

fun drain_apply :: "DrainOp \<Rightarrow> StatusOnSetCleanupDrain \<Rightarrow> bool \<times> StatusOnSetCleanupDrain" where
  "drain_apply (StatusArrived st) d = (let (r, d') = note_status st d in (is_ok r, d'))"
| "drain_apply (Processed now) d = (let (r, d') = payload_processed now d in (is_ok r, d'))"
| "drain_apply (Tick now) d = (True, snd (timed_out now d))"

text \<open>\<open>drain_run ops d = Some d'\<close>: every operation succeeded, which is when the service goes on.\<close>

fun drain_run :: "DrainOp list \<Rightarrow> StatusOnSetCleanupDrain \<Rightarrow> StatusOnSetCleanupDrain option" where
  "drain_run [] d = Some d"
| "drain_run (op # ops) d = (case drain_apply op d of (True, d') \<Rightarrow> drain_run ops d' | (False, _) \<Rightarrow> None)"

definition statuses :: "DrainOp list \<Rightarrow> nat" where
  "statuses ops = length (filter (\<lambda>op. case op of StatusArrived _ \<Rightarrow> True | _ \<Rightarrow> False) ops)"

definition processings :: "DrainOp list \<Rightarrow> nat" where
  "processings ops = length (filter (\<lambda>op. case op of Processed _ \<Rightarrow> True | _ \<Rightarrow> False) ops)"

definition phase_counts :: "StatusOnSetCleanupPhase \<Rightarrow> nat \<Rightarrow> nat \<Rightarrow> bool" where
  "phase_counts ph st pr \<longleftrightarrow>
     (case ph of AwaitingInitial \<Rightarrow> st = 0 \<and> pr = 0
      | Receiving n \<Rightarrow> st = n + 1 \<and> n \<le> 2 \<and> pr = 0
      | AwaitingTrailing n _ \<Rightarrow> st = n + 1 \<and> n < 2 \<and> pr = 1
      | Drained \<Rightarrow> st = 3 \<and> pr = 1
      | TimedOut \<Rightarrow> st < 3 \<and> pr = 1)"

lemma phase_counts_apply:
  assumes "phase_counts (cd_phase d) a b" and "drain_apply op d = (True, d')"
  shows "phase_counts (cd_phase d') (a + statuses [op]) (b + processings [op])"
  using assms
  by (cases op; cases "cd_phase d")
     (auto simp: note_status_def payload_processed_def timed_out_def phase_counts_def statuses_def
       processings_def Let_def split: if_splits)

lemma phase_counts_run:
  "drain_run ops d = Some d' \<Longrightarrow> phase_counts (cd_phase d) a b \<Longrightarrow>
     phase_counts (cd_phase d') (a + statuses ops) (b + processings ops)"
proof (induction ops arbitrary: d a b)
  case (Cons op ops)
  then obtain e where e: "drain_apply op d = (True, e)" "drain_run ops e = Some d'"
    by (auto split: prod.splits bool.splits)
  have "phase_counts (cd_phase e) (a + statuses [op]) (b + processings [op])"
    by (rule phase_counts_apply [OF Cons.prems(2) e(1)])
  from Cons.IH [OF e(2) this] show ?case
    by (simp add: statuses_def processings_def split: DrainOp.splits)
qed (simp add: statuses_def processings_def)

lemma observe_lifecycle_result:
  "observe_lifecycle env s = (r, s') \<Longrightarrow>
     (case r of Inr _ \<Rightarrow> \<not> currently_owned s'
      | Inl _ \<Rightarrow> br_state s' = BrPoisoned \<or> br_state s' = BrShuttingDown)"
proof (induction env arbitrary: s)
  case Nil
  then show ?case
    by (cases "br_state s") (auto simp: observe_lifecycle.simps [of "[]" s] currently_owned_def)
next
  case (Cons other env)
  then show ?case
    by (cases "br_state s")
       (auto simp: observe_lifecycle.simps [of "other # env" s] currently_owned_def split: if_splits)
qed

lemma begin_shutdown_alone:
  "begin_shutdown [] s =
     (if \<not> currently_owned s then (Inr (), s\<lparr> br_state := BrShuttingDown \<rparr>)
      else if br_state s = BrPoisoned \<or> br_state s = BrShuttingDown then (Inl (br_state s), s)
      else (Inl (br_state s), s\<lparr> br_state := BrPoisoned \<rparr>))"
  by (cases "br_state s") (simp_all add: begin_shutdown.simps [of "[]" s] currently_owned_def Let_def)

text \<open>
  The second load of \<open>begin_shutdown\<close>: when another thread's receive is accepted between the two
  loads, the claim succeeds although the receive is in flight.
\<close>

lemma begin_shutdown_race:
  "br_state s = BrIdle \<Longrightarrow>
     begin_shutdown [(Some BrInFlight, None)] s = (Inr (), s\<lparr> br_state := BrShuttingDown \<rparr>)"
  by (simp add: begin_shutdown.simps [of "[(Some BrInFlight, None)]" s] Let_def interfere_def)

text \<open>Without a store between the two loads the claim is never made over an owned session.\<close>

fun shutdown_states :: "(BulkReceiveState option \<times> BulkReceiveState option) list \<Rightarrow> BulkReceiveSession \<Rightarrow> BulkReceiveState set"
  where
  "shutdown_states [] s = {br_state s}"
| "shutdown_states ((a, b) # env) s =
     insert (br_state s) (shutdown_states env (interfere b (interfere a s)))"

lemma begin_shutdown_guarded:
  "begin_shutdown env s = (Inr (), s') \<Longrightarrow> \<forall>(a, b) \<in> set env. a = None \<Longrightarrow>
     br_state s' = BrShuttingDown \<and> (BrIdle \<in> shutdown_states env s \<or> BrAborted \<in> shutdown_states env s)"
proof (induction env arbitrary: s)
  case Nil
  then show ?case by (auto simp: begin_shutdown_alone currently_owned_def split: if_splits)
next
  case (Cons ab env)
  obtain b where ab: "ab = (None, b)" using Cons.prems(2) by (cases ab) auto
  have i: "interfere None s = s" by (simp add: interfere_def)
  show ?case
  proof (cases "br_state s = BrIdle \<or> br_state s = BrAborted")
    case True
    with Cons show ?thesis
      by (auto simp: begin_shutdown.simps [of "(None, b) # env" s] ab i Let_def split: if_splits)
  next
    case False
    with Cons show ?thesis
      by (auto simp: begin_shutdown.simps [of "(None, b) # env" s] ab i Let_def split: if_splits)
  qed
qed

datatype ShutdownOp = Publish | Request | ClearTarget

fun shutdown_run :: "ShutdownOp list \<Rightarrow> GadgetShutdownState \<Rightarrow> nat \<Rightarrow> GadgetShutdownState \<times> nat" where
  "shutdown_run [] st n = (st, n)"
| "shutdown_run (Publish # ops) st n =
     (case publish (Ok ()) st of (_, st', hit) \<Rightarrow> shutdown_run ops st' (n + of_bool hit))"
| "shutdown_run (Request # ops) st n =
     (case request_unbind True (Ok ()) st of (_, st', hit) \<Rightarrow> shutdown_run ops st' (n + of_bool hit))"
| "shutdown_run (ClearTarget # ops) st n = shutdown_run ops (clear_target st) n"

text \<open>\<open>n\<close> unbinds after \<open>p\<close> publications; an unspent publication leaves the gadget bound.\<close>

definition shutdown_ok :: "GadgetShutdownState \<Rightarrow> nat \<Rightarrow> nat \<Rightarrow> bool" where
  "shutdown_ok st n p \<longleftrightarrow> (gs_requested st \<and> gs_target st \<longrightarrow> gs_unbound st)
     \<and> n \<le> p \<and> (gs_target st \<and> \<not> gs_unbound st \<longrightarrow> n < p)"

lemma shutdown_run_ok:
  "shutdown_run ops st n = (st', n') \<Longrightarrow> shutdown_ok st n p \<Longrightarrow>
     shutdown_ok st' n' (p + length (filter ((=) Publish) ops))
     \<and> (gs_requested st' \<longleftrightarrow> gs_requested st \<or> Request \<in> set ops)"
proof (induction ops st n arbitrary: p rule: shutdown_run.induct)
  case (2 ops st n)
  obtain r st1 hit where pub: "publish (Ok ()) st = (r, st1, hit)" by (cases "publish (Ok ()) st") auto
  have "shutdown_ok st1 (n + of_bool hit) (p + 1) \<and> gs_requested st1 = gs_requested st"
    using pub "2.prems"(2) by (auto simp: publish_def unbind_locked_def shutdown_ok_def Let_def split: if_splits)
  with "2.IH" [OF pub [symmetric] refl, of "p + 1"] pub "2.prems"(1) show ?case by auto
next
  case (3 ops st n)
  obtain r st1 hit where req: "request_unbind True (Ok ()) st = (r, st1, hit)"
    by (cases "request_unbind True (Ok ()) st") auto
  have "shutdown_ok st1 (n + of_bool hit) p \<and> gs_requested st1"
    using req "3.prems"(2) by (auto simp: request_unbind_def unbind_locked_def shutdown_ok_def split: if_splits)
  with "3.IH" [OF req [symmetric] refl] req "3.prems"(1) show ?case by auto
next
  case (4 ops st n)
  then show ?case by (auto simp: clear_target_def shutdown_ok_def)
qed simp

section \<open>Main properties\<close>

text \<open>A STATUS_ON_SET diagnostic transaction is drained exactly by one initial and two trailing
  status reads around one processed payload: whenever a run without an error ends drained, it has seen
  exactly three statuses and one payload, and a further status is refused.\<close>

theorem drained_exactly:
  assumes "drain_run ops (new_drain n) = Some d"
  shows "(is_drained d \<longrightarrow> statuses ops = 3 \<and> processings ops = 1 \<and> \<not> is_ok (fst (note_status st d)))
    \<and> statuses ops \<le> 3 \<and> processings ops \<le> 1"
proof -
  have "phase_counts (cd_phase (new_drain n)) 0 0" by (simp add: new_drain_def phase_counts_def)
  note counts = phase_counts_run [OF assms this]
  then show ?thesis
    by (cases "cd_phase d") (auto simp: phase_counts_def is_drained_def note_status_def)
qed

theorem drained_exactly_witness:
  "is_drained (\<lparr> cd_transaction = 1, cd_phase = Drained \<rparr>)
   \<and> drain_run [StatusArrived 0, StatusArrived 0, Processed 5, StatusArrived 0] (new_drain 1)
     = Some \<lparr> cd_transaction = 1, cd_phase = Drained \<rparr>
   \<and> \<not> is_ok (fst (note_status 0 \<lparr> cd_transaction = 1, cd_phase = Drained \<rparr>))"
proof -
  have run: "drain_run [StatusArrived 0, StatusArrived 0, Processed 5, StatusArrived 0] (new_drain 1)
      = Some \<lparr> cd_transaction = 1, cd_phase = Drained \<rparr>"
    by (simp add: new_drain_def note_status_def payload_processed_def)
  from drained_exactly [OF run, of 0] run show ?thesis by (simp add: is_drained_def)
qed





end
