(* ===== verification/Gud_Wire.thy ===== *)
theory Gud_Wire
  imports Gud_Base
begin

text \<open>
  The GUD wire format of \<^verbatim>\<open>gadget/src/lib.rs\<close>: the protocol constants, the structures that
  cross EP0, their serialization and the mode-contract hash.

  The byte encoding itself is done by the crate \<^verbatim>\<open>ssmarshal\<close>, which is not part of the
  repository: its \<open>serialize\<close> and \<open>deserialize\<close> are arguments of the definitions that call
  them. What the code relies on is the locale \<open>ssmarshal\<close>: the documented fixed-width,
  little-endian, declaration-order layout, and an error when the buffer is too short. The
  locale is interpreted for every structure of the protocol on a complete codec of that
  layout.
\<close>

section \<open>Constants\<close>

abbreviation GUD_DISPLAY_MAGIC :: u32 where "GUD_DISPLAY_MAGIC \<equiv> 0x1d50614d"

abbreviation GUD_REQ_GET_STATUS :: u8 where "GUD_REQ_GET_STATUS \<equiv> 0x00"
abbreviation GUD_REQ_GET_DESCRIPTOR :: u8 where "GUD_REQ_GET_DESCRIPTOR \<equiv> 0x01"
abbreviation GUD_REQ_GET_FORMATS :: u8 where "GUD_REQ_GET_FORMATS \<equiv> 0x40"
abbreviation GUD_REQ_GET_PROPERTIES :: u8 where "GUD_REQ_GET_PROPERTIES \<equiv> 0x41"
abbreviation GUD_REQ_GET_CONNECTORS :: u8 where "GUD_REQ_GET_CONNECTORS \<equiv> 0x50"
abbreviation GUD_REQ_GET_CONNECTOR_PROPERTIES :: u8 where "GUD_REQ_GET_CONNECTOR_PROPERTIES \<equiv> 0x51"
abbreviation GUD_REQ_GET_CONNECTOR_STATUS :: u8 where "GUD_REQ_GET_CONNECTOR_STATUS \<equiv> 0x54"
abbreviation GUD_REQ_GET_CONNECTOR_MODES :: u8 where "GUD_REQ_GET_CONNECTOR_MODES \<equiv> 0x55"
abbreviation GUD_REQ_GET_CONNECTOR_EDID :: u8 where "GUD_REQ_GET_CONNECTOR_EDID \<equiv> 0x56"

abbreviation GUD_REQ_SET_CONNECTOR_FORCE_DETECT :: u8 where "GUD_REQ_SET_CONNECTOR_FORCE_DETECT \<equiv> 0x53"
abbreviation GUD_REQ_SET_BUFFER :: u8 where "GUD_REQ_SET_BUFFER \<equiv> 0x60"
abbreviation GUD_REQ_SET_STATE_CHECK :: u8 where "GUD_REQ_SET_STATE_CHECK \<equiv> 0x61"
abbreviation GUD_REQ_SET_STATE_COMMIT :: u8 where "GUD_REQ_SET_STATE_COMMIT \<equiv> 0x62"
abbreviation GUD_REQ_SET_CONTROLLER_ENABLE :: u8 where "GUD_REQ_SET_CONTROLLER_ENABLE \<equiv> 0x63"
abbreviation GUD_REQ_SET_DISPLAY_ENABLE :: u8 where "GUD_REQ_SET_DISPLAY_ENABLE \<equiv> 0x64"

abbreviation GUD_COMPRESSION_LZ4 :: u8 where "GUD_COMPRESSION_LZ4 \<equiv> 0x01"
abbreviation GUD_CONNECTOR_STATUS_CONNECTED :: u8 where "GUD_CONNECTOR_STATUS_CONNECTED \<equiv> 0x01"
abbreviation GUD_CONNECTOR_STATUS_CHANGED :: u8 where "GUD_CONNECTOR_STATUS_CHANGED \<equiv> 0x80"

abbreviation GUD_DISPLAY_FLAG_STATUS_ON_SET :: u32 where "GUD_DISPLAY_FLAG_STATUS_ON_SET \<equiv> 1"
abbreviation GUD_DISPLAY_MODE_FLAG_PREFERRED :: u32 where "GUD_DISPLAY_MODE_FLAG_PREFERRED \<equiv> 0x400"
abbreviation GUD_DISPLAY_MODE_FLAG_USER_MASK :: u32 where "GUD_DISPLAY_MODE_FLAG_USER_MASK \<equiv> 0x33ff"
abbreviation GUD_PIXEL_FORMAT_RGB565 :: u8 where "GUD_PIXEL_FORMAT_RGB565 \<equiv> 0x40"
abbreviation GUD_PIXEL_FORMAT_RGB888 :: u8 where "GUD_PIXEL_FORMAT_RGB888 \<equiv> 0x50"
abbreviation GUD_PIXEL_FORMAT_XRGB8888 :: u8 where "GUD_PIXEL_FORMAT_XRGB8888 \<equiv> 0x80"
abbreviation GUD_CONNECTOR_TYPE_PANEL :: u8 where "GUD_CONNECTOR_TYPE_PANEL \<equiv> 0"

abbreviation GUD_STATUS_OK :: u8 where "GUD_STATUS_OK \<equiv> 0"
abbreviation GUD_STATUS_BUSY :: u8 where "GUD_STATUS_BUSY \<equiv> 1"
abbreviation GUD_STATUS_REQUEST_NOT_SUPPORTED :: u8 where "GUD_STATUS_REQUEST_NOT_SUPPORTED \<equiv> 2"
abbreviation GUD_STATUS_INVALID_PARAMETER :: u8 where "GUD_STATUS_INVALID_PARAMETER \<equiv> 4"
abbreviation GUD_STATUS_ERROR :: u8 where "GUD_STATUS_ERROR \<equiv> 5"

abbreviation GUD_STATE_CHECK_HEADER_LEN :: usize where "GUD_STATE_CHECK_HEADER_LEN \<equiv> 26"
abbreviation GUD_PROPERTY_SIZE :: usize where "GUD_PROPERTY_SIZE \<equiv> 10"

section \<open>Wire structures\<close>

record DisplayMode =
  dm_clock :: u32
  dm_hdisplay :: u16
  dm_hsync_start :: u16
  dm_hsync_end :: u16
  dm_htotal :: u16
  dm_vdisplay :: u16
  dm_vsync_start :: u16
  dm_vsync_end :: u16
  dm_vtotal :: u16
  dm_flags :: u32

record StateCheckHeader =
  sch_mode :: DisplayMode
  sch_format :: u8
  sch_connector :: u8

record SetBuffer =
  sb_x :: u32
  sb_y :: u32
  sb_width :: u32
  sb_height :: u32
  sb_length :: u32
  sb_compression :: u8
  sb_compressed_length :: u32

record ConnectorDescriptor =
  cd_connector_type :: u8
  cd_flags :: u32

record DisplayDescriptor =
  dd_magic :: u32
  dd_version :: u8
  dd_flags :: u32
  dd_compression :: u8
  dd_max_buffer_size :: u32
  dd_min_width :: u32
  dd_max_width :: u32
  dd_min_height :: u32
  dd_max_height :: u32

section \<open>The serializer interface\<close>

text \<open>
  A serializer is given the destination slice and returns it with the encoding at its
  front and the number of bytes written; a deserializer returns the value and the number
  of bytes consumed.
\<close>

type_synonym 'a serializer = "bytes \<Rightarrow> 'a \<Rightarrow> (bytes \<times> usize) result"
type_synonym 'a deserializer = "bytes \<Rightarrow> ('a \<times> usize) result"

text \<open>
  \<open>serialize_all\<close> is the loop shared by \<open>serialize_connector_descriptors\<close> and
  \<open>serialize_display_modes\<close>: \<^verbatim>\<open>pos += ssmarshal::serialize(&mut buf[pos..], v)?\<close>.
\<close>

fun serialize_all :: "'a serializer \<Rightarrow> 'a list \<Rightarrow> bytes \<Rightarrow> usize \<Rightarrow> bytes result" where
  "serialize_all ser [] buf pos = Ok buf"
| "serialize_all ser (v # vs) buf pos =
     (if pos \<le> length buf then
        (case ser (drop pos buf) v of
           Inl e \<Rightarrow> Inl e
         | Inr (tail, n) \<Rightarrow> serialize_all ser vs (take pos buf @ tail) (pos + n))
      else panic ''range start index out of range'')"

locale ssmarshal =
  fixes enc :: "'a \<Rightarrow> bytes" and dec :: "bytes \<Rightarrow> 'a" and width :: nat
    and ser :: "'a serializer" and de :: "'a deserializer"
  assumes enc_width: "length (enc v) = width"
    and dec_enc: "dec (enc v) = v"
    and ser_fits: "width \<le> length buf \<Longrightarrow> ser buf v = Inr (blit buf 0 (enc v), width)"
    and ser_short: "length buf < width \<Longrightarrow> \<exists>m. ser buf v = Inl (Error m)"
    and de_fits: "width \<le> length bs \<Longrightarrow> de bs = Inr (dec (take width bs), width)"
    and de_short: "length bs < width \<Longrightarrow> \<exists>m. de bs = Inl (Error m)"
begin

lemma de_enc: "de (enc v @ rest) = Inr (v, width)"
  by (simp add: de_fits enc_width dec_enc)

lemma de_cases:
  obtains (short) m where "length bs < width" "de bs = Inl (Error m)"
  | (fits) "width \<le> length bs" "de bs = Inr (dec (take width bs), width)"
  using de_fits [of bs] de_short [of bs] by (cases "length bs < width") auto

lemma de_no_panic: "\<not> panics (de bs)"
  by (cases rule: de_cases [of bs]) simp_all

lemma ser_exact: "length buf = width \<Longrightarrow> ser buf v = Inr (enc v, width)"
  by (simp add: ser_fits blit_def enc_width)

lemma serialize_all_exact:
  "length buf = pos + width * length vs \<Longrightarrow>
    serialize_all ser vs buf pos = Inr (take pos buf @ concat (map enc vs))"
proof (induction vs arbitrary: buf pos)
  case Nil
  then show ?case by simp
next
  case (Cons v vs)
  let ?buf = "take pos buf @ blit (drop pos buf) 0 (enc v)"
  from Cons.prems have fit: "width \<le> length (drop pos buf)" and pos: "pos \<le> length buf" by simp_all
  from Cons.prems have "length ?buf = (pos + width) + width * length vs"
    by (simp add: enc_width)
  from Cons.IH [OF this]
  have "serialize_all ser vs ?buf (pos + width) = Inr (take (pos + width) ?buf @ concat (map enc vs))" .
  moreover have "take (pos + width) ?buf = take pos buf @ enc v"
    using Cons.prems by (simp add: blit_def enc_width)
  ultimately show ?case using pos by (simp add: ser_fits [OF fit])
qed

lemma concat_enc_nth:
  "i < length vs \<Longrightarrow> de (drop (width * i) (concat (map enc vs))) = Inr (vs ! i, width)"
proof (induction vs arbitrary: i)
  case Nil
  then show ?case by simp
next
  case (Cons v vs)
  show ?case
  proof (cases i)
    case 0
    then show ?thesis by (simp add: de_enc)
  next
    case (Suc j)
    with Cons.prems have "de (drop (width * j) (concat (map enc vs))) = Inr (vs ! j, width)"
      by (intro Cons.IH) simp
    then show ?thesis by (simp add: Suc enc_width)
  qed
qed

end

section \<open>The documented layout\<close>

text \<open>The codec of the documented layout: fields in declaration order, little-endian, no padding.\<close>

definition layout_serialize :: "('a \<Rightarrow> bytes) \<Rightarrow> nat \<Rightarrow> 'a serializer" where
  "layout_serialize enc width buf v =
     (if width \<le> length buf then Ok (blit buf 0 (enc v), width) else Err ''end of stream'')"

definition layout_deserialize :: "(bytes \<Rightarrow> 'a) \<Rightarrow> nat \<Rightarrow> 'a deserializer" where
  "layout_deserialize dec width bs =
     (if width \<le> length bs then Ok (dec (take width bs), width) else Err ''end of stream'')"

lemma layout_ssmarshal:
  assumes "\<And>v. length (enc v) = width" and "\<And>v. dec (enc v) = v"
  shows "ssmarshal enc dec width (layout_serialize enc width) (layout_deserialize dec width)"
  by unfold_locales (simp_all add: assms layout_serialize_def layout_deserialize_def)

text \<open>\<open>field k n bs\<close> reads the \<open>n\<close>-byte integer at offset \<open>k\<close>.\<close>

definition field :: "nat \<Rightarrow> nat \<Rightarrow> bytes \<Rightarrow> 'a::len word" where
  "field k n bs = from_le_bytes (take n (drop k bs))"

definition enc_DisplayMode :: "DisplayMode \<Rightarrow> bytes" where
  "enc_DisplayMode m =
     to_le_bytes 4 (dm_clock m) @ to_le_bytes 2 (dm_hdisplay m) @ to_le_bytes 2 (dm_hsync_start m)
     @ to_le_bytes 2 (dm_hsync_end m) @ to_le_bytes 2 (dm_htotal m) @ to_le_bytes 2 (dm_vdisplay m)
     @ to_le_bytes 2 (dm_vsync_start m) @ to_le_bytes 2 (dm_vsync_end m) @ to_le_bytes 2 (dm_vtotal m)
     @ to_le_bytes 4 (dm_flags m)"

definition dec_DisplayMode :: "bytes \<Rightarrow> DisplayMode" where
  "dec_DisplayMode bs =
     \<lparr> dm_clock = field 0 4 bs, dm_hdisplay = field 4 2 bs, dm_hsync_start = field 6 2 bs,
       dm_hsync_end = field 8 2 bs, dm_htotal = field 10 2 bs, dm_vdisplay = field 12 2 bs,
       dm_vsync_start = field 14 2 bs, dm_vsync_end = field 16 2 bs, dm_vtotal = field 18 2 bs,
       dm_flags = field 20 4 bs \<rparr>"

definition enc_StateCheckHeader :: "StateCheckHeader \<Rightarrow> bytes" where
  "enc_StateCheckHeader h = enc_DisplayMode (sch_mode h) @ [sch_format h, sch_connector h]"

definition dec_StateCheckHeader :: "bytes \<Rightarrow> StateCheckHeader" where
  "dec_StateCheckHeader bs =
     \<lparr> sch_mode = dec_DisplayMode (take 24 bs), sch_format = bs ! 24, sch_connector = bs ! 25 \<rparr>"

definition enc_SetBuffer :: "SetBuffer \<Rightarrow> bytes" where
  "enc_SetBuffer b =
     to_le_bytes 4 (sb_x b) @ to_le_bytes 4 (sb_y b) @ to_le_bytes 4 (sb_width b)
     @ to_le_bytes 4 (sb_height b) @ to_le_bytes 4 (sb_length b) @ [sb_compression b]
     @ to_le_bytes 4 (sb_compressed_length b)"

definition dec_SetBuffer :: "bytes \<Rightarrow> SetBuffer" where
  "dec_SetBuffer bs =
     \<lparr> sb_x = field 0 4 bs, sb_y = field 4 4 bs, sb_width = field 8 4 bs, sb_height = field 12 4 bs,
       sb_length = field 16 4 bs, sb_compression = bs ! 20, sb_compressed_length = field 21 4 bs \<rparr>"

definition enc_ConnectorDescriptor :: "ConnectorDescriptor \<Rightarrow> bytes" where
  "enc_ConnectorDescriptor c = [cd_connector_type c] @ to_le_bytes 4 (cd_flags c)"

definition dec_ConnectorDescriptor :: "bytes \<Rightarrow> ConnectorDescriptor" where
  "dec_ConnectorDescriptor bs = \<lparr> cd_connector_type = bs ! 0, cd_flags = field 1 4 bs \<rparr>"

definition enc_DisplayDescriptor :: "DisplayDescriptor \<Rightarrow> bytes" where
  "enc_DisplayDescriptor d =
     to_le_bytes 4 (dd_magic d) @ [dd_version d] @ to_le_bytes 4 (dd_flags d) @ [dd_compression d]
     @ to_le_bytes 4 (dd_max_buffer_size d) @ to_le_bytes 4 (dd_min_width d)
     @ to_le_bytes 4 (dd_max_width d) @ to_le_bytes 4 (dd_min_height d) @ to_le_bytes 4 (dd_max_height d)"

definition dec_DisplayDescriptor :: "bytes \<Rightarrow> DisplayDescriptor" where
  "dec_DisplayDescriptor bs =
     \<lparr> dd_magic = field 0 4 bs, dd_version = bs ! 4, dd_flags = field 5 4 bs,
       dd_compression = bs ! 9, dd_max_buffer_size = field 10 4 bs, dd_min_width = field 14 4 bs,
       dd_max_width = field 18 4 bs, dd_min_height = field 22 4 bs, dd_max_height = field 26 4 bs \<rparr>"

lemmas codec_defs = field_def enc_DisplayMode_def dec_DisplayMode_def enc_StateCheckHeader_def
  dec_StateCheckHeader_def enc_SetBuffer_def dec_SetBuffer_def enc_ConnectorDescriptor_def
  dec_ConnectorDescriptor_def enc_DisplayDescriptor_def dec_DisplayDescriptor_def

lemma length_enc [simp]:
  "length (enc_DisplayMode m) = 24"
  "length (enc_StateCheckHeader h) = 26"
  "length (enc_SetBuffer b) = 25"
  "length (enc_ConnectorDescriptor c) = 5"
  "length (enc_DisplayDescriptor d) = 30"
  by (simp_all add: codec_defs)

lemma dec_enc_DisplayMode [simp]: "dec_DisplayMode (enc_DisplayMode m) = m"
  by (simp add: enc_DisplayMode_def dec_DisplayMode_def field_def)

lemma dec_enc_StateCheckHeader [simp]: "dec_StateCheckHeader (enc_StateCheckHeader h) = h"
  by (simp add: enc_StateCheckHeader_def dec_StateCheckHeader_def nth_append)

lemma dec_enc_SetBuffer [simp]: "dec_SetBuffer (enc_SetBuffer b) = b"
  by (simp add: enc_SetBuffer_def dec_SetBuffer_def field_def nth_append)

lemma dec_enc_ConnectorDescriptor [simp]: "dec_ConnectorDescriptor (enc_ConnectorDescriptor c) = c"
  by (simp add: enc_ConnectorDescriptor_def dec_ConnectorDescriptor_def field_def)

lemma dec_enc_DisplayDescriptor [simp]: "dec_DisplayDescriptor (enc_DisplayDescriptor d) = d"
  by (simp add: enc_DisplayDescriptor_def dec_DisplayDescriptor_def field_def nth_append)

abbreviation ser_DisplayMode :: "DisplayMode serializer" where
  "ser_DisplayMode \<equiv> layout_serialize enc_DisplayMode 24"
abbreviation de_DisplayMode :: "DisplayMode deserializer" where
  "de_DisplayMode \<equiv> layout_deserialize dec_DisplayMode 24"
abbreviation de_StateCheckHeader :: "StateCheckHeader deserializer" where
  "de_StateCheckHeader \<equiv> layout_deserialize dec_StateCheckHeader 26"
abbreviation de_SetBuffer :: "SetBuffer deserializer" where
  "de_SetBuffer \<equiv> layout_deserialize dec_SetBuffer 25"
abbreviation ser_ConnectorDescriptor :: "ConnectorDescriptor serializer" where
  "ser_ConnectorDescriptor \<equiv> layout_serialize enc_ConnectorDescriptor 5"
abbreviation ser_DisplayDescriptor :: "DisplayDescriptor serializer" where
  "ser_DisplayDescriptor \<equiv> layout_serialize enc_DisplayDescriptor 30"

interpretation display_mode: ssmarshal enc_DisplayMode dec_DisplayMode 24 ser_DisplayMode de_DisplayMode
  by (rule layout_ssmarshal) simp_all

interpretation state_check_header: ssmarshal enc_StateCheckHeader dec_StateCheckHeader 26
    "layout_serialize enc_StateCheckHeader 26" de_StateCheckHeader
  by (rule layout_ssmarshal) simp_all

interpretation set_buffer: ssmarshal enc_SetBuffer dec_SetBuffer 25
    "layout_serialize enc_SetBuffer 25" de_SetBuffer
  by (rule layout_ssmarshal) simp_all

interpretation connector_descriptor: ssmarshal enc_ConnectorDescriptor dec_ConnectorDescriptor 5
    ser_ConnectorDescriptor "layout_deserialize dec_ConnectorDescriptor 5"
  by (rule layout_ssmarshal) simp_all

interpretation display_descriptor: ssmarshal enc_DisplayDescriptor dec_DisplayDescriptor 30
    ser_DisplayDescriptor "layout_deserialize dec_DisplayDescriptor 30"
  by (rule layout_ssmarshal) simp_all

section \<open>Display descriptor\<close>

definition build_display_descriptor_with_flags ::
  "u32 \<Rightarrow> u32 \<Rightarrow> u32 \<Rightarrow> u32 \<Rightarrow> u8 \<Rightarrow> u32 option \<Rightarrow> u32 \<Rightarrow> DisplayDescriptor result" where
  "build_display_descriptor_with_flags min_width min_height max_width max_height compression
      max_buffer_size flags =
     (case Option.bind (checked_mul max_width max_height) (\<lambda>pixels. checked_mul pixels 4) of
        None \<Rightarrow> Err ''natural display descriptor maximum buffer size overflowed u32''
      | Some natural_max_buffer_size \<Rightarrow>
          (let size = (case max_buffer_size of None \<Rightarrow> natural_max_buffer_size | Some n \<Rightarrow> n) in
           if \<not> size > 0 then Err ''display descriptor maximum buffer size must be greater than zero''
           else if \<not> size \<le> natural_max_buffer_size
           then Err ''display descriptor maximum buffer size exceeds natural maximum''
           else Ok \<lparr> dd_magic = GUD_DISPLAY_MAGIC, dd_version = 1, dd_flags = flags,
                     dd_compression = compression, dd_max_buffer_size = size,
                     dd_min_width = min_width, dd_max_width = max_width,
                     dd_min_height = min_height, dd_max_height = max_height \<rparr>))"

definition serialize_display_descriptor ::
  "DisplayDescriptor serializer \<Rightarrow> DisplayDescriptor \<Rightarrow> bytes result" where
  "serialize_display_descriptor ser descriptor =
     (case ser (replicate 30 0) descriptor of
        Inl e \<Rightarrow> Inl e
      | Inr (buf, _) \<Rightarrow> Ok buf)"

definition serialize_connector_descriptors ::
  "ConnectorDescriptor serializer \<Rightarrow> ConnectorDescriptor list \<Rightarrow> bytes result" where
  "serialize_connector_descriptors ser connectors =
     serialize_all ser connectors (replicate (5 * length connectors) 0) 0"

section \<open>Display modes\<close>

text \<open>The flags sent to the host: the user-visible ones and the preferred bit.\<close>

definition normalize_mode :: "DisplayMode \<Rightarrow> DisplayMode" where
  "normalize_mode mode =
     mode\<lparr> dm_flags := (dm_flags mode AND GUD_DISPLAY_MODE_FLAG_USER_MASK)
                        OR (dm_flags mode AND GUD_DISPLAY_MODE_FLAG_PREFERRED) \<rparr>"

definition serialize_display_modes ::
  "DisplayMode serializer \<Rightarrow> DisplayMode list \<Rightarrow> bytes result" where
  "serialize_display_modes ser modes =
     serialize_all ser (map normalize_mode modes) (replicate (24 * length modes) 0) 0"

definition modes_have_same_user_timing :: "DisplayMode \<Rightarrow> DisplayMode \<Rightarrow> bool" where
  "modes_have_same_user_timing left right \<longleftrightarrow>
     dm_clock left = dm_clock right
     \<and> dm_hdisplay left = dm_hdisplay right
     \<and> dm_hsync_start left = dm_hsync_start right
     \<and> dm_hsync_end left = dm_hsync_end right
     \<and> dm_htotal left = dm_htotal right
     \<and> dm_vdisplay left = dm_vdisplay right
     \<and> dm_vsync_start left = dm_vsync_start right
     \<and> dm_vsync_end left = dm_vsync_end right
     \<and> dm_vtotal left = dm_vtotal right
     \<and> dm_flags left AND GUD_DISPLAY_MODE_FLAG_USER_MASK
       = dm_flags right AND GUD_DISPLAY_MODE_FLAG_USER_MASK"

section \<open>Mode contract identifier\<close>

text \<open>The FNV-1a hash of the wire-visible state; multiplication wraps at 64 bits.\<close>

definition fnv_add :: "u64 \<Rightarrow> bytes \<Rightarrow> u64" where
  "fnv_add hash bs = foldl (\<lambda>h byte. (h XOR ucast byte) * 1099511628211) hash bs"

definition mode_contract_id :: "DisplayMode \<Rightarrow> u8 \<Rightarrow> u8 \<Rightarrow> u64" where
  "mode_contract_id mode format connector =
     (let h = 14695981039346656037;
          h = fnv_add h [1, connector, format];
          h = fnv_add h (to_le_bytes 4 (dm_clock mode));
          h = fnv_add h (to_le_bytes 2 (dm_hdisplay mode));
          h = fnv_add h (to_le_bytes 2 (dm_hsync_start mode));
          h = fnv_add h (to_le_bytes 2 (dm_hsync_end mode));
          h = fnv_add h (to_le_bytes 2 (dm_htotal mode));
          h = fnv_add h (to_le_bytes 2 (dm_vdisplay mode));
          h = fnv_add h (to_le_bytes 2 (dm_vsync_start mode));
          h = fnv_add h (to_le_bytes 2 (dm_vsync_end mode));
          h = fnv_add h (to_le_bytes 2 (dm_vtotal mode))
      in fnv_add h (to_le_bytes 4 (dm_flags mode AND GUD_DISPLAY_MODE_FLAG_USER_MASK)))"

section \<open>Properties of the wire format\<close>

lemma same_user_timing_refl [simp]: "modes_have_same_user_timing m m"
  by (simp add: modes_have_same_user_timing_def)

lemma same_user_timing_sym:
  "modes_have_same_user_timing m n \<Longrightarrow> modes_have_same_user_timing n m"
  by (simp add: modes_have_same_user_timing_def)

lemma same_user_timing_trans:
  "modes_have_same_user_timing k m \<Longrightarrow> modes_have_same_user_timing m n \<Longrightarrow>
    modes_have_same_user_timing k n"
  by (simp add: modes_have_same_user_timing_def)

lemma flags_normalized_user:
  "((f AND GUD_DISPLAY_MODE_FLAG_USER_MASK) OR (f AND GUD_DISPLAY_MODE_FLAG_PREFERRED))
      AND GUD_DISPLAY_MODE_FLAG_USER_MASK = f AND GUD_DISPLAY_MODE_FLAG_USER_MASK"
proof -
  have "(GUD_DISPLAY_MODE_FLAG_PREFERRED AND GUD_DISPLAY_MODE_FLAG_USER_MASK :: u32) = 0" by simp
  then show ?thesis
    by (simp add: bit.conj_disj_distrib2 and.assoc)
qed

lemma flags_normalized_preferred:
  "dm_flags (normalize_mode m) AND GUD_DISPLAY_MODE_FLAG_PREFERRED
     = dm_flags m AND GUD_DISPLAY_MODE_FLAG_PREFERRED"
proof -
  have "(GUD_DISPLAY_MODE_FLAG_USER_MASK AND GUD_DISPLAY_MODE_FLAG_PREFERRED :: u32) = 0" by simp
  then show ?thesis
    by (simp add: normalize_mode_def bit.conj_disj_distrib2 and.assoc)
qed

lemma normalize_same_user_timing: "modes_have_same_user_timing (normalize_mode m) m"
  by (simp add: modes_have_same_user_timing_def normalize_mode_def flags_normalized_user)

lemma build_display_descriptor_Ok:
  "build_display_descriptor_with_flags mnw mnh mxw mxh c mbs fl = Inr d \<longleftrightarrow>
     (\<exists>natural size. unat mxw * unat mxh * 4 < 2 ^ 32 \<and> natural = mxw * mxh * 4
        \<and> size = (case mbs of None \<Rightarrow> natural | Some n \<Rightarrow> n) \<and> 0 < size \<and> size \<le> natural
        \<and> d = \<lparr> dd_magic = GUD_DISPLAY_MAGIC, dd_version = 1, dd_flags = fl, dd_compression = c,
                dd_max_buffer_size = size, dd_min_width = mnw, dd_max_width = mxw,
                dd_min_height = mnh, dd_max_height = mxh \<rparr>)"
    (is "?lhs \<longleftrightarrow> ?rhs")
proof -
  have mul: "Option.bind (checked_mul mxw mxh) (\<lambda>p. checked_mul p 4) =
      (if unat mxw * unat mxh * 4 < 2 ^ 32 then Some (mxw * mxh * 4) else None)"
    by (auto simp: checked_mul_def unat_word_ariths mult.commute)
  show ?thesis
    unfolding build_display_descriptor_with_flags_def mul
    by (auto simp: Let_def not_le split: if_splits)
qed

section \<open>Distinguishing states by their contract identifier\<close>

text \<open>
  Multiplication by the FNV prime is injective, and two words that differ in their last byte
  only are mapped to words that differ by at least the prime, so one more byte can not make
  them meet again.
\<close>

lemma fnv_mult_inj: "(a :: u64) * 1099511628211 = b * 1099511628211 \<Longrightarrow> a = b"
proof -
  assume eq: "a * 1099511628211 = b * 1099511628211"
  have inv: "(1099511628211 :: u64) * 14886173955864302971 = 1" by simp
  have "a = a * 1099511628211 * 14886173955864302971" by (simp only: mult.assoc inv mult_1_right)
  also have "\<dots> = b" by (simp only: eq) (simp only: mult.assoc inv mult_1_right)
  finally show ?thesis .
qed

lemma fnv_add_Nil [simp]: "fnv_add h [] = h"
  by (simp add: fnv_add_def)

lemma fnv_add_Cons [simp]: "fnv_add h (b # bs) = fnv_add ((h XOR ucast b) * 1099511628211) bs"
  by (simp add: fnv_add_def)

lemma xor_right_cancel: "(a :: 'a::len word) XOR c = b XOR c \<longleftrightarrow> a = b"
proof
  assume "a XOR c = b XOR c"
  then have "(a XOR c) XOR c = (b XOR c) XOR c" by simp
  then show "a = b" by (simp add: xor.assoc)
qed simp

lemma fnv_add_inj: "fnv_add h bs = fnv_add h' bs \<longleftrightarrow> h = h'"
proof (induction bs arbitrary: h h')
  case (Cons b bs)
  have "(a :: u64) * 1099511628211 = b * 1099511628211 \<longleftrightarrow> a = b" for a b
    using fnv_mult_inj by blast
  then show ?case by (simp only: fnv_add_Cons Cons.IH xor_right_cancel)
qed simp

lemma low_byte_diff:
  fixes a b :: u64
  assumes "a XOR ucast (f :: u8) = b XOR ucast (f' :: u8)"
  shows "\<bar>uint a - uint b\<bar> < 256"
proof -
  have "drop_bit 8 (a XOR ucast f) = drop_bit 8 (b XOR ucast f')" using assms by simp
  moreover have "drop_bit 8 (ucast g :: u64) = 0" for g :: u8
    by (rule bit_word_eqI) (auto simp: bit_simps dest: bit_imp_le_length)
  ultimately have "drop_bit 8 a = drop_bit 8 b" by (simp add: drop_bit_xor)
  then have "uint (drop_bit 8 a) = uint (drop_bit 8 b)" by simp
  then have "uint a div 256 = uint b div 256"
    by (simp add: drop_bit_eq_div uint_div_distrib)
  then show ?thesis by presburger
qed

lemma u8_as_u64_eq: "(ucast (c :: u8) :: u64) = ucast d \<longleftrightarrow> c = d"
proof
  assume "(ucast c :: u64) = ucast d"
  then have "(ucast (ucast c :: u64) :: u8) = ucast (ucast d :: u64)" by simp
  moreover have "(ucast (ucast b :: u64) :: u8) = b" for b :: u8
    by (rule bit_word_eqI) (simp add: bit_simps)
  ultimately show "c = d" by simp
qed simp

lemma fnv_near_steps:
  fixes d t :: int
  assumes "d * 1099511628211 - t * 18446744073709551616 < 256"
    and "- 256 < d * 1099511628211 - t * 18446744073709551616" and "d < 256" and "- 256 < d"
  shows "d = 0"
proof -
  have "t < 1" using assms by linarith
  moreover have "- 1 < t" using assms by linarith
  ultimately show ?thesis using assms(1,2) by simp
qed

lemma fnv_near:
  fixes x y :: int
  assumes small: "\<bar>x - y\<bar> < 256"
    and near: "\<bar>x * 1099511628211 mod 2 ^ 64 - y * 1099511628211 mod 2 ^ 64\<bar> < 256"
  shows "x = y"
proof -
  define t where "t = x * 1099511628211 div 2 ^ 64 - y * 1099511628211 div 2 ^ 64"
  have "x * 1099511628211 mod 2 ^ 64 - y * 1099511628211 mod 2 ^ 64
      = (x - y) * 1099511628211 - t * 2 ^ 64"
    by (simp add: t_def minus_div_mult_eq_mod [symmetric] algebra_simps)
  with near have e: "\<bar>(x - y) * 1099511628211 - t * 2 ^ 64\<bar> < 256" by simp
  have "x - y = 0"
    by (rule fnv_near_steps [of "x - y" t]) (use e small in simp_all)
  then show ?thesis by simp
qed

lemma fnv_two_bytes:
  fixes h :: u64
  assumes "(h XOR ucast (c :: u8)) * 1099511628211 XOR ucast (f :: u8)
         = (h XOR ucast (c' :: u8)) * 1099511628211 XOR ucast (f' :: u8)"
  shows "c = c' \<and> f = f'"
proof -
  define x y where "x = h XOR ucast c" and "y = h XOR ucast c'"
  have xy: "x XOR ucast c = y XOR ucast c'" by (simp add: x_def y_def xor.assoc)
  have small: "\<bar>uint x - uint y\<bar> < 256" using low_byte_diff [OF xy] .
  have near: "\<bar>uint (x * 1099511628211) - uint (y * 1099511628211)\<bar> < 256"
    using low_byte_diff [of "x * 1099511628211" f "y * 1099511628211" f'] assms
    by (simp add: x_def y_def)
  have "uint (x * 1099511628211) = uint x * 1099511628211 mod 2 ^ 64"
    and "uint (y * 1099511628211) = uint y * 1099511628211 mod 2 ^ 64"
    by (simp_all add: uint_word_ariths)
  with near have "\<bar>uint x * 1099511628211 mod 2 ^ 64 - uint y * 1099511628211 mod 2 ^ 64\<bar> < 256"
    by simp
  with small have "uint x = uint y" by (rule fnv_near)
  then have "x = y" by (simp add: word_uint_eq_iff)
  then have "ucast c = (ucast c' :: u64)" "ucast f = (ucast f' :: u64)"
    using assms by (simp_all add: x_def y_def xor_right_cancel xor.commute [of h]
        xor.commute [of _ "ucast f"] xor.commute [of _ "ucast f'"])
  then show ?thesis by (simp only: u8_as_u64_eq)
qed

lemma mode_contract_id_timing:
  "modes_have_same_user_timing m n \<Longrightarrow> mode_contract_id m f c = mode_contract_id n f c"
  by (simp add: modes_have_same_user_timing_def mode_contract_id_def)

lemma mode_contract_id_inj:
  "mode_contract_id m f c = mode_contract_id m f' c' \<longleftrightarrow> f = f' \<and> c = c'"
proof
  assume "mode_contract_id m f c = mode_contract_id m f' c'"
  then have "fnv_add 14695981039346656037 [1, c, f] = fnv_add 14695981039346656037 [1, c', f']"
    by (simp only: mode_contract_id_def Let_def fnv_add_inj)
  then show "f = f' \<and> c = c'"
    by (simp only: fnv_add_Cons fnv_add_Nil) (use fnv_mult_inj fnv_two_bytes in blast)
qed simp

section \<open>Main properties\<close>

text \<open>C9. The mode list sent for GET_CONNECTOR_MODES is serialized for every list of modes, has
  24 bytes per mode, and the host reads back at offset \<open>24 * i\<close> the \<open>i\<close>-th advertised mode:
  same user-visible timing, and the preferred flag kept.\<close>

theorem serialize_display_modes_roundtrip:
  assumes "ssmarshal enc_DisplayMode dec_DisplayMode 24 ser de"
  shows "\<exists>buf. serialize_display_modes ser modes = Ok buf \<and> length buf = 24 * length modes
    \<and> (\<forall>i < length modes. \<exists>m. de (drop (24 * i) buf) = Ok (m, 24)
        \<and> modes_have_same_user_timing m (modes ! i)
        \<and> dm_flags m AND GUD_DISPLAY_MODE_FLAG_PREFERRED
          = dm_flags (modes ! i) AND GUD_DISPLAY_MODE_FLAG_PREFERRED)"
proof -
  let ?ms = "map normalize_mode modes"
  have "serialize_display_modes ser modes = Ok (concat (map enc_DisplayMode ?ms))"
    unfolding serialize_display_modes_def
    by (subst ssmarshal.serialize_all_exact [OF assms]) simp_all
  moreover have "length (concat (map enc_DisplayMode ?ms)) = 24 * length modes"
    by (induction modes) simp_all
  moreover have "de (drop (24 * i) (concat (map enc_DisplayMode ?ms))) = Ok (normalize_mode (modes ! i), 24)"
    if "i < length modes" for i
    using ssmarshal.concat_enc_nth [OF assms, of i ?ms] that by simp
  ultimately show ?thesis
    by (metis normalize_same_user_timing flags_normalized_preferred)
qed

theorem serialize_display_modes_roundtrip_witness:
  "\<exists>buf. serialize_display_modes ser_DisplayMode
        [\<lparr> dm_clock = 148500, dm_hdisplay = 1920, dm_hsync_start = 2008, dm_hsync_end = 2052,
           dm_htotal = 2200, dm_vdisplay = 1080, dm_vsync_start = 1084, dm_vsync_end = 1089,
           dm_vtotal = 1125, dm_flags = 0x805 \<rparr>] = Ok buf \<and> length buf = 24"
  using serialize_display_modes_roundtrip [OF display_mode.ssmarshal_axioms, of
      "[\<lparr> dm_clock = 148500, dm_hdisplay = 1920, dm_hsync_start = 2008, dm_hsync_end = 2052,
           dm_htotal = 2200, dm_vdisplay = 1080, dm_vsync_start = 1084, dm_vsync_end = 1089,
           dm_vtotal = 1125, dm_flags = 0x805 \<rparr>]"] by auto

text \<open>The contract identifier is a function of the wire-visible state, and it separates
  states: for two modes with the same user-visible timing the identifiers agree exactly when
  the pixel format and the connector agree.\<close>

theorem mode_contract_id_separates:
  assumes "modes_have_same_user_timing m n"
  shows "mode_contract_id m f c = mode_contract_id n f' c' \<longleftrightarrow> f = f' \<and> c = c'"
  using mode_contract_id_timing [OF assms] mode_contract_id_inj by metis

theorem mode_contract_id_separates_witness:
  "mode_contract_id
     \<lparr> dm_clock = 1, dm_hdisplay = 2, dm_hsync_start = 3, dm_hsync_end = 4, dm_htotal = 5,
       dm_vdisplay = 6, dm_vsync_start = 7, dm_vsync_end = 8, dm_vtotal = 9, dm_flags = 0 \<rparr> 0x40 0
   \<noteq> mode_contract_id
     \<lparr> dm_clock = 1, dm_hdisplay = 2, dm_hsync_start = 3, dm_hsync_end = 4, dm_htotal = 5,
       dm_vdisplay = 6, dm_vsync_start = 7, dm_vsync_end = 8, dm_vtotal = 9,
       dm_flags = GUD_DISPLAY_MODE_FLAG_PREFERRED \<rparr> 0x80 0"
  by (subst mode_contract_id_separates) (simp_all add: modes_have_same_user_timing_def)

end
