(* ===== verification/Gud_Protocol.thy ===== *)
theory Gud_Protocol
  imports Gud_Wire "HOL-Library.Sublist"
begin

text \<open>
  The GUD control plane of \<^verbatim>\<open>gadget/src/lib.rs\<close>: the process-wide statics as one record
  \<open>Globals\<close>, the STATUS_ON_SET admission guard, the status latch, the state check / commit /
  enable protocol, the validation of SET_BUFFER and the EP0 event handler \<open>event\<close>.

  Each Rust static behind an atomic or a mutex is a field; every function takes and returns
  the record. The EP0 transfers (\<open>CtrlSender::send\<close>, \<open>CtrlReceiver::recv_all\<close>) are performed
  by the kernel: their outcome is part of the incoming event, and the bytes handed to \<open>send\<close>
  are an output of \<open>event\<close>.
\<close>

section \<open>STATUS_ON_SET admission guard\<close>

record StatusOnSetDiagnosticGuard =
  sg_transaction_limit :: u8
  sg_started_transactions :: u8
  sg_active :: bool

definition set_buffer_permitted :: "StatusOnSetDiagnosticGuard \<Rightarrow> bool" where
  "set_buffer_permitted g \<longleftrightarrow>
     \<not> sg_active g \<and> (sg_transaction_limit g = 0 \<or> sg_started_transactions g < sg_transaction_limit g)"

definition begin_after_aio_acceptance ::
  "StatusOnSetDiagnosticGuard \<Rightarrow> u8 result \<times> StatusOnSetDiagnosticGuard" where
  "begin_after_aio_acceptance g =
     (if sg_active g then (Err ''STATUS_ON_SET diagnostic transaction already owns receive guard'', g)
      else if sg_transaction_limit g > 0 then
        (if \<not> sg_started_transactions g < sg_transaction_limit g
         then (Err ''STATUS_ON_SET diagnostic transaction limit reached'', g)
         else (Ok (sg_started_transactions g + 1),
               g\<lparr> sg_started_transactions := sg_started_transactions g + 1, sg_active := True \<rparr>))
      else (Ok (sg_started_transactions g), g\<lparr> sg_active := True \<rparr>))"

definition release_after_cleanup ::
  "StatusOnSetDiagnosticGuard \<Rightarrow> unit result \<times> StatusOnSetDiagnosticGuard" where
  "release_after_cleanup g =
     (if \<not> sg_active g then (Err ''STATUS_ON_SET diagnostic guard was not active'', g)
      else (Ok (), g\<lparr> sg_active := False \<rparr>))"

section \<open>Protocol state\<close>

record DisplayState =
  ds_mode :: DisplayMode
  ds_format :: u8
  ds_connector :: u8

record DisplayStateSnapshot =
  sn_mode :: DisplayMode
  sn_format :: u8
  sn_connector :: u8
  sn_generation :: u64

record StateCheckValidation =
  scv_connector_count :: u8
  scv_formats :: "u8 list"
  scv_modes :: "DisplayMode list"

record ProtocolState =
  pending_state :: "DisplayStateSnapshot option"
  committed_state :: "DisplayStateSnapshot option"
  next_generation :: u64
  controller_enabled :: bool
  display_enabled :: bool

record ActiveScanoutState =
  as_width :: u32
  as_height :: u32
  as_format :: u8
  as_connector :: u8

record Globals =
  connector_status_changed_once :: bool
  status_value :: u8
  clear_status_on_next_success :: bool
  diagnostic_guard :: StatusOnSetDiagnosticGuard
  state_check_validation :: StateCheckValidation
  protocol_state :: ProtocolState
  functionfs_lifecycle_generation :: u64
  usb_activation_generation :: u64

definition init_globals :: Globals where
  "init_globals =
     \<lparr> connector_status_changed_once = True, status_value = GUD_STATUS_OK,
       clear_status_on_next_success = False,
       diagnostic_guard = \<lparr> sg_transaction_limit = 0, sg_started_transactions = 0, sg_active = False \<rparr>,
       state_check_validation = \<lparr> scv_connector_count = 0, scv_formats = [], scv_modes = [] \<rparr>,
       protocol_state = \<lparr> pending_state = None, committed_state = None, next_generation = 0,
                          controller_enabled = False, display_enabled = False \<rparr>,
       functionfs_lifecycle_generation = 0, usb_activation_generation = 0 \<rparr>"

section \<open>Events\<close>

datatype ProtocolInvalidationReason =
    InvalidStateCheck | CommitWithoutPending | ReasonBind | ReasonEnable | ReasonSuspend
  | ReasonResume | Disconnected | ReasonUnbind

definition is_disconnect :: "ProtocolInvalidationReason \<Rightarrow> bool" where
  "is_disconnect r \<longleftrightarrow> r = Disconnected"

definition reason_is_host_activity :: "ProtocolInvalidationReason \<Rightarrow> bool" where
  "reason_is_host_activity r \<longleftrightarrow> r = InvalidStateCheck \<or> r = CommitWithoutPending"

text \<open>
  A pending EP0 transfer. \<open>cs_send data\<close> is what \<^verbatim>\<open>write\<close> on EP0 returns for \<open>data\<close>;
  \<open>cr_recv\<close> is what \<open>recv_all\<close> returns.
\<close>

record CtrlSender =
  cs_request :: u8
  cs_length :: u16
  cs_send :: "bytes \<Rightarrow> usize result"

record CtrlReceiver =
  cr_request :: u8
  cr_recv :: "bytes result"

datatype FfsEvent =
    FfsBind | FfsUnbind | FfsEnable | FfsDisable | FfsSuspend | FfsResume
  | SetupHostToDevice CtrlReceiver
  | SetupDeviceToHost CtrlSender
  | FfsUnknown u8

datatype Event =
    GetDescriptor CtrlSender
  | GetDisplayModes CtrlSender
  | GetPixelFormats CtrlSender
  | StateChecked DisplayStateSnapshot
  | StateCommitted DisplayStateSnapshot
  | ProtocolStateInvalidated "u64 option" ProtocolInvalidationReason
  | Buffer SetBuffer
  | StatusSent u8

fun event_is_host_activity :: "Event \<Rightarrow> bool" where
  "event_is_host_activity (GetDescriptor _) = True"
| "event_is_host_activity (GetDisplayModes _) = True"
| "event_is_host_activity (GetPixelFormats _) = True"
| "event_is_host_activity (StateChecked _) = True"
| "event_is_host_activity (StateCommitted _) = True"
| "event_is_host_activity (Buffer _) = True"
| "event_is_host_activity (StatusSent _) = False"
| "event_is_host_activity (ProtocolStateInvalidated _ reason) = reason_is_host_activity reason"

section \<open>Status latch and connector status\<close>

definition reset_connector_status_changed :: "Globals \<Rightarrow> Globals" where
  "reset_connector_status_changed g = g\<lparr> connector_status_changed_once := True \<rparr>"

definition functionfs_lifecycle_transition :: "Globals \<Rightarrow> Globals" where
  "functionfs_lifecycle_transition g =
     g\<lparr> functionfs_lifecycle_generation := functionfs_lifecycle_generation g + 1 \<rparr>"

definition usb_activation_transition :: "Globals \<Rightarrow> Globals" where
  "usb_activation_transition g =
     g\<lparr> usb_activation_generation := usb_activation_generation g + 1 \<rparr>"

definition current_status :: "Globals \<Rightarrow> u8" where
  "current_status g = status_value g"

definition reset_status :: "Globals \<Rightarrow> Globals" where
  "reset_status g = g\<lparr> status_value := GUD_STATUS_OK, clear_status_on_next_success := False \<rparr>"

definition latch_status :: "u8 \<Rightarrow> Globals \<Rightarrow> Globals" where
  "latch_status status g =
     g\<lparr> status_value := status, clear_status_on_next_success := (status \<noteq> GUD_STATUS_OK) \<rparr>"

definition mark_success :: "Globals \<Rightarrow> Globals" where
  "mark_success g =
     (let g' = g\<lparr> clear_status_on_next_success := False \<rparr> in
      if clear_status_on_next_success g then g'\<lparr> status_value := GUD_STATUS_OK \<rparr> else g')"

definition next_connector_status :: "Globals \<Rightarrow> u8 \<times> Globals" where
  "next_connector_status g =
     ((if connector_status_changed_once g
       then GUD_CONNECTOR_STATUS_CONNECTED OR GUD_CONNECTOR_STATUS_CHANGED
       else GUD_CONNECTOR_STATUS_CONNECTED),
      g\<lparr> connector_status_changed_once := False \<rparr>)"

section \<open>Guard operations on the statics\<close>

definition configure_status_on_set_diagnostic :: "u8 \<Rightarrow> Globals \<Rightarrow> Globals" where
  "configure_status_on_set_diagnostic limit g =
     g\<lparr> diagnostic_guard :=
          \<lparr> sg_transaction_limit = limit, sg_started_transactions = 0, sg_active = False \<rparr> \<rparr>"

definition begin_status_on_set_diagnostic_transaction :: "Globals \<Rightarrow> u8 result \<times> Globals" where
  "begin_status_on_set_diagnostic_transaction g =
     (let (r, guard) = begin_after_aio_acceptance (diagnostic_guard g)
      in (r, g\<lparr> diagnostic_guard := guard \<rparr>))"

definition finish_status_on_set_diagnostic_transaction :: "Globals \<Rightarrow> unit result \<times> Globals" where
  "finish_status_on_set_diagnostic_transaction g =
     (let (r, guard) = release_after_cleanup (diagnostic_guard g)
      in (r, g\<lparr> diagnostic_guard := guard \<rparr>))"

definition retire_status_on_set_transaction_after_session_destruction :: "Globals \<Rightarrow> Globals" where
  "retire_status_on_set_transaction_after_session_destruction g =
     g\<lparr> diagnostic_guard := (diagnostic_guard g)\<lparr> sg_active := False \<rparr> \<rparr>"

definition status_on_set_set_buffer_permitted :: "Globals \<Rightarrow> bool" where
  "status_on_set_set_buffer_permitted g = set_buffer_permitted (diagnostic_guard g)"

section \<open>Lifecycle resets\<close>

definition reset_protocol_state :: "Globals \<Rightarrow> u64 option \<times> Globals" where
  "reset_protocol_state g =
     (let p = protocol_state g in
      (map_option sn_generation (pending_state p),
       g\<lparr> protocol_state := p\<lparr> pending_state := None, committed_state := None,
                               controller_enabled := False, display_enabled := False \<rparr> \<rparr>))"

definition handle_suspend_transition :: "Globals \<Rightarrow> u64 option \<times> Globals" where
  "handle_suspend_transition g =
     (let (invalidated, g') = reset_protocol_state g in (invalidated, reset_status g'))"

definition handle_resume_transition :: "Globals \<Rightarrow> u64 option \<times> Globals" where
  "handle_resume_transition g =
     (let (invalidated, g') = reset_protocol_state (reset_connector_status_changed g)
      in (invalidated, reset_status g'))"

section \<open>State check, commit and enable\<close>

definition configure_state_check_validation ::
  "u8 \<Rightarrow> u8 list \<Rightarrow> DisplayMode list \<Rightarrow> Globals \<Rightarrow> Globals" where
  "configure_state_check_validation count fmts ms g =
     g\<lparr> state_check_validation := \<lparr> scv_connector_count = count, scv_formats = fmts, scv_modes = ms \<rparr> \<rparr>"

definition bytes_per_pixel :: "u8 \<Rightarrow> usize result" where
  "bytes_per_pixel format =
     (if format = GUD_PIXEL_FORMAT_RGB565 then Ok 2
      else if format = GUD_PIXEL_FORMAT_RGB888 then Ok 3
      else if format = GUD_PIXEL_FORMAT_XRGB8888 then Ok 4
      else Err ''unsupported pixel format'')"

definition validate_state_check_payload ::
  "StateCheckHeader deserializer \<Rightarrow> StateCheckValidation \<Rightarrow> bytes \<Rightarrow> DisplayState result" where
  "validate_state_check_payload de validation payload =
     (if \<not> length payload \<ge> GUD_STATE_CHECK_HEADER_LEN then Err ''state check payload too short''
      else if \<not> (length payload - GUD_STATE_CHECK_HEADER_LEN) mod GUD_PROPERTY_SIZE = 0
      then Err ''state check property data has invalid length''
      else case de payload of
        Inl e \<Rightarrow> Inl e
      | Inr (header, consumed) \<Rightarrow>
          if \<not> consumed = GUD_STATE_CHECK_HEADER_LEN then Err ''unexpected state check header size''
          else if \<not> scv_connector_count validation > 0 then Err ''state check validation is not configured''
          else if \<not> sch_connector header < scv_connector_count validation then Err ''unsupported connector''
          else if \<not> List.member (scv_formats validation) (sch_format header) then Err ''unsupported pixel format''
          else if \<not> list_ex (\<lambda>mode. modes_have_same_user_timing mode (sch_mode header)) (scv_modes validation)
          then Err ''unsupported mode''
          else Ok \<lparr> ds_mode = sch_mode header, ds_format = sch_format header,
                    ds_connector = sch_connector header \<rparr>)"

definition store_pending_state :: "DisplayState \<Rightarrow> Globals \<Rightarrow> DisplayStateSnapshot result \<times> Globals" where
  "store_pending_state state g =
     (case checked_add (next_generation (protocol_state g)) 1 of
        None \<Rightarrow> (Err ''pending-state generation exhausted'', g)
      | Some generation \<Rightarrow>
          (let snapshot = \<lparr> sn_mode = ds_mode state, sn_format = ds_format state,
                            sn_connector = ds_connector state, sn_generation = generation \<rparr>
           in (Ok snapshot,
               g\<lparr> protocol_state := (protocol_state g)\<lparr> next_generation := generation,
                                                        pending_state := Some snapshot \<rparr> \<rparr>)))"

definition clear_pending_state :: "Globals \<Rightarrow> u64 option \<times> Globals" where
  "clear_pending_state g =
     (map_option sn_generation (pending_state (protocol_state g)),
      g\<lparr> protocol_state := (protocol_state g)\<lparr> pending_state := None \<rparr> \<rparr>)"

definition update_controller_enabled :: "bool \<Rightarrow> Globals \<Rightarrow> Globals" where
  "update_controller_enabled enable g =
     (let p = (protocol_state g)\<lparr> controller_enabled := enable \<rparr> in
      g\<lparr> protocol_state := (if \<not> enable then p\<lparr> display_enabled := False \<rparr> else p) \<rparr>)"

definition update_display_enabled :: "bool \<Rightarrow> Globals \<Rightarrow> unit result \<times> Globals" where
  "update_display_enabled enable g =
     (if enable \<and> \<not> controller_enabled (protocol_state g)
      then (Err ''display cannot be enabled while controller is disabled'', g)
      else if enable \<and> committed_state (protocol_state g) = None
      then (Err ''display cannot be enabled before state commit'', g)
      else (Ok (), g\<lparr> protocol_state := (protocol_state g)\<lparr> display_enabled := enable \<rparr> \<rparr>))"

definition parse_enable_request :: "bytes \<Rightarrow> bool result" where
  "parse_enable_request payload =
     (if \<not> length payload = 1 then Err ''payload length is invalid''
      else if payload ! 0 = 0 then Ok False
      else if payload ! 0 = 1 then Ok True
      else Err ''value is invalid'')"

definition commit_pending_state :: "Globals \<Rightarrow> DisplayStateSnapshot result \<times> Globals" where
  "commit_pending_state g =
     (case pending_state (protocol_state g) of
        None \<Rightarrow> (Err ''no checked state available to commit'', g)
      | Some pending \<Rightarrow>
          (Ok pending,
           g\<lparr> protocol_state := (protocol_state g)\<lparr> pending_state := None,
                                                    committed_state := Some pending \<rparr> \<rparr>))"

definition active_scanout_state :: "Globals \<Rightarrow> ActiveScanoutState option" where
  "active_scanout_state g =
     map_option (\<lambda>state. \<lparr> as_width = ucast (dm_hdisplay (sn_mode state)),
                           as_height = ucast (dm_vdisplay (sn_mode state)),
                           as_format = sn_format state, as_connector = sn_connector state \<rparr>)
       (committed_state (protocol_state g))"

section \<open>Validation of SET_BUFFER\<close>

text \<open>
  The two plain additions \<open>info.x + info.width\<close> and \<open>info.y + info.height\<close> follow the build
  profile: \<open>oc\<close> is its \<open>overflow-checks\<close> setting.
\<close>

definition validate_buffer_payload :: "SetBuffer \<Rightarrow> usize \<Rightarrow> unit result" where
  "validate_buffer_payload info bpp =
     (case Option.bind (checked_mul_usize (unat (sb_width info)) (unat (sb_height info)))
                       (\<lambda>pixels. checked_mul_usize pixels bpp) of
        None \<Rightarrow> Err ''buffer dimensions overflowed expected payload length''
      | Some expected_len \<Rightarrow>
          if \<not> unat (sb_length info) = expected_len then Err ''buffer length does not match expected''
          else if sb_compression info = 0 then
            (if \<not> (sb_compressed_length info = 0 \<or> sb_compressed_length info = sb_length info)
             then Err ''uncompressed buffer has unexpected compressed_length'' else Ok ())
          else if \<not> sb_compression info = GUD_COMPRESSION_LZ4 then Err ''unsupported compression''
          else if \<not> sb_compressed_length info > 0 then Err ''compressed buffer must set compressed_length''
          else if \<not> sb_compressed_length info \<le> sb_length info
          then Err ''compressed buffer length exceeds uncompressed length''
          else Ok ())"

definition validate_buffer_request :: "bool \<Rightarrow> SetBuffer \<Rightarrow> Globals \<Rightarrow> unit result" where
  "validate_buffer_request oc info g =
     (let protocol = protocol_state g in
      case committed_state protocol of
        None \<Rightarrow> Err ''no committed state available for buffer upload''
      | Some state \<Rightarrow>
          let hdisplay = ucast (dm_hdisplay (sn_mode state)) :: u32;
              vdisplay = ucast (dm_vdisplay (sn_mode state)) :: u32 in
          if \<not> controller_enabled protocol then Err ''controller is disabled''
          else if \<not> display_enabled protocol then Err ''display is disabled''
          else case bytes_per_pixel (sn_format state) of
            Inl e \<Rightarrow> Inl e
          | Inr bpp \<Rightarrow>
              if \<not> unat (sb_width info) > 0 then Err ''buffer width must be greater than zero''
              else if \<not> unat (sb_height info) > 0 then Err ''buffer height must be greater than zero''
              else if \<not> sb_x info \<le> hdisplay then Err ''buffer x exceeds mode width''
              else if \<not> sb_y info \<le> vdisplay then Err ''buffer y exceeds mode height''
              else case plain_add oc (sb_x info) (sb_width info) of
                Inl e \<Rightarrow> Inl e
              | Inr right \<Rightarrow>
                  if \<not> right \<le> hdisplay then Err ''buffer rect exceeds mode width''
                  else case plain_add oc (sb_y info) (sb_height info) of
                    Inl e \<Rightarrow> Inl e
                  | Inr bottom \<Rightarrow>
                      if \<not> bottom \<le> vdisplay then Err ''buffer rect exceeds mode height''
                      else validate_buffer_payload info bpp)"

section \<open>The EP0 event handler\<close>

text \<open>
  \<open>event\<close> returns the result, the statics and the bytes handed to \<open>send\<close>, if any. The
  parameters \<open>ser\<close>, \<open>de_header\<close> and \<open>de_buffer\<close> are the \<open>ssmarshal\<close> functions at the types
  the handler uses.
\<close>

type_synonym event_outcome = "Event option result \<times> Globals \<times> bytes option"

definition reply_then :: "CtrlSender \<Rightarrow> bytes \<Rightarrow> Globals \<Rightarrow> (Globals \<Rightarrow> Event option \<times> Globals) \<Rightarrow> event_outcome"
  where
  "reply_then req data g k =
     (case cs_send req data of
        Inl e \<Rightarrow> (Inl e, g, Some data)
      | Inr _ \<Rightarrow> (let (ev, g') = k g in (Ok ev, g', Some data)))"

definition setup_device_to_host ::
  "ConnectorDescriptor serializer \<Rightarrow> CtrlSender \<Rightarrow> Globals \<Rightarrow> event_outcome" where
  "setup_device_to_host ser req g =
     (let request = cs_request req in
      if request = GUD_REQ_GET_STATUS then
        (let status = current_status g in
         reply_then req [status] g (\<lambda>g. (Some (StatusSent status), g)))
      else if request = GUD_REQ_GET_DESCRIPTOR then (Ok (Some (GetDescriptor req)), g, None)
      else if request = GUD_REQ_GET_FORMATS then (Ok (Some (GetPixelFormats req)), g, None)
      else if request = GUD_REQ_GET_PROPERTIES then
        reply_then req [] g (\<lambda>g. (None, mark_success g))
      else if request = GUD_REQ_GET_CONNECTORS then
        (case serialize_connector_descriptors ser
                [\<lparr> cd_connector_type = GUD_CONNECTOR_TYPE_PANEL, cd_flags = 0 \<rparr>] of
           Inl e \<Rightarrow> (Inl e, g, None)
         | Inr buf \<Rightarrow> reply_then req buf g (\<lambda>g. (None, mark_success g)))
      else if request = GUD_REQ_GET_CONNECTOR_PROPERTIES then
        reply_then req [] g (\<lambda>g. (None, mark_success g))
      else if request = GUD_REQ_GET_CONNECTOR_MODES then (Ok (Some (GetDisplayModes req)), g, None)
      else if request = GUD_REQ_GET_CONNECTOR_EDID then
        reply_then req [] g (\<lambda>g. (None, mark_success g))
      else if request = GUD_REQ_GET_CONNECTOR_STATUS then
        (let (status, g') = next_connector_status g in
         reply_then req [status] g' (\<lambda>g. (None, mark_success g)))
      else (Ok None, latch_status GUD_STATUS_REQUEST_NOT_SUPPORTED g, None))"

definition reject_state_check :: "Globals \<Rightarrow> event_outcome" where
  "reject_state_check g =
     (let (generation, g') = clear_pending_state g in
      (Ok (Some (ProtocolStateInvalidated generation InvalidStateCheck)),
       latch_status GUD_STATUS_INVALID_PARAMETER g', None))"

definition handle_state_check ::
  "StateCheckHeader deserializer \<Rightarrow> bytes \<Rightarrow> Globals \<Rightarrow> event_outcome" where
  "handle_state_check de_header payload g =
     (case validate_state_check_payload de_header (state_check_validation g) payload of
        Inr state \<Rightarrow>
          (case store_pending_state state g of
             (Inr snapshot, g') \<Rightarrow> (Ok (Some (StateChecked snapshot)), mark_success g', None)
           | (Inl _, g') \<Rightarrow> reject_state_check g')
      | Inl (Error _) \<Rightarrow> reject_state_check g
      | Inl (Panic m) \<Rightarrow> (Inl (Panic m), g, None))"

definition handle_controller_enable :: "bytes \<Rightarrow> Globals \<Rightarrow> event_outcome" where
  "handle_controller_enable payload g =
     (case parse_enable_request payload of
        Inr enable \<Rightarrow> (Ok None, mark_success (update_controller_enabled enable g), None)
      | Inl _ \<Rightarrow> (Ok None, latch_status GUD_STATUS_INVALID_PARAMETER g, None))"

definition handle_display_enable :: "bytes \<Rightarrow> Globals \<Rightarrow> event_outcome" where
  "handle_display_enable payload g =
     (case parse_enable_request payload of
        Inr enable \<Rightarrow>
          (case update_display_enabled enable g of
             (Inr _, g') \<Rightarrow> (Ok None, mark_success g', None)
           | (Inl _, g') \<Rightarrow> (Ok None, latch_status GUD_STATUS_INVALID_PARAMETER g', None))
      | Inl _ \<Rightarrow> (Ok None, latch_status GUD_STATUS_INVALID_PARAMETER g, None))"

definition handle_state_commit :: "Globals \<Rightarrow> event_outcome" where
  "handle_state_commit g =
     (case commit_pending_state g of
        (Inr snapshot, g') \<Rightarrow> (Ok (Some (StateCommitted snapshot)), mark_success g', None)
      | (Inl _, g') \<Rightarrow>
          (Ok (Some (ProtocolStateInvalidated None CommitWithoutPending)),
           latch_status GUD_STATUS_INVALID_PARAMETER g', None))"

definition handle_set_buffer ::
  "bool \<Rightarrow> SetBuffer deserializer \<Rightarrow> bytes \<Rightarrow> Globals \<Rightarrow> event_outcome" where
  "handle_set_buffer oc de_buffer payload g =
     (if \<not> status_on_set_set_buffer_permitted g then (Ok None, latch_status GUD_STATUS_BUSY g, None)
      else case de_buffer payload of
        Inl e \<Rightarrow> (Inl e, g, None)
      | Inr (v, _) \<Rightarrow>
          (case validate_buffer_request oc v g of
             Inr _ \<Rightarrow> (Ok (Some (Buffer v)), g, None)
           | Inl (Error _) \<Rightarrow> (Ok None, latch_status GUD_STATUS_INVALID_PARAMETER g, None)
           | Inl (Panic m) \<Rightarrow> (Inl (Panic m), g, None)))"

definition setup_host_to_device ::
  "bool \<Rightarrow> StateCheckHeader deserializer \<Rightarrow> SetBuffer deserializer \<Rightarrow> CtrlReceiver \<Rightarrow> Globals \<Rightarrow> event_outcome"
  where
  "setup_host_to_device oc de_header de_buffer req g =
     (let request = cr_request req;
          with_payload = (\<lambda>k. case cr_recv req of Inl e \<Rightarrow> (Inl e, g, None) | Inr payload \<Rightarrow> k payload) in
      if request = GUD_REQ_SET_CONNECTOR_FORCE_DETECT then
        with_payload (\<lambda>_. (Ok None, mark_success g, None))
      else if request = GUD_REQ_SET_STATE_CHECK then
        with_payload (\<lambda>payload. handle_state_check de_header payload g)
      else if request = GUD_REQ_SET_CONTROLLER_ENABLE then
        with_payload (\<lambda>payload. handle_controller_enable payload g)
      else if request = GUD_REQ_SET_DISPLAY_ENABLE then
        with_payload (\<lambda>payload. handle_display_enable payload g)
      else if request = GUD_REQ_SET_STATE_COMMIT then with_payload (\<lambda>_. handle_state_commit g)
      else if request = GUD_REQ_SET_BUFFER then
        with_payload (\<lambda>payload. handle_set_buffer oc de_buffer payload g)
      else (Ok None, latch_status GUD_STATUS_REQUEST_NOT_SUPPORTED g, None))"

definition invalidated :: "u64 option \<times> Globals \<Rightarrow> ProtocolInvalidationReason \<Rightarrow> event_outcome" where
  "invalidated gg reason =
     (let (generation, g) = gg in
      (Ok (Some (ProtocolStateInvalidated generation reason)), g, None))"

fun event ::
  "bool \<Rightarrow> ConnectorDescriptor serializer \<Rightarrow> StateCheckHeader deserializer \<Rightarrow> SetBuffer deserializer \<Rightarrow>
   FfsEvent \<Rightarrow> Globals \<Rightarrow> event_outcome" where
  "event oc ser dh db FfsEnable g =
     invalidated (reset_protocol_state (reset_status (reset_connector_status_changed
       (usb_activation_transition (functionfs_lifecycle_transition g))))) ReasonEnable"
| "event oc ser dh db FfsBind g =
     invalidated (reset_protocol_state (reset_status (reset_connector_status_changed
       (functionfs_lifecycle_transition g)))) ReasonBind"
| "event oc ser dh db FfsUnbind g =
     invalidated (handle_suspend_transition (functionfs_lifecycle_transition g)) ReasonUnbind"
| "event oc ser dh db (SetupDeviceToHost req) g = setup_device_to_host ser req g"
| "event oc ser dh db (SetupHostToDevice req) g = setup_host_to_device oc dh db req g"
| "event oc ser dh db FfsSuspend g =
     invalidated (handle_suspend_transition (functionfs_lifecycle_transition g)) ReasonSuspend"
| "event oc ser dh db FfsResume g =
     invalidated (handle_resume_transition (functionfs_lifecycle_transition g)) ReasonResume"
| "event oc ser dh db FfsDisable g =
     invalidated (handle_suspend_transition (functionfs_lifecycle_transition g)) Disconnected"
| "event oc ser dh db (FfsUnknown _) g = (Ok None, g, None)"

section \<open>Replies completed by the application\<close>

text \<open>
  The three requests that \<open>event\<close> hands to the application with their sender. Each returns
  the result, the statics and the bytes handed to \<open>send\<close>.
\<close>

definition send_and_mark :: "CtrlSender \<Rightarrow> bytes \<Rightarrow> Globals \<Rightarrow> unit result \<times> Globals \<times> bytes option" where
  "send_and_mark req data g =
     (case cs_send req data of
        Inl e \<Rightarrow> (Inl e, g, Some data)
      | Inr _ \<Rightarrow> (Ok (), mark_success g, Some data))"

definition send_descriptor_with_options ::
  "DisplayDescriptor serializer \<Rightarrow> CtrlSender \<Rightarrow> u32 \<Rightarrow> u32 \<Rightarrow> u32 \<Rightarrow> u32 \<Rightarrow> u8 \<Rightarrow> u32 option \<Rightarrow> u32 \<Rightarrow>
   Globals \<Rightarrow> unit result \<times> Globals \<times> bytes option" where
  "send_descriptor_with_options ser req min_width min_height max_width max_height compression
      max_buffer_size flags g =
     (if \<not> flags AND NOT GUD_DISPLAY_FLAG_STATUS_ON_SET = 0
      then (Err ''unsupported GUD display flags'', g, None)
      else case build_display_descriptor_with_flags min_width min_height max_width max_height
                  compression max_buffer_size flags of
        Inl e \<Rightarrow> (Inl e, g, None)
      | Inr descriptor \<Rightarrow>
          (case serialize_display_descriptor ser descriptor of
             Inl e \<Rightarrow> (Inl e, g, None)
           | Inr buf \<Rightarrow> send_and_mark req buf g))"

definition send_modes ::
  "DisplayMode serializer \<Rightarrow> CtrlSender \<Rightarrow> DisplayMode list \<Rightarrow> Globals \<Rightarrow>
   unit result \<times> Globals \<times> bytes option" where
  "send_modes ser req ms g =
     (case serialize_display_modes ser ms of
        Inl e \<Rightarrow> (Inl e, g, None)
      | Inr buf \<Rightarrow>
          if length buf > unat (cs_length req) then (panic ''too many display modes provided'', g, None)
          else send_and_mark req buf g)"

definition send_pixel_formats ::
  "CtrlSender \<Rightarrow> u8 list \<Rightarrow> Globals \<Rightarrow> unit result \<times> Globals \<times> bytes option" where
  "send_pixel_formats req fmts g = send_and_mark req fmts g"

section \<open>The state invariant\<close>

text \<open>
  \<open>snapshot_advertised\<close>: a stored state names an advertised connector, format and timing.
  \<open>protocol_ok\<close>: the display is enabled only with an enabled controller and a committed
  state; generations are issued in increasing order and the pending one is newer than the
  committed one; every stored state was advertised; the status latch is armed exactly while
  a failure is reported.
\<close>

definition snapshot_advertised :: "StateCheckValidation \<Rightarrow> DisplayStateSnapshot \<Rightarrow> bool" where
  "snapshot_advertised v sn \<longleftrightarrow>
     sn_connector sn < scv_connector_count v \<and> sn_format sn \<in> set (scv_formats v)
     \<and> (\<exists>m \<in> set (scv_modes v). modes_have_same_user_timing m (sn_mode sn))"

definition snapshot_ok :: "StateCheckValidation \<Rightarrow> u64 \<Rightarrow> DisplayStateSnapshot \<Rightarrow> bool" where
  "snapshot_ok v next sn \<longleftrightarrow> snapshot_advertised v sn \<and> 0 < sn_generation sn \<and> sn_generation sn \<le> next"

definition protocol_ok :: "Globals \<Rightarrow> bool" where
  "protocol_ok g \<longleftrightarrow>
     (let p = protocol_state g; v = state_check_validation g in
      (display_enabled p \<longrightarrow> controller_enabled p \<and> committed_state p \<noteq> None)
      \<and> pred_option (snapshot_ok v (next_generation p)) (pending_state p)
      \<and> pred_option (snapshot_ok v (next_generation p)) (committed_state p)
      \<and> (\<forall>a b. pending_state p = Some a \<longrightarrow> committed_state p = Some b \<longrightarrow> sn_generation b < sn_generation a)
      \<and> (clear_status_on_next_success g \<longleftrightarrow> status_value g \<noteq> GUD_STATUS_OK))"

lemma checked_succ_Some:
  "checked_add (a :: u64) 1 = Some c \<Longrightarrow> c = a + 1 \<and> a < c \<and> 0 < c \<and> (\<forall>b. b \<le> a \<longrightarrow> b \<le> c \<and> b < c)"
proof -
  assume "checked_add a 1 = Some c"
  then have c: "c = a + 1" "unat c = unat a + 1" using checked_add_SomeD [of a 1 c] by auto
  then have "a < c" by (simp add: word_less_nat_alt)
  with c show ?thesis by (auto simp: word_gt_0)
qed

lemmas status_ops = current_status_def reset_status_def latch_status_def mark_success_def Let_def

lemma validated_state_advertised:
  assumes "validate_state_check_payload de v payload = Inr st"
  shows "snapshot_advertised v \<lparr> sn_mode = ds_mode st, sn_format = ds_format st,
    sn_connector = ds_connector st, sn_generation = n \<rparr>"
  using assms
  by (auto simp: validate_state_check_payload_def snapshot_advertised_def list_ex_iff split: result_splits)

lemma protocol_ok_mark_success [simp]: "protocol_ok g \<Longrightarrow> protocol_ok (mark_success g)"
  by (auto simp: protocol_ok_def status_ops)

lemma protocol_ok_latch [simp]: "protocol_ok g \<Longrightarrow> protocol_ok (latch_status st g)"
  by (simp add: protocol_ok_def status_ops)

lemma protocol_ok_reset_status [simp]: "protocol_ok g \<Longrightarrow> protocol_ok (reset_status g)"
  by (simp add: protocol_ok_def status_ops)

lemma protocol_ok_connector [simp]:
  "protocol_ok g \<Longrightarrow> protocol_ok (g\<lparr> connector_status_changed_once := b \<rparr>)"
  "protocol_ok g \<Longrightarrow> protocol_ok (reset_connector_status_changed g)"
  "protocol_ok g \<Longrightarrow> protocol_ok (functionfs_lifecycle_transition g)"
  "protocol_ok g \<Longrightarrow> protocol_ok (usb_activation_transition g)"
  "protocol_ok g \<Longrightarrow> protocol_ok (g\<lparr> diagnostic_guard := gd \<rparr>)"
  by (simp_all add: protocol_ok_def reset_connector_status_changed_def
      functionfs_lifecycle_transition_def usb_activation_transition_def)

lemma protocol_ok_reset_protocol [simp]:
  "protocol_ok g \<Longrightarrow> protocol_ok (snd (reset_protocol_state g))"
  by (simp add: protocol_ok_def reset_protocol_state_def Let_def)

lemma protocol_ok_clear_pending [simp]:
  "protocol_ok g \<Longrightarrow> protocol_ok (snd (clear_pending_state g))"
  by (simp add: protocol_ok_def clear_pending_state_def Let_def)

lemma protocol_ok_store_pending:
  assumes "protocol_ok g" and "validate_state_check_payload de (state_check_validation g) payload = Inr st"
  shows "protocol_ok (snd (store_pending_state st g))"
  using assms(1) validated_state_advertised [OF assms(2)]
  by (auto simp: protocol_ok_def store_pending_state_def Let_def snapshot_ok_def pred_option_def
      split: option.splits dest!: checked_succ_Some)

lemma protocol_ok_commit: "commit_pending_state g = (r, g') \<Longrightarrow> protocol_ok g \<Longrightarrow> protocol_ok g'"
  by (auto simp: protocol_ok_def commit_pending_state_def Let_def split: option.splits)

lemma protocol_ok_controller [simp]: "protocol_ok g \<Longrightarrow> protocol_ok (update_controller_enabled e g)"
  by (simp add: protocol_ok_def update_controller_enabled_def Let_def)

lemma protocol_ok_display: "update_display_enabled e g = (r, g') \<Longrightarrow> protocol_ok g \<Longrightarrow> protocol_ok g'"
  by (auto simp: protocol_ok_def update_display_enabled_def Let_def split: if_splits)

lemma protocol_ok_reply:
  "protocol_ok g \<Longrightarrow> (\<And>g. protocol_ok g \<Longrightarrow> protocol_ok (snd (k g))) \<Longrightarrow>
    protocol_ok (fst (snd (reply_then req data g k)))"
  by (simp add: reply_then_def split: sum.splits prod.splits) (metis snd_conv)

lemma protocol_ok_device_to_host:
  "protocol_ok g \<Longrightarrow> protocol_ok (fst (snd (setup_device_to_host ser req g)))"
  by (simp add: setup_device_to_host_def Let_def next_connector_status_def protocol_ok_reply
      split: sum.splits)

lemma protocol_ok_reject: "protocol_ok g \<Longrightarrow> protocol_ok (fst (snd (reject_state_check g)))"
  by (simp add: reject_state_check_def split_def Let_def)

lemma protocol_ok_state_check:
  "protocol_ok g \<Longrightarrow> protocol_ok (fst (snd (handle_state_check de payload g)))"
  using protocol_ok_store_pending [of g de payload]
  by (auto simp: handle_state_check_def protocol_ok_reject split: sum.splits prod.splits err.splits)

lemma protocol_ok_commit_request:
  "protocol_ok g \<Longrightarrow> protocol_ok (fst (snd (handle_state_commit g)))"
  by (auto simp: handle_state_commit_def split: sum.splits prod.splits dest: protocol_ok_commit)

lemma protocol_ok_display_request:
  "protocol_ok g \<Longrightarrow> protocol_ok (fst (snd (handle_display_enable payload g)))"
  by (auto simp: handle_display_enable_def split: sum.splits prod.splits dest: protocol_ok_display)

lemma protocol_ok_controller_request:
  "protocol_ok g \<Longrightarrow> protocol_ok (fst (snd (handle_controller_enable payload g)))"
  by (simp add: handle_controller_enable_def split: sum.splits)

lemma protocol_ok_set_buffer:
  "protocol_ok g \<Longrightarrow> protocol_ok (fst (snd (handle_set_buffer oc db payload g)))"
  by (simp add: handle_set_buffer_def split: sum.splits prod.splits err.splits)

lemma protocol_ok_host_to_device:
  "protocol_ok g \<Longrightarrow> protocol_ok (fst (snd (setup_host_to_device oc dh db req g)))"
  by (simp add: setup_host_to_device_def Let_def protocol_ok_state_check protocol_ok_commit_request
      protocol_ok_display_request protocol_ok_controller_request protocol_ok_set_buffer
      split: sum.splits)

lemma protocol_ok_event:
  assumes "protocol_ok g"
  shows "protocol_ok (fst (snd (event oc ser dh db ev g)))"
proof (cases ev)
  case (SetupHostToDevice req)
  then show ?thesis using assms by (simp add: protocol_ok_host_to_device)
next
  case (SetupDeviceToHost req)
  then show ?thesis using assms by (simp add: protocol_ok_device_to_host)
qed (simp_all add: assms invalidated_def handle_suspend_transition_def handle_resume_transition_def
       split_def Let_def)

section \<open>Accepted buffers\<close>

lemma bytes_per_pixel_Inr: "bytes_per_pixel f = Inr bpp \<Longrightarrow> bpp = 2 \<or> bpp = 3 \<or> bpp = 4"
  by (simp add: bytes_per_pixel_def split: if_splits)

text \<open>
  The bounds test adds in 32 bits. A sum that wraps needs a side of at least \<open>2 ^ 32 - 2 ^ 16\<close>,
  and then no 32-bit length is the exact payload length.
\<close>

lemma rect_side_no_wrap:
  fixes x w len :: u32
  assumes fits: "x + w \<le> ucast (d :: u16)" and x: "x \<le> ucast d"
    and len: "unat len = unat w * n" and n: "2 \<le> n"
  shows "unat x + unat w \<le> unat d"
proof -
  have "unat w * 2 \<le> unat w * n" using n by (rule mult_le_mono2)
  then have w: "unat w * 2 < 2 ^ 32" using len unat_u32_bound [of len] by linarith
  have "unat x \<le> unat d" using x by (simp add: word_le_nat_alt)
  then have "unat x + unat w < 2 ^ 32" using w unat_u16_bound [of d] by simp
  then have "unat (x + w) = unat x + unat w" by (simp add: unat_word_ariths)
  with fits show ?thesis by (simp add: word_le_nat_alt)
qed

lemma validate_buffer_payload_Inr:
  "validate_buffer_payload info bpp = Inr u \<Longrightarrow>
     unat (sb_length info) = unat (sb_width info) * unat (sb_height info) * bpp
     \<and> (if sb_compression info = 0
        then sb_compressed_length info = 0 \<or> sb_compressed_length info = sb_length info
        else sb_compression info = GUD_COMPRESSION_LZ4
             \<and> 0 < sb_compressed_length info \<and> sb_compressed_length info \<le> sb_length info)"
  by (auto simp: validate_buffer_payload_def Option.bind_eq_Some_conv word_gt_0 not_less
      split: if_splits option.splits)

text \<open>What an accepted SET_BUFFER request promises the receive path.\<close>

definition buffer_fits :: "DisplayStateSnapshot \<Rightarrow> SetBuffer \<Rightarrow> bool" where
  "buffer_fits sn b \<longleftrightarrow>
     (case bytes_per_pixel (sn_format sn) of
        Inl _ \<Rightarrow> False
      | Inr bpp \<Rightarrow>
          0 < unat (sb_width b) \<and> 0 < unat (sb_height b)
          \<and> unat (sb_x b) + unat (sb_width b) \<le> unat (dm_hdisplay (sn_mode sn))
          \<and> unat (sb_y b) + unat (sb_height b) \<le> unat (dm_vdisplay (sn_mode sn))
          \<and> unat (sb_length b) = unat (sb_width b) * unat (sb_height b) * bpp
          \<and> (sb_compression b = 0 \<and> (sb_compressed_length b = 0 \<or> sb_compressed_length b = sb_length b)
             \<or> sb_compression b = GUD_COMPRESSION_LZ4 \<and> 0 < sb_compressed_length b
               \<and> sb_compressed_length b \<le> sb_length b))"

lemma validate_buffer_request_fits:
  assumes "validate_buffer_request oc b g = Inr u"
  shows "\<exists>sn. committed_state (protocol_state g) = Some sn \<and> controller_enabled (protocol_state g)
    \<and> display_enabled (protocol_state g) \<and> buffer_fits sn b"
proof -
  from assms obtain sn bpp where sn: "committed_state (protocol_state g) = Some sn"
    and en: "controller_enabled (protocol_state g)" "display_enabled (protocol_state g)"
    and bpp: "bytes_per_pixel (sn_format sn) = Inr bpp"
    and pos: "0 < unat (sb_width b)" "0 < unat (sb_height b)"
    and x: "sb_x b \<le> ucast (dm_hdisplay (sn_mode sn))"
      "sb_x b + sb_width b \<le> ucast (dm_hdisplay (sn_mode sn))"
    and y: "sb_y b \<le> ucast (dm_vdisplay (sn_mode sn))"
      "sb_y b + sb_height b \<le> ucast (dm_vdisplay (sn_mode sn))"
    and pl: "validate_buffer_payload b bpp = Inr u"
    by (auto simp: validate_buffer_request_def Let_def split: result_splits dest!: plain_add_Inr)
  note len = validate_buffer_payload_Inr [OF pl]
  have n: "2 \<le> bpp" using bytes_per_pixel_Inr [OF bpp] by auto
  have "2 \<le> unat (sb_height b) * bpp" "2 \<le> unat (sb_width b) * bpp"
    using pos n mult_le_mono [of 1 "unat (sb_height b)" 2 bpp]
      mult_le_mono [of 1 "unat (sb_width b)" 2 bpp] by simp_all
  then have "unat (sb_x b) + unat (sb_width b) \<le> unat (dm_hdisplay (sn_mode sn))"
    "unat (sb_y b) + unat (sb_height b) \<le> unat (dm_vdisplay (sn_mode sn))"
    using len rect_side_no_wrap [OF x(2) x(1), of "sb_length b" "unat (sb_height b) * bpp"]
      rect_side_no_wrap [OF y(2) y(1), of "sb_length b" "unat (sb_width b) * bpp"]
    by (simp_all add: mult.commute mult.left_commute)
  with sn en bpp pos len show ?thesis
    by (auto simp: buffer_fits_def split: if_splits)
qed

lemma device_to_host_result:
  "setup_device_to_host ser req g = (Ok (Some e), g', out) \<Longrightarrow>
     e = StatusSent (status_value g) \<or> e = GetDescriptor req \<or> e = GetPixelFormats req \<or> e = GetDisplayModes req"
  by (auto simp: setup_device_to_host_def reply_then_def Let_def current_status_def next_connector_status_def
      split: if_splits sum.splits)

lemma event_Buffer_D:
  assumes "event oc ser dh db ev g = (Ok (Some (Buffer b)), g', out)"
  shows "\<exists>req payload. ev = SetupHostToDevice req \<and> cr_request req = GUD_REQ_SET_BUFFER
    \<and> cr_recv req = Ok payload \<and> g' = g \<and> out = None \<and> status_on_set_set_buffer_permitted g
    \<and> (\<exists>n. db payload = Ok (b, n)) \<and> validate_buffer_request oc b g = Ok ()"
proof (cases ev)
  case (SetupHostToDevice req)
  with assms show ?thesis
    by (auto simp: setup_host_to_device_def Let_def handle_state_check_def reject_state_check_def
        handle_controller_enable_def handle_display_enable_def handle_state_commit_def
        handle_set_buffer_def split: if_splits sum.splits prod.splits err.splits)
next
  case (SetupDeviceToHost req)
  with assms show ?thesis by (auto dest: device_to_host_result)
qed (use assms in \<open>simp_all add: invalidated_def split: prod.splits\<close>)

section \<open>Runs of the control plane\<close>

text \<open>
  \<open>run_events\<close> handles a sequence of EP0 events. \<open>gud_run\<close> is every state the statics can be
  in: configured at startup, then changed by EP0 events, by the replies the application
  completes, and by the receive path's use of the admission guard.
\<close>

fun run_events ::
  "bool \<Rightarrow> ConnectorDescriptor serializer \<Rightarrow> StateCheckHeader deserializer \<Rightarrow> SetBuffer deserializer \<Rightarrow>
   FfsEvent list \<Rightarrow> Globals \<Rightarrow> Globals" where
  "run_events oc ser dh db [] g = g"
| "run_events oc ser dh db (ev # evs) g = run_events oc ser dh db evs (fst (snd (event oc ser dh db ev g)))"

lemma run_events_append:
  "run_events oc ser dh db (xs @ ys) g = run_events oc ser dh db ys (run_events oc ser dh db xs g)"
  by (induction xs arbitrary: g) simp_all

inductive gud_run :: "u8 \<Rightarrow> StateCheckValidation \<Rightarrow> Globals \<Rightarrow> bool" for limit v where
  start: "gud_run limit v (configure_state_check_validation (scv_connector_count v) (scv_formats v)
            (scv_modes v) (configure_status_on_set_diagnostic limit init_globals))"
| event: "gud_run limit v g \<Longrightarrow> gud_run limit v (fst (snd (event oc ser dh db ev g)))"
| begin_receive: "gud_run limit v g \<Longrightarrow>
    gud_run limit v (snd (begin_status_on_set_diagnostic_transaction g))"
| finish_receive: "gud_run limit v g \<Longrightarrow>
    gud_run limit v (snd (finish_status_on_set_diagnostic_transaction g))"
| retire_session: "gud_run limit v g \<Longrightarrow>
    gud_run limit v (retire_status_on_set_transaction_after_session_destruction g)"
| descriptor: "gud_run limit v g \<Longrightarrow> gud_run limit v
    (fst (snd (send_descriptor_with_options sd req mnw mnh mxw mxh c mbs fl g)))"
| modes: "gud_run limit v g \<Longrightarrow> gud_run limit v (fst (snd (send_modes sm req ms g)))"
| formats: "gud_run limit v g \<Longrightarrow> gud_run limit v (fst (snd (send_pixel_formats req fs g)))"

lemma protocol_ok_send: "protocol_ok g \<Longrightarrow> protocol_ok (fst (snd (send_and_mark req data g)))"
  by (simp add: send_and_mark_def split: sum.splits)

lemma protocol_ok_replies:
  "protocol_ok g \<Longrightarrow>
     protocol_ok (fst (snd (send_descriptor_with_options sd req mnw mnh mxw mxh c mbs fl g)))"
  "protocol_ok g \<Longrightarrow> protocol_ok (fst (snd (send_modes sm req ms g)))"
  "protocol_ok g \<Longrightarrow> protocol_ok (fst (snd (send_pixel_formats req fs g)))"
  by (simp_all add: send_descriptor_with_options_def send_modes_def send_pixel_formats_def
      protocol_ok_send split: sum.splits)

text \<open>What no EP0 event changes: the advertised contract and the admission guard.\<close>

definition same_config :: "Globals \<Rightarrow> Globals \<Rightarrow> bool" where
  "same_config g g' \<longleftrightarrow>
     state_check_validation g' = state_check_validation g \<and> diagnostic_guard g' = diagnostic_guard g"

lemma same_config_ops [simp]:
  "same_config g (mark_success g') \<longleftrightarrow> same_config g g'"
  "same_config g (latch_status st g') \<longleftrightarrow> same_config g g'"
  "same_config g (reset_status g') \<longleftrightarrow> same_config g g'"
  "same_config g (reset_connector_status_changed g') \<longleftrightarrow> same_config g g'"
  "same_config g (functionfs_lifecycle_transition g') \<longleftrightarrow> same_config g g'"
  "same_config g (usb_activation_transition g') \<longleftrightarrow> same_config g g'"
  "same_config g (update_controller_enabled e g') \<longleftrightarrow> same_config g g'"
  "same_config g (snd (reset_protocol_state g')) \<longleftrightarrow> same_config g g'"
  "same_config g (snd (clear_pending_state g')) \<longleftrightarrow> same_config g g'"
  "same_config g (g'\<lparr> connector_status_changed_once := b \<rparr>) \<longleftrightarrow> same_config g g'"
  "same_config g g"
  by (simp_all add: same_config_def status_ops reset_connector_status_changed_def
      functionfs_lifecycle_transition_def usb_activation_transition_def update_controller_enabled_def
      reset_protocol_state_def clear_pending_state_def)

lemma same_config_steps:
  "store_pending_state st g = (r, g') \<Longrightarrow> same_config g g'"
  "commit_pending_state g = (r', g') \<Longrightarrow> same_config g g'"
  "update_display_enabled e g = (r'', g') \<Longrightarrow> same_config g g'"
  by (auto simp: same_config_def store_pending_state_def commit_pending_state_def
      update_display_enabled_def Let_def split: option.splits if_splits)

lemma same_config_host_to_device: "same_config g (fst (snd (setup_host_to_device oc dh db req g)))"
proof -
  have rej: "same_config g (fst (snd (reject_state_check g')))" if "same_config g g'" for g'
    using that by (simp add: reject_state_check_def split_def Let_def)
  have check: "same_config g (fst (snd (handle_state_check dh payload g)))" for payload
    by (auto simp: handle_state_check_def rej split: sum.splits prod.splits err.splits dest: same_config_steps)
  have "same_config g (fst (snd (handle_display_enable payload g)))" for payload
    by (auto simp: handle_display_enable_def split: sum.splits prod.splits dest: same_config_steps)
  moreover have "same_config g (fst (snd (handle_state_commit g)))"
    by (auto simp: handle_state_commit_def split: sum.splits prod.splits dest: same_config_steps)
  ultimately show ?thesis
    by (simp add: setup_host_to_device_def Let_def check handle_controller_enable_def
        handle_set_buffer_def split: sum.splits prod.splits err.splits)
qed

lemma same_config_event: "same_config g (fst (snd (event oc ser dh db ev g)))"
proof (cases ev)
  case (SetupHostToDevice req)
  then show ?thesis by (simp add: same_config_host_to_device)
next
  case (SetupDeviceToHost req)
  then show ?thesis
    by (simp add: setup_device_to_host_def reply_then_def next_connector_status_def Let_def
        split: sum.splits)
qed (simp_all add: invalidated_def handle_suspend_transition_def handle_resume_transition_def
       split_def Let_def)

lemma same_config_replies:
  "same_config g (fst (snd (send_descriptor_with_options sd req mnw mnh mxw mxh c mbs fl g)))"
  "same_config g (fst (snd (send_modes sm req ms g)))"
  "same_config g (fst (snd (send_pixel_formats req fs g)))"
  by (simp_all add: send_descriptor_with_options_def send_modes_def send_pixel_formats_def
      send_and_mark_def split: sum.splits)

text \<open>The guard never starts more transactions than its limit.\<close>

definition guard_ok :: "u8 \<Rightarrow> StatusOnSetDiagnosticGuard \<Rightarrow> bool" where
  "guard_ok limit gd \<longleftrightarrow> sg_transaction_limit gd = limit \<and> sg_started_transactions gd \<le> limit"

lemma guard_ok_begin: "guard_ok limit gd \<Longrightarrow> guard_ok limit (snd (begin_after_aio_acceptance gd))"
  by (auto simp: guard_ok_def begin_after_aio_acceptance_def inc_le)

lemma guard_ok_release: "guard_ok limit gd \<Longrightarrow> guard_ok limit (snd (release_after_cleanup gd))"
  by (simp add: guard_ok_def release_after_cleanup_def)

lemma gud_run_ok:
  assumes "gud_run limit v g"
  shows "protocol_ok g \<and> state_check_validation g = v \<and> guard_ok limit (diagnostic_guard g)"
  using assms
proof (induction rule: gud_run.induct)
  case start
  then show ?case
    by (simp add: protocol_ok_def init_globals_def configure_state_check_validation_def
        configure_status_on_set_diagnostic_def guard_ok_def)
next
  case (event g oc ser dh db ev)
  then show ?case
    using protocol_ok_event same_config_event [of g oc ser dh db ev] by (simp add: same_config_def)
next
  case (begin_receive g)
  then show ?case
    by (simp add: begin_status_on_set_diagnostic_transaction_def split_def Let_def guard_ok_begin)
next
  case (finish_receive g)
  then show ?case
    by (simp add: finish_status_on_set_diagnostic_transaction_def split_def Let_def guard_ok_release)
next
  case (retire_session g)
  then show ?case
    by (simp add: retire_status_on_set_transaction_after_session_destruction_def guard_ok_def)
qed (use same_config_replies [unfolded same_config_def] in \<open>simp_all add: protocol_ok_replies\<close>)

section \<open>The handshake before a buffer\<close>

text \<open>
  \<open>requests_of\<close> is the list of host-to-device requests of a sequence of events. \<open>handshake reqs g\<close> says which
  requests the host has sent, in order, given what the state allows.
\<close>

fun requests_of :: "FfsEvent list \<Rightarrow> u8 list" where
  "requests_of [] = []"
| "requests_of (SetupHostToDevice req # evs) = cr_request req # requests_of evs"
| "requests_of (_ # evs) = requests_of evs"

lemma requests_of_append: "requests_of (xs @ ys) = requests_of xs @ requests_of ys"
  by (induction xs rule: requests_of.induct) simp_all

fun is_lifecycle :: "FfsEvent \<Rightarrow> bool" where
  "is_lifecycle (SetupHostToDevice _) = False"
| "is_lifecycle (SetupDeviceToHost _) = False"
| "is_lifecycle (FfsUnknown _) = False"
| "is_lifecycle _ = True"

definition handshake :: "u8 list \<Rightarrow> ProtocolState \<Rightarrow> bool" where
  "handshake reqs p \<longleftrightarrow>
     (pending_state p \<noteq> None \<longrightarrow> subseq [GUD_REQ_SET_STATE_CHECK] reqs)
     \<and> (committed_state p \<noteq> None \<longrightarrow> subseq [GUD_REQ_SET_STATE_CHECK, GUD_REQ_SET_STATE_COMMIT] reqs)
     \<and> (controller_enabled p \<longrightarrow> subseq [GUD_REQ_SET_CONTROLLER_ENABLE] reqs)
     \<and> (display_enabled p \<longrightarrow>
          subseq [GUD_REQ_SET_STATE_CHECK, GUD_REQ_SET_STATE_COMMIT, GUD_REQ_SET_DISPLAY_ENABLE] reqs
          \<and> subseq [GUD_REQ_SET_CONTROLLER_ENABLE, GUD_REQ_SET_DISPLAY_ENABLE] reqs)"

lemma subseq_snoc: "subseq xs ys \<Longrightarrow> subseq xs (ys @ zs)"
  by (metis append_Nil2 list_emb_append_mono list_emb_Nil)

lemma subseq_snoc_same: "subseq xs ys \<Longrightarrow> subseq (xs @ [a]) (ys @ [a])"
  by (simp add: list_emb_append_mono)

lemmas subseq_snoc_steps = subseq_snoc_same [of "[]", simplified] subseq_snoc_same [of "[b]", simplified]
  subseq_snoc_same [of "[b, c]", simplified] for b c

lemma handshake_more: "handshake reqs p \<Longrightarrow> handshake (reqs @ extra) p"
  by (auto simp: handshake_def intro: subseq_snoc)

lemma protocol_state_ops [simp]:
  "protocol_state (mark_success g) = protocol_state g"
  "protocol_state (latch_status st g) = protocol_state g"
  by (simp_all add: status_ops)

lemma handshake_host_to_device:
  assumes "handshake reqs (protocol_state g)"
  shows "handshake (reqs @ [cr_request req]) (protocol_state (fst (snd (setup_host_to_device oc dh db req g))))"
proof -
  note more = handshake_more [OF assms, of "[r]" for r]
  have rej: "handshake rs (protocol_state (fst (snd (reject_state_check g))))"
    if "handshake rs (protocol_state g)" for rs and g :: Globals
    using that by (auto simp: reject_state_check_def clear_pending_state_def handshake_def)
  have check: "handshake (reqs @ [GUD_REQ_SET_STATE_CHECK]) (protocol_state (fst (snd (handle_state_check dh payload g))))"
    for payload
    using more [of GUD_REQ_SET_STATE_CHECK] rej
    by (auto simp: handle_state_check_def store_pending_state_def Let_def
        split: sum.splits err.splits option.splits)
       (auto simp: handshake_def subseq_snoc_steps)
  have ctl: "handshake (reqs @ [GUD_REQ_SET_CONTROLLER_ENABLE])
      (protocol_state (fst (snd (handle_controller_enable payload g))))" for payload
    using more [of GUD_REQ_SET_CONTROLLER_ENABLE]
    by (auto simp: handle_controller_enable_def update_controller_enabled_def handshake_def Let_def
        subseq_snoc_steps split: sum.splits)
  have disp: "handshake (reqs @ [GUD_REQ_SET_DISPLAY_ENABLE])
      (protocol_state (fst (snd (handle_display_enable payload g))))" for payload
    using more [of GUD_REQ_SET_DISPLAY_ENABLE] assms
    by (auto simp: handle_display_enable_def update_display_enabled_def handshake_def Let_def
        subseq_snoc_steps split: sum.splits if_splits)
  have com: "handshake (reqs @ [GUD_REQ_SET_STATE_COMMIT]) (protocol_state (fst (snd (handle_state_commit g))))"
    using more [of GUD_REQ_SET_STATE_COMMIT] assms
    by (auto simp: handle_state_commit_def commit_pending_state_def handshake_def Let_def
        subseq_snoc_steps split: option.splits)
  show ?thesis
    using more check ctl disp com
    by (simp add: setup_host_to_device_def Let_def handle_set_buffer_def
        split: sum.splits prod.splits err.splits)
qed

lemma handshake_run:
  assumes "handshake reqs (protocol_state g)" and "\<forall>ev \<in> set evs. \<not> is_lifecycle ev"
  shows "handshake (reqs @ requests_of evs) (protocol_state (run_events oc ser dh db evs g))"
  using assms
proof (induction evs arbitrary: reqs g)
  case Nil
  then show ?case by simp
next
  case (Cons ev evs)
  let ?g = "fst (snd (event oc ser dh db ev g))"
  have dth: "protocol_state (fst (snd (setup_device_to_host ser req g))) = protocol_state g" for req
    by (simp add: setup_device_to_host_def reply_then_def next_connector_status_def Let_def
        split: sum.splits)
  have step: "handshake (reqs @ requests_of [ev]) (protocol_state ?g)"
  proof (cases ev)
    case (SetupHostToDevice req)
    then show ?thesis using handshake_host_to_device [OF Cons.prems(1)] by simp
  qed (use Cons.prems dth in simp_all)
  have "handshake ((reqs @ requests_of [ev]) @ requests_of evs) (protocol_state (run_events oc ser dh db evs ?g))"
    by (rule Cons.IH [OF step]) (use Cons.prems(2) in simp)
  then show ?case using requests_of_append [of "[ev]" evs] by simp
qed

lemma handshake_reset:
  "is_lifecycle ev \<Longrightarrow> handshake [] (protocol_state (fst (snd (event oc ser dh db ev g))))"
  by (cases ev) (simp_all add: handshake_def invalidated_def handle_suspend_transition_def
      handle_resume_transition_def reset_protocol_state_def reset_status_def split_def Let_def)

section \<open>From a checked state to a commit\<close>

text \<open>Events that leave the pending state alone: no lifecycle event, no state check, no commit.\<close>

fun keeps_pending :: "FfsEvent \<Rightarrow> bool" where
  "keeps_pending (SetupHostToDevice req) \<longleftrightarrow>
     cr_request req \<noteq> GUD_REQ_SET_STATE_CHECK \<and> cr_request req \<noteq> GUD_REQ_SET_STATE_COMMIT"
| "keeps_pending ev \<longleftrightarrow> \<not> is_lifecycle ev"

lemma keeps_pending_event:
  "keeps_pending ev \<Longrightarrow>
     pending_state (protocol_state (fst (snd (event oc ser dh db ev g)))) = pending_state (protocol_state g)"
  by (cases ev)
    (auto simp: setup_host_to_device_def setup_device_to_host_def reply_then_def next_connector_status_def
      handle_controller_enable_def handle_display_enable_def handle_set_buffer_def
      update_controller_enabled_def update_display_enabled_def Let_def
      split: sum.splits prod.splits err.splits if_splits)

lemma keeps_pending_run:
  "\<forall>ev \<in> set evs. keeps_pending ev \<Longrightarrow>
     pending_state (protocol_state (run_events oc ser dh db evs g)) = pending_state (protocol_state g)"
  by (induction evs arbitrary: g) (simp_all add: keeps_pending_event)

lemma event_StateChecked_D:
  assumes "event oc ser dh db ev g = (Ok (Some (StateChecked sn)), g', out)"
  shows "\<exists>req payload st. ev = SetupHostToDevice req \<and> cr_request req = GUD_REQ_SET_STATE_CHECK
    \<and> cr_recv req = Ok payload
    \<and> validate_state_check_payload dh (state_check_validation g) payload = Ok st
    \<and> fst (store_pending_state st g) = Ok sn \<and> g' = mark_success (snd (store_pending_state st g))"
proof (cases ev)
  case (SetupHostToDevice req)
  with assms show ?thesis
    by (auto simp: setup_host_to_device_def Let_def handle_state_check_def reject_state_check_def
        handle_controller_enable_def handle_display_enable_def handle_state_commit_def
        handle_set_buffer_def split: if_splits sum.splits prod.splits err.splits)
next
  case (SetupDeviceToHost req)
  with assms show ?thesis by (auto dest: device_to_host_result)
qed (use assms in \<open>simp_all add: invalidated_def split: prod.splits\<close>)

lemma store_pending_fst:
  "fst (store_pending_state st g) = Ok sn \<Longrightarrow>
     pending_state (protocol_state (snd (store_pending_state st g))) = Some sn
     \<and> sn_generation sn = next_generation (protocol_state g) + 1
     \<and> sn_mode sn = ds_mode st \<and> sn_format sn = ds_format st \<and> sn_connector sn = ds_connector st"
  by (auto simp: store_pending_state_def Let_def split: option.splits dest!: checked_succ_Some)

definition commit_request :: FfsEvent where
  "commit_request = SetupHostToDevice \<lparr> cr_request = GUD_REQ_SET_STATE_COMMIT, cr_recv = Ok [] \<rparr>"

lemma commit_event:
  "event oc ser dh db commit_request g = handle_state_commit g"
  by (simp add: commit_request_def setup_host_to_device_def)

section \<open>No panic in a release build\<close>

definition transfer_total :: "FfsEvent \<Rightarrow> bool" where
  "transfer_total ev \<longleftrightarrow>
     (case ev of SetupHostToDevice req \<Rightarrow> \<not> panics (cr_recv req)
      | SetupDeviceToHost req \<Rightarrow> (\<forall>data. \<not> panics (cs_send req data))
      | _ \<Rightarrow> True)"

lemma not_panics_Inl: "\<not> panics (Inl e :: 'a result) \<Longrightarrow> \<not> panics (Inl e :: 'b result)"
  by (cases e) simp_all

lemma validate_buffer_no_panic: "\<not> panics (validate_buffer_request False b g)"
proof -
  have payload: "\<not> panics (validate_buffer_payload b n)" for n
    by (simp add: validate_buffer_payload_def split: option.split)
  show ?thesis
  proof (cases "committed_state (protocol_state g)")
    case (Some sn)
    have "bytes_per_pixel (sn_format sn) = Inl e \<Longrightarrow> \<exists>m. e = Error m" for e
      by (simp add: bytes_per_pixel_def split: if_splits) metis
    then show ?thesis
      using Some payload
      by (cases "bytes_per_pixel (sn_format sn)") (auto simp: validate_buffer_request_def Let_def)
  qed (simp add: validate_buffer_request_def Let_def)
qed

lemma validate_state_check_no_panic:
  "(\<And>bs. \<not> panics (de bs)) \<Longrightarrow> \<not> panics (validate_state_check_payload de v payload)"
proof (cases "de payload")
  case (Inl e)
  assume "\<And>bs. \<not> panics (de bs)"
  with Inl have "\<not> panics (Inl e :: DisplayState result)" by (metis not_panics_Inl)
  with Inl show ?thesis by (simp add: validate_state_check_payload_def)
qed (simp add: validate_state_check_payload_def split: prod.splits)

lemma reply_no_panic: "\<forall>data. \<not> panics (cs_send req data) \<Longrightarrow> \<not> panics (fst (reply_then req data g k))"
  by (simp add: reply_then_def split: sum.splits prod.splits) (metis not_panics_Inl)

lemma host_to_device_no_panic:
  assumes "\<And>bs. \<not> panics (dh bs)" and "\<And>bs. \<not> panics (db bs)" and "\<not> panics (cr_recv req)"
  shows "\<not> panics (fst (setup_host_to_device False dh db req g))"
proof -
  have check: "\<not> panics (fst (handle_state_check dh payload g))" for payload
    using validate_state_check_no_panic [of dh "state_check_validation g" payload, OF assms(1)]
    by (auto simp: handle_state_check_def reject_state_check_def split_def Let_def
        split: sum.splits err.splits prod.splits)
  have recv: "cr_recv req = Inl e \<Longrightarrow> \<not> panics (Inl e :: Event option result)" for e
    using assms(3) by (metis not_panics_Inl)
  have bufd: "db payload = Inl e \<Longrightarrow> \<not> panics (Inl e :: Event option result)" for e payload
    using assms(2) by (metis not_panics_Inl)
  have buf: "\<not> panics (fst (handle_set_buffer False db payload g))" for payload
    using validate_buffer_no_panic [of _ g] bufd
    by (auto simp: handle_set_buffer_def split: sum.splits err.splits prod.splits)
       (metis panics_simps(2))
  show ?thesis
    using check buf recv
    by (auto simp: setup_host_to_device_def Let_def handle_controller_enable_def handle_display_enable_def
        handle_state_commit_def split: sum.splits prod.splits)
qed

section \<open>A concrete session\<close>

text \<open>The values the witnesses below evaluate: a 640x480 mode, its contract and a full handshake.\<close>

definition mode_640x480 :: DisplayMode where
  "mode_640x480 = \<lparr> dm_clock = 25175, dm_hdisplay = 640, dm_hsync_start = 656, dm_hsync_end = 752,
     dm_htotal = 800, dm_vdisplay = 480, dm_vsync_start = 490, dm_vsync_end = 492, dm_vtotal = 525,
     dm_flags = GUD_DISPLAY_MODE_FLAG_PREFERRED \<rparr>"

definition sample_contract :: StateCheckValidation where
  "sample_contract = \<lparr> scv_connector_count = 1, scv_formats = [GUD_PIXEL_FORMAT_RGB565],
     scv_modes = [mode_640x480] \<rparr>"

definition sample_snapshot :: DisplayStateSnapshot where
  "sample_snapshot = \<lparr> sn_mode = mode_640x480, sn_format = GUD_PIXEL_FORMAT_RGB565,
     sn_connector = 0, sn_generation = 1 \<rparr>"

definition sample_start :: "u64 \<Rightarrow> Globals" where
  "sample_start epoch = (configure_state_check_validation 1 [GUD_PIXEL_FORMAT_RGB565] [mode_640x480]
     (configure_status_on_set_diagnostic 0 init_globals))
       \<lparr> functionfs_lifecycle_generation := epoch, usb_activation_generation := epoch \<rparr>"

text \<open>The state after the check, the commit and both enables.\<close>

definition sample_active :: "u64 \<Rightarrow> Globals" where
  "sample_active epoch = (sample_start epoch)\<lparr> protocol_state :=
     \<lparr> pending_state = None, committed_state = Some sample_snapshot, next_generation = 1,
       controller_enabled = True, display_enabled = True \<rparr> \<rparr>"

definition host_request :: "u8 \<Rightarrow> bytes \<Rightarrow> FfsEvent" where
  "host_request request payload = SetupHostToDevice \<lparr> cr_request = request, cr_recv = Ok payload \<rparr>"

definition sample_check :: FfsEvent where
  "sample_check = host_request GUD_REQ_SET_STATE_CHECK
     (enc_StateCheckHeader \<lparr> sch_mode = mode_640x480, sch_format = GUD_PIXEL_FORMAT_RGB565, sch_connector = 0 \<rparr>)"

definition sample_handshake :: "FfsEvent list" where
  "sample_handshake = [sample_check, host_request GUD_REQ_SET_STATE_COMMIT [],
     host_request GUD_REQ_SET_CONTROLLER_ENABLE [1], host_request GUD_REQ_SET_DISPLAY_ENABLE [1]]"

definition sample_buffer :: SetBuffer where
  "sample_buffer = \<lparr> sb_x = 0, sb_y = 0, sb_width = 640, sb_height = 2, sb_length = 2560,
     sb_compression = 0, sb_compressed_length = 0 \<rparr>"

lemmas sample_defs = sample_start_def sample_active_def sample_snapshot_def sample_contract_def
  configure_state_check_validation_def configure_status_on_set_diagnostic_def init_globals_def
  host_request_def sample_check_def sample_handshake_def sample_buffer_def

lemma sample_check_payload:
  "validate_state_check_payload de_StateCheckHeader
     \<lparr> scv_connector_count = 1, scv_formats = [GUD_PIXEL_FORMAT_RGB565], scv_modes = [mode_640x480] \<rparr>
     (enc_StateCheckHeader \<lparr> sch_mode = mode_640x480, sch_format = GUD_PIXEL_FORMAT_RGB565, sch_connector = 0 \<rparr>)
   = Ok \<lparr> ds_mode = mode_640x480, ds_format = GUD_PIXEL_FORMAT_RGB565, ds_connector = 0 \<rparr>"
  using state_check_header.de_enc [of _ "[]"]
  by (simp add: validate_state_check_payload_def)

lemma sample_handshake_run:
  "run_events False ser de_StateCheckHeader db sample_handshake (sample_start n) = sample_active n"
  by (simp add: sample_defs setup_host_to_device_def handle_state_check_def sample_check_payload
      store_pending_state_def checked_add_def status_ops handle_state_commit_def commit_pending_state_def
      handle_controller_enable_def handle_display_enable_def parse_enable_request_def
      update_controller_enabled_def update_display_enabled_def)

lemma sample_buffer_event:
  "event False ser dh de_SetBuffer (host_request GUD_REQ_SET_BUFFER (enc_SetBuffer sample_buffer)) (sample_active n)
   = (Ok (Some (Buffer sample_buffer)), sample_active n, None)"
  using set_buffer.de_enc [of sample_buffer "[]"]
  by (simp add: host_request_def setup_host_to_device_def handle_set_buffer_def
      status_on_set_set_buffer_permitted_def set_buffer_permitted_def)
     (simp add: sample_defs mode_640x480_def validate_buffer_request_def validate_buffer_payload_def
      bytes_per_pixel_def checked_mul_usize_def usize_bound_def word_le_nat_alt)

lemma gud_run_events: "gud_run limit v g \<Longrightarrow> gud_run limit v (run_events oc ser dh db evs g)"
  by (induction evs arbitrary: g) (simp_all add: gud_run.event)

lemma sample_active_run: "gud_run 0 sample_contract (sample_active 0)"
proof -
  have "gud_run 0 sample_contract (sample_start 0)"
    using gud_run.start [of 0 sample_contract] by (simp add: sample_defs)
  then show ?thesis
    using gud_run_events [of 0 sample_contract "sample_start 0"] sample_handshake_run by metis
qed

section \<open>Main properties\<close>

text \<open>C2. In every state the control plane can reach, the display is enabled only with an enabled
  controller and a committed state, generations of stored states were issued in order and never
  exceed the counter, every pending and committed state was advertised, the status latch is armed
  exactly while a failure is reported, and the receive guard has started at most its limit.\<close>

theorem control_plane_invariant:
  assumes "gud_run limit v g"
  shows "protocol_ok g \<and> state_check_validation g = v \<and> guard_ok limit (diagnostic_guard g)"
  using gud_run_ok [OF assms] .

theorem control_plane_invariant_witness: "protocol_ok (sample_active 0)"
  using control_plane_invariant [OF sample_active_run] by blast

text \<open>C1. A SET_BUFFER request that the handler accepts, in a debug or a release build, names a
  non-empty rectangle inside the committed mode, computed without wrap-around, and its length is
  exactly the rectangle's size in the committed pixel format; the statics are unchanged, both
  enables are on, and the receive guard can be acquired for it.\<close>

theorem accepted_buffer_in_bounds:
  assumes "event oc ser dh db ev g = (Ok (Some (Buffer b)), g', out)"
  shows "g' = g \<and> controller_enabled (protocol_state g) \<and> display_enabled (protocol_state g)
    \<and> (\<exists>sn. committed_state (protocol_state g) = Some sn \<and> buffer_fits sn b)
    \<and> is_ok (fst (begin_status_on_set_diagnostic_transaction g))"
proof -
  note D = event_Buffer_D [OF assms]
  then have "is_ok (fst (begin_status_on_set_diagnostic_transaction g))"
    by (auto simp: status_on_set_set_buffer_permitted_def set_buffer_permitted_def
        begin_status_on_set_diagnostic_transaction_def begin_after_aio_acceptance_def)
  with D show ?thesis by (blast dest: validate_buffer_request_fits)
qed

theorem accepted_buffer_in_bounds_witness: "buffer_fits sample_snapshot sample_buffer"
  using accepted_buffer_in_bounds [OF sample_buffer_event [of ser_ConnectorDescriptor de_StateCheckHeader 0]]
  by (simp add: sample_active_def)



text \<open>C4. A checked state is what is committed: after an accepted state check, and any events that
  are neither lifecycle events nor further checks or commits, a commit request succeeds with exactly
  the checked snapshot, and a second commit is refused with INVALID_PARAMETER.\<close>

theorem checked_state_is_committed:
  assumes "event oc ser dh db ev g = (Ok (Some (StateChecked sn)), g', out)"
    and "\<forall>e \<in> set evs. keeps_pending e"
  defines "h \<equiv> run_events oc ser dh db evs g'"
  shows "\<exists>h'. event oc ser dh db commit_request h = (Ok (Some (StateCommitted sn)), h', None)
    \<and> committed_state (protocol_state h') = Some sn
    \<and> pending_state (protocol_state h') = None
    \<and> event oc ser dh db commit_request h'
      = (Ok (Some (ProtocolStateInvalidated None CommitWithoutPending)),
         latch_status GUD_STATUS_INVALID_PARAMETER h', None)"
proof -
  have "pending_state (protocol_state g') = Some sn"
    using event_StateChecked_D [OF assms(1)] by (auto dest: store_pending_fst)
  then have "pending_state (protocol_state h) = Some sn"
    using keeps_pending_run [OF assms(2)] by (simp add: h_def)
  then show ?thesis
    by (simp add: commit_event handle_state_commit_def commit_pending_state_def)
qed

theorem checked_state_is_committed_witness:
  "\<exists>h'. event False ser_ConnectorDescriptor de_StateCheckHeader de_SetBuffer commit_request
      (fst (snd (event False ser_ConnectorDescriptor de_StateCheckHeader de_SetBuffer sample_check (sample_start 0))))
     = (Ok (Some (StateCommitted sample_snapshot)), h', None)"
proof -
  have check: "event False ser_ConnectorDescriptor de_StateCheckHeader de_SetBuffer sample_check (sample_start 0)
      = (Ok (Some (StateChecked sample_snapshot)),
         fst (snd (event False ser_ConnectorDescriptor de_StateCheckHeader de_SetBuffer sample_check (sample_start 0))), None)"
    by (simp add: sample_defs setup_host_to_device_def handle_state_check_def sample_check_payload
        store_pending_state_def checked_add_def Let_def)
  show ?thesis using checked_state_is_committed [OF check, of "[]"] by auto
qed

text \<open>C5. A state check is accepted exactly when its payload is a header followed by whole
  properties, the header names an advertised connector, format and timing, and the generation
  counter is not exhausted; it then becomes the pending state under the next generation. Otherwise
  the pending state is dropped, its generation reported, and INVALID_PARAMETER is latched.\<close>

theorem state_check_outcome:
  fixes g :: Globals
  assumes "ssmarshal enc_StateCheckHeader dec_StateCheckHeader 26 ser_h dh"
    and "cr_request req = GUD_REQ_SET_STATE_CHECK" and "cr_recv req = Ok payload"
  defines "h \<equiv> dec_StateCheckHeader (take 26 payload)"
    and "nxt \<equiv> next_generation (protocol_state g)"
  defines "sn \<equiv> \<lparr> sn_mode = sch_mode h, sn_format = sch_format h, sn_connector = sch_connector h,
                  sn_generation = nxt + 1 \<rparr>"
  shows "event oc ser dh db (SetupHostToDevice req) g =
    (if 26 \<le> length payload \<and> (length payload - 26) mod 10 = 0
        \<and> snapshot_advertised (state_check_validation g) sn \<and> unat nxt + 1 < 2 ^ 64
     then (Ok (Some (StateChecked sn)),
           mark_success (g\<lparr> protocol_state := (protocol_state g)\<lparr> next_generation := nxt + 1,
                                                pending_state := Some sn \<rparr> \<rparr>), None)
     else (Ok (Some (ProtocolStateInvalidated (map_option sn_generation (pending_state (protocol_state g)))
                       InvalidStateCheck)),
           latch_status GUD_STATUS_INVALID_PARAMETER
             (g\<lparr> protocol_state := (protocol_state g)\<lparr> pending_state := None \<rparr> \<rparr>), None))"
proof -
  let ?v = "state_check_validation g"
  let ?st = "\<lparr> ds_mode = sch_mode h, ds_format = sch_format h, ds_connector = sch_connector h \<rparr>"
  let ?ok = "26 \<le> length payload \<and> (length payload - 26) mod 10 = 0 \<and> snapshot_advertised ?v sn"
  have adv: "snapshot_advertised ?v sn \<longleftrightarrow> sch_connector h < scv_connector_count ?v
      \<and> sch_format h \<in> set (scv_formats ?v)
      \<and> list_ex (\<lambda>m. modes_have_same_user_timing m (sch_mode h)) (scv_modes ?v)"
    by (simp add: snapshot_advertised_def sn_def list_ex_iff)
  have yes: "validate_state_check_payload dh ?v payload = Ok ?st" if ?ok
    using that ssmarshal.de_fits [OF assms(1), of payload] unfolding adv
    by (auto simp: validate_state_check_payload_def h_def word_gt_0)
  have no: "\<exists>m. validate_state_check_payload dh ?v payload = Err m" if "\<not> ?ok"
    using that ssmarshal.de_fits [OF assms(1), of payload] unfolding adv
    by (auto simp: validate_state_check_payload_def h_def)
  have succ: "checked_add nxt 1 = (if unat nxt + 1 < 2 ^ 64 then Some (nxt + 1) else None)"
    by (simp add: checked_add_def)
  have rej: "reject_state_check g =
      (Ok (Some (ProtocolStateInvalidated (map_option sn_generation (pending_state (protocol_state g)))
                  InvalidStateCheck)),
       latch_status GUD_STATUS_INVALID_PARAMETER
         (g\<lparr> protocol_state := (protocol_state g)\<lparr> pending_state := None \<rparr> \<rparr>), None)"
    by (simp add: reject_state_check_def clear_pending_state_def)
  have ev: "event oc ser dh db (SetupHostToDevice req) g = handle_state_check dh payload g"
    using assms(2,3) by (simp add: setup_host_to_device_def)
  show ?thesis
  proof (cases ?ok)
    case True
    then show ?thesis
      unfolding ev handle_state_check_def yes [OF True] store_pending_state_def nxt_def [symmetric] succ
      by (simp add: rej sn_def Let_def)
  next
    case False
    with no obtain m where m: "validate_state_check_payload dh ?v payload = Err m" by blast
    with False show ?thesis unfolding ev handle_state_check_def m by (auto simp: rej)
  qed
qed

theorem state_check_outcome_witness:
  "fst (event False ser_ConnectorDescriptor de_StateCheckHeader de_SetBuffer
          (host_request GUD_REQ_SET_STATE_CHECK [1, 2, 3]) (sample_active 0))
   = Ok (Some (ProtocolStateInvalidated None InvalidStateCheck))"
  unfolding host_request_def
  by (subst state_check_outcome [OF state_check_header.ssmarshal_axioms, where payload = "[1, 2, 3]"])
     (simp_all add: sample_active_def)

text \<open>C6. No EP0 event makes a release build of the handler panic, whatever the host sends, when the
  transfers themselves do not panic.\<close>

theorem event_release_no_panic:
  assumes "ssmarshal enc_StateCheckHeader dec_StateCheckHeader 26 ser_h dh"
    and "ssmarshal enc_SetBuffer dec_SetBuffer 25 ser_b db"
    and "ssmarshal enc_ConnectorDescriptor dec_ConnectorDescriptor 5 ser de_c"
    and "transfer_total ev"
  shows "\<not> panics (fst (event False ser dh db ev g))"
proof (cases ev)
  case (SetupHostToDevice req)
  then show ?thesis
    using host_to_device_no_panic [of dh db req g, OF ssmarshal.de_no_panic [OF assms(1)]
        ssmarshal.de_no_panic [OF assms(2)]] assms(4)
    by (simp add: transfer_total_def)
next
  case (SetupDeviceToHost req)
  have "serialize_connector_descriptors ser [c] = Ok (enc_ConnectorDescriptor c)" for c
    unfolding serialize_connector_descriptors_def
    by (subst ssmarshal.serialize_all_exact [OF assms(3)]) simp_all
  with SetupDeviceToHost assms(4) show ?thesis
    by (simp add: setup_device_to_host_def Let_def reply_no_panic next_connector_status_def transfer_total_def)
qed (simp_all add: invalidated_def split_def Let_def)

theorem event_release_no_panic_witness:
  "\<not> panics (fst (event False ser_ConnectorDescriptor de_StateCheckHeader de_SetBuffer
      (host_request GUD_REQ_SET_BUFFER
         (enc_SetBuffer (sample_buffer\<lparr> sb_x := 1, sb_width := 0xffffffff \<rparr>))) (sample_active 0)))"
  by (rule event_release_no_panic [OF state_check_header.ssmarshal_axioms set_buffer.ssmarshal_axioms
        connector_descriptor.ssmarshal_axioms]) (simp add: transfer_total_def host_request_def)

text \<open>The same request in a debug build, whose additions are checked, ends in a panic.\<close>

lemma set_buffer_debug_panic:
  "panics (fst (event True ser dh de_SetBuffer
      (host_request GUD_REQ_SET_BUFFER
         (enc_SetBuffer (sample_buffer\<lparr> sb_x := 1, sb_width := 0xffffffff \<rparr>))) (sample_active n)))"
  using set_buffer.de_enc [of "sample_buffer\<lparr> sb_x := 1, sb_width := 0xffffffff \<rparr>" "[]"]
  by (simp add: host_request_def setup_host_to_device_def handle_set_buffer_def
      status_on_set_set_buffer_permitted_def set_buffer_permitted_def)
     (simp add: sample_defs mode_640x480_def validate_buffer_request_def plain_add_def
      bytes_per_pixel_def word_le_nat_alt)


text \<open>C8. The descriptor is sent exactly when only supported flags are asked for, the natural
  buffer size \<open>4 * width * height\<close> fits 32 bits and the advertised limit is positive and not above
  it; what is sent is the 30-byte encoding of the descriptor with the protocol magic, and no
  integer of it wrapped.\<close>

theorem send_descriptor_outcome:
  fixes mxw mxh :: u32 and mbs :: "u32 option"
  assumes "ssmarshal enc_DisplayDescriptor dec_DisplayDescriptor 30 ser de"
    and "\<And>data. is_ok (cs_send req data)"
  defines "sz \<equiv> case mbs of None \<Rightarrow> mxw * mxh * 4 | Some n \<Rightarrow> n"
  shows "if flags AND NOT GUD_DISPLAY_FLAG_STATUS_ON_SET = 0 \<and> unat mxw * unat mxh * 4 < 2 ^ 32
            \<and> 0 < sz \<and> unat sz \<le> unat mxw * unat mxh * 4
    then \<exists>out. send_descriptor_with_options ser req mnw mnh mxw mxh c mbs flags g
           = (Ok (), mark_success g, Some out) \<and> length out = 30
           \<and> de out = Ok (\<lparr> dd_magic = GUD_DISPLAY_MAGIC, dd_version = 1, dd_flags = flags,
               dd_compression = c, dd_max_buffer_size = sz, dd_min_width = mnw, dd_max_width = mxw,
               dd_min_height = mnh, dd_max_height = mxh \<rparr>, 30)
    else \<exists>m. send_descriptor_with_options ser req mnw mnh mxw mxh c mbs flags g = (Err m, g, None)"
    (is "if ?ok then ?sent else ?refused")
proof -
  let ?d = "\<lparr> dd_magic = GUD_DISPLAY_MAGIC, dd_version = 1, dd_flags = flags,
               dd_compression = c, dd_max_buffer_size = sz, dd_min_width = mnw, dd_max_width = mxw,
               dd_min_height = mnh, dd_max_height = mxh \<rparr>"
  let ?fits = "unat mxw * unat mxh * 4 < 2 ^ 32 \<and> 0 < sz \<and> unat sz \<le> unat mxw * unat mxh * 4"
  have natural: "unat (mxw * mxh * 4) = unat mxw * unat mxh * 4" if "unat mxw * unat mxh * 4 < 2 ^ 32"
    using that by (simp add: unat_word_ariths mult.commute [of "unat mxw"])
  have built: "build_display_descriptor_with_flags mnw mnh mxw mxh c mbs flags = Inr d \<longleftrightarrow> ?fits \<and> d = ?d" for d
    using natural by (auto simp: build_display_descriptor_Ok sz_def word_le_nat_alt)
  have not_panic: "build_display_descriptor_with_flags mnw mnh mxw mxh c mbs flags = Inl e \<Longrightarrow> \<exists>m. e = Error m" for e
    by (auto simp: build_display_descriptor_with_flags_def Let_def split: option.splits if_splits)
  have sent: "serialize_display_descriptor ser ?d = Ok (enc_DisplayDescriptor ?d)"
    using ssmarshal.ser_exact [OF assms(1), of "replicate 30 0" ?d] by (simp add: serialize_display_descriptor_def)
  obtain n where n: "cs_send req (enc_DisplayDescriptor ?d) = Ok n"
    using assms(2) by (auto simp: is_ok_iff)
  have ?sent if ok: ?ok
  proof -
    have "build_display_descriptor_with_flags mnw mnh mxw mxh c mbs flags = Inr ?d" using ok built by blast
    then have "send_descriptor_with_options ser req mnw mnh mxw mxh c mbs flags g
        = (Ok (), mark_success g, Some (enc_DisplayDescriptor ?d))"
      using ok sent n by (simp add: send_descriptor_with_options_def send_and_mark_def)
    then show ?thesis using ssmarshal.de_enc [OF assms(1), of ?d "[]"] by simp
  qed
  moreover have ?refused if no: "\<not> ?ok"
  proof (cases "build_display_descriptor_with_flags mnw mnh mxw mxh c mbs flags")
    case (Inl e)
    with not_panic [OF Inl] show ?thesis by (auto simp: send_descriptor_with_options_def)
  next
    case (Inr d)
    with no built [of d] show ?thesis by (simp add: send_descriptor_with_options_def)
  qed
  ultimately show ?thesis by presburger
qed

theorem send_descriptor_outcome_witness:
  "\<exists>out. send_descriptor_with_options ser_DisplayDescriptor
      \<lparr> cs_request = GUD_REQ_GET_DESCRIPTOR, cs_length = 30, cs_send = (\<lambda>data. Ok (length data)) \<rparr>
      640 480 640 480 1 None 0 init_globals = (Ok (), mark_success init_globals, Some out)"
  using send_descriptor_outcome [OF display_descriptor.ssmarshal_axioms,
      of "\<lparr> cs_request = GUD_REQ_GET_DESCRIPTOR, cs_length = 30, cs_send = (\<lambda>data. Ok (length data)) \<rparr>"
        0 640 480 None 640 480 1 init_globals]
  by auto



end
