(* ===== verification/Gud_Exact_Aio.thy ===== *)
theory Gud_Exact_Aio
  imports Gud_Protocol
begin

text \<open>
  The exact receive transaction of \<^verbatim>\<open>gadget/src/lib.rs\<close> (\<open>ExactAioTransaction\<close>): one state
  machine per endpoint that owns the single AIO receive of a SET_BUFFER from its submission to
  the end of its processing, and that can leave the poisoned state only through the destruction
  of the USB session. \<open>now\<close> is the clock reading an operation takes; \<open>activation\<close> is the value of
  the static \<^verbatim>\<open>USB_ACTIVATION_GENERATION\<close> it loads.
\<close>

datatype ExactAioState =
  Idle | Arming | InFlight | Processing | Poisoned | AbortedBySessionDestruction

record RetiredExactAioTransaction =
  ra_epoch_id :: u64
  ra_transaction_seq :: u64

record ExactAioTransaction =
  xa_state :: ExactAioState
  xa_epoch_id :: u64
  xa_sequence :: u64
  xa_expected_bytes :: usize
  xa_started :: "instant option"
  xa_accepted_at :: "instant option"
  xa_operation :: "u64 option"
  xa_activation_generation :: "u64 option"
  xa_metadata :: "SetBuffer option"
  xa_status_ready :: bool
  xa_last_retired :: "RetiredExactAioTransaction option"

definition default_exact_aio :: ExactAioTransaction where
  "default_exact_aio =
     \<lparr> xa_state = Idle, xa_epoch_id = 0, xa_sequence = 0, xa_expected_bytes = 0, xa_started = None,
       xa_accepted_at = None, xa_operation = None, xa_activation_generation = None,
       xa_metadata = None, xa_status_ready = False, xa_last_retired = None \<rparr>"

abbreviation MAX_EXACT_AIO_PAYLOAD_SIZE :: usize where
  "MAX_EXACT_AIO_PAYLOAD_SIZE \<equiv> 67108864"

section \<open>Operations\<close>

definition begin_arm :: "instant \<Rightarrow> u64 \<Rightarrow> usize \<Rightarrow> ExactAioTransaction \<Rightarrow> u64 result \<times> ExactAioTransaction" where
  "begin_arm now activation expected_bytes t =
     (if \<not> xa_state t = Idle then (Err ''cannot arm exact FunctionFS AIO receive'', t)
      else if \<not> expected_bytes > 0 then (Err ''exact FunctionFS AIO payload is empty'', t)
      else if \<not> expected_bytes \<le> MAX_EXACT_AIO_PAYLOAD_SIZE
      then (Err ''exact FunctionFS AIO payload exceeds guarded maximum'', t)
      else case checked_add (xa_sequence t) 1 of
        None \<Rightarrow> (Err ''exact FunctionFS AIO sequence exhausted; refusing identifier reuse'', t)
      | Some seq \<Rightarrow>
          (Ok seq, t\<lparr> xa_sequence := seq, xa_expected_bytes := expected_bytes, xa_started := Some now,
                      xa_activation_generation := Some activation, xa_state := Arming \<rparr>))"

definition begin_arm_with_metadata ::
  "instant \<Rightarrow> u64 \<Rightarrow> SetBuffer \<Rightarrow> usize \<Rightarrow> ExactAioTransaction \<Rightarrow> u64 result \<times> ExactAioTransaction" where
  "begin_arm_with_metadata now activation metadata expected_bytes t =
     (case begin_arm now activation expected_bytes t of
        (Inl e, t') \<Rightarrow> (Inl e, t')
      | (Inr seq, t') \<Rightarrow> (Ok seq, t'\<lparr> xa_metadata := Some metadata \<rparr>))"

definition submission_accepted_operation ::
  "instant \<Rightarrow> u64 \<Rightarrow> ExactAioTransaction \<Rightarrow> unit result \<times> ExactAioTransaction" where
  "submission_accepted_operation now operation t =
     (if \<not> xa_state t = Arming then (Err ''AIO acceptance outside Arming'', t)
      else (Ok (), t\<lparr> xa_operation := Some operation, xa_accepted_at := Some now,
                      xa_status_ready := False, xa_state := InFlight \<rparr>))"

definition submission_rejected :: "ExactAioTransaction \<Rightarrow> unit result \<times> ExactAioTransaction" where
  "submission_rejected t =
     (if \<not> xa_state t = Arming then (Err ''AIO rejection outside Arming'', t)
      else (Ok (), t\<lparr> xa_state := Idle, xa_expected_bytes := 0, xa_started := None,
                      xa_accepted_at := None, xa_activation_generation := None,
                      xa_metadata := None, xa_status_ready := False \<rparr>))"

definition status_sent :: "u8 \<Rightarrow> ExactAioTransaction \<Rightarrow> bool result \<times> ExactAioTransaction" where
  "status_sent status t =
     (if xa_state t \<noteq> InFlight then (Ok False, t)
      else if xa_status_ready t then (Ok False, t)
      else if \<not> status = GUD_STATUS_OK then (Err ''armed SET_BUFFER received non-OK status'', t)
      else (Ok True, t\<lparr> xa_status_ready := True \<rparr>))"

definition poison :: "ExactAioTransaction \<Rightarrow> ExactAioTransaction" where
  "poison t = t\<lparr> xa_state := Poisoned \<rparr>"

definition completion_for_operation ::
  "u64 \<Rightarrow> u64 \<Rightarrow> usize \<Rightarrow> ExactAioTransaction \<Rightarrow> unit result \<times> ExactAioTransaction" where
  "completion_for_operation activation operation actual_bytes t =
     (if xa_state t \<noteq> InFlight
      then (Err ''exact FunctionFS AIO completion arrived outside InFlight'', poison t)
      else if xa_operation t \<noteq> Some operation
      then (Err ''exact FunctionFS AIO completion identity does not match active transaction'', poison t)
      else if xa_activation_generation t \<noteq> Some activation
      then (Err ''exact FunctionFS AIO completion activation generation does not match'', poison t)
      else if \<not> xa_status_ready t
      then (Err ''exact FunctionFS AIO completion arrived before GET_STATUS=OK'', poison t)
      else if actual_bytes \<noteq> xa_expected_bytes t
      then (Err ''exact FunctionFS AIO completion length mismatch'', poison t)
      else (Ok (), t\<lparr> xa_state := Processing \<rparr>))"

text \<open>The fields every terminal operation clears.\<close>

definition clear_transaction :: "ExactAioTransaction \<Rightarrow> ExactAioTransaction" where
  "clear_transaction t =
     t\<lparr> xa_expected_bytes := 0, xa_started := None, xa_accepted_at := None, xa_operation := None,
        xa_activation_generation := None, xa_metadata := None, xa_status_ready := False \<rparr>"

definition finish_processing :: "ExactAioTransaction \<Rightarrow> unit result \<times> ExactAioTransaction" where
  "finish_processing t =
     (if \<not> xa_state t = Processing then (Err ''return to Idle without successful processing'', t)
      else (Ok (), clear_transaction (t\<lparr> xa_state := Idle \<rparr>)))"

definition retire_after_session_destruction ::
  "ExactAioTransaction \<Rightarrow> RetiredExactAioTransaction result \<times> ExactAioTransaction" where
  "retire_after_session_destruction t =
     (if \<not> (xa_state t = Arming \<or> xa_state t = InFlight \<or> xa_state t = Poisoned)
      then (Err ''cannot retire exact AIO transaction'', t)
      else (let retired = \<lparr> ra_epoch_id = xa_epoch_id t, ra_transaction_seq = xa_sequence t \<rparr> in
            (Ok retired,
             (clear_transaction (t\<lparr> xa_state := AbortedBySessionDestruction \<rparr>))
               \<lparr> xa_last_retired := Some retired \<rparr>)))"

definition begin_usb_epoch :: "u64 \<Rightarrow> ExactAioTransaction \<Rightarrow> unit result \<times> ExactAioTransaction" where
  "begin_usb_epoch epoch_id t =
     (if \<not> (xa_state t = Idle \<or> xa_state t = AbortedBySessionDestruction)
      then (Err ''cannot begin USB epoch'', t)
      else if \<not> epoch_id > xa_epoch_id t then (Err ''USB epoch identifier did not increase'', t)
      else (Ok (), t\<lparr> xa_epoch_id := epoch_id, xa_state := Idle \<rparr>))"

lemmas exact_aio_ops [model_defs] = begin_arm_def begin_arm_with_metadata_def
  submission_accepted_operation_def submission_rejected_def status_sent_def
  completion_for_operation_def finish_processing_def poison_def
  retire_after_session_destruction_def begin_usb_epoch_def clear_transaction_def

section \<open>The state machine\<close>

text \<open>
  \<open>xa_step\<close> is one operation of any kind, in any environment; the label names the operation
  and its inputs.
\<close>

datatype XaOp =
    Arm instant u64 SetBuffer usize
  | Accept instant u64
  | Reject
  | StatusOp u8
  | Complete u64 u64 usize
  | Finish
  | Poison
  | Retire
  | BeginEpoch u64

fun xa_apply :: "XaOp \<Rightarrow> ExactAioTransaction \<Rightarrow> bool \<times> ExactAioTransaction" where
  "xa_apply (Arm now act info n) t = (let (r, t') = begin_arm_with_metadata now act info n t in (is_ok r, t'))"
| "xa_apply (Accept now op) t = (let (r, t') = submission_accepted_operation now op t in (is_ok r, t'))"
| "xa_apply Reject t = (let (r, t') = submission_rejected t in (is_ok r, t'))"
| "xa_apply (StatusOp st) t = (let (r, t') = status_sent st t in (is_ok r, t'))"
| "xa_apply (Complete act op n) t = (let (r, t') = completion_for_operation act op n t in (is_ok r, t'))"
| "xa_apply Finish t = (let (r, t') = finish_processing t in (is_ok r, t'))"
| "xa_apply Poison t = (True, poison t)"
| "xa_apply Retire t = (let (r, t') = retire_after_session_destruction t in (is_ok r, t'))"
| "xa_apply (BeginEpoch e) t = (let (r, t') = begin_usb_epoch e t in (is_ok r, t'))"

fun xa_run :: "XaOp list \<Rightarrow> ExactAioTransaction \<Rightarrow> ExactAioTransaction" where
  "xa_run [] t = t"
| "xa_run (op # ops) t = xa_run ops (snd (xa_apply op t))"

text \<open>
  \<open>xa_ok\<close>: the fields agree with the state. Outside a transaction nothing of the last one is
  left over; an armed transaction has its metadata, size and activation; an accepted one has its
  operation.
\<close>

definition xa_ok :: "ExactAioTransaction \<Rightarrow> bool" where
  "xa_ok t \<longleftrightarrow>
     (case xa_state t of
        Idle \<Rightarrow> xa_expected_bytes t = 0 \<and> xa_operation t = None \<and> xa_metadata t = None
                \<and> xa_activation_generation t = None \<and> \<not> xa_status_ready t \<and> xa_started t = None
      | AbortedBySessionDestruction \<Rightarrow>
                xa_expected_bytes t = 0 \<and> xa_operation t = None \<and> xa_metadata t = None
                \<and> xa_activation_generation t = None \<and> \<not> xa_status_ready t \<and> xa_started t = None
                \<and> xa_last_retired t = Some \<lparr> ra_epoch_id = xa_epoch_id t, ra_transaction_seq = xa_sequence t \<rparr>
      | Arming \<Rightarrow> 0 < xa_expected_bytes t \<and> xa_expected_bytes t \<le> MAX_EXACT_AIO_PAYLOAD_SIZE
                \<and> xa_operation t = None \<and> xa_metadata t \<noteq> None \<and> xa_activation_generation t \<noteq> None
                \<and> \<not> xa_status_ready t
      | InFlight \<Rightarrow> 0 < xa_expected_bytes t \<and> xa_expected_bytes t \<le> MAX_EXACT_AIO_PAYLOAD_SIZE
                \<and> xa_operation t \<noteq> None \<and> xa_metadata t \<noteq> None \<and> xa_activation_generation t \<noteq> None
      | Processing \<Rightarrow> 0 < xa_expected_bytes t \<and> xa_expected_bytes t \<le> MAX_EXACT_AIO_PAYLOAD_SIZE
                \<and> xa_operation t \<noteq> None \<and> xa_metadata t \<noteq> None \<and> xa_status_ready t
      | Poisoned \<Rightarrow> True)"

lemma xa_ok_default: "xa_ok default_exact_aio"
  by (simp add: xa_ok_def default_exact_aio_def)

lemma xa_ok_apply: "xa_ok t \<Longrightarrow> xa_ok (snd (xa_apply op t))"
  by (cases op) (auto simp: exact_aio_ops xa_ok_def Let_def split: option.splits ExactAioState.splits)

lemma xa_ok_run: "xa_ok t \<Longrightarrow> xa_ok (xa_run ops t)"
  by (induction ops arbitrary: t) (simp_all add: xa_ok_apply)

lemma xa_ok_begin_arm:
  "begin_arm_with_metadata now act info n t = (r, t') \<Longrightarrow> xa_ok t \<Longrightarrow> xa_ok t'"
  using xa_ok_apply [of t "Arm now act info n"] by simp

text \<open>Sequence numbers and epochs only grow.\<close>

lemma xa_monotone:
  "xa_sequence t \<le> xa_sequence (snd (xa_apply op t)) \<and> xa_epoch_id t \<le> xa_epoch_id (snd (xa_apply op t))"
proof (cases "checked_add (xa_sequence t) 1")
  case None
  then show ?thesis by (cases op) (auto simp: exact_aio_ops Let_def)
next
  case (Some c)
  then show ?thesis using checked_succ_Some [OF Some] by (cases op) (auto simp: exact_aio_ops Let_def)
qed

lemma xa_run_append: "xa_run (xs @ ys) t = xa_run ys (xa_run xs t)"
  by (induction xs arbitrary: t) simp_all

lemma xa_run_monotone:
  "xa_sequence t \<le> xa_sequence (xa_run ops t) \<and> xa_epoch_id t \<le> xa_epoch_id (xa_run ops t)"
proof (induction ops arbitrary: t)
  case (Cons op ops)
  then show ?case using xa_monotone [of t op] order_trans by (metis xa_run.simps(2))
qed simp

section \<open>History of an accepted completion\<close>

text \<open>
  What the operations performed so far must contain, in order, for the machine to be in its
  state.
\<close>

definition armed_in :: "XaOp list \<Rightarrow> ExactAioTransaction \<Rightarrow> bool" where
  "armed_in ops t \<longleftrightarrow>
     (\<exists>now act info. xa_activation_generation t = Some act \<and> xa_metadata t = Some info
        \<and> subseq [Arm now act info (xa_expected_bytes t)] ops)"

definition accepted_in :: "XaOp list \<Rightarrow> ExactAioTransaction \<Rightarrow> bool" where
  "accepted_in ops t \<longleftrightarrow>
     (\<exists>now act info now' op. xa_activation_generation t = Some act \<and> xa_metadata t = Some info
        \<and> xa_operation t = Some op
        \<and> subseq ([Arm now act info (xa_expected_bytes t), Accept now' op]
                  @ (if xa_status_ready t then [StatusOp GUD_STATUS_OK] else [])) ops)"

definition xa_history :: "XaOp list \<Rightarrow> ExactAioTransaction \<Rightarrow> bool" where
  "xa_history ops t \<longleftrightarrow>
     (xa_state t = Arming \<longrightarrow> armed_in ops t) \<and> (xa_state t = InFlight \<longrightarrow> accepted_in ops t)"

lemma armed_in_more: "armed_in ops t \<Longrightarrow> armed_in (ops @ [op]) t"
  by (auto simp: armed_in_def intro: subseq_snoc)

lemma accepted_in_more: "accepted_in ops t \<Longrightarrow> accepted_in (ops @ [op]) t"
  unfolding accepted_in_def using subseq_snoc by meson

lemma xa_history_more: "xa_history ops t \<Longrightarrow> xa_history (ops @ [op]) t"
  by (auto simp: xa_history_def intro: armed_in_more accepted_in_more)

lemma xa_history_arm:
  "xa_history ops t \<Longrightarrow> xa_history (ops @ [Arm now act info n]) (snd (xa_apply (Arm now act info n) t))"
  using xa_history_more [of ops t "Arm now act info n"]
  by (auto simp: exact_aio_ops xa_history_def armed_in_def Let_def subseq_snoc_steps split: option.splits)

lemma xa_history_accept:
  assumes "xa_history ops t"
  shows "xa_history (ops @ [Accept now op]) (snd (xa_apply (Accept now op) t))"
proof (cases "xa_state t = Arming")
  case True
  with assms obtain now' act info where "xa_activation_generation t = Some act" "xa_metadata t = Some info"
    "subseq [Arm now' act info (xa_expected_bytes t)] ops" by (auto simp: xa_history_def armed_in_def)
  with True show ?thesis
    by (auto simp: exact_aio_ops xa_history_def accepted_in_def intro!: exI subseq_snoc_steps(2))
next
  case False
  then show ?thesis using xa_history_more [OF assms] by (simp add: exact_aio_ops)
qed

lemma xa_history_status:
  assumes "xa_history ops t"
  shows "xa_history (ops @ [StatusOp st]) (snd (xa_apply (StatusOp st) t))"
proof (cases "xa_state t = InFlight \<and> \<not> xa_status_ready t \<and> st = GUD_STATUS_OK")
  case True
  with assms obtain now' act info now'' op where "xa_activation_generation t = Some act"
    "xa_metadata t = Some info" "xa_operation t = Some op"
    "subseq [Arm now' act info (xa_expected_bytes t), Accept now'' op] ops"
    by (auto simp: xa_history_def accepted_in_def)
  with True show ?thesis
    by (auto simp: exact_aio_ops xa_history_def accepted_in_def intro!: exI subseq_snoc_steps(3))
next
  case False
  then show ?thesis using xa_history_more [OF assms] by (auto simp: exact_aio_ops)
qed

lemma xa_history_apply:
  assumes "xa_history ops t"
  shows "xa_history (ops @ [op]) (snd (xa_apply op t))"
proof (cases op)
  case (Complete act i n)
  then show ?thesis using xa_history_more [OF assms, of op]
    by (auto simp: exact_aio_ops xa_history_def)
qed (use xa_history_arm [OF assms] xa_history_accept [OF assms] xa_history_status [OF assms]
       xa_history_more [OF assms, of op] in \<open>auto simp: exact_aio_ops xa_history_def Let_def\<close>)

lemma xa_history_run: "xa_history ops (xa_run ops default_exact_aio)"
proof (induction ops rule: rev_induct)
  case Nil
  then show ?case by (simp add: xa_history_def default_exact_aio_def)
next
  case (snoc op ops)
  then show ?case using xa_history_apply [OF snoc] by (simp add: xa_run_append)
qed

section \<open>Main properties\<close>

text \<open>C13. A completion is accepted only for the receive it belongs to: whenever one is accepted, the
  transaction was armed earlier under the same USB activation for a payload of exactly the completed
  length, the kernel then accepted the receive with exactly the completed identity, and after that the
  host was answered GET_STATUS with OK.\<close>

theorem accepted_completion_history:
  assumes "xa_apply (Complete act op n) (xa_run ops default_exact_aio) = (True, t')"
  shows "xa_state t' = Processing
    \<and> (\<exists>now info now'. xa_metadata t' = Some info \<and> 0 < n \<and> n \<le> MAX_EXACT_AIO_PAYLOAD_SIZE
        \<and> subseq [Arm now act info n, Accept now' op, StatusOp GUD_STATUS_OK] ops)"
proof -
  let ?t = "xa_run ops default_exact_aio"
  have st: "xa_state ?t = InFlight" "xa_operation ?t = Some op" "xa_activation_generation ?t = Some act"
    "xa_status_ready ?t" "n = xa_expected_bytes ?t" and t': "t' = ?t\<lparr> xa_state := Processing \<rparr>"
    using assms by (auto simp: completion_for_operation_def split: if_splits)
  have "accepted_in ops ?t" using xa_history_run [of ops] st(1) by (simp add: xa_history_def)
  moreover have "xa_ok ?t" by (rule xa_ok_run [OF xa_ok_default])
  ultimately show ?thesis using st t' by (auto simp: accepted_in_def xa_ok_def)
qed

theorem accepted_completion_history_witness:
  "\<exists>now info now'. subseq [Arm now 7 info 2560, Accept now' 3, StatusOp GUD_STATUS_OK]
     [Arm 10 7 sample_buffer 2560, Accept 11 3, StatusOp GUD_STATUS_OK]"
  using accepted_completion_history [of 7 3 2560 "[Arm 10 7 sample_buffer 2560, Accept 11 3, StatusOp GUD_STATUS_OK]"]
  by (auto simp: exact_aio_ops default_exact_aio_def checked_add_def)

text \<open>C14. A poisoned transaction stays poisoned whatever operations follow, and refuses every new
  receive, until the session's destruction retires it; after that a strictly newer USB epoch brings it
  back to an Idle machine with nothing left over from the poisoned receive.\<close>

theorem poisoned_until_retired:
  assumes "xa_state t = Poisoned" and "Retire \<notin> set ops"
  shows "xa_state (xa_run ops t) = Poisoned \<and> \<not> fst (xa_apply (Arm now act info n) (xa_run ops t))
    \<and> (epoch > xa_epoch_id (xa_run ops t) \<longrightarrow>
        (let t' = xa_run [Retire, BeginEpoch epoch] (xa_run ops t)
         in xa_state t' = Idle \<and> xa_ok t' \<and> xa_epoch_id t' = epoch))"
proof -
  have "xa_state (snd (xa_apply op t)) = Poisoned" if "xa_state t = Poisoned" "op \<noteq> Retire" for op t
    using that by (cases op) (auto simp: exact_aio_ops Let_def split: option.splits)
  then have p: "xa_state (xa_run ops t) = Poisoned"
    using assms by (induction ops arbitrary: t) auto
  then show ?thesis by (simp add: exact_aio_ops xa_ok_def Let_def)
qed

theorem poisoned_until_retired_witness:
  "xa_state (xa_run [Poison, Finish, Arm 1 2 sample_buffer 3] default_exact_aio) = Poisoned"
  using poisoned_until_retired [of "xa_run [Poison] default_exact_aio" "[Finish, Arm 1 2 sample_buffer 3]"]
  by (simp add: poison_def)

text \<open>C15. The machine's fields always agree with its state (an idle or retired transaction keeps
  nothing of the last receive, an accepted one knows its operation, its size within the guarded maximum
  and its activation), and every armed receive gets a sequence number never used before.\<close>

theorem exact_aio_wellformed:
  shows "xa_ok (xa_run ops default_exact_aio)
    \<and> (\<forall>now act info n. fst (xa_apply (Arm now act info n) (xa_run ops default_exact_aio)) \<longrightarrow>
        xa_sequence (xa_run ops default_exact_aio)
        < xa_sequence (xa_run (ops @ Arm now act info n # later) default_exact_aio))"
proof -
  let ?t = "xa_run ops default_exact_aio"
  have "xa_sequence ?t < xa_sequence (snd (xa_apply (Arm now act info n) ?t))"
    if "fst (xa_apply (Arm now act info n) ?t)" for now act info n
    using that checked_succ_Some [of "xa_sequence ?t"]
    by (auto simp: exact_aio_ops Let_def split: option.splits if_splits)
  then have "xa_sequence ?t < xa_sequence (xa_run (ops @ Arm now act info n # later) default_exact_aio)"
    if "fst (xa_apply (Arm now act info n) ?t)" for now act info n
    using that xa_run_monotone [of "snd (xa_apply (Arm now act info n) ?t)" later] less_le_trans
    by (simp add: xa_run_append) blast
  then show ?thesis using xa_ok_run [OF xa_ok_default] by blast
qed

theorem exact_aio_wellformed_witness:
  "xa_sequence (xa_run [] default_exact_aio) < xa_sequence (xa_run [Arm 1 2 sample_buffer 3, Poison] default_exact_aio)"
  using exact_aio_wellformed [of "[]" "[Poison]"]
  by (force simp: exact_aio_ops default_exact_aio_def checked_add_def)

end
