(* ===== verification/Gud_Bulk.thy ===== *)
theory Gud_Bulk
  imports Gud_Protocol
begin

text \<open>
  The data plane of \<^verbatim>\<open>gadget/src/lib.rs\<close>: blocking FunctionFS reads of a payload, and the copy
  of a payload into a framebuffer.

  A read of the endpoint is answered by the kernel: a read outcome is an error, or the count it
  returned with the bytes it stored. A sequence of reads consumes a list of outcomes; when the
  list is used up the read is still blocked and the loop's value is \<open>None\<close>.
\<close>

abbreviation FUNCTIONFS_BULK_OUT_MAX_PACKET_SIZE :: usize where
  "FUNCTIONFS_BULK_OUT_MAX_PACKET_SIZE \<equiv> 512"
abbreviation FUNCTIONFS_BULK_OUT_MIN_READ_SIZE :: usize where
  "FUNCTIONFS_BULK_OUT_MIN_READ_SIZE \<equiv> 4096"
abbreviation FUNCTIONFS_BULK_OUT_MAX_READ_SIZE :: usize where
  "FUNCTIONFS_BULK_OUT_MAX_READ_SIZE \<equiv> 65536"

type_synonym read_outcome = "(usize \<times> bytes) result"

record BulkReadStats =
  brs_read_calls :: usize
  brs_first_request_bytes :: usize
  brs_last_request_bytes :: usize

definition default_bulk_stats :: BulkReadStats where
  "default_bulk_stats = \<lparr> brs_read_calls = 0, brs_first_request_bytes = 0, brs_last_request_bytes = 0 \<rparr>"

datatype FunctionFsReadCompletion = Exact | Short | InvalidKernelCompletion

definition classify_functionfs_read_completion :: "usize \<Rightarrow> usize \<Rightarrow> usize \<Rightarrow> FunctionFsReadCompletion" where
  "classify_functionfs_read_completion result_bytes request_bytes remaining_before =
     (if result_bytes > request_bytes \<or> result_bytes > remaining_before then InvalidKernelCompletion
      else if result_bytes < request_bytes then Short
      else Exact)"

text \<open>\<open>n & 511 == 0\<close> on a \<open>usize\<close>.\<close>

definition packet_aligned :: "usize \<Rightarrow> bool" where
  "packet_aligned n \<longleftrightarrow> and n (FUNCTIONFS_BULK_OUT_MAX_PACKET_SIZE - 1) = 0"

definition validate_functionfs_read_size :: "usize \<Rightarrow> unit result" where
  "validate_functionfs_read_size read_size =
     (if \<not> (FUNCTIONFS_BULK_OUT_MIN_READ_SIZE \<le> read_size \<and> read_size \<le> FUNCTIONFS_BULK_OUT_MAX_READ_SIZE)
      then Err ''FunctionFS read size out of range''
      else if \<not> packet_aligned read_size then Err ''FunctionFS read size must be a multiple of the packet size''
      else Ok ())"

definition usb_packet_estimate :: "usize \<Rightarrow> usize" where
  "usb_packet_estimate n = (n + FUNCTIONFS_BULK_OUT_MAX_PACKET_SIZE - 1) div FUNCTIONFS_BULK_OUT_MAX_PACKET_SIZE"

section \<open>Exact blocking reads\<close>

text \<open>
  The loop of \<open>read_functionfs_payload\<close>. The kernel stores \<open>data\<close> in the requested part of the
  buffer (never more than was requested) and returns \<open>n\<close>.
\<close>

fun read_payload_loop ::
  "usize \<Rightarrow> usize \<Rightarrow> read_outcome list \<Rightarrow> bytes \<Rightarrow> usize \<Rightarrow> BulkReadStats \<Rightarrow>
   (BulkReadStats result \<times> bytes \<times> read_outcome list) option" where
  "read_payload_loop payload_len read_size [] buf received stats =
     (if received < payload_len then None else Some (Ok stats, buf, []))"
| "read_payload_loop payload_len read_size (outcome # reads) buf received stats =
     (if \<not> received < payload_len then Some (Ok stats, buf, outcome # reads)
      else
        let remaining_before = payload_len - received;
            request_bytes = min remaining_before read_size;
            stats = (if brs_read_calls stats = 0
                     then stats\<lparr> brs_first_request_bytes := request_bytes \<rparr> else stats) in
        case outcome of
          Inl e \<Rightarrow> Some (Inl e, buf, reads)
        | Inr (n, data) \<Rightarrow>
            let buf = blit buf received (take request_bytes data);
                stats = stats\<lparr> brs_read_calls := brs_read_calls stats + 1,
                               brs_last_request_bytes := request_bytes \<rparr> in
            case classify_functionfs_read_completion n request_bytes remaining_before of
              InvalidKernelCompletion \<Rightarrow>
                Some (Err ''invalid kernel FunctionFS read completion'', buf, reads)
            | Short \<Rightarrow> Some (Err ''short FunctionFS bulk OUT read'', buf, reads)
            | Exact \<Rightarrow> read_payload_loop payload_len read_size reads buf (received + n) stats)"

definition read_functionfs_payload ::
  "read_outcome list \<Rightarrow> bytes \<Rightarrow> usize \<Rightarrow> usize \<Rightarrow>
   (BulkReadStats result \<times> bytes \<times> read_outcome list) option" where
  "read_functionfs_payload reads buf payload_len read_size =
     (if \<not> (read_size \<ge> FUNCTIONFS_BULK_OUT_MAX_PACKET_SIZE \<and> packet_aligned read_size)
      then Some (Err ''internal FunctionFS read size'', buf, reads)
      else if \<not> payload_len > 0 then Some (Err ''FunctionFS payload length must be non-zero'', buf, reads)
      else read_payload_loop payload_len read_size reads (replicate payload_len 0) 0 default_bulk_stats)"

section \<open>Legacy 512-byte reads\<close>

text \<open>
  Packets of at most 512 bytes are appended until the payload is complete; an empty packet is
  skipped, and an overshoot is truncated. The recycled packet buffers have no effect on the
  result and are left out.
\<close>

fun read_legacy_loop ::
  "usize \<Rightarrow> read_outcome list \<Rightarrow> bytes \<Rightarrow> BulkReadStats \<Rightarrow>
   (BulkReadStats result \<times> bytes \<times> read_outcome list) option" where
  "read_legacy_loop len [] buf stats =
     (if length buf < len then None else Some (Ok stats, take len buf, []))"
| "read_legacy_loop len (outcome # reads) buf stats =
     (if \<not> length buf < len then Some (Ok stats, take len buf, outcome # reads)
      else case outcome of
        Inl e \<Rightarrow> Some (Inl e, buf, reads)
      | Inr (n, data) \<Rightarrow>
          let packet = blit (replicate FUNCTIONFS_BULK_OUT_MAX_PACKET_SIZE 0) 0
                         (take FUNCTIONFS_BULK_OUT_MAX_PACKET_SIZE data);
              stats = stats\<lparr> brs_read_calls := Suc (brs_read_calls stats) \<rparr>;
              stats = (if brs_read_calls stats = 1
                       then stats\<lparr> brs_first_request_bytes := FUNCTIONFS_BULK_OUT_MAX_PACKET_SIZE \<rparr> else stats);
              stats = stats\<lparr> brs_last_request_bytes := FUNCTIONFS_BULK_OUT_MAX_PACKET_SIZE \<rparr> in
          if n = 0 then read_legacy_loop len reads buf stats
          else read_legacy_loop len reads (buf @ take n packet) stats)"

definition read_legacy_512_payload ::
  "read_outcome list \<Rightarrow> usize \<Rightarrow> (BulkReadStats result \<times> bytes \<times> read_outcome list) option" where
  "read_legacy_512_payload reads len = read_legacy_loop len reads [] default_bulk_stats"

section \<open>Copy into the framebuffer\<close>

definition copy_row_body ::
  "SetBuffer \<Rightarrow> bytes \<Rightarrow> usize \<Rightarrow> usize \<Rightarrow> usize \<Rightarrow> nat \<Rightarrow> bytes \<times> usize \<Rightarrow> (bytes \<times> usize) result" where
  "copy_row_body info buf fb_pitch line_start line_len y = (\<lambda>(fb, buf_pos).
     (case Option.bind (checked_mul_usize y fb_pitch) (\<lambda>offset. checked_add_usize offset line_start) of
        None \<Rightarrow> Err ''framebuffer update destination offset overflow''
      | Some fb_start \<Rightarrow>
          (case checked_add_usize fb_start line_len of
             None \<Rightarrow> Err ''framebuffer update destination end overflow''
           | Some fb_end \<Rightarrow>
               (case slice buf buf_pos (buf_pos + line_len) of
                  Inl e \<Rightarrow> Inl e
                | Inr line \<Rightarrow>
                    (case copy_into fb fb_start line of
                       Inl e \<Rightarrow> Inl e
                     | Inr fb' \<Rightarrow> Ok (fb', buf_pos + line_len))))))"

definition copy_buffer_to_framebuffer ::
  "SetBuffer \<Rightarrow> bytes \<Rightarrow> bytes \<Rightarrow> usize \<Rightarrow> usize \<Rightarrow> bytes result" where
  "copy_buffer_to_framebuffer info buf fb fb_pitch bpp =
     (if \<not> bpp > 0 then Err ''bytes per pixel must be greater than zero''
      else case checked_add_usize (unat (sb_y info)) (unat (sb_height info)) of
        None \<Rightarrow> Err ''framebuffer update end row overflow''
      | Some end_y \<Rightarrow>
      case checked_mul_usize (unat (sb_width info)) bpp of
        None \<Rightarrow> Err ''framebuffer update line length overflow''
      | Some line_len \<Rightarrow>
      case checked_mul_usize (unat (sb_x info)) bpp of
        None \<Rightarrow> Err ''framebuffer update line start overflow''
      | Some line_start \<Rightarrow>
      case checked_mul_usize line_len (unat (sb_height info)) of
        None \<Rightarrow> Err ''framebuffer update payload length overflow''
      | Some expected_len \<Rightarrow>
      if \<not> length buf \<ge> expected_len then Err ''payload too short''
      else case checked_add_usize line_start line_len of
        None \<Rightarrow> Err ''framebuffer row length overflow''
      | Some row_len \<Rightarrow>
      if \<not> fb_pitch \<ge> row_len then Err ''framebuffer pitch is too small for update''
      else case checked_mul_usize end_y fb_pitch of
        None \<Rightarrow> Err ''framebuffer update destination length overflow''
      | Some required_fb_len \<Rightarrow>
      if \<not> length fb \<ge> required_fb_len then Err ''framebuffer too short''
      else (case for_range (unat (sb_y info)) end_y
                   (copy_row_body info buf fb_pitch line_start line_len) (fb, 0) of
              Inl e \<Rightarrow> Inl e
            | Inr (fb', _) \<Rightarrow> Ok fb'))"

section \<open>Decompression\<close>

text \<open>
  \<open>finish_payload\<close>: the payload handed to the copy. \<open>lz4\<close> is \<^verbatim>\<open>lz4::block::decompress_to_buffer\<close>:
  given the source, the announced size as an \<open>i32\<close> and the destination, it returns the
  destination with the decompressed bytes at its front and their number. The result also has
  the new contents of the decompression buffer.
\<close>

definition finish_payload ::
  "(bytes \<Rightarrow> 32 word \<Rightarrow> bytes \<Rightarrow> (bytes \<times> usize) result) \<Rightarrow> SetBuffer \<Rightarrow> bytes \<Rightarrow> bytes \<Rightarrow>
   bytes result \<times> bytes" where
  "finish_payload lz4 info buf compress_buf =
     (if sb_compression info > 0 then
        (let dest = (if length compress_buf < unat (sb_length info)
                     then compress_buf @ replicate (unat (sb_length info) - length compress_buf) 0
                     else compress_buf) in
         case lz4 buf (sb_length info) dest of
           Inl e \<Rightarrow> (Inl e, dest)
         | Inr (dest', decompressed) \<Rightarrow> (Ok dest', dest'))
      else (Ok buf, compress_buf))"

section \<open>Lemmas on the copy\<close>

lemma row_range:
  assumes "ls + ll \<le> (pitch :: nat)"
  shows "y * pitch + ls \<le> i \<and> i < y * pitch + ls + ll \<longleftrightarrow>
    i div pitch = y \<and> ls \<le> i mod pitch \<and> i mod pitch < ls + ll"
proof
  assume r: "y * pitch + ls \<le> i \<and> i < y * pitch + ls + ll"
  then have "i = y * pitch + (i - y * pitch)" and "i - y * pitch < pitch" using assms by linarith+
  then have "i div pitch = y" "i mod pitch = i - y * pitch"
    by (metis div_mult_self3 div_less add_0_right less_nat_zero_code not_gr_zero add.commute)
       (metis \<open>i = y * pitch + (i - y * pitch)\<close> \<open>i - y * pitch < pitch\<close> mod_less mod_mult_self3)
  with r show "i div pitch = y \<and> ls \<le> i mod pitch \<and> i mod pitch < ls + ll" by linarith
next
  assume r: "i div pitch = y \<and> ls \<le> i mod pitch \<and> i mod pitch < ls + ll"
  then have "i = y * pitch + i mod pitch" by (metis div_mult_mod_eq)
  with r show "y * pitch + ls \<le> i \<and> i < y * pitch + ls + ll" by linarith
qed

text \<open>What byte \<open>i\<close> of the framebuffer is after rows \<open>y0 ..< y\<close> of the update are copied.\<close>

definition copied_byte ::
  "bytes \<Rightarrow> bytes \<Rightarrow> usize \<Rightarrow> usize \<Rightarrow> usize \<Rightarrow> nat \<Rightarrow> nat \<Rightarrow> nat \<Rightarrow> u8" where
  "copied_byte buf fb pitch ls ll y0 y i =
     (let r = i div pitch; c = i mod pitch in
      if y0 \<le> r \<and> r < y \<and> ls \<le> c \<and> c < ls + ll then buf ! ((r - y0) * ll + (c - ls)) else fb ! i)"

definition copy_inv ::
  "bytes \<Rightarrow> bytes \<Rightarrow> usize \<Rightarrow> usize \<Rightarrow> usize \<Rightarrow> nat \<Rightarrow> nat \<Rightarrow> bytes \<times> usize \<Rightarrow> bool" where
  "copy_inv buf fb pitch ls ll y0 y = (\<lambda>(fb', pos). length fb' = length fb \<and> pos = (y - y0) * ll
     \<and> (\<forall>i < length fb. fb' ! i = copied_byte buf fb pitch ls ll y0 y i))"

lemma copy_row_step:
  assumes fit: "ls + ll \<le> pitch" and rows: "y0 \<le> y" "y < y1"
    and fb: "y1 * pitch \<le> length fb" "length fb < usize_bound" and buf: "(y1 - y0) * ll \<le> length buf"
    and inv: "copy_inv buf fb pitch ls ll y0 y st"
  shows "\<exists>st'. copy_row_body info buf pitch ls ll y st = Inr st' \<and> copy_inv buf fb pitch ls ll y0 (Suc y) st'"
proof -
  obtain fb' pos where st: "st = (fb', pos)" by (cases st)
  have len: "length fb' = length fb" and pos: "pos = (y - y0) * ll"
    and old: "\<And>i. i < length fb \<Longrightarrow> fb' ! i = copied_byte buf fb pitch ls ll y0 y i"
    using inv by (simp_all add: st copy_inv_def)
  have "Suc y * pitch \<le> y1 * pitch" using rows by (intro mult_le_mono1) simp
  then have row_end: "y * pitch + ls + ll \<le> length fb" using fit fb(1) by simp
  have "(Suc y - y0) * ll \<le> (y1 - y0) * ll" using rows by (intro mult_le_mono1) simp
  then have line: "pos + ll \<le> length buf" using buf pos rows by (simp add: Suc_diff_le)
  let ?line = "take ll (drop pos buf)"
  let ?new = "blit fb' (y * pitch + ls) ?line"
  have body: "copy_row_body info buf pitch ls ll y st = Inr (?new, pos + ll)"
    using row_end line len fb(2)
    by (simp add: copy_row_body_def st checked_mul_usize_def checked_add_usize_def slice_def copy_into_def)
  have "?new ! i = copied_byte buf fb pitch ls ll y0 (Suc y) i" if i: "i < length fb" for i
  proof (cases "y * pitch + ls \<le> i \<and> i < y * pitch + ls + ll")
    case True
    note rc = row_range [OF fit, of y i, THEN iffD1, OF True]
    have "i = y * pitch + i mod pitch" using rc by (metis div_mult_mod_eq)
    then have "i - (y * pitch + ls) = i mod pitch - ls" by linarith
    then show ?thesis
      using True rc row_end line len i rows pos
      by (auto simp: nth_blit copied_byte_def Let_def)
  next
    case False
    then have "\<not> (i div pitch = y \<and> ls \<le> i mod pitch \<and> i mod pitch < ls + ll)"
      using row_range [OF fit, of y i] by blast
    then show ?thesis
      using False row_end line len i old [OF i] by (auto simp: nth_blit copied_byte_def Let_def less_Suc_eq)
  qed
  then have "copy_inv buf fb pitch ls ll y0 (Suc y) (?new, pos + ll)"
    using len row_end line rows pos by (simp add: copy_inv_def Suc_diff_le)
  with body show ?thesis by blast
qed

lemma copy_rows:
  assumes fit: "ls + ll \<le> pitch" and rows: "y0 \<le> y1"
    and fb: "y1 * pitch \<le> length fb" "length fb < usize_bound" and buf: "(y1 - y0) * ll \<le> length buf"
  shows "\<exists>st'. for_range y0 y1 (copy_row_body info buf pitch ls ll) (fb, 0) = Inr st'
    \<and> copy_inv buf fb pitch ls ll y0 y1 st'"
proof (rule for_range_total [OF rows])
  show "copy_inv buf fb pitch ls ll y0 y0 (fb, 0)"
    by (auto simp: copy_inv_def copied_byte_def Let_def)
next
  fix k st
  assume "y0 \<le> k" "k < y1" "copy_inv buf fb pitch ls ll y0 k st"
  then show "\<exists>st'. copy_row_body info buf pitch ls ll k st = Inr st' \<and> copy_inv buf fb pitch ls ll y0 (Suc k) st'"
    by (rule copy_row_step [OF fit _ _ fb buf])
qed

section \<open>Lemmas on the reads\<close>

definition honest_read :: "read_outcome \<Rightarrow> bool" where
  "honest_read outcome = (case outcome of Inl _ \<Rightarrow> True | Inr (n, data) \<Rightarrow> length data = n)"

definition ceil_div :: "nat \<Rightarrow> nat \<Rightarrow> nat" where
  "ceil_div a b = (a + b - 1) div b"

lemma ceil_div_0 [simp]: "0 < b \<Longrightarrow> ceil_div 0 b = 0"
  by (simp add: ceil_div_def)

lemma ceil_div_step:
  assumes "0 < a" and "0 < b"
  shows "ceil_div a b = Suc (ceil_div (a - min a b) b)"
proof (cases "a \<le> b")
  case True
  then have "(a + b - 1) div b = 1"
    using assms by (intro div_nat_eqI) simp_all
  with True assms show ?thesis by (simp add: ceil_div_def min_def)
next
  case False
  have "(a - 1 + b) div b = Suc ((a - 1) div b)" using assms by (subst div_add_self2) simp_all
  moreover have "a - 1 + b = a + b - 1" "a - b + b - 1 = a - 1" using False assms by simp_all
  ultimately show ?thesis using False by (simp only: ceil_div_def min_def if_False)
qed

lemma classify_Exact:
  "classify_functionfs_read_completion n request remaining = Exact \<longleftrightarrow> n = request \<and> n \<le> remaining"
  by (auto simp: classify_functionfs_read_completion_def)

lemma read_loop_returns:
  "0 < rs \<Longrightarrow> received \<le> len \<Longrightarrow> ceil_div (len - received) rs \<le> length reads \<Longrightarrow>
     \<exists>r. read_payload_loop len rs reads buf received stats = Some r"
proof (induction len rs reads buf received stats rule: read_payload_loop.induct)
  case (1 len rs buf received stats)
  then show ?case using ceil_div_step [of "len - received" rs] by (cases "received < len") auto
next
  case (2 len rs outcome reads buf received stats)
  show ?case
  proof (cases "received < len \<and> (\<exists>n data. outcome = Inr (n, data)
      \<and> classify_functionfs_read_completion n (min (len - received) rs) (len - received) = Exact)")
    case True
    then obtain n data where o: "outcome = Inr (n, data)" "received < len"
      and ex: "classify_functionfs_read_completion n (min (len - received) rs) (len - received) = Exact" by blast
    then have n: "n = min (len - received) rs" by (simp add: classify_Exact)
    have "ceil_div (len - (received + n)) rs \<le> length reads"
      using "2.prems" o ceil_div_step [of "len - received" rs] by (simp add: n)
    moreover have "received + n \<le> len" using n o by simp
    ultimately show ?thesis
      using "2.IH" [OF _ refl refl refl o(1) refl refl refl ex] "2.prems" o ex by (simp add: Let_def)
  next
    case False
    then show ?thesis
      by (auto simp: Let_def split: sum.splits prod.splits FunctionFsReadCompletion.splits)
  qed
qed

lemma read_loop_result:
  "read_payload_loop len rs reads buf received stats = Some (Ok stats', buf', rest) \<Longrightarrow>
   0 < rs \<Longrightarrow> length buf = len \<Longrightarrow> received \<le> len \<Longrightarrow> list_all honest_read reads \<Longrightarrow>
   \<exists>used. reads = map Inr used @ rest \<and> length buf' = len
     \<and> buf' = take received buf @ concat (map snd used)
     \<and> brs_read_calls stats' = brs_read_calls stats + length used
     \<and> length used = ceil_div (len - received) rs
     \<and> (\<forall>(n, data) \<in> set used. n \<le> rs)"
proof (induction len rs reads buf received stats rule: read_payload_loop.induct)
  case (1 len rs buf received stats)
  then show ?case by (intro exI [of _ "[]"]) (auto split: if_splits)
next
  case (2 len rs outcome reads buf received stats)
  show ?case
  proof (cases "received < len")
    case False
    with 2 show ?thesis by (intro exI [of _ "[]"]) auto
  next
    case True
    let ?req = "min (len - received) rs"
    define s1 where "s1 = (if brs_read_calls stats = 0 then stats\<lparr> brs_first_request_bytes := ?req \<rparr> else stats)"
    obtain n data where o: "outcome = Inr (n, data)"
      and ex: "classify_functionfs_read_completion n ?req (len - received) = Exact"
      using "2.prems"(1) True
      by (auto simp: Let_def split: sum.splits prod.splits FunctionFsReadCompletion.splits)
    then have n: "n = ?req" by (simp add: classify_Exact)
    have data: "length data = n" using "2.prems"(5) o by (simp add: honest_read_def)
    have le: "received + min (len - received) rs \<le> len" using True by simp
    let ?buf = "blit buf received (take ?req data)"
    let ?s2 = "s1\<lparr> brs_read_calls := brs_read_calls s1 + 1, brs_last_request_bytes := ?req \<rparr>"
    have lb: "length ?buf = len" using "2.prems" n data True by simp
    have step: "read_payload_loop len rs reads ?buf (received + n) ?s2 = Some (Ok stats', buf', rest)"
      using "2.prems"(1) True o ex by (simp add: Let_def s1_def)
    have le': "received + n \<le> len" and hr: "list_all honest_read reads" and nn: "\<not> \<not> received < len"
      using le n "2.prems"(5) True by simp_all
    note ih = "2.IH" [OF nn refl refl s1_def o refl refl refl ex step "2.prems"(2) lb le' hr]
    then obtain used where used: "reads = map Inr used @ rest" "length buf' = len"
      "buf' = take (received + n) ?buf @ concat (map snd used)"
      "brs_read_calls stats' = brs_read_calls ?s2 + length used"
      "length used = ceil_div (len - (received + n)) rs" "\<forall>(n, data) \<in> set used. n \<le> rs"
      by blast
    have "take (received + n) ?buf = take received buf @ data"
      using "2.prems"(3,4) True n data by (simp add: blit_def min_def)
    moreover have "length used + 1 = ceil_div (len - received) rs"
      using used(5) ceil_div_step [of "len - received" rs] True "2.prems"(2) by (simp add: n)
    moreover have "brs_read_calls s1 = brs_read_calls stats" by (simp add: s1_def)
    ultimately show ?thesis
      using used o n by (intro exI [of _ "(n, data) # used"]) auto
  qed
qed

lemma read_legacy_result:
  "read_legacy_loop len reads buf stats = Some (Ok stats', buf', rest) \<Longrightarrow>
   list_all (\<lambda>r. case r of Inl _ \<Rightarrow> True | Inr (n, data) \<Rightarrow> length data = n \<and> n \<le> 512) reads \<Longrightarrow>
   \<exists>used. reads = map Inr used @ rest \<and> length buf' = len \<and> buf' = take len (buf @ concat (map snd used))"
proof (induction len reads buf stats rule: read_legacy_loop.induct)
  case (1 len buf stats)
  then show ?case by (intro exI [of _ "[]"]) (auto split: if_splits)
next
  case (2 len outcome reads buf stats)
  show ?case
  proof (cases "length buf < len")
    case False
    with 2 show ?thesis by (intro exI [of _ "[]"]) auto
  next
    case True
    then obtain n data where o: "outcome = Inr (n, data)" using "2.prems"(1) by (auto split: sum.splits)
    have d: "length data = n" "n \<le> 512" using "2.prems"(2) o by simp_all
    then have packet: "take n (blit (replicate 512 0) 0 (take 512 data)) = data" by (simp add: blit_def)
    have "\<exists>used. reads = map Inr used @ rest \<and> length buf' = len
        \<and> buf' = take len ((buf @ data) @ concat (map snd used))"
    proof (cases "n = 0")
      case True
      then have "data = []" using d by simp
      then show ?thesis using "2.IH"(1) [OF _ o refl refl refl refl refl True] "2.prems" \<open>length buf < len\<close> o True
        by (simp add: Let_def)
    next
      case False
      then show ?thesis using "2.IH"(2) [OF _ o refl refl refl refl refl False] "2.prems" \<open>length buf < len\<close> o packet
        by (simp add: Let_def)
    qed
    then show ?thesis using o by (metis (no_types, lifting) append.assoc concat.simps(2) list.simps(9) snd_conv append_Cons)
  qed
qed

lemma copy_buffer_ok:
  assumes "length fb < usize_bound" and "length buf < usize_bound" and "pitch < usize_bound"
    and "0 < bpp" and "0 < unat (sb_height info)"
    and "unat (sb_width info) * bpp * unat (sb_height info) \<le> length buf"
    and "unat (sb_x info) * bpp + unat (sb_width info) * bpp \<le> pitch"
    and "(unat (sb_y info) + unat (sb_height info)) * pitch \<le> length fb"
  shows "\<exists>fb'. copy_buffer_to_framebuffer info buf fb pitch bpp = Ok fb' \<and> length fb' = length fb
    \<and> (\<forall>i < length fb. fb' ! i = copied_byte buf fb pitch (unat (sb_x info) * bpp) (unat (sb_width info) * bpp)
          (unat (sb_y info)) (unat (sb_y info) + unat (sb_height info)) i)"
proof -
  define x y w h where d: "x = unat (sb_x info)" "y = unat (sb_y info)" "w = unat (sb_width info)" "h = unat (sb_height info)"
  have yh: "checked_add_usize y h = Some (y + h)"
    using unat_u32_bound [of "sb_y info"] unat_u32_bound [of "sb_height info"] by (simp add: d usize_bound_def)
  note fits = assms(4-8) [folded d]
  then have chk: "checked_mul_usize w bpp = Some (w * bpp)" "checked_mul_usize x bpp = Some (x * bpp)"
    "checked_mul_usize (w * bpp) h = Some (w * bpp * h)"
    "checked_add_usize (x * bpp) (w * bpp) = Some (x * bpp + w * bpp)"
    "checked_mul_usize (y + h) pitch = Some ((y + h) * pitch)"
    using assms(1-3) mult_le_mono2 [of 1 h "w * bpp"] by (simp_all only: checked_mul_usize_Some checked_add_usize_Some) linarith+
  obtain fb' pos where run: "for_range y (y + h) (copy_row_body info buf pitch (x * bpp) (w * bpp)) (fb, 0)
      = Inr (fb', pos)" "copy_inv buf fb pitch (x * bpp) (w * bpp) y (y + h) (fb', pos)"
    using copy_rows [of "x * bpp" "w * bpp" pitch y "y + h" fb buf info] fits assms(1) by (auto simp: mult.commute)
  have "copy_buffer_to_framebuffer info buf fb pitch bpp = Ok fb'"
    unfolding copy_buffer_to_framebuffer_def d [symmetric]
    using fits run(1) by (simp add: yh chk del: checked_mul_usize_Some checked_add_usize_Some)
  with run(2) show ?thesis by (simp add: copy_inv_def d)
qed

section \<open>Main properties\<close>

text \<open>C16. Copying a payload into a framebuffer succeeds exactly when the payload holds the whole
  rectangle, the rectangle's row end lies within the pitch and its last row within the framebuffer;
  then every byte inside the rectangle is the payload's byte of that pixel, every other byte is
  unchanged, and in no case does the copy panic.\<close>

theorem copy_buffer_exact:
  assumes "length fb < usize_bound" and "length buf < usize_bound" and "pitch < usize_bound"
    and "0 < unat (sb_height info)"
  defines "x \<equiv> unat (sb_x info)" and "y \<equiv> unat (sb_y info)"
    and "w \<equiv> unat (sb_width info)" and "h \<equiv> unat (sb_height info)"
  shows "if 0 < bpp \<and> w * bpp * h \<le> length buf \<and> x * bpp + w * bpp \<le> pitch \<and> (y + h) * pitch \<le> length fb
    then \<exists>fb'. copy_buffer_to_framebuffer info buf fb pitch bpp = Ok fb' \<and> length fb' = length fb
           \<and> (\<forall>i < length fb. fb' ! i = copied_byte buf fb pitch (x * bpp) (w * bpp) y (y + h) i)
    else \<exists>m. copy_buffer_to_framebuffer info buf fb pitch bpp = Err m"
proof (cases "0 < bpp \<and> w * bpp * h \<le> length buf \<and> x * bpp + w * bpp \<le> pitch \<and> (y + h) * pitch \<le> length fb")
  case True
  then show ?thesis using copy_buffer_ok [OF assms(1-3) _ assms(4), of bpp] unfolding x_def y_def w_def h_def by auto
next
  case False
  have yh: "checked_add_usize y h = Some (y + h)"
    using unat_u32_bound [of "sb_y info"] unat_u32_bound [of "sb_height info"]
    by (simp add: y_def h_def usize_bound_def)
  have "\<exists>m. copy_buffer_to_framebuffer info buf fb pitch bpp = Err m"
    unfolding copy_buffer_to_framebuffer_def x_def [symmetric] y_def [symmetric] w_def [symmetric] h_def [symmetric]
    using False by (auto simp: yh split: option.split)
  with False show ?thesis by presburger
qed

theorem copy_buffer_exact_witness:
  "\<exists>fb'. copy_buffer_to_framebuffer
      \<lparr> sb_x = 1, sb_y = 1, sb_width = 1, sb_height = 1, sb_length = 2, sb_compression = 0, sb_compressed_length = 0 \<rparr>
      [7, 8] (replicate 8 0) 4 2 = Ok fb' \<and> fb' ! 6 = 7"
  using copy_buffer_exact [of "replicate 8 0" "[7, 8]" 4
      "\<lparr> sb_x = 1, sb_y = 1, sb_width = 1, sb_height = 1, sb_length = 2, sb_compression = 0, sb_compressed_length = 0 \<rparr>" 2]
  by (auto simp: usize_bound_def copied_byte_def)

text \<open>C17. A blocking payload read always returns: after at most one kernel answer per started
  \<open>read_size\<close> bytes it has finished, with an error or with exactly the requested number of bytes,
  which are the bytes of the reads in order; no request asks for more than what is left of the
  payload or the configured ceiling.\<close>

theorem payload_read_exact:
  assumes "0 < len" and "512 \<le> rs" and "packet_aligned rs"
    and "ceil_div len rs \<le> length reads" and "list_all honest_read reads"
  shows "\<exists>r buf' rest. read_functionfs_payload reads buf len rs = Some (r, buf', rest)
    \<and> (\<forall>stats. r = Ok stats \<longrightarrow>
         (\<exists>used. reads = map Inr used @ rest \<and> length used = ceil_div len rs \<and> brs_read_calls stats = ceil_div len rs
            \<and> buf' = concat (map snd used) \<and> length buf' = len \<and> (\<forall>(n, data) \<in> set used. n \<le> rs)))"
proof -
  have start: "read_functionfs_payload reads buf len rs
      = read_payload_loop len rs reads (replicate len 0) 0 default_bulk_stats"
    using assms(1-3) by (simp add: read_functionfs_payload_def)
  obtain r buf' rest where res: "read_functionfs_payload reads buf len rs = Some (r, buf', rest)"
    using read_loop_returns [of rs 0 len reads] assms(1,2,4) unfolding start by (metis diff_zero le0 less_le_trans prod_cases3 zero_less_numeral)
  show ?thesis
    using res read_loop_result [of len rs reads "replicate len 0" 0 default_bulk_stats _ buf' rest] assms
    unfolding start by (fastforce simp: default_bulk_stats_def)
qed

theorem payload_read_exact_witness:
  "\<exists>r buf' rest. read_functionfs_payload [Ok (3, [1, 2, 3])] [] 3 512 = Some (r, buf', rest)"
  using payload_read_exact [of 3 512 "[Ok (3, [1, 2, 3])]" "[]"]
  by (auto simp: packet_aligned_def ceil_div_def honest_read_def)

end
