(* ===== verification/Usb_Aio.thy ===== *)
theory Usb_Aio
  imports Gud_Base
begin

text \<open>
  The Linux AIO driver of the bundled \<^verbatim>\<open>usb-gadget\<close> crate
  (\<^verbatim>\<open>function/custom/aio/mod.rs\<close>), which \<^verbatim>\<open>gud-gadget\<close> uses for its exact receives: the
  \<open>Driver\<close> the caller owns, the thread that owns the submitted operations, the two channels
  between them, and the kernel's AIO context.

  The driver, the thread and the kernel run concurrently. Each atomic action is a function on
  one record \<open>Aio\<close>; \<open>aio_step\<close> lets them interleave in any order (more orders than the
  thread's loop allows, so every safety property also holds for it). What the kernel decides
  (acceptance of a submission, the completion event, the outcome of a cancellation) is an
  argument.
\<close>

section \<open>Buffers and operations\<close>

text \<open>\<open>ReadBuf capacity contents\<close> is a \<open>BytesMut\<close>; its size for the kernel is its capacity.\<close>

datatype Buffer = WriteBuf bytes | ReadBuf usize bytes

fun buffer_size :: "Buffer \<Rightarrow> usize" where
  "buffer_size (WriteBuf buf) = length buf"
| "buffer_size (ReadBuf capacity _) = capacity"

text \<open>\<open>assume_init len\<close>: the first \<open>len\<close> bytes are what the kernel stored in the memory \<open>mem\<close>.\<close>

fun assume_init :: "usize \<Rightarrow> bytes \<Rightarrow> Buffer \<Rightarrow> Buffer" where
  "assume_init len mem (WriteBuf buf) = WriteBuf buf"
| "assume_init len mem (ReadBuf capacity _) = ReadBuf capacity (take len mem)"

definition buffer_into_read :: "Buffer \<Rightarrow> bytes option" where
  "buffer_into_read b = (case b of WriteBuf _ \<Rightarrow> None | ReadBuf _ buf \<Rightarrow> Some buf)"

record Op =
  op_data :: u64
  op_buf :: Buffer

record IoEvent =
  ie_data :: u64
  ie_res :: int
  ie_res2 :: int
  ie_mem :: bytes

record CompletedOp =
  co_id :: u64
  co_res :: int
  co_res2 :: int
  co_result :: "Buffer result"

definition complete_result :: "Buffer \<Rightarrow> IoEvent \<Rightarrow> Buffer result" where
  "complete_result buf ev =
     (if 0 \<le> ie_res ev then
        (if nat (ie_res ev) \<le> buffer_size buf then Ok (assume_init (nat (ie_res ev)) (ie_mem ev) buf)
         else Err ''AIO completion length exceeds submitted buffer size'')
      else if ie_res ev \<noteq> - (2 ^ 63) \<and> - ie_res ev < 2 ^ 31 then Err ''os error''
      else Err ''invalid negative AIO completion result'')"

definition complete_op :: "Op \<Rightarrow> IoEvent \<Rightarrow> CompletedOp result" where
  "complete_op op ev =
     (if ie_data ev \<noteq> op_data op then panic ''assertion failed''
      else Ok \<lparr> co_id = ie_data ev, co_res = ie_res ev, co_res2 = ie_res2 ev,
                co_result = complete_result (op_buf op) ev \<rparr>)"

datatype Cmd = Insert Op | Remove u64 | Cancel u64

section \<open>State\<close>

record Aio =
  q_next_id :: u64
  q_space :: u32
  q_length :: u32
  q_cmds :: "Cmd list"
  q_done :: "CompletedOp list"
  q_active :: "u64 \<rightharpoonup> Op"
  q_events :: "IoEvent list"
  q_kpending :: "u64 list"
  q_kevents :: "IoEvent list"

definition new_driver :: "u32 \<Rightarrow> Aio" where
  "new_driver n = \<lparr> q_next_id = 0, q_space = n, q_length = n, q_cmds = [], q_done = [],
     q_active = (\<lambda>_. None), q_events = [], q_kpending = [], q_kevents = [] \<rparr>"

definition is_full :: "Aio \<Rightarrow> bool" where
  "is_full a \<longleftrightarrow> q_space a = 0"

definition is_empty :: "Aio \<Rightarrow> bool" where
  "is_empty a \<longleftrightarrow> q_space a = q_length a"

section \<open>Driver operations\<close>

datatype KernelSubmit = Accepted | NotAccepted | SubmitFailed string

definition submit :: "Buffer \<Rightarrow> KernelSubmit \<Rightarrow> Aio \<Rightarrow> u64 result \<times> Aio" where
  "submit buf ksub a =
     (if is_full a then (Err ''no AIO queue space available'', a)
      else case checked_add (q_next_id a) 1 of
        None \<Rightarrow> (Err ''AIO operation identifier exhausted; refusing reuse'', a)
      | Some n \<Rightarrow>
          (let i = q_next_id a;
               a' = a\<lparr> q_next_id := n, q_cmds := q_cmds a @ [Insert \<lparr> op_data = i, op_buf = buf \<rparr>] \<rparr> in
           case ksub of
             Accepted \<Rightarrow> (Ok i, a'\<lparr> q_space := q_space a' - 1, q_kpending := q_kpending a' @ [i] \<rparr>)
           | NotAccepted \<Rightarrow> (Err ''AIO request not accepted'', a'\<lparr> q_cmds := q_cmds a' @ [Remove i] \<rparr>)
           | SubmitFailed m \<Rightarrow> (Err m, a'\<lparr> q_cmds := q_cmds a' @ [Remove i] \<rparr>)))"

definition try_completed :: "Aio \<Rightarrow> CompletedOp option \<times> Aio" where
  "try_completed a =
     (case q_done a of
        [] \<Rightarrow> (None, a)
      | op # ops \<Rightarrow> (Some op, a\<lparr> q_done := ops, q_space := q_space a + 1 \<rparr>))"

definition cancel :: "u64 \<Rightarrow> Aio \<Rightarrow> Aio" where
  "cancel i a = a\<lparr> q_cmds := q_cmds a @ [Cancel i] \<rparr>"

section \<open>The thread\<close>

text \<open>
  One command from the channel. For \<open>Cancel\<close>, \<open>outcome\<close> is what \<open>io_cancel\<close> returns: an event
  when the kernel gave the request up.
\<close>

definition thread_cmd :: "IoEvent option \<Rightarrow> Aio \<Rightarrow> Aio result" where
  "thread_cmd outcome a =
     (case q_cmds a of
        [] \<Rightarrow> Ok a
      | Insert op # rest \<Rightarrow>
          if q_active a (op_data op) \<noteq> None then panic ''submitted aio request with duplicate id''
          else Ok (a\<lparr> q_cmds := rest, q_active := (q_active a)(op_data op \<mapsto> op) \<rparr>)
      | Remove i # rest \<Rightarrow>
          if q_active a i = None then panic ''received remove request for unknown id''
          else Ok (a\<lparr> q_cmds := rest, q_active := (q_active a)(i := None) \<rparr>)
      | Cancel i # rest \<Rightarrow>
          (case (q_active a i, outcome) of
             (Some op, Some ev) \<Rightarrow>
               (case complete_op op ev of
                  Inl e \<Rightarrow> Inl e
                | Inr c \<Rightarrow> Ok (a\<lparr> q_cmds := rest, q_active := (q_active a)(i := None), q_done := q_done a @ [c],
                                  q_kpending := removeAll i (q_kpending a) \<rparr>))
           | _ \<Rightarrow> Ok (a\<lparr> q_cmds := rest \<rparr>)))"

definition thread_fetch :: "nat \<Rightarrow> Aio \<Rightarrow> Aio" where
  "thread_fetch n a =
     a\<lparr> q_events := q_events a @ take n (q_kevents a), q_kevents := drop n (q_kevents a) \<rparr>"

text \<open>The front event, when its operation is registered; otherwise it waits for the next round.\<close>

definition thread_process :: "Aio \<Rightarrow> Aio result" where
  "thread_process a =
     (case q_events a of
        [] \<Rightarrow> Ok a
      | ev # rest \<Rightarrow>
          (case q_active a (ie_data ev) of
             None \<Rightarrow> Ok a
           | Some op \<Rightarrow>
               (case complete_op op ev of
                  Inl e \<Rightarrow> Inl e
                | Inr c \<Rightarrow> Ok (a\<lparr> q_active := (q_active a)(ie_data ev := None), q_events := rest,
                                  q_done := q_done a @ [c] \<rparr>))))"

definition kernel_complete :: "IoEvent \<Rightarrow> Aio \<Rightarrow> Aio" where
  "kernel_complete ev a =
     a\<lparr> q_kpending := removeAll (ie_data ev) (q_kpending a), q_kevents := q_kevents a @ [ev] \<rparr>"

text \<open>A cancellation can only return an event for the operation it names, still pending in the kernel.\<close>

definition cancel_outcome_ok :: "IoEvent option \<Rightarrow> Aio \<Rightarrow> bool" where
  "cancel_outcome_ok outcome a \<longleftrightarrow>
     (case (q_cmds a, outcome) of
        (Cancel i # _, Some ev) \<Rightarrow> ie_data ev = i \<and> i \<in> set (q_kpending a)
      | _ \<Rightarrow> True)"

inductive aio_step :: "Aio \<Rightarrow> Aio \<Rightarrow> bool" where
  submit: "aio_step a (snd (submit buf k a))"
| harvest: "aio_step a (snd (try_completed a))"
| cancel: "aio_step a (cancel i a)"
| kernel: "ie_data ev \<in> set (q_kpending a) \<Longrightarrow> aio_step a (kernel_complete ev a)"
| cmd: "cancel_outcome_ok outcome a \<Longrightarrow> thread_cmd outcome a = Inr a' \<Longrightarrow> aio_step a a'"
| fetch: "aio_step a (thread_fetch n a)"
| process: "thread_process a = Inr a' \<Longrightarrow> aio_step a a'"

section \<open>Invariant\<close>

text \<open>
  \<open>outstanding\<close>: accepted operations not yet handed to the caller's channel. \<open>registered\<close>: the
  operations the thread owns once it has worked through its channel.
\<close>

definition outstanding :: "Aio \<Rightarrow> u64 list" where
  "outstanding a = q_kpending a @ map ie_data (q_kevents a) @ map ie_data (q_events a)"

definition all_ids :: "Aio \<Rightarrow> u64 list" where
  "all_ids a = outstanding a @ map co_id (q_done a)"

fun registered :: "u64 set \<Rightarrow> Cmd list \<Rightarrow> u64 set" where
  "registered ids [] = ids"
| "registered ids (Insert op # cs) = registered (insert (op_data op) ids) cs"
| "registered ids (Remove i # cs) = registered (ids - {i}) cs"
| "registered ids (Cancel i # cs) = registered ids cs"

text \<open>The commands are consistent with what the thread owns: no duplicate, no unknown id, and a
  removed operation was never accepted by the kernel.\<close>

fun cmds_ok :: "u64 set \<Rightarrow> u64 set \<Rightarrow> Cmd list \<Rightarrow> bool" where
  "cmds_ok live ids [] \<longleftrightarrow> True"
| "cmds_ok live ids (Insert op # cs) \<longleftrightarrow> op_data op \<notin> ids \<and> cmds_ok live (insert (op_data op) ids) cs"
| "cmds_ok live ids (Remove i # cs) \<longleftrightarrow> i \<in> ids \<and> i \<notin> live \<and> cmds_ok live (ids - {i}) cs"
| "cmds_ok live ids (Cancel i # cs) \<longleftrightarrow> cmds_ok live ids cs"

fun cmd_below :: "u64 \<Rightarrow> Cmd \<Rightarrow> bool" where
  "cmd_below n (Insert op) \<longleftrightarrow> op_data op < n"
| "cmd_below n (Remove i) \<longleftrightarrow> i < n"
| "cmd_below n (Cancel i) \<longleftrightarrow> True"

definition aio_ok :: "Aio \<Rightarrow> bool" where
  "aio_ok a \<longleftrightarrow>
     distinct (all_ids a)
     \<and> cmds_ok (set (outstanding a)) (dom (q_active a)) (q_cmds a)
     \<and> registered (dom (q_active a)) (q_cmds a) = set (outstanding a)
     \<and> (\<forall>i \<in> set (all_ids a) \<union> dom (q_active a). i < q_next_id a)
     \<and> list_all (cmd_below (q_next_id a)) (q_cmds a)
     \<and> (\<forall>i op. q_active a i = Some op \<longrightarrow> op_data op = i)
     \<and> unat (q_space a) + length (all_ids a) = unat (q_length a)"

lemma registered_append: "registered ids (xs @ ys) = registered (registered ids xs) ys"
  by (induction ids xs rule: registered.induct) simp_all

lemma cmds_ok_append:
  "cmds_ok live ids (xs @ ys) \<longleftrightarrow> cmds_ok live ids xs \<and> cmds_ok live (registered ids xs) ys"
  by (induction live ids xs rule: cmds_ok.induct) auto

lemma cmds_ok_more_live:
  "cmds_ok live ids cs \<Longrightarrow> list_all (cmd_below n) cs \<Longrightarrow> cmds_ok (insert n live) ids cs"
  by (induction live ids cs rule: cmds_ok.induct) auto

lemma cmds_ok_less_live: "cmds_ok live ids cs \<Longrightarrow> live' \<subseteq> live \<Longrightarrow> cmds_ok live' ids cs"
  by (induction live ids cs rule: cmds_ok.induct) auto

lemma cmds_ok_finish:
  "cmds_ok live ids cs \<Longrightarrow> i \<in> ids \<Longrightarrow> i \<in> live \<Longrightarrow>
     cmds_ok (live - {i}) (ids - {i}) cs \<and> registered (ids - {i}) cs = registered ids cs - {i}"
proof (induction live ids cs rule: cmds_ok.induct)
  case (2 live ids op cs)
  then have "op_data op \<noteq> i" by auto
  then have "insert (op_data op) (ids - {i}) = insert (op_data op) ids - {i}" by auto
  with 2 show ?case by auto
next
  case (3 live ids j cs)
  then have "j \<noteq> i" by auto
  then have "ids - {i} - {j} = ids - {j} - {i}" by auto
  with 3 \<open>j \<noteq> i\<close> show ?case by auto
qed simp_all

lemma cmd_below_mono: "list_all (cmd_below n) cs \<Longrightarrow> n \<le> m \<Longrightarrow> list_all (cmd_below m) cs"
  by (induction cs) (auto elim!: cmd_below.elims)

section \<open>Every action keeps the invariant\<close>

lemmas ids_defs = all_ids_def outstanding_def

lemma aio_ok_new: "aio_ok (new_driver n)"
  by (simp add: aio_ok_def ids_defs new_driver_def)

lemma aio_ok_submit:
  assumes "aio_ok a"
  shows "aio_ok (snd (submit buf k a))"
proof (cases "is_full a \<or> checked_add (q_next_id a) 1 = None")
  case True
  then show ?thesis using assms by (auto simp: submit_def)
next
  case False
  then obtain n where n: "checked_add (q_next_id a) 1 = Some n" by auto
  then have lt: "q_next_id a < n" "\<And>j. j < q_next_id a \<Longrightarrow> j < n"
    using checked_add_SomeD [OF n] by (auto simp: word_less_nat_alt)
  let ?id = "q_next_id a" and ?ins = "Insert \<lparr> op_data = q_next_id a, op_buf = buf \<rparr>"
  have fresh: "?id \<notin> set (all_ids a)" "?id \<notin> dom (q_active a)" "?id \<notin> set (outstanding a)"
    using assms by (auto simp: aio_ok_def all_ids_def)
  have below: "list_all (cmd_below n) (q_cmds a)"
    using assms lt(1) by (auto simp: aio_ok_def intro: cmd_below_mono)
  show ?thesis
  proof (cases k)
    case Accepted
    have "unat (q_space a - 1) = unat (q_space a) - 1" "0 < unat (q_space a)"
      using False by (auto simp: is_full_def unat_minus_one unat_gt_0)
    then show ?thesis
      using assms False n fresh lt below Accepted
      by (auto simp: submit_def aio_ok_def ids_defs registered_append cmds_ok_append Let_def
          intro: cmds_ok_more_live)
  next
    case NotAccepted
    then show ?thesis
      using assms False n fresh lt below
      by (auto simp: submit_def aio_ok_def ids_defs registered_append cmds_ok_append Let_def)
  next
    case (SubmitFailed m)
    then show ?thesis
      using assms False n fresh lt below
      by (auto simp: submit_def aio_ok_def ids_defs registered_append cmds_ok_append Let_def)
  qed
qed

lemma aio_ok_harvest: "aio_ok a \<Longrightarrow> aio_ok (snd (try_completed a))"
proof (cases "q_done a")
  case (Cons c cs)
  assume ok: "aio_ok a"
  then have "unat (q_space a) + length (all_ids a) = unat (q_length a)" by (simp add: aio_ok_def)
  moreover have "0 < length (all_ids a)" using Cons by (simp add: all_ids_def)
  ultimately have "unat (q_space a) + 1 < 2 ^ 32"
    using unat_u32_bound [of "q_length a"] by linarith
  then have "unat (q_space a + 1) = unat (q_space a) + 1" by (simp add: unat_word_ariths)
  with ok Cons show ?thesis by (auto simp: try_completed_def aio_ok_def ids_defs)
qed (simp add: try_completed_def)

lemma aio_ok_cancel: "aio_ok a \<Longrightarrow> aio_ok (cancel i a)"
  by (auto simp: cancel_def aio_ok_def ids_defs registered_append cmds_ok_append)

lemma length_removeAll_distinct: "distinct xs \<Longrightarrow> x \<in> set xs \<Longrightarrow> length (removeAll x xs) = length xs - 1"
  by (simp add: distinct_remove1_removeAll [symmetric] length_remove1)

lemma aio_ok_kernel:
  assumes ok: "aio_ok a" and pending: "ie_data ev \<in> set (q_kpending a)"
  shows "aio_ok (kernel_complete ev a)"
proof -
  have "distinct (q_kpending a)" using ok by (simp add: aio_ok_def ids_defs)
  then have len: "Suc (length (removeAll (ie_data ev) (q_kpending a))) = length (q_kpending a)"
    using pending length_removeAll_distinct length_pos_if_in_set by fastforce
  have same: "set (outstanding (kernel_complete ev a)) = set (outstanding a)"
    using pending by (auto simp: outstanding_def kernel_complete_def)
  have all: "set (all_ids (kernel_complete ev a)) = set (all_ids a)"
    using same by (simp add: all_ids_def) (simp add: kernel_complete_def)
  have "distinct (all_ids (kernel_complete ev a))"
    using ok pending by (auto simp: aio_ok_def ids_defs kernel_complete_def distinct_removeAll)
  moreover have "length (all_ids (kernel_complete ev a)) = length (all_ids a)"
    using len by (simp add: ids_defs kernel_complete_def)
  ultimately show ?thesis
    using ok unfolding aio_ok_def same all by (simp add: kernel_complete_def)
qed

lemma aio_ok_fetch: "aio_ok a \<Longrightarrow> aio_ok (thread_fetch n a)"
proof -
  assume ok: "aio_ok a"
  have split: "map ie_data (q_kevents a) = map ie_data (take n (q_kevents a)) @ map ie_data (drop n (q_kevents a))"
    by (metis append_take_drop_id map_append)
  have "set (outstanding (thread_fetch n a)) = set (outstanding a)"
    "set (all_ids (thread_fetch n a)) = set (all_ids a)"
    "distinct (all_ids (thread_fetch n a)) = distinct (all_ids a)"
    "length (all_ids (thread_fetch n a)) = length (all_ids a)"
    unfolding ids_defs split by (auto simp: thread_fetch_def)
  with ok show ?thesis by (simp add: aio_ok_def) (simp add: thread_fetch_def)
qed

text \<open>An operation that the thread owns and the kernel has finished leaves both sides together.\<close>

lemma aio_ok_finish:
  assumes ok: "aio_ok a" and own: "q_active a i = Some op"
    and out: "set (outstanding a') = set (outstanding a) - {i}" "distinct (all_ids a')"
      "length (all_ids a') = length (all_ids a)" "set (all_ids a') = set (all_ids a)"
    and live: "i \<in> set (outstanding a)"
    and same: "q_active a' = (q_active a)(i := None)" "q_next_id a' = q_next_id a"
      "q_space a' = q_space a" "q_length a' = q_length a" "q_cmds a' = q_cmds a"
  shows "aio_ok a'"
proof -
  have cs: "cmds_ok (set (outstanding a)) (dom (q_active a)) (q_cmds a)"
    and reg: "registered (dom (q_active a)) (q_cmds a) = set (outstanding a)"
    using ok by (simp_all add: aio_ok_def)
  have "i \<in> dom (q_active a)" using own by auto
  note fin = cmds_ok_finish [OF cs this live]
  have dom: "dom ((q_active a)(i := None)) = dom (q_active a) - {i}" by auto
  show ?thesis
    using ok fin out reg unfolding aio_ok_def same dom by auto
qed

lemma thread_process_ok:
  assumes ok: "aio_ok a"
  shows "\<exists>a'. thread_process a = Inr a' \<and> aio_ok a'"
proof (cases "q_events a")
  case Nil
  then show ?thesis using ok by (simp add: thread_process_def)
next
  case (Cons ev rest)
  show ?thesis
  proof (cases "q_active a (ie_data ev)")
    case None
    with Cons show ?thesis using ok by (simp add: thread_process_def)
  next
    case (Some op)
    then have "op_data op = ie_data ev" using ok by (auto simp: aio_ok_def)
    then obtain c where c: "complete_op op ev = Inr c" "co_id c = ie_data ev"
      by (simp add: complete_op_def)
    let ?a = "a\<lparr> q_active := (q_active a)(ie_data ev := None), q_events := rest, q_done := q_done a @ [c] \<rparr>"
    have d: "distinct (all_ids a)" using ok by (simp add: aio_ok_def)
    have "aio_ok ?a"
      by (rule aio_ok_finish [OF ok Some]) (use d Cons c(2) in \<open>auto simp: ids_defs\<close>)
    with Cons Some c(1) show ?thesis by (simp add: thread_process_def)
  qed
qed

lemma thread_cmd_ok:
  assumes ok: "aio_ok a" and allowed: "cancel_outcome_ok outcome a"
  shows "\<exists>a'. thread_cmd outcome a = Inr a' \<and> aio_ok a'"
proof (cases "q_cmds a")
  case Nil
  then show ?thesis using ok by (simp add: thread_cmd_def)
next
  case (Cons c rest)
  show ?thesis
  proof (cases c)
    case (Insert op)
    let ?b = "a\<lparr> q_cmds := rest, q_active := (q_active a)(op_data op \<mapsto> op) \<rparr>"
    have ids: "outstanding ?b = outstanding a" "all_ids ?b = all_ids a" by (simp_all add: ids_defs)
    have new: "q_active a (op_data op) = None"
      using ok Cons Insert by (simp add: aio_ok_def domIff)
    have "aio_ok ?b" using ok Cons Insert by (simp add: aio_ok_def ids)
    with new show ?thesis using Cons Insert by (simp add: thread_cmd_def)
  next
    case (Remove i)
    let ?b = "a\<lparr> q_cmds := rest, q_active := (q_active a)(i := None) \<rparr>"
    have ids: "outstanding ?b = outstanding a" "all_ids ?b = all_ids a" by (simp_all add: ids_defs)
    have known: "q_active a i \<noteq> None" using ok Cons Remove by (auto simp: aio_ok_def)
    have "aio_ok ?b" using ok Cons Remove by (simp add: aio_ok_def ids) blast
    with known show ?thesis using Cons Remove by (simp add: thread_cmd_def)
  next
    case (Cancel i)
    let ?b = "a\<lparr> q_cmds := rest \<rparr>"
    have ids: "outstanding ?b = outstanding a" "all_ids ?b = all_ids a" by (simp_all add: ids_defs)
    have okb: "aio_ok ?b" using ok Cons Cancel by (simp add: aio_ok_def ids)
    show ?thesis
    proof (cases "q_active a i = None \<or> outcome = None")
      case True
      then show ?thesis using okb Cons Cancel by (auto simp: thread_cmd_def split: option.splits)
    next
      case False
      then obtain op ev where op: "q_active a i = Some op" and ev: "outcome = Some ev" by auto
      have i: "ie_data ev = i" "i \<in> set (q_kpending a)"
        using allowed ev Cons Cancel by (simp_all add: cancel_outcome_ok_def)
      have "op_data op = i" using ok op by (auto simp: aio_ok_def)
      then obtain c where c: "complete_op op ev = Inr c" "co_id c = i"
        using i by (simp add: complete_op_def)
      let ?a = "?b\<lparr> q_active := (q_active a)(i := None), q_done := q_done a @ [c],
                   q_kpending := removeAll i (q_kpending a) \<rparr>"
      have d: "distinct (all_ids a)" using ok by (simp add: aio_ok_def)
      then have "Suc (length (removeAll i (q_kpending a))) = length (q_kpending a)"
        using i(2) length_removeAll_distinct [of "q_kpending a" i] length_pos_if_in_set [OF i(2)]
        by (simp add: ids_defs)
      then have "aio_ok ?a"
        by (intro aio_ok_finish [OF okb, of i op])
           (use d i c(2) op in \<open>auto simp: ids_defs distinct_removeAll\<close>)
      with Cons Cancel op ev c(1) show ?thesis by (simp add: thread_cmd_def)
    qed
  qed
qed

lemma aio_ok_step:
  assumes "aio_step a a'" and "aio_ok a"
  shows "aio_ok a'"
  using assms(1)
proof cases
  case (cmd outcome)
  from thread_cmd_ok [OF assms(2) cmd(1)] cmd(2) show ?thesis by auto
next
  case process
  from thread_process_ok [OF assms(2)] process show ?thesis by auto
qed (simp_all add: assms(2) aio_ok_submit aio_ok_harvest aio_ok_cancel aio_ok_kernel aio_ok_fetch)

inductive aio_reachable :: "u32 \<Rightarrow> Aio \<Rightarrow> bool" for n where
  new: "aio_reachable n (new_driver n)"
| step: "aio_reachable n a \<Longrightarrow> aio_step a a' \<Longrightarrow> aio_reachable n a'"

lemma aio_reachable_ok: "aio_reachable n a \<Longrightarrow> aio_ok a"
  by (induction rule: aio_reachable.induct) (auto simp: aio_ok_new intro: aio_ok_step)

section \<open>A round of the thread\<close>

text \<open>
  One pass of the thread's loop with no interference: drain the command channel (without
  cancellations), fetch the kernel's events, process the queue until it is empty or its front is
  not registered. \<open>process_all\<close> is the \<open>while let\<close> loop.
\<close>

fun drain_cmds :: "nat \<Rightarrow> Aio \<Rightarrow> Aio result" where
  "drain_cmds 0 a = Ok a"
| "drain_cmds (Suc n) a = (case thread_cmd None a of Inl e \<Rightarrow> Inl e | Inr a' \<Rightarrow> drain_cmds n a')"

fun process_all :: "nat \<Rightarrow> Aio \<Rightarrow> Aio result" where
  "process_all 0 a = Ok a"
| "process_all (Suc n) a =
     (case thread_process a of Inl e \<Rightarrow> Inl e | Inr a' \<Rightarrow> process_all n a')"

definition thread_round :: "Aio \<Rightarrow> Aio result" where
  "thread_round a =
     (case drain_cmds (length (q_cmds a)) a of
        Inl e \<Rightarrow> Inl e
      | Inr a1 \<Rightarrow>
          (let a2 = thread_fetch (length (q_kevents a1)) a1 in process_all (length (q_events a2)) a2))"

lemma cancel_outcome_None: "cancel_outcome_ok None a"
  by (simp add: cancel_outcome_ok_def split: list.split Cmd.split)

lemma thread_cmd_None:
  assumes "aio_ok a" and "thread_cmd None a = Inr a'"
  shows "q_cmds a' = tl (q_cmds a) \<and> q_events a' = q_events a \<and> q_kevents a' = q_kevents a
    \<and> q_done a' = q_done a \<and> q_kpending a' = q_kpending a"
  using assms(2) by (auto simp: thread_cmd_def split: list.splits Cmd.splits if_splits option.splits)

lemma drain_cmds_ok:
  "aio_ok a \<Longrightarrow> n = length (q_cmds a) \<Longrightarrow>
     \<exists>a'. drain_cmds n a = Inr a' \<and> aio_ok a' \<and> q_cmds a' = [] \<and> q_events a' = q_events a
       \<and> q_kevents a' = q_kevents a \<and> q_done a' = q_done a \<and> q_kpending a' = q_kpending a"
proof (induction n arbitrary: a)
  case (Suc n)
  obtain b where b: "thread_cmd None a = Inr b" "aio_ok b"
    using thread_cmd_ok [OF Suc.prems(1) cancel_outcome_None] by blast
  note eqs = thread_cmd_None [OF Suc.prems(1) b(1)]
  then have "n = length (q_cmds b)" using Suc.prems(2) by simp
  from Suc.IH [OF b(2) this] show ?case using b(1) eqs by auto
qed simp

lemma process_all_ok:
  "aio_ok a \<Longrightarrow> q_cmds a = [] \<Longrightarrow> n = length (q_events a) \<Longrightarrow>
     \<exists>a'. process_all n a = Inr a' \<and> aio_ok a' \<and> q_events a' = [] \<and> q_kpending a' = q_kpending a
       \<and> map co_id (q_done a') = map co_id (q_done a) @ map ie_data (q_events a)"
proof (induction n arbitrary: a)
  case (Suc n)
  then obtain ev rest where ev: "q_events a = ev # rest" by (cases "q_events a") auto
  have "ie_data ev \<in> dom (q_active a)"
    using Suc.prems(1,2) ev by (auto simp: aio_ok_def outstanding_def)
  then obtain op where op: "q_active a (ie_data ev) = Some op" by auto
  obtain b where b: "thread_process a = Inr b" "aio_ok b"
    using thread_process_ok [OF Suc.prems(1)] by blast
  have b': "q_events b = rest" "q_cmds b = []" "q_kpending b = q_kpending a"
    "map co_id (q_done b) = map co_id (q_done a) @ [ie_data ev]"
    using b(1) ev op Suc.prems(2) by (auto simp: thread_process_def complete_op_def split: if_splits)
  have "n = length (q_events b)" using Suc.prems(3) ev b' by simp
  from Suc.IH [OF b(2) b'(2) this] show ?case using b(1) b' ev by auto
qed simp

section \<open>The endpoint receiver\<close>

text \<open>
  \<open>EndpointReceiver\<close> of \<^verbatim>\<open>function/custom/mod.rs\<close>: the endpoint's I/O arrives through a value
  channel when FunctionFS is initialized (\<open>er_io = None\<close> before that, or after the sender is
  gone), and the endpoint file is held weakly (\<open>er_file\<close> tells whether it is still open).
\<close>

record EndpointReceiver =
  er_io :: "Aio option"
  er_file :: bool

record EndpointCompletion =
  ec_operation :: u64
  ec_data :: bytes

definition try_recv_identified ::
  "Buffer \<Rightarrow> KernelSubmit \<Rightarrow> EndpointReceiver \<Rightarrow> u64 result \<times> EndpointReceiver" where
  "try_recv_identified buf ksub r =
     (case er_io r of
        None \<Rightarrow> (Err ''value was not yet sent'', r)
      | Some io \<Rightarrow>
          if \<not> er_file r then (Err ''USB gadget was removed'', r)
          else (let (res, io') = submit buf ksub io in (res, r\<lparr> er_io := Some io' \<rparr>)))"

definition try_fetch_identified ::
  "EndpointReceiver \<Rightarrow> EndpointCompletion option result \<times> EndpointReceiver" where
  "try_fetch_identified r =
     (case er_io r of
        None \<Rightarrow> (Err ''value was not yet sent'', r)
      | Some io \<Rightarrow>
          (case try_completed io of
             (None, io') \<Rightarrow> (Ok None, r\<lparr> er_io := Some io' \<rparr>)
           | (Some cop, io') \<Rightarrow>
               (case co_result cop of
                  Inl e \<Rightarrow> (Inl e, r\<lparr> er_io := Some io' \<rparr>)
                | Inr buf \<Rightarrow>
                    (case buffer_into_read buf of
                       None \<Rightarrow> (panic ''NotAReadBuffer'', r\<lparr> er_io := Some io' \<rparr>)
                     | Some data \<Rightarrow>
                         (Ok (Some \<lparr> ec_operation = co_id cop, ec_data = data \<rparr>),
                          r\<lparr> er_io := Some io' \<rparr>)))))"

definition receiver_is_empty :: "EndpointReceiver \<Rightarrow> bool" where
  "receiver_is_empty r = (case er_io r of None \<Rightarrow> True | Some io \<Rightarrow> is_empty io)"

section \<open>Main properties\<close>





end
