(* ===== verification/Gud_Endpoint.thy ===== *)
theory Gud_Endpoint
  imports Gud_Exact_Aio Gud_Bulk Usb_Aio
begin

text \<open>
  The pixel data endpoint of \<^verbatim>\<open>gadget/src/lib.rs\<close> (\<open>PixelDataEndpoint\<close>): the exact AIO
  transaction over the endpoint receiver, the blocking receive paths and their statistics.

  The receiver is used through the interface \<open>aio_receiver\<close>: which operations it still owns, and
  how a receive and a fetch change that. The interface is interpreted on the receiver of the
  bundled AIO driver.
\<close>

section \<open>The receiver interface\<close>

locale aio_receiver =
  fixes inv :: "'r \<Rightarrow> bool" and owned :: "'r \<Rightarrow> u64 set" and empty :: "'r \<Rightarrow> bool"
    and recv :: "Buffer \<Rightarrow> KernelSubmit \<Rightarrow> 'r \<Rightarrow> u64 result \<times> 'r"
    and fetch :: "'r \<Rightarrow> EndpointCompletion option result \<times> 'r"
  assumes empty_owned: "inv r \<Longrightarrow> empty r \<longleftrightarrow> owned r = {}"
    and recv_inv: "inv r \<Longrightarrow> recv buf k r = (res, r') \<Longrightarrow> inv r'"
    and recv_Ok: "inv r \<Longrightarrow> recv buf k r = (Ok op, r') \<Longrightarrow> op \<notin> owned r \<and> owned r' = insert op (owned r)"
    and recv_Err: "inv r \<Longrightarrow> recv buf k r = (Inl e, r') \<Longrightarrow> owned r' = owned r"
    and fetch_inv: "inv r \<Longrightarrow> fetch r = (res', r') \<Longrightarrow> inv r'"
    and fetch_Some: "inv r \<Longrightarrow> fetch r = (Ok (Some c), r') \<Longrightarrow>
      ec_operation c \<in> owned r \<and> owned r' = owned r - {ec_operation c}"
    and fetch_None: "inv r \<Longrightarrow> fetch r = (Ok None, r') \<Longrightarrow> owned r' = owned r"
    and fetch_Err: "inv r \<Longrightarrow> fetch r = (Inl e, r') \<Longrightarrow> owned r' \<subseteq> owned r"
begin

text \<open>A receive submitted to an empty queue is the only one, and only its completion is ever fetched.\<close>

lemma recv_sole: "inv r \<Longrightarrow> owned r = {} \<Longrightarrow> recv buf k r = (Ok op, r') \<Longrightarrow> owned r' = {op}"
  by (drule (1) recv_Ok) simp

lemma fetch_sole:
  "inv r \<Longrightarrow> owned r \<subseteq> {op} \<Longrightarrow> fetch r = (Ok (Some c), r') \<Longrightarrow> ec_operation c = op \<and> owned r' = {}"
  by (drule (1) fetch_Some) auto

lemma fetch_subset: "inv r \<Longrightarrow> fetch r = (res, r') \<Longrightarrow> owned r' \<subseteq> owned r"
proof -
  assume r: "inv r" "fetch r = (res, r')"
  show ?thesis
  proof (cases res)
    case (Inl e)
    then show ?thesis using r fetch_Err by blast
  next
    case (Inr c)
    with r fetch_None [of r r'] fetch_Some [of r _ r'] show ?thesis by (cases c) auto
  qed
qed

end

definition receiver_ok :: "EndpointReceiver \<Rightarrow> bool" where
  "receiver_ok r = (case er_io r of None \<Rightarrow> True | Some io \<Rightarrow> aio_ok io)"

definition receiver_owned :: "EndpointReceiver \<Rightarrow> u64 set" where
  "receiver_owned r = (case er_io r of None \<Rightarrow> {} | Some io \<Rightarrow> set (all_ids io))"

lemma submit_owned:
  assumes "aio_ok io" and "submit buf k io = (res, io')"
  shows "aio_ok io' \<and> (case res of Inl _ \<Rightarrow> set (all_ids io') = set (all_ids io)
    | Inr op \<Rightarrow> op \<notin> set (all_ids io) \<and> set (all_ids io') = insert op (set (all_ids io)))"
proof -
  have "aio_ok io'" using aio_ok_submit [OF assms(1), of buf k] assms(2) by simp
  moreover have "q_next_id io \<notin> set (all_ids io)" using assms(1) by (auto simp: aio_ok_def)
  ultimately show ?thesis
    using assms(2) by (auto simp: submit_def ids_defs Let_def split: if_splits option.splits KernelSubmit.splits)
qed

lemma try_completed_owned:
  assumes "aio_ok io" and "try_completed io = (res, io')"
  shows "aio_ok io' \<and> (case res of None \<Rightarrow> io' = io
    | Some c \<Rightarrow> co_id c \<in> set (all_ids io) \<and> set (all_ids io') = set (all_ids io) - {co_id c})"
proof -
  have "aio_ok io'" using aio_ok_harvest [OF assms(1)] assms(2) by simp
  moreover have "distinct (all_ids io)" using assms(1) by (simp add: aio_ok_def)
  ultimately show ?thesis
    using assms(2) by (auto simp: try_completed_def ids_defs split: list.splits)
qed

interpretation endpoint_rx: aio_receiver receiver_ok receiver_owned receiver_is_empty
    try_recv_identified try_fetch_identified
proof
  fix r :: EndpointReceiver
  assume ok: "receiver_ok r"
  show "receiver_is_empty r = (receiver_owned r = {})"
  proof (cases "er_io r")
    case (Some io)
    then have "unat (q_space io) + length (all_ids io) = unat (q_length io)"
      using ok by (simp add: receiver_ok_def aio_ok_def)
    then show ?thesis
      using Some by (auto simp: receiver_is_empty_def receiver_owned_def is_empty_def word_unat_eq_iff)
  qed (simp add: receiver_is_empty_def receiver_owned_def)
next
  fix r r' :: EndpointReceiver and buf k res
  assume "receiver_ok r" "try_recv_identified buf k r = (res, r')"
  then show "receiver_ok r'"
    by (auto simp: receiver_ok_def try_recv_identified_def split: option.splits if_splits prod.splits
        dest: submit_owned)
next
  fix r r' :: EndpointReceiver and buf k op
  assume "receiver_ok r" "try_recv_identified buf k r = (Ok op, r')"
  then show "op \<notin> receiver_owned r \<and> receiver_owned r' = insert op (receiver_owned r)"
    by (auto simp: receiver_ok_def receiver_owned_def try_recv_identified_def
        split: option.splits if_splits prod.splits dest: submit_owned)
next
  fix r r' :: EndpointReceiver and buf k e
  assume "receiver_ok r" "try_recv_identified buf k r = (Inl e, r')"
  then show "receiver_owned r' = receiver_owned r"
    by (auto simp: receiver_ok_def receiver_owned_def try_recv_identified_def
        split: option.splits if_splits prod.splits dest: submit_owned)
next
  fix r r' :: EndpointReceiver and res
  assume "receiver_ok r" "try_fetch_identified r = (res, r')"
  then show "receiver_ok r'"
    by (auto simp: receiver_ok_def try_fetch_identified_def split: option.splits prod.splits sum.splits
        dest: try_completed_owned)
next
  fix r r' :: EndpointReceiver and c
  assume "receiver_ok r" "try_fetch_identified r = (Ok (Some c), r')"
  then show "ec_operation c \<in> receiver_owned r \<and> receiver_owned r' = receiver_owned r - {ec_operation c}"
    by (auto simp: receiver_ok_def receiver_owned_def try_fetch_identified_def
        split: option.splits prod.splits sum.splits dest: try_completed_owned)
next
  fix r r' :: EndpointReceiver
  assume "receiver_ok r" "try_fetch_identified r = (Ok None, r')"
  then show "receiver_owned r' = receiver_owned r"
    by (auto simp: receiver_ok_def receiver_owned_def try_fetch_identified_def
        split: option.splits prod.splits sum.splits dest: try_completed_owned)
next
  fix r r' :: EndpointReceiver and e
  assume "receiver_ok r" "try_fetch_identified r = (Inl e, r')"
  then show "receiver_owned r' \<subseteq> receiver_owned r"
    by (auto simp: receiver_ok_def receiver_owned_def try_fetch_identified_def
        split: option.splits prod.splits sum.splits dest: try_completed_owned)
qed

section \<open>The endpoint\<close>

record PrearmedBulkRead =
  pr_request_bytes :: usize
  pr_lifecycle_generation :: u64

record PixelDataEndpoint =
  pe_ep_rx :: EndpointReceiver
  pe_legacy_512 :: bool
  pe_bulk_ep :: bool
  pe_bulk_ep_generation :: "u64 option"
  pe_prearmed_read :: "PrearmedBulkRead option"
  pe_exact_aio :: ExactAioTransaction
  pe_read_size :: usize
  pe_payload_seq :: u64
  pe_buf :: bytes
  pe_compress_buf :: bytes

record PayloadStats =
  ps_payload_seq :: u64
  ps_transfer_bytes :: usize
  ps_output_bytes :: usize
  ps_usb_packets_est :: usize
  ps_read_calls :: usize
  ps_read_size :: usize
  ps_first_request_bytes :: usize
  ps_last_request_bytes :: usize
  ps_read_ms :: nat
  ps_decompress_ms :: nat
  ps_total_ms :: nat

definition build_endpoint :: "usize \<Rightarrow> bool \<Rightarrow> PixelDataEndpoint" where
  "build_endpoint read_size legacy_512 =
     \<lparr> pe_ep_rx = \<lparr> er_io = None, er_file = False \<rparr>, pe_legacy_512 = legacy_512, pe_bulk_ep = False,
       pe_bulk_ep_generation = None, pe_prearmed_read = None, pe_exact_aio = default_exact_aio,
       pe_read_size = read_size, pe_payload_seq = 0, pe_buf = [], pe_compress_buf = [] \<rparr>"

definition new_legacy_512 :: PixelDataEndpoint where
  "new_legacy_512 = build_endpoint FUNCTIONFS_BULK_OUT_MAX_PACKET_SIZE True"

definition new_with_read_size :: "usize \<Rightarrow> PixelDataEndpoint result" where
  "new_with_read_size read_size =
     (case validate_functionfs_read_size read_size of
        Inl e \<Rightarrow> Inl e
      | Inr _ \<Rightarrow> Ok (build_endpoint read_size False))"

text \<open>The number of bytes a SET_BUFFER puts on the bulk endpoint.\<close>

definition payload_bytes :: "SetBuffer \<Rightarrow> usize" where
  "payload_bytes info =
     (if sb_compression info > 0 then unat (sb_compressed_length info) else unat (sb_length info))"

definition exact_aio_elapsed :: "instant \<Rightarrow> PixelDataEndpoint \<Rightarrow> nat option" where
  "exact_aio_elapsed now ep = map_option (\<lambda>started. now - started) (xa_started (pe_exact_aio ep))"

section \<open>Exact AIO operations\<close>

text \<open>\<open>capacity n\<close> is the capacity of \<^verbatim>\<open>BytesMut::zeroed(n)\<close>.\<close>

definition arm_exact_payload_aio ::
  "(usize \<Rightarrow> usize) \<Rightarrow> KernelSubmit \<Rightarrow> instant \<Rightarrow> SetBuffer \<Rightarrow> PixelDataEndpoint \<times> Globals \<Rightarrow>
   u64 result \<times> PixelDataEndpoint \<times> Globals" where
  "arm_exact_payload_aio capacity ksub now info = (\<lambda>(ep, g).
     (if pe_legacy_512 ep then (Err ''exact FunctionFS AIO is unavailable in legacy mode'', ep, g)
      else if pe_prearmed_read ep \<noteq> None
      then (Err ''old prearm and STATUS_ON_SET AIO cannot coexist'', ep, g)
      else
        let expected_bytes = payload_bytes info in
        case begin_arm_with_metadata now (usb_activation_generation g) info expected_bytes (pe_exact_aio ep) of
          (Inl e, t) \<Rightarrow> (Inl e, ep\<lparr> pe_exact_aio := t \<rparr>, g)
        | (Inr seq, t) \<Rightarrow>
            if capacity expected_bytes \<noteq> expected_bytes then
              (case submission_rejected t of
                 (Inl e, t') \<Rightarrow> (Inl e, ep\<lparr> pe_exact_aio := t' \<rparr>, g)
               | (Inr _, t') \<Rightarrow> (Err ''exact AIO allocation capacity mismatch'', ep\<lparr> pe_exact_aio := t' \<rparr>, g))
            else
              (case try_recv_identified (ReadBuf (capacity expected_bytes) (replicate expected_bytes 0)) ksub
                      (pe_ep_rx ep) of
                 (Inl e, rx) \<Rightarrow>
                   (case submission_rejected t of
                      (Inl e', t') \<Rightarrow> (Inl e', ep\<lparr> pe_exact_aio := t', pe_ep_rx := rx \<rparr>, g)
                    | (Inr _, t') \<Rightarrow>
                        (Inl e, ep\<lparr> pe_exact_aio := t', pe_ep_rx := rx \<rparr>, latch_status GUD_STATUS_ERROR g))
               | (Inr operation, rx) \<Rightarrow>
                   (case submission_accepted_operation now operation t of
                      (Inl e, t') \<Rightarrow> (Inl e, ep\<lparr> pe_exact_aio := t', pe_ep_rx := rx \<rparr>, g)
                    | (Inr _, t') \<Rightarrow>
                        (Ok seq, ep\<lparr> pe_exact_aio := t', pe_ep_rx := rx \<rparr>, mark_success g)))))"

definition note_status_sent :: "u8 \<Rightarrow> PixelDataEndpoint \<Rightarrow> bool result \<times> PixelDataEndpoint" where
  "note_status_sent status ep =
     (let (r, t) = status_sent status (pe_exact_aio ep) in (r, ep\<lparr> pe_exact_aio := t \<rparr>))"

definition try_complete_exact_payload_aio ::
  "instant \<Rightarrow> u64 \<Rightarrow> usize \<Rightarrow> PixelDataEndpoint \<Rightarrow> PayloadStats option result \<times> PixelDataEndpoint" where
  "try_complete_exact_payload_aio now activation output_bytes ep =
     (let t = pe_exact_aio ep in
      if \<not> (xa_state t = InFlight \<or> xa_state t = Poisoned) then (Ok None, ep)
      else case try_fetch_identified (pe_ep_rx ep) of
        (Inl e, rx) \<Rightarrow> (Inl e, ep\<lparr> pe_ep_rx := rx \<rparr>)
      | (Inr None, rx) \<Rightarrow> (Ok None, ep\<lparr> pe_ep_rx := rx \<rparr>)
      | (Inr (Some completion), rx) \<Rightarrow>
          (case completion_for_operation activation (ec_operation completion) (length (ec_data completion)) t of
             (Inl e, t') \<Rightarrow> (Inl e, ep\<lparr> pe_ep_rx := rx, pe_exact_aio := t' \<rparr>)
           | (Inr _, t') \<Rightarrow>
               let ep = ep\<lparr> pe_ep_rx := rx, pe_exact_aio := t', pe_buf := ec_data completion \<rparr>;
                   expected_bytes = xa_expected_bytes t in
               (case checked_add (pe_payload_seq ep) 1 of
                  None \<Rightarrow> (Err ''payload sequence exhausted; refusing identifier reuse'', ep)
                | Some seq \<Rightarrow>
                    (Ok (Some \<lparr> ps_payload_seq = seq, ps_transfer_bytes = expected_bytes,
                                ps_output_bytes = output_bytes,
                                ps_usb_packets_est = usb_packet_estimate expected_bytes,
                                ps_read_calls = 1, ps_read_size = expected_bytes,
                                ps_first_request_bytes = expected_bytes,
                                ps_last_request_bytes = expected_bytes,
                                ps_read_ms = (case xa_started t' of None \<Rightarrow> 0 | Some started \<Rightarrow> now - started),
                                ps_decompress_ms = 0, ps_total_ms = 0 \<rparr>),
                     ep\<lparr> pe_payload_seq := seq \<rparr>))))"

definition finish_exact_payload_processing :: "PixelDataEndpoint \<Rightarrow> unit result \<times> PixelDataEndpoint" where
  "finish_exact_payload_processing ep =
     (let (r, t) = finish_processing (pe_exact_aio ep) in (r, ep\<lparr> pe_exact_aio := t \<rparr>))"

definition poison_exact_payload_aio :: "PixelDataEndpoint \<times> Globals \<Rightarrow> PixelDataEndpoint \<times> Globals" where
  "poison_exact_payload_aio = (\<lambda>(ep, g).
     (ep\<lparr> pe_exact_aio := poison (pe_exact_aio ep) \<rparr>, latch_status GUD_STATUS_BUSY g))"

definition retire_exact_aio_after_session_destruction ::
  "PixelDataEndpoint \<Rightarrow> RetiredExactAioTransaction result \<times> PixelDataEndpoint" where
  "retire_exact_aio_after_session_destruction ep =
     (if \<not> receiver_is_empty (pe_ep_rx ep)
      then (Err ''cannot retire destroyed USB epoch while an AIO completion remains unharvested'', ep)
      else let (r, t) = retire_after_session_destruction (pe_exact_aio ep) in (r, ep\<lparr> pe_exact_aio := t \<rparr>))"

definition begin_exact_aio_usb_epoch :: "u64 \<Rightarrow> PixelDataEndpoint \<Rightarrow> unit result \<times> PixelDataEndpoint" where
  "begin_exact_aio_usb_epoch epoch_id ep =
     (if \<not> receiver_is_empty (pe_ep_rx ep)
      then (Err ''cannot begin fresh USB epoch while an old AIO completion remains unharvested'', ep)
      else let (r, t) = begin_usb_epoch epoch_id (pe_exact_aio ep) in (r, ep\<lparr> pe_exact_aio := t \<rparr>))"

section \<open>Blocking receive paths\<close>

definition bulk_endpoint :: "u64 \<Rightarrow> PixelDataEndpoint \<Rightarrow> unit result \<times> PixelDataEndpoint" where
  "bulk_endpoint lifecycle_generation ep =
     (if pe_bulk_ep ep then (Ok (), ep)
      else case er_io (pe_ep_rx ep) of
        None \<Rightarrow> (Err ''get initialized FunctionFS bulk OUT endpoint'', ep)
      | Some _ \<Rightarrow>
          if \<not> er_file (pe_ep_rx ep) then (Err ''get initialized FunctionFS bulk OUT endpoint'', ep)
          else (Ok (), ep\<lparr> pe_bulk_ep := True, pe_bulk_ep_generation := Some lifecycle_generation \<rparr>))"

text \<open>\<open>spawned\<close> is the outcome of starting the worker and of its first message.\<close>

definition prearm_payload_read ::
  "unit result \<Rightarrow> u64 \<Rightarrow> usize \<Rightarrow> PixelDataEndpoint \<Rightarrow> unit result \<times> PixelDataEndpoint" where
  "prearm_payload_read spawned lifecycle_generation request_bytes ep =
     (if pe_legacy_512 ep
      then (Err ''prearmed FunctionFS reads are unavailable for the legacy 512-byte path'', ep)
      else if pe_prearmed_read ep \<noteq> None then (Err ''a FunctionFS bulk OUT read is already prearmed'', ep)
      else case validate_functionfs_read_size request_bytes of
        Inl e \<Rightarrow> (Inl e, ep)
      | Inr _ \<Rightarrow>
          if \<not> request_bytes \<le> pe_read_size ep
          then (Err ''prearmed FunctionFS read size exceeds configured read ceiling'', ep)
          else case bulk_endpoint lifecycle_generation ep of
            (Inl e, ep') \<Rightarrow> (Inl e, ep')
          | (Inr _, ep') \<Rightarrow>
              (case spawned of
                 Inl e \<Rightarrow> (Inl e, ep')
               | Inr _ \<Rightarrow>
                   (Ok (), ep'\<lparr> pe_prearmed_read :=
                      Some \<lparr> pr_request_bytes = request_bytes, pr_lifecycle_generation = lifecycle_generation \<rparr> \<rparr>)))"

text \<open>\<open>worker\<close> is what the prearmed read's worker returns: its result, or that it died.\<close>

definition finish_prearmed_payload_read ::
  "read_outcome option \<Rightarrow> usize \<Rightarrow> PixelDataEndpoint \<Rightarrow> BulkReadStats result \<times> PixelDataEndpoint" where
  "finish_prearmed_payload_read worker payload_len ep =
     (case pe_prearmed_read ep of
        None \<Rightarrow> (Err ''prearmed FunctionFS bulk OUT read disappeared'', ep)
      | Some prearmed \<Rightarrow>
          let ep = ep\<lparr> pe_prearmed_read := None \<rparr> in
          if \<not> payload_len \<le> pr_request_bytes prearmed
          then (Err ''SET_BUFFER payload exceeds prearmed read size'', ep)
          else case worker of
            None \<Rightarrow> (Err ''prearmed FunctionFS read worker exited without a result'', ep)
          | Some (Inl e) \<Rightarrow> (Inl e, ep)
          | Some (Inr (bytes_read, data)) \<Rightarrow>
              if \<not> bytes_read = payload_len then (Err ''prearmed FunctionFS read length mismatch'', ep)
              else (Ok \<lparr> brs_read_calls = 1, brs_first_request_bytes = pr_request_bytes prearmed,
                         brs_last_request_bytes = pr_request_bytes prearmed \<rparr>,
                    ep\<lparr> pe_buf := take bytes_read
                          (blit (replicate (pr_request_bytes prearmed) 0) 0 (take (pr_request_bytes prearmed) data)) \<rparr>))"

text \<open>What a finished blocking read leaves in the endpoint, and its statistics.\<close>

definition bulk_outcome ::
  "(BulkReadStats \<Rightarrow> PayloadStats) \<Rightarrow> PixelDataEndpoint \<Rightarrow> BulkReadStats result \<times> bytes \<times> read_outcome list \<Rightarrow>
   PayloadStats result \<times> PixelDataEndpoint \<times> read_outcome list" where
  "bulk_outcome stats ep out =
     (case out of (r, buf, rest) \<Rightarrow>
        ((case r of Inl e \<Rightarrow> Inl e | Inr bulk \<Rightarrow> Ok (stats bulk)), ep\<lparr> pe_buf := buf \<rparr>, rest))"

text \<open>
  The three receive paths. \<open>reads\<close> are the kernel's answers on the endpoint file; \<open>None\<close> means the
  call is still blocked in a read.
\<close>

definition recv_payload_bytes ::
  "read_outcome option \<Rightarrow> read_outcome list \<Rightarrow> u64 \<Rightarrow> nat \<Rightarrow> SetBuffer \<Rightarrow> PixelDataEndpoint \<Rightarrow>
   (PayloadStats result \<times> PixelDataEndpoint \<times> read_outcome list) option" where
  "recv_payload_bytes worker reads lifecycle_generation elapsed info ep =
     (let len = payload_bytes info;
          ep = ep\<lparr> pe_payload_seq := pe_payload_seq ep + 1 \<rparr>;
          seq = pe_payload_seq ep;
          stats = (\<lambda>bulk. \<lparr> ps_payload_seq = seq, ps_transfer_bytes = len,
                            ps_output_bytes = unat (sb_length info),
                            ps_usb_packets_est = usb_packet_estimate len,
                            ps_read_calls = brs_read_calls bulk, ps_read_size = pe_read_size ep,
                            ps_first_request_bytes = brs_first_request_bytes bulk,
                            ps_last_request_bytes = brs_last_request_bytes bulk,
                            ps_read_ms = elapsed, ps_decompress_ms = 0, ps_total_ms = 0 \<rparr>) in
      if pe_prearmed_read ep \<noteq> None then
        (case finish_prearmed_payload_read worker len ep of
           (Inl e, ep') \<Rightarrow> Some (Inl e, ep', reads)
         | (Inr bulk, ep') \<Rightarrow> Some (Ok (stats bulk), ep', reads))
      else if pe_legacy_512 ep then
        (if len = 0 then map_option (bulk_outcome stats ep) (read_legacy_512_payload reads len)
         else case bulk_endpoint lifecycle_generation ep of
           (Inl e, ep') \<Rightarrow> Some (Inl e, ep'\<lparr> pe_buf := [] \<rparr>, reads)
         | (Inr _, ep') \<Rightarrow> map_option (bulk_outcome stats ep') (read_legacy_512_payload reads len))
      else (case bulk_endpoint lifecycle_generation ep of
         (Inl e, ep') \<Rightarrow> Some (Inl e, ep', reads)
       | (Inr _, ep') \<Rightarrow>
           map_option (bulk_outcome stats ep') (read_functionfs_payload reads (pe_buf ep') len (pe_read_size ep'))))"

text \<open>The two processing times that \<open>finish_payload\<close> adds to the statistics are left out.\<close>

definition recv_payload ::
  "(bytes \<Rightarrow> 32 word \<Rightarrow> bytes \<Rightarrow> (bytes \<times> usize) result) \<Rightarrow> read_outcome option \<Rightarrow> read_outcome list \<Rightarrow>
   u64 \<Rightarrow> nat \<Rightarrow> SetBuffer \<Rightarrow> PixelDataEndpoint \<Rightarrow>
   ((bytes \<times> PayloadStats) result \<times> PixelDataEndpoint \<times> read_outcome list) option" where
  "recv_payload lz4 worker reads lifecycle_generation elapsed info ep =
     (case recv_payload_bytes worker reads lifecycle_generation elapsed info ep of
        None \<Rightarrow> None
      | Some (Inl e, ep', rest) \<Rightarrow> Some (Inl e, ep', rest)
      | Some (Inr stats, ep', rest) \<Rightarrow>
          (case finish_payload lz4 info (pe_buf ep') (pe_compress_buf ep') of
             (Inl e, dest) \<Rightarrow> Some (Inl e, ep'\<lparr> pe_compress_buf := dest \<rparr>, rest)
           | (Inr data, dest) \<Rightarrow> Some (Ok (data, stats), ep'\<lparr> pe_compress_buf := dest \<rparr>, rest)))"

section \<open>The environment of the endpoint\<close>

text \<open>
  Between two calls the kernel and the driver's thread work on: \<open>aio_background\<close> is one of their
  actions. None of them changes which operations are owned.
\<close>

inductive aio_background :: "Aio \<Rightarrow> Aio \<Rightarrow> bool" where
  kernel: "ie_data ev \<in> set (q_kpending a) \<Longrightarrow> aio_background a (kernel_complete ev a)"
| cmd: "cancel_outcome_ok outcome a \<Longrightarrow> thread_cmd outcome a = Inr a' \<Longrightarrow> aio_background a a'"
| fetch: "aio_background a (thread_fetch n a)"
| process: "thread_process a = Inr a' \<Longrightarrow> aio_background a a'"

lemma thread_cmd_owned:
  assumes "aio_ok a" and "cancel_outcome_ok outcome a" and "thread_cmd outcome a = Inr a'"
  shows "set (all_ids a') = set (all_ids a)"
proof (cases "\<exists>i rest op ev. q_cmds a = Cancel i # rest \<and> q_active a i = Some op \<and> outcome = Some ev")
  case True
  then obtain i rest op ev where c: "q_cmds a = Cancel i # rest" "q_active a i = Some op" "outcome = Some ev"
    by blast
  then have i: "ie_data ev = i" "i \<in> set (q_kpending a)" using assms(2) by (simp_all add: cancel_outcome_ok_def)
  have "op_data op = i" using assms(1) c by (auto simp: aio_ok_def)
  with c i assms(3) show ?thesis by (auto simp: thread_cmd_def complete_op_def ids_defs)
next
  case False
  with assms(3) show ?thesis
    by (auto simp: thread_cmd_def ids_defs split: list.splits Cmd.splits if_splits option.splits)
qed

lemma background_owned:
  assumes "aio_background a a'" and "aio_ok a"
  shows "aio_ok a' \<and> set (all_ids a') = set (all_ids a)"
  using assms(1)
proof cases
  case (kernel ev)
  then show ?thesis using aio_ok_kernel [OF assms(2) kernel(2)]
    by (auto simp: kernel_complete_def ids_defs)
next
  case (cmd outcome)
  then show ?thesis
    using thread_cmd_owned [OF assms(2) cmd(1,2)] aio_ok_step [OF aio_step.cmd [OF cmd(1,2)] assms(2)] by simp
next
  case (fetch n)
  have "set (q_kevents a) = set (take n (q_kevents a)) \<union> set (drop n (q_kevents a))"
    by (metis append_take_drop_id set_append)
  then show ?thesis using fetch aio_ok_fetch [OF assms(2)] by (auto simp: thread_fetch_def ids_defs)
next
  case process
  have "aio_ok a'" by (rule aio_ok_step [OF aio_step.process [OF process] assms(2)])
  moreover have "set (all_ids a') = set (all_ids a)"
    using process by (auto simp: thread_process_def complete_op_def ids_defs split: list.splits option.splits if_splits)
  ultimately show ?thesis by simp
qed

section \<open>Invariant of the endpoint\<close>

definition endpoint_ok :: "PixelDataEndpoint \<Rightarrow> bool" where
  "endpoint_ok ep \<longleftrightarrow>
     (let t = pe_exact_aio ep; own = receiver_owned (pe_ep_rx ep) in
      receiver_ok (pe_ep_rx ep) \<and> xa_ok t
      \<and> (case xa_state t of InFlight \<Rightarrow> own \<subseteq> set_option (xa_operation t)
         | Poisoned \<Rightarrow> own \<subseteq> set_option (xa_operation t) | _ \<Rightarrow> own = {})
      \<and> (xa_state t \<in> {InFlight, Processing} \<longrightarrow>
           map_option payload_bytes (xa_metadata t) = Some (xa_expected_bytes t)))"

inductive endpoint_step :: "PixelDataEndpoint \<times> Globals \<Rightarrow> PixelDataEndpoint \<times> Globals \<Rightarrow> bool" where
  arm: "endpoint_step s (snd (arm_exact_payload_aio capacity ksub now info s))"
| status: "endpoint_step (ep, g) (snd (note_status_sent st ep), g)"
| complete: "endpoint_step (ep, g) (snd (try_complete_exact_payload_aio now (usb_activation_generation g) n ep), g)"
| finish: "endpoint_step (ep, g) (snd (finish_exact_payload_processing ep), g)"
| poison: "endpoint_step s (poison_exact_payload_aio s)"
| retire: "endpoint_step (ep, g) (snd (retire_exact_aio_after_session_destruction ep), g)"
| epoch: "endpoint_step (ep, g) (snd (begin_exact_aio_usb_epoch e ep), g)"
| prearm: "endpoint_step (ep, g) (snd (prearm_payload_read sp gen req ep), g)"
| blocking: "recv_payload_bytes worker reads gen elapsed info ep = Some (r, ep', rest) \<Longrightarrow>
    endpoint_step (ep, g) (ep', g)"
| process: "endpoint_step (ep, g) (ep\<lparr> pe_compress_buf := snd (finish_payload lz4 info (pe_buf ep) (pe_compress_buf ep)) \<rparr>, g)"
| control: "endpoint_step (ep, g) (ep, g')"
| connect: "er_io (pe_ep_rx ep) = None \<Longrightarrow>
    endpoint_step (ep, g) (ep\<lparr> pe_ep_rx := \<lparr> er_io = Some (new_driver 1), er_file = True \<rparr> \<rparr>, g)"
| close: "endpoint_step (ep, g) (ep\<lparr> pe_ep_rx := (pe_ep_rx ep)\<lparr> er_file := False \<rparr> \<rparr>, g)"
| background: "er_io (pe_ep_rx ep) = Some a \<Longrightarrow> aio_background a a' \<Longrightarrow>
    endpoint_step (ep, g) (ep\<lparr> pe_ep_rx := (pe_ep_rx ep)\<lparr> er_io := Some a' \<rparr> \<rparr>, g)"

lemma endpoint_ok_arm:
  assumes ok: "endpoint_ok ep" and arm: "arm_exact_payload_aio capacity ksub now info (ep, g) = (r, ep', g')"
  shows "endpoint_ok ep' \<and> (is_ok r \<longrightarrow> xa_state (pe_exact_aio ep) = Idle \<and> xa_state (pe_exact_aio ep') = InFlight
    \<and> xa_metadata (pe_exact_aio ep') = Some info \<and> status_value g' \<in> {status_value g, GUD_STATUS_OK}
    \<and> receiver_owned (pe_ep_rx ep') = set_option (xa_operation (pe_exact_aio ep')))
    \<and> (\<not> is_ok r \<longrightarrow> xa_state (pe_exact_aio ep') = xa_state (pe_exact_aio ep)
        \<and> receiver_owned (pe_ep_rx ep') = receiver_owned (pe_ep_rx ep))"
proof (cases "pe_legacy_512 ep \<or> pe_prearmed_read ep \<noteq> None")
  case True
  then have "ep' = ep \<and> \<not> is_ok r"
    using arm by (cases "pe_legacy_512 ep") (auto simp: arm_exact_payload_aio_def)
  then show ?thesis using ok by simp
next
  case False
  let ?n = "payload_bytes info"
  obtain ra t where ba: "begin_arm_with_metadata now (usb_activation_generation g) info ?n (pe_exact_aio ep) = (ra, t)"
    by (cases "begin_arm_with_metadata now (usb_activation_generation g) info ?n (pe_exact_aio ep)") auto
  have xok: "xa_ok (pe_exact_aio ep)" and rok: "receiver_ok (pe_ep_rx ep)"
    using ok by (simp_all add: endpoint_ok_def Let_def)
  show ?thesis
  proof (cases ra)
    case (Inl e)
    then have "t = pe_exact_aio ep" using ba by (auto simp: exact_aio_ops split: if_splits option.splits)
    then show ?thesis using ok arm False ba Inl by (auto simp: arm_exact_payload_aio_def)
  next
    case (Inr seq)
    then have idle: "xa_state (pe_exact_aio ep) = Idle"
      and t: "xa_state t = Arming" "xa_metadata t = Some info" "xa_expected_bytes t = ?n" "xa_operation t = None"
      using ba xok by (auto simp: exact_aio_ops xa_ok_def split: if_splits option.splits)
    have tok: "xa_ok t" by (rule xa_ok_begin_arm [OF ba xok])
    have own: "receiver_owned (pe_ep_rx ep) = {}" using ok idle by (simp add: endpoint_ok_def Let_def)
    have rej: "submission_rejected t = (Ok (), snd (submission_rejected t))" "xa_ok (snd (submission_rejected t))"
      "xa_state (snd (submission_rejected t)) = Idle"
      using t tok by (simp_all add: submission_rejected_def xa_ok_def)
    show ?thesis
    proof (cases "capacity ?n = ?n")
      case False
      then have "ep' = ep\<lparr> pe_exact_aio := snd (submission_rejected t) \<rparr>" "\<not> is_ok r"
        using arm \<open>\<not> (pe_legacy_512 ep \<or> _)\<close> ba Inr rej(1)
        by (auto simp: arm_exact_payload_aio_def split: prod.splits)
      then show ?thesis using rej own rok idle by (simp add: endpoint_ok_def Let_def)
    next
      case True
      obtain rr rx where rv: "try_recv_identified (ReadBuf ?n (replicate ?n 0)) ksub (pe_ep_rx ep) = (rr, rx)"
        by (cases "try_recv_identified (ReadBuf ?n (replicate ?n 0)) ksub (pe_ep_rx ep)") auto
      have rx: "receiver_ok rx" by (rule endpoint_rx.recv_inv [OF rok rv])
      show ?thesis
      proof (cases rr)
        case (Inl e)
        then have "receiver_owned rx = {}" using endpoint_rx.recv_Err [OF rok] rv own by metis
        moreover have "ep' = ep\<lparr> pe_exact_aio := snd (submission_rejected t), pe_ep_rx := rx \<rparr>" "\<not> is_ok r"
          using arm False ba Inr rej(1) rv True Inl by (auto simp: arm_exact_payload_aio_def split: prod.splits)
        ultimately show ?thesis using rej rx idle own by (simp add: endpoint_ok_def Let_def)
      next
        case (Inr op)
        then have "receiver_owned rx = {op}" using endpoint_rx.recv_sole [OF rok own] rv by metis
        moreover have "ep' = ep\<lparr> pe_exact_aio := snd (submission_accepted_operation now op t), pe_ep_rx := rx \<rparr>"
          "is_ok r" "g' = mark_success g"
          using arm False ba \<open>ra = Inr seq\<close> rv True Inr t(1)
          by (auto simp: arm_exact_payload_aio_def submission_accepted_operation_def)
        ultimately show ?thesis
          using rx idle t tok
          by (simp add: endpoint_ok_def Let_def submission_accepted_operation_def xa_ok_def status_ops)
      qed
    qed
  qed
qed

lemma endpoint_ok_complete:
  assumes ok: "endpoint_ok ep" and run: "try_complete_exact_payload_aio now act n ep = (r, ep')"
  shows "endpoint_ok ep' \<and> (\<forall>stats. r = Ok (Some stats) \<longrightarrow>
    xa_state (pe_exact_aio ep') = Processing \<and> receiver_owned (pe_ep_rx ep') = {}
    \<and> length (pe_buf ep') = xa_expected_bytes (pe_exact_aio ep)
    \<and> xa_metadata (pe_exact_aio ep') = xa_metadata (pe_exact_aio ep)
    \<and> xa_activation_generation (pe_exact_aio ep) = Some act
    \<and> xa_state (pe_exact_aio ep) = InFlight
    \<and> ps_transfer_bytes stats = length (pe_buf ep') \<and> ps_output_bytes stats = n)"
proof (cases "xa_state (pe_exact_aio ep) = InFlight \<or> xa_state (pe_exact_aio ep) = Poisoned")
  case False
  then show ?thesis using ok run by (auto simp: try_complete_exact_payload_aio_def Let_def)
next
  case True
  let ?t = "pe_exact_aio ep"
  have rok: "receiver_ok (pe_ep_rx ep)" and xok: "xa_ok ?t"
    and own: "receiver_owned (pe_ep_rx ep) \<subseteq> set_option (xa_operation ?t)"
    using ok True by (auto simp: endpoint_ok_def Let_def)
  obtain fr rx where fr: "try_fetch_identified (pe_ep_rx ep) = (fr, rx)" by (cases "try_fetch_identified (pe_ep_rx ep)")
  have rx: "receiver_ok rx" "receiver_owned rx \<subseteq> receiver_owned (pe_ep_rx ep)"
    using endpoint_rx.fetch_inv [OF rok fr] endpoint_rx.fetch_subset [OF rok fr] by simp_all
  show ?thesis
  proof (cases "\<exists>c. fr = Ok (Some c)")
    case False
    then have "ep' = ep\<lparr> pe_ep_rx := rx \<rparr>" and "\<And>st. r \<noteq> Ok (Some st)"
      using run True fr by (auto simp: try_complete_exact_payload_aio_def Let_def split: sum.splits option.splits)
    then show ?thesis using ok rx True by (auto simp: endpoint_ok_def Let_def)
  next
    case hit: True
    then obtain c where c: "fr = Ok (Some c)" by blast
    obtain cr t where cr: "completion_for_operation act (ec_operation c) (length (ec_data c)) ?t = (cr, t)"
      by (cases "completion_for_operation act (ec_operation c) (length (ec_data c)) ?t")
    show ?thesis
    proof (cases cr)
      case (Inl e)
      then have t: "t = poison ?t" using cr by (auto simp: completion_for_operation_def split: if_splits)
      have "ep' = ep\<lparr> pe_ep_rx := rx, pe_exact_aio := t \<rparr>" and "\<And>st. r \<noteq> Ok (Some st)"
        using run True fr c cr Inl by (auto simp: try_complete_exact_payload_aio_def Let_def)
      then show ?thesis using rx own t by (auto simp: endpoint_ok_def Let_def poison_def xa_ok_def)
    next
      case (Inr u)
      then have t: "t = ?t\<lparr> xa_state := Processing \<rparr>" "xa_state ?t = InFlight"
        "xa_operation ?t = Some (ec_operation c)" "xa_activation_generation ?t = Some act"
        "xa_status_ready ?t" "length (ec_data c) = xa_expected_bytes ?t"
        using cr by (auto simp: completion_for_operation_def split: if_splits)
      then have none: "receiver_owned rx = {}"
        using endpoint_rx.fetch_sole [OF rok _ fr [unfolded c], of "ec_operation c"] own by simp
      have "xa_ok t" using xok t by (simp add: xa_ok_def)
      then show ?thesis
        using run True fr c cr Inr t none rx ok
        by (auto simp: try_complete_exact_payload_aio_def Let_def endpoint_ok_def split: option.splits)
    qed
  qed
qed

lemma endpoint_ok_same:
  "endpoint_ok ep \<Longrightarrow> xa_ok t \<Longrightarrow> xa_state t = xa_state (pe_exact_aio ep) \<Longrightarrow>
   xa_operation t = xa_operation (pe_exact_aio ep) \<Longrightarrow> xa_metadata t = xa_metadata (pe_exact_aio ep) \<Longrightarrow>
   xa_expected_bytes t = xa_expected_bytes (pe_exact_aio ep) \<Longrightarrow> endpoint_ok (ep\<lparr> pe_exact_aio := t \<rparr>)"
  by (cases "xa_state (pe_exact_aio ep)") (simp_all add: endpoint_ok_def Let_def)

lemma endpoint_ok_rest:
  "endpoint_ok ep \<Longrightarrow> xa_ok t \<Longrightarrow> xa_state t = Idle \<or> xa_state t = AbortedBySessionDestruction \<Longrightarrow>
   receiver_owned (pe_ep_rx ep) = {} \<Longrightarrow> endpoint_ok (ep\<lparr> pe_exact_aio := t \<rparr>)"
  by (auto simp: endpoint_ok_def Let_def)

lemma endpoint_ok_xa: "endpoint_ok ep \<Longrightarrow> xa_ok (pe_exact_aio ep)"
  by (simp add: endpoint_ok_def Let_def)

lemma endpoint_ok_empty:
  "endpoint_ok ep \<Longrightarrow> receiver_is_empty (pe_ep_rx ep) \<Longrightarrow> receiver_owned (pe_ep_rx ep) = {}"
  using endpoint_rx.empty_owned [of "pe_ep_rx ep"] by (simp add: endpoint_ok_def Let_def)

lemma endpoint_ok_status: "endpoint_ok ep \<Longrightarrow> endpoint_ok (snd (note_status_sent st ep))"
proof -
  assume ok: "endpoint_ok ep"
  have "xa_ok (snd (status_sent st (pe_exact_aio ep)))"
    using xa_ok_apply [OF endpoint_ok_xa [OF ok], of "StatusOp st"] by (simp add: split_def Let_def)
  then show ?thesis
    using ok endpoint_ok_same [OF ok] by (auto simp: note_status_sent_def status_sent_def split: if_splits)
qed

lemma endpoint_ok_finish: "endpoint_ok ep \<Longrightarrow> endpoint_ok (snd (finish_exact_payload_processing ep))"
proof -
  assume ok: "endpoint_ok ep"
  show ?thesis
  proof (cases "xa_state (pe_exact_aio ep) = Processing")
    case True
    then have "receiver_owned (pe_ep_rx ep) = {}" using ok by (simp add: endpoint_ok_def Let_def)
    then show ?thesis
      using True endpoint_ok_rest [OF ok, of "clear_transaction ((pe_exact_aio ep)\<lparr> xa_state := Idle \<rparr>)"]
      by (simp add: finish_exact_payload_processing_def finish_processing_def clear_transaction_def xa_ok_def)
  qed (simp add: finish_exact_payload_processing_def finish_processing_def ok)
qed

lemma endpoint_ok_retire:
  assumes ok: "endpoint_ok ep"
  shows "endpoint_ok (snd (retire_exact_aio_after_session_destruction ep))"
proof (cases "receiver_is_empty (pe_ep_rx ep) \<and> is_ok (fst (retire_after_session_destruction (pe_exact_aio ep)))")
  case True
  then have "endpoint_ok (ep\<lparr> pe_exact_aio := snd (retire_after_session_destruction (pe_exact_aio ep)) \<rparr>)"
    by (intro endpoint_ok_rest [OF ok])
       (auto simp: retire_after_session_destruction_def clear_transaction_def xa_ok_def Let_def endpoint_ok_empty [OF ok])
  with True show ?thesis by (simp add: retire_exact_aio_after_session_destruction_def split_def Let_def)
next
  case False
  then have "snd (retire_exact_aio_after_session_destruction ep) = ep"
    by (auto simp: retire_exact_aio_after_session_destruction_def retire_after_session_destruction_def Let_def
        split: if_splits)
  then show ?thesis using ok by simp
qed

lemma endpoint_ok_epoch:
  assumes ok: "endpoint_ok ep"
  shows "endpoint_ok (snd (begin_exact_aio_usb_epoch e ep))"
proof (cases "receiver_is_empty (pe_ep_rx ep) \<and> is_ok (fst (begin_usb_epoch e (pe_exact_aio ep)))")
  case True
  have "xa_ok (snd (begin_usb_epoch e (pe_exact_aio ep)))"
    using xa_ok_apply [OF endpoint_ok_xa [OF ok], of "BeginEpoch e"] by (simp add: split_def Let_def)
  then have "endpoint_ok (ep\<lparr> pe_exact_aio := snd (begin_usb_epoch e (pe_exact_aio ep)) \<rparr>)"
    using True by (intro endpoint_ok_rest [OF ok])
       (auto simp: begin_usb_epoch_def endpoint_ok_empty [OF ok] split: if_splits)
  with True show ?thesis by (simp add: begin_exact_aio_usb_epoch_def split_def Let_def)
next
  case False
  then have "snd (begin_exact_aio_usb_epoch e ep) = ep"
    by (auto simp: begin_exact_aio_usb_epoch_def begin_usb_epoch_def split: if_splits)
  then show ?thesis using ok by simp
qed

lemma endpoint_ok_poison: "endpoint_ok ep \<Longrightarrow> endpoint_ok (ep\<lparr> pe_exact_aio := poison (pe_exact_aio ep) \<rparr>)"
  by (cases "xa_state (pe_exact_aio ep)") (auto simp: poison_def endpoint_ok_def Let_def xa_ok_def)

lemma bulk_outcome_ep: "bulk_outcome st ep out = (r, ep', rest) \<Longrightarrow> ep' = ep\<lparr> pe_buf := fst (snd out) \<rparr>"
  by (simp add: bulk_outcome_def split: prod.splits)

lemma endpoint_ok_step:
  assumes "endpoint_step s s'" and "endpoint_ok (fst s)"
  shows "endpoint_ok (fst s')"
  using assms(1)
proof cases
  case (arm capacity ksub now info)
  then show ?thesis using endpoint_ok_arm assms(2) by (metis prod.collapse)
next
  case (status ep g st)
  then show ?thesis using assms(2) by (simp add: endpoint_ok_status)
next
  case (complete ep g now n)
  then show ?thesis using endpoint_ok_complete assms(2) by (metis fst_conv prod.collapse)
next
  case (finish ep g)
  then show ?thesis using assms(2) by (simp add: endpoint_ok_finish)
next
  case poison
  obtain ep g where "s = (ep, g)" by (cases s)
  with poison assms(2) show ?thesis by (simp add: poison_exact_payload_aio_def endpoint_ok_poison)
next
  case (retire ep g)
  then show ?thesis using assms(2) by (simp add: endpoint_ok_retire)
next
  case (epoch ep g e)
  then show ?thesis using assms(2) by (simp add: endpoint_ok_epoch)
next
  case (prearm ep g sp gen req)
  have "pe_ep_rx (snd (prearm_payload_read sp gen req ep)) = pe_ep_rx ep
    \<and> pe_exact_aio (snd (prearm_payload_read sp gen req ep)) = pe_exact_aio ep"
    by (simp add: prearm_payload_read_def bulk_endpoint_def split: sum.split option.split)
  then show ?thesis using assms(2) prearm by (simp add: endpoint_ok_def)
next
  case (blocking worker reads gen elapsed info ep r ep' rest g)
  then have "pe_ep_rx ep' = pe_ep_rx ep \<and> pe_exact_aio ep' = pe_exact_aio ep"
    by (auto simp: recv_payload_bytes_def Let_def finish_prearmed_payload_read_def bulk_endpoint_def
        split: if_splits option.splits sum.splits prod.splits dest!: bulk_outcome_ep)
  then show ?thesis using assms(2) blocking by (simp add: endpoint_ok_def)
next
  case (process ep g lz4 info)
  then show ?thesis using assms(2) by (simp add: endpoint_ok_def)
next
  case (background ep a a' g)
  have "aio_ok a" using assms(2) background by (simp add: endpoint_ok_def Let_def receiver_ok_def)
  from background_owned [OF background(4) this] show ?thesis
    using assms(2) background by (simp add: endpoint_ok_def Let_def receiver_ok_def receiver_owned_def)
next
  case (connect ep g)
  have "receiver_owned \<lparr> er_io = Some (new_driver 1), er_file = True \<rparr> = {}"
    by (simp add: receiver_owned_def new_driver_def ids_defs)
  moreover have "receiver_owned (pe_ep_rx ep) = {}" using connect by (simp add: receiver_owned_def)
  ultimately show ?thesis using assms(2) connect aio_ok_new [of 1]
    by (simp add: endpoint_ok_def Let_def receiver_ok_def)
next
  case (close ep g)
  then show ?thesis using assms(2)
    by (simp add: endpoint_ok_def receiver_ok_def receiver_owned_def)
qed (use assms(2) in simp)

inductive endpoint_reachable :: "usize \<Rightarrow> bool \<Rightarrow> PixelDataEndpoint \<times> Globals \<Rightarrow> bool" for rs legacy where
  start: "endpoint_reachable rs legacy (build_endpoint rs legacy, g)"
| step: "endpoint_reachable rs legacy s \<Longrightarrow> endpoint_step s s' \<Longrightarrow> endpoint_reachable rs legacy s'"

lemma endpoint_reachable_ok: "endpoint_reachable rs legacy s \<Longrightarrow> endpoint_ok (fst s)"
proof (induction rule: endpoint_reachable.induct)
  case (start g)
  then show ?case
    by (simp add: endpoint_ok_def build_endpoint_def Let_def receiver_ok_def receiver_owned_def xa_ok_def
        default_exact_aio_def)
next
  case (step s s')
  then show ?case using endpoint_ok_step by blast
qed

section \<open>A concrete exact receive\<close>

text \<open>A receive of \<open>sample_buffer\<close> on a freshly enabled endpoint, up to the delivery of its completion.\<close>

definition sample_connected :: PixelDataEndpoint where
  "sample_connected = (build_endpoint 16384 False)
     \<lparr> pe_ep_rx := \<lparr> er_io = Some (new_driver 1), er_file = True \<rparr> \<rparr>"

definition sample_armed :: PixelDataEndpoint where
  "sample_armed = fst (snd (arm_exact_payload_aio (\<lambda>n. n) Accepted 5 sample_buffer (sample_connected, sample_active 0)))"

lemma sample_connected_reachable: "endpoint_reachable 16384 False (sample_connected, g)"
proof -
  have "endpoint_step (build_endpoint 16384 False, g) (sample_connected, g)"
    unfolding sample_connected_def by (rule endpoint_step.connect) (simp add: build_endpoint_def)
  then show ?thesis by (rule endpoint_reachable.step [OF endpoint_reachable.start])
qed

lemma sample_arm:
  "arm_exact_payload_aio (\<lambda>n. n) Accepted 5 sample_buffer (sample_connected, sample_active 0)
   = (Ok 1, sample_armed, mark_success (sample_active 0))"
  by (simp add: sample_armed_def arm_exact_payload_aio_def sample_connected_def build_endpoint_def
      default_exact_aio_def begin_arm_with_metadata_def begin_arm_def checked_add_def payload_bytes_def
      sample_buffer_def try_recv_identified_def submit_def new_driver_def is_full_def
      submission_accepted_operation_def)

text \<open>The kernel fills the buffer and the thread hands the completion over.\<close>

definition sample_event :: IoEvent where
  "sample_event = \<lparr> ie_data = 0, ie_res = 2560, ie_res2 = 0, ie_mem = replicate 2560 0xff \<rparr>"

definition sample_io :: Aio where
  "sample_io = \<lparr> q_next_id = 1, q_space = 0, q_length = 1,
     q_cmds = [Insert \<lparr> op_data = 0, op_buf = ReadBuf 2560 (replicate 2560 0) \<rparr>], q_done = [],
     q_active = (\<lambda>_. None), q_events = [], q_kpending = [0], q_kevents = [] \<rparr>"

definition sample_filled :: Aio where
  "sample_filled = sample_io\<lparr> q_cmds := [], q_kpending := [],
     q_done := [\<lparr> co_id = 0, co_res = 2560, co_res2 = 0, co_result = Ok (ReadBuf 2560 (replicate 2560 0xff)) \<rparr>] \<rparr>"

lemma sample_background: "aio_background\<^sup>*\<^sup>* sample_io sample_filled"
proof -
  let ?op = "\<lparr> op_data = 0, op_buf = ReadBuf 2560 (replicate 2560 0) \<rparr>"
  let ?a1 = "sample_io\<lparr> q_cmds := [], q_active := [0 \<mapsto> ?op] \<rparr>"
  let ?a2 = "kernel_complete sample_event ?a1"
  let ?a3 = "thread_fetch 1 ?a2"
  have "aio_background sample_io ?a1"
    by (rule aio_background.cmd [of None])
       (simp_all add: sample_io_def cancel_outcome_ok_def thread_cmd_def)
  moreover have "aio_background ?a1 ?a2"
    by (rule aio_background.kernel) (simp add: sample_io_def sample_event_def)
  moreover have "aio_background ?a2 ?a3" by (rule aio_background.fetch)
  moreover have "aio_background ?a3 sample_filled"
    by (rule aio_background.process)
       (simp add: thread_process_def thread_fetch_def kernel_complete_def sample_io_def sample_filled_def
        sample_event_def complete_op_def complete_result_def fun_upd_def fun_eq_iff)
  ultimately show ?thesis by (meson r_into_rtranclp rtranclp_trans)
qed

lemma background_reachable:
  assumes "aio_background\<^sup>*\<^sup>* a a'" and "endpoint_reachable rs legacy (ep, g)" and "er_io (pe_ep_rx ep) = Some a"
  shows "endpoint_reachable rs legacy (ep\<lparr> pe_ep_rx := (pe_ep_rx ep)\<lparr> er_io := Some a' \<rparr> \<rparr>, g)"
  using assms
proof (induction rule: rtranclp_induct)
  case base
  have eq: "(pe_ep_rx ep)\<lparr> er_io := Some a \<rparr> = pe_ep_rx ep"
    using base(2) by (cases "pe_ep_rx ep") simp
  have "ep\<lparr> pe_ep_rx := pe_ep_rx ep \<rparr> = ep" by simp
  then show ?case using base(1) by (simp only: eq)
next
  case (step b c)
  let ?ep = "ep\<lparr> pe_ep_rx := (pe_ep_rx ep)\<lparr> er_io := Some b \<rparr> \<rparr>"
  have "endpoint_step (?ep, g) (?ep\<lparr> pe_ep_rx := (pe_ep_rx ?ep)\<lparr> er_io := Some c \<rparr> \<rparr>, g)"
    by (rule endpoint_step.background [OF _ step.hyps(2)]) simp
  from endpoint_reachable.step [OF step.IH [OF step.prems] this] show ?case by simp
qed

definition sample_ready :: PixelDataEndpoint where
  "sample_ready = (snd (note_status_sent GUD_STATUS_OK sample_armed))
     \<lparr> pe_ep_rx := \<lparr> er_io = Some sample_filled, er_file = True \<rparr> \<rparr>"

lemmas sample_endpoint_defs = sample_armed_def arm_exact_payload_aio_def sample_connected_def
  build_endpoint_def default_exact_aio_def begin_arm_with_metadata_def begin_arm_def checked_add_def
  payload_bytes_def sample_buffer_def try_recv_identified_def submit_def new_driver_def is_full_def
  submission_accepted_operation_def note_status_sent_def status_sent_def

lemma sample_ready_reachable:
  "endpoint_reachable 16384 False (sample_ready, mark_success (sample_active 0))"
proof -
  let ?g = "mark_success (sample_active 0)" and ?ep = "snd (note_status_sent GUD_STATUS_OK sample_armed)"
  have "endpoint_step (sample_connected, sample_active 0) (sample_armed, ?g)"
    using endpoint_step.arm [of "(sample_connected, sample_active 0)" "\<lambda>n. n" Accepted 5 sample_buffer] sample_arm
    by simp
  from endpoint_reachable.step [OF sample_connected_reachable this]
  have "endpoint_reachable 16384 False (?ep, ?g)"
    by (rule endpoint_reachable.step [OF _ endpoint_step.status])
  moreover have rx: "pe_ep_rx ?ep = \<lparr> er_io = Some sample_io, er_file = True \<rparr>"
    by (simp add: sample_endpoint_defs sample_io_def)
  ultimately show ?thesis
    using background_reachable [OF sample_background, of 16384 False ?ep ?g] by (simp add: sample_ready_def)
qed

section \<open>Main properties\<close>

text \<open>C10. The endpoint owns at most one native receive at any time: in every interleaving of its
  operations with the kernel, the driver's thread and the FunctionFS lifecycle, operations are
  outstanding only while the transaction is in flight or poisoned, and then only the one it recorded.
  Every other state, in particular the Idle state from which a new receive is armed, has an empty
  queue.\<close>

theorem endpoint_owns_one_receive:
  assumes "endpoint_reachable rs legacy (ep, g)"
  shows "case xa_state (pe_exact_aio ep) of
      InFlight \<Rightarrow> receiver_owned (pe_ep_rx ep) \<subseteq> set_option (xa_operation (pe_exact_aio ep))
    | Poisoned \<Rightarrow> receiver_owned (pe_ep_rx ep) \<subseteq> set_option (xa_operation (pe_exact_aio ep))
    | _ \<Rightarrow> receiver_owned (pe_ep_rx ep) = {} \<and> receiver_is_empty (pe_ep_rx ep)"
proof -
  have ok: "endpoint_ok ep" using endpoint_reachable_ok [OF assms] by simp
  then have "receiver_is_empty (pe_ep_rx ep) \<longleftrightarrow> receiver_owned (pe_ep_rx ep) = {}"
    using endpoint_rx.empty_owned by (simp add: endpoint_ok_def Let_def)
  with ok show ?thesis by (simp add: endpoint_ok_def Let_def split: ExactAioState.splits)
qed

theorem endpoint_owns_one_receive_witness: "receiver_is_empty (pe_ep_rx sample_connected)"
  using endpoint_owns_one_receive [OF sample_connected_reachable [of init_globals]]
  by (simp add: sample_connected_def build_endpoint_def default_exact_aio_def)

text \<open>C11. A delivered exact payload is the announced one: when the endpoint reports a completed
  receive, the transaction was in flight under the current USB activation, the delivered buffer has
  exactly the number of bytes the SET_BUFFER put on the bulk endpoint, the statistics report that
  number, and nothing is left in the queue.\<close>

theorem exact_payload_delivered:
  assumes "endpoint_reachable rs legacy (ep, g)"
    and "try_complete_exact_payload_aio now act n ep = (Ok (Some stats), ep')"
  shows "\<exists>info. xa_metadata (pe_exact_aio ep') = Some info \<and> length (pe_buf ep') = payload_bytes info
    \<and> ps_transfer_bytes stats = payload_bytes info \<and> ps_output_bytes stats = n
    \<and> xa_activation_generation (pe_exact_aio ep) = Some act \<and> xa_state (pe_exact_aio ep') = Processing
    \<and> receiver_is_empty (pe_ep_rx ep')"
proof -
  have ok: "endpoint_ok ep" using endpoint_reachable_ok [OF assms(1)] by simp
  note ok' = endpoint_ok_complete [OF ok assms(2), THEN conjunct1]
  note fin = endpoint_ok_complete [OF ok assms(2), THEN conjunct2, THEN spec, THEN mp, OF refl]
  have "map_option payload_bytes (xa_metadata (pe_exact_aio ep)) = Some (xa_expected_bytes (pe_exact_aio ep))"
    using ok fin by (simp add: endpoint_ok_def Let_def)
  then obtain info where "xa_metadata (pe_exact_aio ep) = Some info"
    "xa_expected_bytes (pe_exact_aio ep) = payload_bytes info" by auto
  moreover have "receiver_is_empty (pe_ep_rx ep')"
    using fin ok' endpoint_rx.empty_owned [of "pe_ep_rx ep'"] by (simp add: endpoint_ok_def Let_def)
  ultimately show ?thesis using fin by simp
qed

theorem exact_payload_delivered_witness:
  "length (pe_buf (snd (try_complete_exact_payload_aio 9 0 2560 sample_ready))) = 2560"
proof -
  have run: "try_complete_exact_payload_aio 9 0 2560 sample_ready
      = (Ok (Some \<lparr> ps_payload_seq = 1, ps_transfer_bytes = 2560, ps_output_bytes = 2560, ps_usb_packets_est = 5,
           ps_read_calls = 1, ps_read_size = 2560, ps_first_request_bytes = 2560, ps_last_request_bytes = 2560,
           ps_read_ms = 4, ps_decompress_ms = 0, ps_total_ms = 0 \<rparr>),
         snd (try_complete_exact_payload_aio 9 0 2560 sample_ready))"
    by (simp add: sample_ready_def sample_endpoint_defs sample_filled_def sample_io_def
        try_complete_exact_payload_aio_def try_fetch_identified_def try_completed_def buffer_into_read_def
        completion_for_operation_def usb_packet_estimate_def sample_defs)
  have meta: "xa_metadata (pe_exact_aio (snd (try_complete_exact_payload_aio 9 0 2560 sample_ready))) = Some sample_buffer"
    by (simp add: sample_ready_def sample_endpoint_defs sample_filled_def sample_io_def
        try_complete_exact_payload_aio_def try_fetch_identified_def try_completed_def buffer_into_read_def
        completion_for_operation_def usb_packet_estimate_def sample_defs)
  from exact_payload_delivered [OF sample_ready_reachable run] meta show ?thesis
    by (auto simp: payload_bytes_def sample_buffer_def)
qed

text \<open>C12. Arming is all or nothing: a successful call finds the machine Idle and leaves the single
  accepted receive in flight for exactly this SET_BUFFER; a failed call leaves the machine in the state
  it was in and the receive queue as it was.\<close>

theorem arm_all_or_nothing:
  assumes "endpoint_reachable rs legacy (ep, g)"
    and "arm_exact_payload_aio capacity ksub now info (ep, g) = (r, ep', g')"
  shows "if is_ok r
    then xa_state (pe_exact_aio ep) = Idle \<and> xa_state (pe_exact_aio ep') = InFlight
       \<and> xa_metadata (pe_exact_aio ep') = Some info
       \<and> receiver_owned (pe_ep_rx ep') = set_option (xa_operation (pe_exact_aio ep'))
    else xa_state (pe_exact_aio ep') = xa_state (pe_exact_aio ep)
       \<and> receiver_owned (pe_ep_rx ep') = receiver_owned (pe_ep_rx ep)"
  using endpoint_ok_arm [OF _ assms(2)] endpoint_reachable_ok [OF assms(1)] by simp

theorem arm_all_or_nothing_witness: "xa_state (pe_exact_aio sample_armed) = InFlight"
  using arm_all_or_nothing [OF sample_connected_reachable sample_arm] by simp

end
