(* ===== verification/Drm_Lifecycle.thy ===== *)
theory Drm_Lifecycle
  imports Drm_Session Gud_Endpoint
begin

text \<open>
  USB lifecycle handling of the display service (\<^verbatim>\<open>drm/src/main.rs\<close>): what a FunctionFS
  lifecycle event may do to the receive path. \<open>observe_aio_lifecycle\<close> runs on the aggregate
  session, the endpoint, the main loop's receive variables and the statics together.
\<close>

datatype UsbSessionState = WaitingForHost | ActiveSession | Suspended | ContainedSession

datatype UsbLifecycleInput =
  ProtocolInvalidation | LcBind | LcEnable | LcSuspend | LcResume | LcDisable | LcUnbind

datatype UsbLifecycleResult =
    Continue UsbSessionState
  | PreserveOwned UsbSessionState
  | SessionBoundary UsbSessionState
  | Contained
  | FatalUnbind

record ProvenIdleGate =
  aggregate_idle :: bool
  exact_aio_idle :: bool
  accepted_operation_absent :: bool
  aio_queue_empty :: bool
  pending_exact_receive_absent :: bool
  ready_exact_payload_absent :: bool
  cleanup_drain_absent :: bool
  diagnostic_guard_inactive :: bool
  prearmed_read_inactive :: bool

definition is_proven_idle :: "ProvenIdleGate \<Rightarrow> bool" where
  "is_proven_idle gate \<longleftrightarrow>
     aggregate_idle gate \<and> exact_aio_idle gate \<and> accepted_operation_absent gate \<and> aio_queue_empty gate
     \<and> pending_exact_receive_absent gate \<and> ready_exact_payload_absent gate \<and> cleanup_drain_absent gate
     \<and> diagnostic_guard_inactive gate \<and> prearmed_read_inactive gate"

definition classify_usb_lifecycle ::
  "UsbSessionState \<Rightarrow> UsbLifecycleInput \<Rightarrow> bool \<Rightarrow> UsbLifecycleResult" where
  "classify_usb_lifecycle state input proven_idle =
     (if \<not> proven_idle then
        (case input of
           LcSuspend \<Rightarrow> PreserveOwned Suspended
         | LcResume \<Rightarrow> PreserveOwned ActiveSession
         | LcDisable \<Rightarrow> SessionBoundary WaitingForHost
         | LcEnable \<Rightarrow> SessionBoundary ActiveSession
         | LcUnbind \<Rightarrow> SessionBoundary WaitingForHost
         | LcBind \<Rightarrow> SessionBoundary WaitingForHost
         | ProtocolInvalidation \<Rightarrow> Contained)
      else if state = ContainedSession then
        (case input of
           LcDisable \<Rightarrow> SessionBoundary WaitingForHost
         | LcEnable \<Rightarrow> SessionBoundary ActiveSession
         | LcUnbind \<Rightarrow> SessionBoundary WaitingForHost
         | LcSuspend \<Rightarrow> PreserveOwned state
         | LcResume \<Rightarrow> PreserveOwned state
         | LcBind \<Rightarrow> SessionBoundary WaitingForHost
         | ProtocolInvalidation \<Rightarrow> Contained)
      else
        (case input of
           ProtocolInvalidation \<Rightarrow> Continue state
         | LcBind \<Rightarrow> Continue WaitingForHost
         | LcEnable \<Rightarrow> Continue ActiveSession
         | LcSuspend \<Rightarrow> Continue Suspended
         | LcResume \<Rightarrow> Continue ActiveSession
         | LcDisable \<Rightarrow> Continue WaitingForHost
         | LcUnbind \<Rightarrow> FatalUnbind))"

fun usb_lifecycle_input :: "ProtocolInvalidationReason \<Rightarrow> UsbLifecycleInput" where
  "usb_lifecycle_input ReasonBind = LcBind"
| "usb_lifecycle_input ReasonEnable = LcEnable"
| "usb_lifecycle_input ReasonSuspend = LcSuspend"
| "usb_lifecycle_input ReasonResume = LcResume"
| "usb_lifecycle_input Disconnected = LcDisable"
| "usb_lifecycle_input ReasonUnbind = LcUnbind"
| "usb_lifecycle_input InvalidStateCheck = ProtocolInvalidation"
| "usb_lifecycle_input CommitWithoutPending = ProtocolInvalidation"

text \<open>
  The receive variables of the main loop: \<open>lc_pending\<close> is the armed exact receive with its start
  and its sequence, \<open>lc_ready\<close> the completed payload that waits for processing.
\<close>

record ReceivePath =
  lc_usb_session :: UsbSessionState
  lc_session :: BulkReceiveSession
  lc_endpoint :: PixelDataEndpoint
  lc_pending :: "(SetBuffer \<times> instant \<times> u64) option"
  lc_ready :: "(SetBuffer \<times> PayloadStats) option"
  lc_drain :: "StatusOnSetCleanupDrain option"
  lc_globals :: Globals
  lc_lifecycle_events :: u64
  lc_poisoned :: u64
  lc_unsafe_teardown_suppressed :: u64

definition proven_idle_gate :: "ReceivePath \<Rightarrow> ProvenIdleGate" where
  "proven_idle_gate p =
     \<lparr> aggregate_idle = (br_state (lc_session p) = BrIdle \<or> br_state (lc_session p) = BrAborted),
       exact_aio_idle = (xa_state (pe_exact_aio (lc_endpoint p)) = Idle
                         \<or> xa_state (pe_exact_aio (lc_endpoint p)) = AbortedBySessionDestruction),
       accepted_operation_absent = (xa_operation (pe_exact_aio (lc_endpoint p)) = None),
       aio_queue_empty = receiver_is_empty (pe_ep_rx (lc_endpoint p)),
       pending_exact_receive_absent = (lc_pending p = None),
       ready_exact_payload_absent = (lc_ready p = None),
       cleanup_drain_absent = (lc_drain p = None),
       diagnostic_guard_inactive = (\<not> sg_active (diagnostic_guard (lc_globals p))),
       prearmed_read_inactive = (pe_prearmed_read (lc_endpoint p) = None) \<rparr>"

definition event_timeout_for_ready_payload :: "nat \<Rightarrow> bool \<Rightarrow> nat" where
  "event_timeout_for_ready_payload event_timeout has_ready_payload =
     (if has_ready_payload then 0 else event_timeout)"

definition conflicts_with_owned_exact_receive :: "Event \<Rightarrow> bool \<Rightarrow> bool" where
  "conflicts_with_owned_exact_receive ev has_ready_payload \<longleftrightarrow>
     \<not> has_ready_payload \<and> (case ev of Event.Buffer _ \<Rightarrow> True | _ \<Rightarrow> False)"

text \<open>Both sides of an owned receive are poisoned together.\<close>

definition poison_receive_path :: "ReceivePath \<Rightarrow> ReceivePath" where
  "poison_receive_path p =
     (let (ep, g) = poison_exact_payload_aio (lc_endpoint p, lc_globals p) in
      p\<lparr> lc_session := session_poison (lc_session p), lc_endpoint := ep, lc_globals := g \<rparr>)"

definition diagnostic_lifecycle_containment :: "ReceivePath \<Rightarrow> bool" where
  "diagnostic_lifecycle_containment p \<longleftrightarrow>
     sg_transaction_limit (diagnostic_guard (lc_globals p)) > 0
     \<and> sg_started_transactions (diagnostic_guard (lc_globals p)) > 0"

definition observe_aio_lifecycle :: "UsbLifecycleInput \<Rightarrow> ReceivePath \<Rightarrow> UsbLifecycleResult \<times> ReceivePath" where
  "observe_aio_lifecycle input p =
     (let p = p\<lparr> lc_lifecycle_events := lc_lifecycle_events p + 1 \<rparr>;
          gate = proven_idle_gate p;
          result = classify_usb_lifecycle (lc_usb_session p) input
                     (is_proven_idle gate \<and> \<not> diagnostic_lifecycle_containment p) in
      case result of
        Continue next_state \<Rightarrow> (result, p\<lparr> lc_usb_session := next_state \<rparr>)
      | PreserveOwned next_state \<Rightarrow> (result, p\<lparr> lc_usb_session := next_state \<rparr>)
      | SessionBoundary next_state \<Rightarrow>
          (let p' = (if currently_owned (lc_session p) then poison_receive_path p else p) in
           (result, p'\<lparr> lc_usb_session := next_state \<rparr>))
      | Contained \<Rightarrow>
          (let p' = poison_receive_path (p\<lparr> lc_session := snd (observe_lifecycle [] (lc_session p)) \<rparr>) in
           (result, p'\<lparr> lc_usb_session := ContainedSession, lc_poisoned := lc_poisoned p' + 1,
                        lc_unsafe_teardown_suppressed := lc_unsafe_teardown_suppressed p' + 1 \<rparr>))
      | FatalUnbind \<Rightarrow> (result, p))"

text \<open>A receive path with nothing in progress.\<close>

definition sample_path :: ReceivePath where
  "sample_path = \<lparr> lc_usb_session = ActiveSession, lc_session = with_deadline 1000,
     lc_endpoint = sample_connected, lc_pending = None, lc_ready = None, lc_drain = None,
     lc_globals = init_globals, lc_lifecycle_events = 0, lc_poisoned = 0, lc_unsafe_teardown_suppressed = 0 \<rparr>"

section \<open>Main properties\<close>


text \<open>The parts of the idle gate that concern the kernel are implied by the endpoint's own state:
  for every reachable endpoint whose transaction is Idle or retired, no accepted operation is recorded
  and the native queue is empty, so an idle gate really means that no receive is outstanding.\<close>

theorem idle_gate_means_no_receive:
  assumes "endpoint_reachable rs legacy (lc_endpoint p, g)" and "exact_aio_idle (proven_idle_gate p)"
  shows "accepted_operation_absent (proven_idle_gate p) \<and> aio_queue_empty (proven_idle_gate p)
    \<and> receiver_owned (pe_ep_rx (lc_endpoint p)) = {}"
proof -
  have ok: "endpoint_ok (lc_endpoint p)" using endpoint_reachable_ok [OF assms(1)] by simp
  have own: "receiver_owned (pe_ep_rx (lc_endpoint p)) = {}"
    using ok assms(2) by (auto simp: proven_idle_gate_def endpoint_ok_def Let_def)
  moreover have "receiver_is_empty (pe_ep_rx (lc_endpoint p))"
    using own ok endpoint_rx.empty_owned [of "pe_ep_rx (lc_endpoint p)"] by (simp add: endpoint_ok_def Let_def)
  moreover have "xa_operation (pe_exact_aio (lc_endpoint p)) = None"
    using endpoint_ok_xa [OF ok] assms(2) by (auto simp: proven_idle_gate_def xa_ok_def)
  ultimately show ?thesis by (simp add: proven_idle_gate_def)
qed


theorem idle_gate_means_no_receive_witness: "aio_queue_empty (proven_idle_gate sample_path)"
proof -
  have "exact_aio_idle (proven_idle_gate sample_path)"
    by (simp add: proven_idle_gate_def sample_path_def sample_connected_def build_endpoint_def default_exact_aio_def)
  moreover have "endpoint_reachable 16384 False (lc_endpoint sample_path, init_globals)"
    using sample_connected_reachable by (simp add: sample_path_def)
  ultimately show ?thesis using idle_gate_means_no_receive by blast
qed

end
