(* ===== verification/Drm_Modes.thy ===== *)
theory Drm_Modes
  imports Gud_Protocol
begin

text \<open>
  The mode catalog of the display service: \<^verbatim>\<open>drm/src/modes.rs\<close> (keys, routes, the advertised
  list) and the timing derivation of \<^verbatim>\<open>drm/src/main.rs\<close>. The physical mode type of the DRM
  crate is a type variable. \<open>HashMap\<close> is a map; its iteration order is never used.
\<close>

section \<open>Keys\<close>

record ModeKey =
  mk_connector :: u8
  mk_clock :: u32
  mk_hdisplay :: u16
  mk_hsync_start :: u16
  mk_hsync_end :: u16
  mk_htotal :: u16
  mk_vdisplay :: u16
  mk_vsync_start :: u16
  mk_vsync_end :: u16
  mk_vtotal :: u16
  mk_flags :: u32

definition mode_key :: "u8 \<Rightarrow> DisplayMode \<Rightarrow> ModeKey" where
  "mode_key connector mode =
     \<lparr> mk_connector = connector, mk_clock = dm_clock mode, mk_hdisplay = dm_hdisplay mode,
       mk_hsync_start = dm_hsync_start mode, mk_hsync_end = dm_hsync_end mode,
       mk_htotal = dm_htotal mode, mk_vdisplay = dm_vdisplay mode,
       mk_vsync_start = dm_vsync_start mode, mk_vsync_end = dm_vsync_end mode,
       mk_vtotal = dm_vtotal mode, mk_flags = dm_flags mode AND GUD_DISPLAY_MODE_FLAG_USER_MASK \<rparr>"

definition key_from_snapshot :: "DisplayStateSnapshot \<Rightarrow> ModeKey" where
  "key_from_snapshot sn = mode_key (sn_connector sn) (sn_mode sn)"

section \<open>The catalog\<close>

datatype 'm CatalogRoute = ExactRoute 'm | ScaledFallback

record 'm CatalogEntry =
  ce_key :: ModeKey
  ce_advertised_mode :: DisplayMode
  ce_route :: "'m CatalogRoute"

record 'm PhysicalCatalogMode =
  pc_mode :: 'm
  pc_timing :: DisplayMode

record 'm RouteCatalog =
  rc_connector :: u8
  rc_entries :: "'m CatalogEntry list"
  rc_by_key :: "ModeKey \<rightharpoonup> nat"
  rc_preferred_index :: nat

definition normalize_advertised_mode :: "DisplayMode \<Rightarrow> bool \<Rightarrow> DisplayMode" where
  "normalize_advertised_mode mode preferred =
     (let normalized = mode\<lparr> dm_flags := dm_flags mode AND GUD_DISPLAY_MODE_FLAG_USER_MASK \<rparr> in
      if preferred then normalized\<lparr> dm_flags := dm_flags normalized OR GUD_DISPLAY_MODE_FLAG_PREFERRED \<rparr>
      else normalized)"

text \<open>One iteration of either loop of \<open>build\<close>: the first entry of a key wins.\<close>

definition catalog_add ::
  "u8 \<Rightarrow> DisplayMode \<Rightarrow> 'm CatalogRoute \<Rightarrow> 'm CatalogEntry list \<times> (ModeKey \<rightharpoonup> nat) \<Rightarrow>
   'm CatalogEntry list \<times> (ModeKey \<rightharpoonup> nat)" where
  "catalog_add connector timing route st =
     (case st of (entries, by_key) \<Rightarrow>
        let key = mode_key connector timing in
        if by_key key \<noteq> None then (entries, by_key)
        else (entries @ [\<lparr> ce_key = key, ce_advertised_mode = normalize_advertised_mode timing False,
                           ce_route = route \<rparr>],
              by_key(key \<mapsto> length entries)))"

fun add_physical ::
  "u8 \<Rightarrow> 'm PhysicalCatalogMode list \<Rightarrow> 'm CatalogEntry list \<times> (ModeKey \<rightharpoonup> nat) \<Rightarrow>
   'm CatalogEntry list \<times> (ModeKey \<rightharpoonup> nat)" where
  "add_physical connector [] st = st"
| "add_physical connector (m # ms) st =
     add_physical connector ms (catalog_add connector (pc_timing m) (ExactRoute (pc_mode m)) st)"

fun add_synthetic ::
  "u8 \<Rightarrow> DisplayMode list \<Rightarrow> 'm CatalogEntry list \<times> (ModeKey \<rightharpoonup> nat) \<Rightarrow>
   'm CatalogEntry list \<times> (ModeKey \<rightharpoonup> nat)" where
  "add_synthetic connector [] st = st"
| "add_synthetic connector (m # ms) st =
     add_synthetic connector ms (catalog_add connector m ScaledFallback st)"

definition mark_preferred :: "nat \<Rightarrow> 'm CatalogEntry list \<Rightarrow> 'm CatalogEntry list" where
  "mark_preferred preferred_index entries =
     map (\<lambda>(i, e). e\<lparr> ce_advertised_mode := normalize_advertised_mode (ce_advertised_mode e) (i = preferred_index) \<rparr>)
       (zip [0..<length entries] entries)"

definition build_catalog ::
  "u8 \<Rightarrow> 'm PhysicalCatalogMode list \<Rightarrow> nat \<Rightarrow> DisplayMode list \<Rightarrow> 'm RouteCatalog result" where
  "build_catalog connector physical preferred_physical_index synthetic =
     (if physical = [] then Err ''physical mode catalog is empty''
      else if \<not> preferred_physical_index < length physical
      then Err ''preferred physical mode index is out of range''
      else
        let preferred_key = mode_key connector (pc_timing (physical ! preferred_physical_index));
            (entries1, by_key1) = add_physical connector physical ([], Map.empty) in
        case by_key1 preferred_key of
          None \<Rightarrow> Err ''preferred physical timing was not cataloged''
        | Some preferred_index \<Rightarrow>
            let (entries2, by_key2) = add_synthetic connector synthetic (entries1, by_key1);
                entries = mark_preferred preferred_index entries2 in
            if \<not> length (filter (\<lambda>e. dm_flags (ce_advertised_mode e) AND GUD_DISPLAY_MODE_FLAG_PREFERRED \<noteq> 0)
                          entries) = 1
            then Err ''route catalog must advertise exactly one preferred timing''
            else Ok \<lparr> rc_connector = connector, rc_entries = entries, rc_by_key = by_key2,
                      rc_preferred_index = preferred_index \<rparr>)"

definition advertised_modes :: "'m RouteCatalog \<Rightarrow> DisplayMode list" where
  "advertised_modes c = map ce_advertised_mode (rc_entries c)"

definition preferred_entry :: "'m RouteCatalog \<Rightarrow> 'm CatalogEntry result" where
  "preferred_entry c =
     (if rc_preferred_index c < length (rc_entries c) then Ok (rc_entries c ! rc_preferred_index c)
      else panic ''index out of bounds'')"

definition entry_for_key :: "ModeKey \<Rightarrow> 'm RouteCatalog \<Rightarrow> 'm CatalogEntry option" where
  "entry_for_key key c = map_option (\<lambda>i. rc_entries c ! i) (rc_by_key c key)"

definition entry_for_snapshot :: "DisplayStateSnapshot \<Rightarrow> 'm RouteCatalog \<Rightarrow> 'm CatalogEntry option" where
  "entry_for_snapshot sn c = entry_for_key (key_from_snapshot sn) c"

section \<open>Timing derivation\<close>

definition scale_dimension :: "u16 \<Rightarrow> u16 \<Rightarrow> u16 \<Rightarrow> u16 result" where
  "scale_dimension delta native_active target_active =
     (if native_active = 0 then panic ''attempt to divide by zero''
      else Ok (ucast (max ((ucast delta * ucast target_active :: u32) div ucast native_active) 1)))"

text \<open>
  \<open>derive_mode_from_native\<close> in a release build: \<open>u16\<close> differences and sums wrap, the clock is
  computed in \<open>u64\<close> and truncated to \<open>u32\<close>, and a zero divisor panics.
\<close>

definition derive_mode_from_native :: "DisplayMode \<Rightarrow> u16 \<Rightarrow> u16 \<Rightarrow> DisplayMode result" where
  "derive_mode_from_native native target_width target_height =
     (let h = (\<lambda>delta. scale_dimension delta (dm_hdisplay native) target_width);
          v = (\<lambda>delta. scale_dimension delta (dm_vdisplay native) target_height) in
      case (h (dm_hsync_start native - dm_hdisplay native), h (dm_hsync_end native - dm_hsync_start native),
            h (dm_htotal native - dm_hsync_end native), v (dm_vsync_start native - dm_vdisplay native),
            v (dm_vsync_end native - dm_vsync_start native), v (dm_vtotal native - dm_vsync_end native)) of
        (Inr h_front, Inr h_sync, Inr h_back, Inr v_front, Inr v_sync, Inr v_back) \<Rightarrow>
          (let hsync_start = target_width + h_front;
               hsync_end = hsync_start + h_sync;
               htotal = hsync_end + h_back;
               vsync_start = target_height + v_front;
               vsync_end = vsync_start + v_sync;
               vtotal = vsync_end + v_back in
           if dm_htotal native = 0 \<or> dm_vtotal native = 0 then panic ''attempt to divide by zero''
           else Ok \<lparr> dm_clock = ucast ((ucast (dm_clock native) * ucast htotal * ucast vtotal :: u64)
                                         div ucast (dm_htotal native) div ucast (dm_vtotal native)),
                     dm_hdisplay = target_width, dm_hsync_start = hsync_start, dm_hsync_end = hsync_end,
                     dm_htotal = htotal, dm_vdisplay = target_height, dm_vsync_start = vsync_start,
                     dm_vsync_end = vsync_end, dm_vtotal = vtotal, dm_flags = 0 \<rparr>)
      | _ \<Rightarrow> panic ''attempt to divide by zero'')"

text \<open>The mode types as whether they contain the preferred flag.\<close>

definition advertised_preferred_mode_index :: "bool list \<Rightarrow> nat" where
  "advertised_preferred_mode_index preferred =
     (let i = length (takeWhile Not preferred) in if i < length preferred then i else 0)"

section \<open>Keys and timings\<close>

lemma mode_key_eq: "mode_key c m = mode_key d n \<longleftrightarrow> c = d \<and> modes_have_same_user_timing m n"
  by (auto simp: mode_key_def modes_have_same_user_timing_def)

lemma normalize_advertised_timing: "modes_have_same_user_timing (normalize_advertised_mode m p) m"
proof -
  have "(GUD_DISPLAY_MODE_FLAG_PREFERRED AND GUD_DISPLAY_MODE_FLAG_USER_MASK :: u32) = 0" by simp
  then show ?thesis
    by (simp add: normalize_advertised_mode_def modes_have_same_user_timing_def Let_def
        bit.conj_disj_distrib2 and.assoc)
qed

lemma normalize_advertised_preferred:
  "dm_flags (normalize_advertised_mode m p) AND GUD_DISPLAY_MODE_FLAG_PREFERRED \<noteq> 0 \<longleftrightarrow> p"
proof -
  have "(GUD_DISPLAY_MODE_FLAG_USER_MASK AND GUD_DISPLAY_MODE_FLAG_PREFERRED :: u32) = 0" by simp
  then show ?thesis
    by (simp add: normalize_advertised_mode_def Let_def bit.conj_disj_distrib2 and.assoc)
qed

section \<open>Well-formed catalogs\<close>

text \<open>
  \<open>catalog_ok\<close>: the index and the entries agree, keys are unique, and each advertised mode has the
  timing of its key.
\<close>

definition catalog_ok :: "u8 \<Rightarrow> 'm CatalogEntry list \<times> (ModeKey \<rightharpoonup> nat) \<Rightarrow> bool" where
  "catalog_ok connector st \<longleftrightarrow>
     (case st of (entries, by_key) \<Rightarrow>
        (\<forall>k i. by_key k = Some i \<longleftrightarrow> i < length entries \<and> ce_key (entries ! i) = k)
        \<and> (\<forall>e \<in> set entries. ce_key e = mode_key connector (ce_advertised_mode e)))"

lemma catalog_ok_empty: "catalog_ok c ([], Map.empty)"
  by (simp add: catalog_ok_def)

lemma catalog_ok_add:
  assumes "catalog_ok c (es, bk)" and "catalog_add c t r (es, bk) = (es', bk')"
  shows "catalog_ok c (es', bk') \<and> bk' (mode_key c t) \<noteq> None
    \<and> (\<exists>more. es' = es @ more) \<and> (\<forall>k i. bk k = Some i \<longrightarrow> bk' k = Some i)
    \<and> (bk (mode_key c t) = None \<longrightarrow> (\<exists>e. es' = es @ [e] \<and> ce_key e = mode_key c t \<and> ce_route e = r))"
proof (cases "bk (mode_key c t) = None")
  case True
  let ?e = "\<lparr> ce_key = mode_key c t, ce_advertised_mode = normalize_advertised_mode t False, ce_route = r \<rparr>"
  have eq: "es' = es @ [?e]" "bk' = bk(mode_key c t \<mapsto> length es)"
    using assms(2) True by (simp_all add: catalog_add_def Let_def)
  have key: "mode_key c (normalize_advertised_mode t False) = mode_key c t"
    using normalize_advertised_timing by (simp add: mode_key_eq)
  have idx: "bk k = Some i \<longleftrightarrow> i < length es \<and> ce_key (es ! i) = k" for k i
    using assms(1) by (simp add: catalog_ok_def)
  have none: "ce_key (es ! i) \<noteq> mode_key c t" if "i < length es" for i
    using True idx [of "mode_key c t" i] that by auto
  have "bk' k = Some i \<longleftrightarrow> i < length es' \<and> ce_key (es' ! i) = k" for k i
  proof (cases "k = mode_key c t")
    case True
    then show ?thesis using none by (auto simp: eq nth_append less_Suc_eq)
  next
    case False
    then show ?thesis using idx [of k i] by (auto simp: eq nth_append less_Suc_eq)
  qed
  moreover have "\<forall>e \<in> set es'. ce_key e = mode_key c (ce_advertised_mode e)"
    using assms(1) key by (simp add: eq catalog_ok_def)
  ultimately have "catalog_ok c (es', bk')" by (simp add: catalog_ok_def)
  moreover have "bk' k = Some i" if "bk k = Some i" for k i
    using that True by (auto simp: eq)
  ultimately show ?thesis by (simp add: eq)
next
  case False
  then have "es' = es" "bk' = bk" using assms(2) by (simp_all add: catalog_add_def Let_def)
  with assms(1) False show ?thesis by auto
qed


text \<open>Adding a list of modes keeps old entries, catalogs every mode of the list, and gives new keys the
  route of the list.\<close>

definition extends :: "'m CatalogEntry list \<times> (ModeKey \<rightharpoonup> nat) \<Rightarrow> 'm CatalogEntry list \<times> (ModeKey \<rightharpoonup> nat) \<Rightarrow> bool" where
  "extends st st' \<longleftrightarrow> (\<exists>later. fst st' = fst st @ later) \<and> (\<forall>k i. snd st k = Some i \<longrightarrow> snd st' k = Some i)"

lemma extends_refl: "extends st st"
  by (simp add: extends_def)

lemma extends_trans: "extends a b \<Longrightarrow> extends b c \<Longrightarrow> extends a c"
  by (auto simp: extends_def)

lemma catalog_add_extends:
  assumes "catalog_ok c st"
  shows "catalog_ok c (catalog_add c t r st) \<and> extends st (catalog_add c t r st)
    \<and> snd (catalog_add c t r st) (mode_key c t) \<noteq> None"
proof -
  obtain es bk es' bk' where "st = (es, bk)" "catalog_add c t r st = (es', bk')"
    by (cases st, cases "catalog_add c t r st") auto
  with catalog_ok_add [of c es bk t r es' bk'] assms show ?thesis by (auto simp: extends_def)
qed

lemma add_physical_ok:
  "catalog_ok c st \<Longrightarrow> catalog_ok c (add_physical c ms st) \<and> extends st (add_physical c ms st)
     \<and> (\<forall>m \<in> set ms. snd (add_physical c ms st) (mode_key c (pc_timing m)) \<noteq> None)"
proof (induction ms arbitrary: st)
  case (Cons m ms)
  let ?st = "catalog_add c (pc_timing m) (ExactRoute (pc_mode m)) st"
  note a = catalog_add_extends [OF Cons.prems, of "pc_timing m" "ExactRoute (pc_mode m)"]
  note b = Cons.IH [of ?st] 
  have "extends st (add_physical c ms ?st)" using a b extends_trans by blast
  moreover have "snd (add_physical c ms ?st) (mode_key c (pc_timing m)) \<noteq> None"
    using a b by (auto simp: extends_def)
  ultimately show ?case using a b by simp
qed (simp add: extends_refl)

lemma add_synthetic_ok:
  "catalog_ok c st \<Longrightarrow> catalog_ok c (add_synthetic c ms st) \<and> extends st (add_synthetic c ms st)
     \<and> (\<forall>m \<in> set ms. snd (add_synthetic c ms st) (mode_key c m) \<noteq> None)"
proof (induction ms arbitrary: st)
  case (Cons m ms)
  let ?st = "catalog_add c m ScaledFallback st"
  note a = catalog_add_extends [OF Cons.prems, of m ScaledFallback]
  note b = Cons.IH [of ?st]
  have "extends st (add_synthetic c ms ?st)" using a b extends_trans by blast
  moreover have "snd (add_synthetic c ms ?st) (mode_key c m) \<noteq> None"
    using a b by (auto simp: extends_def)
  ultimately show ?case using a b by simp
qed (simp add: extends_refl)

text \<open>Every entry of the physical part is routed exactly to a mode of its timing.\<close>

definition exact_routed :: "u8 \<Rightarrow> 'm PhysicalCatalogMode list \<Rightarrow> 'm CatalogEntry \<Rightarrow> bool" where
  "exact_routed c physical e \<longleftrightarrow>
     (\<exists>m \<in> set physical. ce_route e = ExactRoute (pc_mode m) \<and> ce_key e = mode_key c (pc_timing m))"

lemma catalog_add_entries:
  "fst (catalog_add c t r st) = fst st \<or>
   (\<exists>e. fst (catalog_add c t r st) = fst st @ [e] \<and> ce_key e = mode_key c t \<and> ce_route e = r)"
  by (cases st) (auto simp: catalog_add_def Let_def)

lemma add_physical_routes:
  "\<forall>e \<in> set (fst st). exact_routed c ps e \<Longrightarrow> set ms \<subseteq> set ps \<Longrightarrow>
     \<forall>e \<in> set (fst (add_physical c ms st)). exact_routed c ps e"
proof (induction ms arbitrary: st)
  case (Cons m ms)
  let ?st = "catalog_add c (pc_timing m) (ExactRoute (pc_mode m)) st"
  have "\<forall>e \<in> set (fst ?st). exact_routed c ps e"
    using catalog_add_entries [of c "pc_timing m" "ExactRoute (pc_mode m)" st] Cons.prems
    by (auto simp: exact_routed_def)
  then show ?case using Cons.IH [of ?st] Cons.prems(2) by simp
qed simp

section \<open>Marking the preferred entry\<close>

lemma mark_preferred_nth:
  "i < length es \<Longrightarrow> mark_preferred p es ! i =
     (es ! i)\<lparr> ce_advertised_mode := normalize_advertised_mode (ce_advertised_mode (es ! i)) (i = p) \<rparr>"
  by (simp add: mark_preferred_def)

lemma length_mark_preferred [simp]: "length (mark_preferred p es) = length es"
  by (simp add: mark_preferred_def)

lemma normalize_advertised_unpreferred:
  "dm_flags (normalize_advertised_mode m p) AND GUD_DISPLAY_MODE_FLAG_PREFERRED = 0 \<longleftrightarrow> \<not> p"
  using normalize_advertised_preferred by blast

lemma mark_preferred_count:
  assumes "p < length es"
  shows "length (filter (\<lambda>e. dm_flags (ce_advertised_mode e) AND GUD_DISPLAY_MODE_FLAG_PREFERRED \<noteq> 0)
    (mark_preferred p es)) = 1"
proof -
  have "{i. i < length es \<and> dm_flags (ce_advertised_mode (mark_preferred p es ! i)) AND GUD_DISPLAY_MODE_FLAG_PREFERRED \<noteq> 0}
      = {p}"
    using assms
    by (auto simp: mark_preferred_nth normalize_advertised_unpreferred)
  then show ?thesis by (simp add: length_filter_conv_card)
qed

lemma mark_preferred_ok:
  assumes "catalog_ok c (es, bk)"
  shows "catalog_ok c (mark_preferred p es, bk)"
proof -
  have key: "ce_key (mark_preferred p es ! i) = ce_key (es ! i)" if "i < length es" for i
    using that by (simp add: mark_preferred_nth)
  have "ce_key e = mode_key c (ce_advertised_mode e)" if e: "e \<in> set (mark_preferred p es)" for e
  proof -
    from e obtain i where i: "i < length es" "e = mark_preferred p es ! i" by (auto simp: in_set_conv_nth)
    have "mode_key c (ce_advertised_mode e) = mode_key c (ce_advertised_mode (es ! i))"
      using i normalize_advertised_timing by (simp add: mark_preferred_nth mode_key_eq)
    then show ?thesis using assms i key by (simp add: catalog_ok_def)
  qed
  then show ?thesis using assms key by (auto simp: catalog_ok_def)
qed

section \<open>The built catalog\<close>

lemma catalog_ok_lookup:
  "catalog_ok c (es, bk) \<Longrightarrow> bk k = Some i \<Longrightarrow> i < length es \<and> ce_key (es ! i) = k"
  by (simp add: catalog_ok_def)

lemma build_catalog_stages:
  assumes "pi < length physical"
    and p: "add_physical c physical ([], Map.empty) = (es1, bk1)"
    and s: "add_synthetic c synthetic (es1, bk1) = (es2, bk2)"
  shows "\<exists>pref. bk1 (mode_key c (pc_timing (physical ! pi))) = Some pref \<and> pref < length es1
    \<and> ce_key (es1 ! pref) = mode_key c (pc_timing (physical ! pi))
    \<and> (\<forall>e \<in> set es1. exact_routed c physical e) \<and> catalog_ok c (es2, bk2)
    \<and> extends (es1, bk1) (es2, bk2)
    \<and> (\<forall>m \<in> set physical. \<exists>i < length es1. bk1 (mode_key c (pc_timing m)) = Some i)
    \<and> (\<forall>m \<in> set synthetic. bk2 (mode_key c m) \<noteq> None)"
proof -
  have phys: "catalog_ok c (es1, bk1)" "\<forall>m \<in> set physical. bk1 (mode_key c (pc_timing m)) \<noteq> None"
    using add_physical_ok [OF catalog_ok_empty, of c physical] p by simp_all
  have "\<forall>e \<in> set es1. exact_routed c physical e"
    using add_physical_routes [of "([], Map.empty)" c physical physical] p by simp
  moreover from phys(2) obtain pref where "bk1 (mode_key c (pc_timing (physical ! pi))) = Some pref"
    using assms(1) by fastforce
  moreover have "\<forall>m \<in> set physical. \<exists>i < length es1. bk1 (mode_key c (pc_timing m)) = Some i"
    using phys(2) catalog_ok_lookup [OF phys(1)] by (fastforce simp: not_None_eq)
  ultimately show ?thesis
    using phys add_synthetic_ok [OF phys(1), of synthetic] s catalog_ok_lookup [OF phys(1)] by auto
qed

text \<open>Looking up a key of a built catalog.\<close>

definition catalog_of :: "'m RouteCatalog \<Rightarrow> 'm CatalogEntry list \<times> (ModeKey \<rightharpoonup> nat)" where
  "catalog_of rc = (rc_entries rc, rc_by_key rc)"

lemma entry_for_key_Some:
  assumes "catalog_ok c (catalog_of rc)" and "entry_for_key k rc = Some e"
  shows "e \<in> set (rc_entries rc) \<and> ce_key e = k"
proof -
  from assms(2) obtain i where "rc_by_key rc k = Some i" "e = rc_entries rc ! i"
    by (auto simp: entry_for_key_def)
  then show ?thesis using assms(1) by (simp add: catalog_of_def catalog_ok_def)
qed

lemma entry_for_key_mem:
  assumes "catalog_ok c (catalog_of rc)" and "e \<in> set (rc_entries rc)"
  shows "entry_for_key (ce_key e) rc = Some e"
proof -
  from assms(2) obtain i where "i < length (rc_entries rc)" "rc_entries rc ! i = e"
    by (auto simp: in_set_conv_nth)
  moreover from this assms(1) have "rc_by_key rc (ce_key e) = Some i"
    by (simp add: catalog_of_def catalog_ok_def)
  ultimately show ?thesis by (simp add: entry_for_key_def)
qed

lemma build_catalog_Ok:
  assumes "pi < length physical"
  shows "\<exists>rc. build_catalog c physical pi synthetic = Ok rc \<and> rc_connector rc = c
    \<and> catalog_ok c (catalog_of rc)
    \<and> (\<forall>m \<in> set physical. \<exists>e. entry_for_key (mode_key c (pc_timing m)) rc = Some e \<and> exact_routed c physical e)
    \<and> (\<forall>m \<in> set synthetic. entry_for_key (mode_key c m) rc \<noteq> None)
    \<and> length (filter (\<lambda>m. dm_flags m AND GUD_DISPLAY_MODE_FLAG_PREFERRED \<noteq> 0) (advertised_modes rc)) = 1
    \<and> (\<exists>e. preferred_entry rc = Ok e \<and> exact_routed c physical e
         \<and> ce_key e = mode_key c (pc_timing (physical ! pi))
         \<and> dm_flags (ce_advertised_mode e) AND GUD_DISPLAY_MODE_FLAG_PREFERRED \<noteq> 0)"
proof -
  obtain es1 bk1 es2 bk2 where st: "add_physical c physical ([], Map.empty) = (es1, bk1)"
      "add_synthetic c synthetic (es1, bk1) = (es2, bk2)"
    by (meson surj_pair)
  obtain pref where pref: "bk1 (mode_key c (pc_timing (physical ! pi))) = Some pref" "pref < length es1"
      "ce_key (es1 ! pref) = mode_key c (pc_timing (physical ! pi))"
      "\<forall>e \<in> set es1. exact_routed c physical e" "catalog_ok c (es2, bk2)"
      "extends (es1, bk1) (es2, bk2)"
      "\<forall>m \<in> set physical. \<exists>i < length es1. bk1 (mode_key c (pc_timing m)) = Some i"
      "\<forall>m \<in> set synthetic. bk2 (mode_key c m) \<noteq> None"
    using build_catalog_stages [OF assms st] by blast
  from pref(6) obtain later where later: "es2 = es1 @ later" by (auto simp: extends_def)
  let ?rc = "\<lparr> rc_connector = c, rc_entries = mark_preferred pref es2, rc_by_key = bk2, rc_preferred_index = pref \<rparr>"
  have len: "pref < length es2" using pref(2) later by simp
  have ne: "physical \<noteq> []" using assms by auto
  have b: "build_catalog c physical pi synthetic = Ok ?rc"
    using mark_preferred_count [OF len] ne assms pref(1) by (simp add: build_catalog_def st)
  have e: "mark_preferred pref es2 ! pref =
      (es1 ! pref)\<lparr> ce_advertised_mode := normalize_advertised_mode (ce_advertised_mode (es1 ! pref)) True \<rparr>"
    using mark_preferred_nth [OF len, of pref] pref(2) later by (simp add: nth_append)
  have "exact_routed c physical (mark_preferred pref es2 ! pref)"
    using pref(2,4) by (auto simp: e exact_routed_def)
  then have "preferred_entry ?rc = Ok (mark_preferred pref es2 ! pref)"
      "exact_routed c physical (mark_preferred pref es2 ! pref)"
      "ce_key (mark_preferred pref es2 ! pref) = mode_key c (pc_timing (physical ! pi))"
      "dm_flags (ce_advertised_mode (mark_preferred pref es2 ! pref)) AND GUD_DISPLAY_MODE_FLAG_PREFERRED \<noteq> 0"
    using len pref(3) by (simp_all add: preferred_entry_def e normalize_advertised_unpreferred)
  moreover have "catalog_ok c (catalog_of ?rc)"
    using mark_preferred_ok [OF pref(5)] by (simp add: catalog_of_def)
  moreover have "\<exists>e. entry_for_key (mode_key c (pc_timing m)) ?rc = Some e \<and> exact_routed c physical e"
    if "m \<in> set physical" for m
  proof -
    from pref(7) that obtain i where i: "i < length es1" "bk1 (mode_key c (pc_timing m)) = Some i" by blast
    then have "bk2 (mode_key c (pc_timing m)) = Some i" using pref(6) by (simp add: extends_def)
    moreover have "exact_routed c physical (mark_preferred pref es2 ! i)"
      using pref(4) i(1) later by (simp add: mark_preferred_nth exact_routed_def nth_append)
    ultimately show ?thesis by (simp add: entry_for_key_def)
  qed
  moreover have "\<forall>m \<in> set synthetic. entry_for_key (mode_key c m) ?rc \<noteq> None"
    using pref(8) by (simp add: entry_for_key_def)
  moreover have "length (filter (\<lambda>m. dm_flags m AND GUD_DISPLAY_MODE_FLAG_PREFERRED \<noteq> 0) (advertised_modes ?rc)) = 1"
    using mark_preferred_count [OF len] by (simp add: advertised_modes_def filter_map comp_def)
  ultimately show ?thesis using b by (intro exI [of _ ?rc]) simp
qed

lemma catalog_ok_distinct: "catalog_ok c (es, bk) \<Longrightarrow> distinct (map ce_key es)"
  unfolding distinct_conv_nth
proof (intro allI impI)
  fix i j assume a: "catalog_ok c (es, bk)" "i < length (map ce_key es)" "j < length (map ce_key es)" "i \<noteq> j"
  then have "bk (ce_key (es ! i)) = Some i" "bk (ce_key (es ! j)) = Some j" by (simp_all add: catalog_ok_def)
  with a show "map ce_key es ! i \<noteq> map ce_key es ! j" by auto
qed

section \<open>Derived timings\<close>

text \<open>
  \<open>strict_timing\<close>: one axis of a timing is strictly ordered, active area before sync start, sync
  end and total. One porch scaled to a smaller active size stays between 1 and the original.
\<close>

definition strict_timing :: "u16 \<Rightarrow> u16 \<Rightarrow> u16 \<Rightarrow> u16 \<Rightarrow> bool" where
  "strict_timing active sync_start sync_end tot \<longleftrightarrow> 0 < active \<and> active < sync_start
     \<and> sync_start < sync_end \<and> sync_end < tot"

lemma unat_u16_as_u64: "unat (ucast (w :: u16) :: u64) = unat w"
  by (simp add: unsigned_ucast_eq take_bit_nat_eq_self unat_u16_bound [THEN less_trans])

lemma unat_u32_as_u64: "unat (ucast (w :: u32) :: u64) = unat w"
  by (simp add: unsigned_ucast_eq take_bit_nat_eq_self unat_u32_bound [THEN less_trans])

lemma unat_mul_small: "unat a * unat b < 2 ^ LENGTH('a) \<Longrightarrow> unat (a * b :: 'a::len word) = unat a * unat b"
  by (simp add: unat_word_ariths)

lemma u16_mult_bound: "unat (a :: u16) * unat (b :: u16) < 2 ^ 32"
proof -
  have "unat a * unat b < 2 ^ 16 * 2 ^ 16"
    by (rule mult_strict_mono) (use unat_u16_bound [of a] unat_u16_bound [of b] in simp_all)
  then show ?thesis by simp
qed

lemma scale_dimension_ok:
  assumes "0 < native" and "unat delta * unat target div unat native < 65536"
  shows "\<exists>d. scale_dimension delta native target = Ok d
    \<and> unat d = max (unat delta * unat target div unat native) 1"
proof -
  let ?q = "(ucast delta * ucast target :: u32) div ucast native"
  have q: "unat ?q = unat delta * unat target div unat native"
    using u16_mult_bound [of delta target] by (simp add: unat_div unat_mul_small)
  then have m: "unat (max ?q 1) = max (unat delta * unat target div unat native) 1"
    by (simp add: max_def word_le_nat_alt)
  have "unat (ucast (max ?q 1) :: u16) = unat (max ?q 1)"
    unfolding unsigned_ucast_eq
    by (rule take_bit_nat_eq_self) (use m assms(2) in simp)
  moreover have "scale_dimension delta native target = Ok (ucast (max ?q 1))"
    using assms(1) by (simp add: scale_dimension_def)
  ultimately show ?thesis using m by auto
qed

text \<open>
  \<open>axis_fits\<close>: the axis is not enlarged, or its scaled total (with one pixel of rounding for each of
  the three porches) stays within 16 bits.
\<close>

definition axis_fits :: "u16 \<Rightarrow> u16 \<Rightarrow> u16 \<Rightarrow> bool" where
  "axis_fits active tot target \<longleftrightarrow> target \<le> active
     \<or> unat target * unat tot + 3 * unat active < 65536 * unat active"

text \<open>The arithmetic of one axis over natural numbers: three porches of lengths \<open>p\<close>, \<open>q\<close>, \<open>r\<close>.\<close>

lemma scaled_porches:
  fixes a t p q r :: nat
  defines "f \<equiv> \<lambda>d. max (d * t div a) 1"
  assumes "0 < a" and "0 < p" and "0 < q" and "0 < r"
  shows "t \<le> a \<Longrightarrow> t + f p + f q + f r \<le> a + p + q + r"
    and "t * (a + p + q + r) + 3 * a < 65536 * a \<Longrightarrow> t + f p + f q + f r < 65536"
proof -
  have le: "f d \<le> d" if "t \<le> a" "0 < d" for d
  proof -
    have "d * t div a \<le> d * a div a" using that(1) by (intro div_le_mono mult_le_mono2)
    then show ?thesis using assms(2) that(2) by (simp add: f_def)
  qed
  show "t \<le> a \<Longrightarrow> t + f p + f q + f r \<le> a + p + q + r"
    using le [of p] le [of q] le [of r] assms(3-5) by simp
  assume h: "t * (a + p + q + r) + 3 * a < 65536 * a"
  have up: "f d * a \<le> d * t + a" for d
  proof -
    have "d * t div a * a \<le> d * t" by simp
    then have "d * t div a * a \<le> d * t + a" by linarith
    then show ?thesis by (simp add: f_def max_def)
  qed
  have "(t + f p + f q + f r) * a \<le> t * (a + p + q + r) + 3 * a"
    using up [of p] up [of q] up [of r] by (simp add: algebra_simps)
  with h have "(t + f p + f q + f r) * a < 65536 * a" by linarith
  then show "t + f p + f q + f r < 65536" by simp
qed

text \<open>One derived axis: the sums do not wrap and stay strictly ordered.\<close>

lemma derive_axis:
  assumes "strict_timing active ss se tot" and "axis_fits active tot target"
  shows "\<exists>f s b. scale_dimension (ss - active) active target = Ok f
    \<and> scale_dimension (se - ss) active target = Ok s \<and> scale_dimension (tot - se) active target = Ok b
    \<and> target < target + f \<and> target + f < target + f + s \<and> target + f + s < target + f + s + b
    \<and> (target \<le> active \<longrightarrow> target + f + s + b \<le> tot) \<and> 0 < tot"
proof -
  note st = assms(1) [unfolded strict_timing_def]
  let ?p = "unat (ss - active)" and ?q = "unat (se - ss)" and ?r = "unat (tot - se)"
  have pos: "0 < unat active" "0 < ?p" "0 < ?q" "0 < ?r"
    using st by (simp_all add: word_less_nat_alt unat_sub word_le_nat_alt less_imp_le)
  have tot: "unat tot = unat active + ?p + ?q + ?r"
    using st by (auto simp: unat_sub word_le_nat_alt word_less_nat_alt)
  let ?f = "\<lambda>d. max (d * unat target div unat active) 1"
  have sum: "unat target + ?f ?p + ?f ?q + ?f ?r < 65536"
      "target \<le> active \<Longrightarrow> unat target + ?f ?p + ?f ?q + ?f ?r \<le> unat tot"
    using scaled_porches [OF pos, of "unat target"] assms(2) tot unat_u16_bound [of tot]
    by (auto simp: axis_fits_def word_le_nat_alt)
  have active: "0 < active" using st by simp
  have small: "?p * unat target div unat active < 65536" "?q * unat target div unat active < 65536"
      "?r * unat target div unat active < 65536"
    using sum(1) max.cobounded1 [of "?p * unat target div unat active" 1]
      max.cobounded1 [of "?q * unat target div unat active" 1] max.cobounded1 [of "?r * unat target div unat active" 1]
    by linarith+
  obtain f where f: "scale_dimension (ss - active) active target = Ok f" "unat f = ?f ?p"
    using scale_dimension_ok [OF active small(1)] by auto
  obtain s where s: "scale_dimension (se - ss) active target = Ok s" "unat s = ?f ?q"
    using scale_dimension_ok [OF active small(2)] by auto
  obtain b where b: "scale_dimension (tot - se) active target = Ok b" "unat b = ?f ?r"
    using scale_dimension_ok [OF active small(3)] by auto
  have ge: "1 \<le> unat f" "1 \<le> unat s" "1 \<le> unat b" using f s b by simp_all
  have u: "unat (target + f) = unat target + unat f"
      "unat (target + f + s) = unat target + unat f + unat s"
      "unat (target + f + s + b) = unat target + unat f + unat s + unat b"
    using sum(1) f(2) s(2) b(2) by (simp_all add: unat_word_ariths)
  have "0 < tot" using tot pos(1) by (simp add: word_less_nat_alt)
  moreover have "target \<le> active \<longrightarrow> target + f + s + b \<le> tot"
    using u(3) f(2) s(2) b(2) sum(2) by (simp add: word_le_nat_alt)
  ultimately show ?thesis
    using f(1) s(1) b(1) u ge by (intro exI conjI) (simp_all add: word_less_nat_alt)
qed

lemma derive_clock:
  fixes native_clock :: u32 and ht vt nht nvt :: u16
  shows "unat (ucast ((ucast native_clock * ucast ht * ucast vt :: u64) div ucast nht div ucast nvt) :: u32)
    = unat native_clock * (unat ht * unat vt) div (unat nht * unat nvt) mod 2 ^ 32"
proof -
  have "unat native_clock * (unat ht * unat vt) < 2 ^ 32 * 2 ^ 32"
    by (rule mult_strict_mono) (use unat_u32_bound [of native_clock] u16_mult_bound [of ht vt] in simp_all)
  then have b: "unat native_clock * unat ht * unat vt < 2 ^ 64" by (simp add: ac_simps)
  have "unat native_clock * unat ht < 2 ^ 32 * 2 ^ 16"
    by (rule mult_strict_mono) (use unat_u32_bound [of native_clock] unat_u16_bound [of ht] in simp_all)
  then have b1: "unat native_clock * unat ht < 2 ^ 64" by simp
  have p1: "unat (ucast native_clock * ucast ht :: u64) = unat native_clock * unat ht"
    using b1 by (simp add: unat_mul_small unat_u32_as_u64 unat_u16_as_u64)
  have p: "unat (ucast native_clock * ucast ht * ucast vt :: u64) = unat native_clock * unat ht * unat vt"
    using b by (simp add: unat_mul_small p1 unat_u16_as_u64)
  let ?q = "(ucast native_clock * ucast ht * ucast vt :: u64) div ucast nht div ucast nvt"
  have q: "unat ?q = unat native_clock * (unat ht * unat vt) div (unat nht * unat nvt)"
    unfolding unat_div p unat_u16_as_u64 div_mult2_eq by (simp add: mult.assoc)
  then show ?thesis by (simp add: unsigned_ucast_eq take_bit_eq_mod)
qed

lemma derive_clock_shrinks:
  fixes c :: u32 and ht vt nht nvt :: u16
  assumes "ht \<le> nht" "vt \<le> nvt" "0 < nht" "0 < nvt"
  shows "unat c * (unat ht * unat vt) div (unat nht * unat nvt) \<le> unat c"
proof -
  have "unat ht * unat vt \<le> unat nht * unat nvt"
    using assms by (simp add: word_le_nat_alt mult_le_mono)
  then have "unat c * (unat ht * unat vt) div (unat nht * unat nvt)
      \<le> unat c * (unat nht * unat nvt) div (unat nht * unat nvt)"
    by (intro div_le_mono mult_le_mono2)
  moreover have "0 < unat nht * unat nvt" using assms(3,4) by (simp add: word_less_nat_alt)
  ultimately show ?thesis by simp
qed

section \<open>Properties\<close>

text \<open>C27. A route catalog is built exactly when there is a physical mode and the preferred index names
  one; otherwise the two documented errors are returned. In the built catalog every key occurs once, a
  lookup by an entry's key finds that entry and a found entry has the asked key, exactly one advertised
  mode carries the preferred flag, the preferred entry has the timing of the preferred physical mode and
  is routed exactly to a physical mode of that timing, every physical timing is found with an exact
  route (never the scaled fallback, even when a synthetic mode has the same timing), and every synthetic
  timing is found.\<close>

theorem build_catalog_correct:
  "(\<not> is_ok (build_catalog c physical pi synthetic) \<longleftrightarrow> physical = [] \<or> length physical \<le> pi)
   \<and> \<not> panics (build_catalog c physical pi synthetic)
   \<and> (\<forall>rc. build_catalog c physical pi synthetic = Ok rc \<longrightarrow>
        distinct (map ce_key (rc_entries rc))
        \<and> (\<forall>e \<in> set (rc_entries rc). entry_for_key (ce_key e) rc = Some e
             \<and> ce_key e = mode_key c (ce_advertised_mode e))
        \<and> (\<forall>k e. entry_for_key k rc = Some e \<longrightarrow> e \<in> set (rc_entries rc) \<and> ce_key e = k)
        \<and> length (filter (\<lambda>m. dm_flags m AND GUD_DISPLAY_MODE_FLAG_PREFERRED \<noteq> 0) (advertised_modes rc)) = 1
        \<and> (\<exists>e. preferred_entry rc = Ok e \<and> exact_routed c physical e
             \<and> ce_key e = mode_key c (pc_timing (physical ! pi))
             \<and> dm_flags (ce_advertised_mode e) AND GUD_DISPLAY_MODE_FLAG_PREFERRED \<noteq> 0)
        \<and> (\<forall>m \<in> set physical. \<exists>e. entry_for_key (mode_key c (pc_timing m)) rc = Some e
             \<and> exact_routed c physical e)
        \<and> (\<forall>m \<in> set synthetic. entry_for_key (mode_key c m) rc \<noteq> None))"
proof (cases "pi < length physical")
  case False
  then show ?thesis by (auto simp: build_catalog_def)
next
  case True
  then obtain rc where rc: "build_catalog c physical pi synthetic = Ok rc"
    and ok: "catalog_ok c (catalog_of rc)" and rest:
      "\<forall>m \<in> set physical. \<exists>e. entry_for_key (mode_key c (pc_timing m)) rc = Some e \<and> exact_routed c physical e"
      "\<forall>m \<in> set synthetic. entry_for_key (mode_key c m) rc \<noteq> None"
      "length (filter (\<lambda>m. dm_flags m AND GUD_DISPLAY_MODE_FLAG_PREFERRED \<noteq> 0) (advertised_modes rc)) = 1"
      "\<exists>e. preferred_entry rc = Ok e \<and> exact_routed c physical e
         \<and> ce_key e = mode_key c (pc_timing (physical ! pi))
         \<and> dm_flags (ce_advertised_mode e) AND GUD_DISPLAY_MODE_FLAG_PREFERRED \<noteq> 0"
    using build_catalog_Ok [OF True, of c synthetic] by blast
  have "distinct (map ce_key (rc_entries rc))"
    using ok by (simp add: catalog_of_def catalog_ok_distinct)
  moreover have "\<forall>e \<in> set (rc_entries rc). entry_for_key (ce_key e) rc = Some e
      \<and> ce_key e = mode_key c (ce_advertised_mode e)"
    using entry_for_key_mem [OF ok] ok by (simp add: catalog_of_def catalog_ok_def)
  moreover have "\<forall>k e. entry_for_key k rc = Some e \<longrightarrow> e \<in> set (rc_entries rc) \<and> ce_key e = k"
    using entry_for_key_Some [OF ok] by blast
  ultimately show ?thesis using True rc rest by auto
qed

text \<open>Two physical modes, one synthetic mode that repeats a physical timing and one that does not.\<close>

definition sample_physical :: "nat PhysicalCatalogMode list" where
  "sample_physical = [\<lparr> pc_mode = 7, pc_timing = mode_640x480 \<rparr>,
     \<lparr> pc_mode = 8, pc_timing = mode_640x480\<lparr> dm_clock := 50000 \<rparr> \<rparr>]"

theorem build_catalog_correct_witness:
  "\<exists>rc. build_catalog 0 sample_physical 1 [mode_640x480, mode_640x480\<lparr> dm_clock := 1 \<rparr>] = Ok rc
     \<and> distinct (map ce_key (rc_entries rc))"
proof -
  have "is_ok (build_catalog 0 sample_physical 1 [mode_640x480, mode_640x480\<lparr> dm_clock := 1 \<rparr>])"
    using build_catalog_correct [of 0 sample_physical 1 "[mode_640x480, mode_640x480\<lparr> dm_clock := 1 \<rparr>]"]
    by (simp add: sample_physical_def)
  then show ?thesis
    using build_catalog_correct [of 0 sample_physical 1 "[mode_640x480, mode_640x480\<lparr> dm_clock := 1 \<rparr>]"]
    by (auto simp: is_ok_iff)
qed

text \<open>Deriving a mode of any size from a native timing that is strictly ordered on both axes does not
  panic as long as each axis is not enlarged or its scaled total stays within 16 bits: the result is a
  strictly ordered timing of exactly the requested size (no 16-bit sum wraps), whose pixel clock is the
  native clock scaled by the ratio of the totals, rounded down (without 64-bit overflow, truncated to 32
  bits). A mode that enlarges neither axis has totals and a clock of at most the native ones.\<close>

theorem derive_mode_correct:
  assumes "strict_timing (dm_hdisplay native) (dm_hsync_start native) (dm_hsync_end native) (dm_htotal native)"
    and "strict_timing (dm_vdisplay native) (dm_vsync_start native) (dm_vsync_end native) (dm_vtotal native)"
    and "0 < w" and "axis_fits (dm_hdisplay native) (dm_htotal native) w"
    and "0 < h" and "axis_fits (dm_vdisplay native) (dm_vtotal native) h"
  shows "\<exists>m. derive_mode_from_native native w h = Ok m \<and> dm_hdisplay m = w \<and> dm_vdisplay m = h
    \<and> strict_timing w (dm_hsync_start m) (dm_hsync_end m) (dm_htotal m)
    \<and> strict_timing h (dm_vsync_start m) (dm_vsync_end m) (dm_vtotal m)
    \<and> unat (dm_clock m) = unat (dm_clock native) * (unat (dm_htotal m) * unat (dm_vtotal m))
        div (unat (dm_htotal native) * unat (dm_vtotal native)) mod 2 ^ 32
    \<and> (w \<le> dm_hdisplay native \<and> h \<le> dm_vdisplay native \<longrightarrow>
        dm_htotal m \<le> dm_htotal native \<and> dm_vtotal m \<le> dm_vtotal native \<and> dm_clock m \<le> dm_clock native)
    \<and> dm_flags m = 0"
proof -
  obtain hf hs hb where hor:
      "scale_dimension (dm_hsync_start native - dm_hdisplay native) (dm_hdisplay native) w = Ok hf"
      "scale_dimension (dm_hsync_end native - dm_hsync_start native) (dm_hdisplay native) w = Ok hs"
      "scale_dimension (dm_htotal native - dm_hsync_end native) (dm_hdisplay native) w = Ok hb"
      "w < w + hf" "w + hf < w + hf + hs" "w + hf + hs < w + hf + hs + hb"
      "w \<le> dm_hdisplay native \<longrightarrow> w + hf + hs + hb \<le> dm_htotal native" "0 < dm_htotal native"
    using derive_axis [OF assms(1,4)] by blast
  obtain vf vs vb where ver:
      "scale_dimension (dm_vsync_start native - dm_vdisplay native) (dm_vdisplay native) h = Ok vf"
      "scale_dimension (dm_vsync_end native - dm_vsync_start native) (dm_vdisplay native) h = Ok vs"
      "scale_dimension (dm_vtotal native - dm_vsync_end native) (dm_vdisplay native) h = Ok vb"
      "h < h + vf" "h + vf < h + vf + vs" "h + vf + vs < h + vf + vs + vb"
      "h \<le> dm_vdisplay native \<longrightarrow> h + vf + vs + vb \<le> dm_vtotal native" "0 < dm_vtotal native"
    using derive_axis [OF assms(2,6)] by blast
  let ?m = "\<lparr> dm_clock = ucast ((ucast (dm_clock native) * ucast (w + hf + hs + hb) * ucast (h + vf + vs + vb) :: u64)
      div ucast (dm_htotal native) div ucast (dm_vtotal native)), dm_hdisplay = w, dm_hsync_start = w + hf,
    dm_hsync_end = w + hf + hs, dm_htotal = w + hf + hs + hb, dm_vdisplay = h, dm_vsync_start = h + vf,
    dm_vsync_end = h + vf + vs, dm_vtotal = h + vf + vs + vb, dm_flags = 0 \<rparr>"
  have "dm_htotal native \<noteq> 0" "dm_vtotal native \<noteq> 0" using hor(8) ver(8) by auto
  then have d: "derive_mode_from_native native w h = Ok ?m"
    using hor(1-3) ver(1-3) by (simp add: derive_mode_from_native_def Let_def)
  have clk: "unat (dm_clock ?m) = unat (dm_clock native) * (unat (dm_htotal ?m) * unat (dm_vtotal ?m))
      div (unat (dm_htotal native) * unat (dm_vtotal native)) mod 2 ^ 32"
    by (simp only: DisplayMode.select_convs derive_clock)
  have shrink: "dm_clock ?m \<le> dm_clock native" if "w \<le> dm_hdisplay native" "h \<le> dm_vdisplay native"
    using derive_clock_shrinks [of "dm_htotal ?m" "dm_htotal native" "dm_vtotal ?m" "dm_vtotal native" "dm_clock native"]
      clk that hor(7,8) ver(7,8) unat_u32_bound [of "dm_clock native"]
    unfolding word_le_nat_alt by simp
  have bounds: "w \<le> dm_hdisplay native \<and> h \<le> dm_vdisplay native \<longrightarrow>
      dm_htotal ?m \<le> dm_htotal native \<and> dm_vtotal ?m \<le> dm_vtotal native \<and> dm_clock ?m \<le> dm_clock native"
    using shrink hor(7) ver(7) by (simp only: DisplayMode.select_convs simp_thms) blast
  have "strict_timing w (dm_hsync_start ?m) (dm_hsync_end ?m) (dm_htotal ?m)"
      "strict_timing h (dm_vsync_start ?m) (dm_vsync_end ?m) (dm_vtotal ?m)"
    using hor(4-6) ver(4-6) assms(3,5) by (simp_all only: DisplayMode.select_convs strict_timing_def simp_thms)
  then show ?thesis using d clk bounds by (intro exI [of _ ?m] conjI) (simp_all only: DisplayMode.select_convs)
qed

theorem derive_mode_correct_witness:
  "\<exists>m. derive_mode_from_native mode_640x480 720 1520 = Ok m \<and> dm_hdisplay m = 720
     \<and> strict_timing 720 (dm_hsync_start m) (dm_hsync_end m) (dm_htotal m)"
  using derive_mode_correct [of mode_640x480 720 1520]
  by (auto simp: mode_640x480_def strict_timing_def axis_fits_def)

end
