(* ===== verification/Drm_Raster.thy ===== *)
theory Drm_Raster
  imports Gud_Bulk
begin

text \<open>
  The software raster of \<^verbatim>\<open>drm/src/main.rs\<close>: pixel formats, single pixels, fills, the diagnostic
  pattern, the scaler and the waiting screen. A mapped framebuffer is its byte list. Timings and log
  lines are left out. \<open>usize\<close> expressions the source writes with plain operators are reduced with
  \<open>wrap_usize\<close> where their operands are not bounded by an earlier check.
\<close>

section \<open>Pixel formats and colours\<close>

datatype TransferFormat = Rgb565 | Rgb888 | Xrgb8888

fun gud_pixel_format :: "TransferFormat \<Rightarrow> u8" where
  "gud_pixel_format Rgb565 = GUD_PIXEL_FORMAT_RGB565"
| "gud_pixel_format Rgb888 = GUD_PIXEL_FORMAT_RGB888"
| "gud_pixel_format Xrgb8888 = GUD_PIXEL_FORMAT_XRGB8888"

fun format_name :: "TransferFormat \<Rightarrow> string" where
  "format_name Rgb565 = ''rgb565''"
| "format_name Rgb888 = ''rgb888''"
| "format_name Xrgb8888 = ''xrgb8888''"

fun depth :: "TransferFormat \<Rightarrow> u32" where
  "depth Rgb565 = 16"
| "depth Rgb888 = 24"
| "depth Xrgb8888 = 24"

fun bpp :: "TransferFormat \<Rightarrow> u32" where
  "bpp Rgb565 = 16"
| "bpp Rgb888 = 24"
| "bpp Xrgb8888 = 32"

fun format_bytes :: "TransferFormat \<Rightarrow> usize" where
  "format_bytes Rgb565 = 2"
| "format_bytes Rgb888 = 3"
| "format_bytes Xrgb8888 = 4"

record RgbColor =
  col_r :: u8
  col_g :: u8
  col_b :: u8

abbreviation rgb :: "u8 \<Rightarrow> u8 \<Rightarrow> u8 \<Rightarrow> RgbColor" where
  "rgb r g b \<equiv> \<lparr> col_r = r, col_g = g, col_b = b \<rparr>"

definition COLOR_BLACK :: RgbColor where "COLOR_BLACK = rgb 0 0 0"
definition COLOR_BLUE :: RgbColor where "COLOR_BLUE = rgb 0 0 255"
definition COLOR_GREEN :: RgbColor where "COLOR_GREEN = rgb 0 255 0"
definition COLOR_CYAN :: RgbColor where "COLOR_CYAN = rgb 0 255 255"
definition COLOR_RED :: RgbColor where "COLOR_RED = rgb 255 0 0"
definition COLOR_MAGENTA :: RgbColor where "COLOR_MAGENTA = rgb 255 0 255"
definition COLOR_YELLOW :: RgbColor where "COLOR_YELLOW = rgb 255 255 0"
definition COLOR_WHITE :: RgbColor where "COLOR_WHITE = rgb 255 255 255"
definition COLOR_DARK_GRAY :: RgbColor where "COLOR_DARK_GRAY = rgb 66 65 66"
definition COLOR_LIGHT_GRAY :: RgbColor where "COLOR_LIGHT_GRAY = rgb 198 195 198"
definition COLOR_ORANGE :: RgbColor where "COLOR_ORANGE = rgb 255 166 0"

section \<open>Pixels\<close>

definition wrap_usize :: "nat \<Rightarrow> usize" where
  "wrap_usize n = n mod usize_bound"

definition pixel_offset :: "bytes \<Rightarrow> usize \<Rightarrow> usize \<Rightarrow> usize \<Rightarrow> usize \<Rightarrow> usize result" where
  "pixel_offset fb pitch x y bytes_pp =
     (if \<not> 0 < bytes_pp then Err ''bytes per pixel must be greater than zero''
      else case Option.bind (checked_mul_usize y pitch)
                  (\<lambda>off. Option.bind (checked_mul_usize x bytes_pp) (checked_add_usize off)) of
        None \<Rightarrow> Err ''pixel offset overflow''
      | Some off \<Rightarrow>
          (case checked_add_usize off bytes_pp of
             None \<Rightarrow> Err ''pixel end offset overflow''
           | Some pend \<Rightarrow> if pend \<le> length fb then Ok off else Err ''pixel exceeds buffer length''))"

definition rgb565_of :: "RgbColor \<Rightarrow> u16" where
  "rgb565_of color = push_bit 11 (drop_bit 3 (ucast (col_r color)))
     OR push_bit 5 (drop_bit 2 (ucast (col_g color))) OR drop_bit 3 (ucast (col_b color))"

fun pixel_bytes :: "TransferFormat \<Rightarrow> RgbColor \<Rightarrow> bytes" where
  "pixel_bytes Rgb565 color = to_le_bytes 2 (rgb565_of color)"
| "pixel_bytes Rgb888 color = [col_b color, col_g color, col_r color]"
| "pixel_bytes Xrgb8888 color = [col_b color, col_g color, col_r color, 0]"

definition write_pixel ::
  "bytes \<Rightarrow> usize \<Rightarrow> usize \<Rightarrow> usize \<Rightarrow> TransferFormat \<Rightarrow> RgbColor \<Rightarrow> bytes result" where
  "write_pixel fb pitch x y format color =
     (case pixel_offset fb pitch x y (format_bytes format) of
        Inl e \<Rightarrow> Inl e
      | Inr off \<Rightarrow> copy_into fb off (pixel_bytes format color))"

definition rgb565_color :: "u16 \<Rightarrow> RgbColor" where
  "rgb565_color pixel =
     (let red = ucast (drop_bit 11 pixel AND 0x1f) :: u8;
          green = ucast (drop_bit 5 pixel AND 0x3f) :: u8;
          blue = ucast (pixel AND 0x1f) :: u8 in
      rgb (push_bit 3 red OR drop_bit 2 red) (push_bit 2 green OR drop_bit 4 green)
        (push_bit 3 blue OR drop_bit 2 blue))"

definition read_pixel :: "bytes \<Rightarrow> usize \<Rightarrow> usize \<Rightarrow> usize \<Rightarrow> TransferFormat \<Rightarrow> RgbColor result" where
  "read_pixel fb pitch x y format =
     (case pixel_offset fb pitch x y (format_bytes format) of
        Inl e \<Rightarrow> Inl e
      | Inr off \<Rightarrow>
          Ok (case format of
                Rgb565 \<Rightarrow> rgb565_color (from_le_bytes [fb ! off, fb ! (off + 1)])
              | Rgb888 \<Rightarrow> rgb (fb ! (off + 2)) (fb ! (off + 1)) (fb ! off)
              | Xrgb8888 \<Rightarrow> rgb (fb ! (off + 2)) (fb ! (off + 1)) (fb ! off)))"

definition validate_raster :: "bytes \<Rightarrow> usize \<Rightarrow> usize \<Rightarrow> usize \<Rightarrow> usize \<Rightarrow> unit result" where
  "validate_raster pixels pitch width height bytes_pp =
     (if \<not> 0 < width then Err ''width must be greater than zero''
      else if \<not> 0 < height then Err ''height must be greater than zero''
      else if \<not> 0 < bytes_pp then Err ''bytes per pixel must be greater than zero''
      else case checked_mul_usize width bytes_pp of
        None \<Rightarrow> Err ''{name} minimum pitch overflow''
      | Some minimum_pitch \<Rightarrow>
          if \<not> minimum_pitch \<le> pitch then Err ''pitch is smaller than required''
          else (case checked_mul_usize pitch height of
             None \<Rightarrow> Err ''{name} required length overflow''
           | Some required_len \<Rightarrow>
               if \<not> required_len \<le> length pixels then Err ''raster is too short'' else Ok ()))"

definition fill_solid ::
  "bytes \<Rightarrow> usize \<Rightarrow> usize \<Rightarrow> usize \<Rightarrow> TransferFormat \<Rightarrow> RgbColor \<Rightarrow> bytes result" where
  "fill_solid fb pitch width height format color =
     (case validate_raster fb pitch width height (format_bytes format) of
        Inl e \<Rightarrow> Inl e
      | Inr _ \<Rightarrow> for_range 0 height (\<lambda>y. for_range 0 width (\<lambda>x fb. write_pixel fb pitch x y format color)) fb)"

section \<open>The diagnostic pattern\<close>

definition diagnostic_pattern_color :: "usize \<Rightarrow> usize \<Rightarrow> usize \<Rightarrow> usize \<Rightarrow> RgbColor" where
  "diagnostic_pattern_color x y width height =
     (let border = 48; corner = 128; center_thickness = 24; grid_x_step = 180; grid_y_step = 240;
          grid_thickness = 4;
          color = COLOR_DARK_GRAY;
          color = (if y < border then COLOR_RED else color);
          color = (if width - border \<le> x then COLOR_YELLOW else color);
          color = (if height - border \<le> y then COLOR_GREEN else color);
          color = (if x < border then COLOR_BLUE else color);
          color = (if x < corner \<and> y < corner then COLOR_WHITE else color);
          color = (if width - corner \<le> x \<and> y < corner then COLOR_CYAN else color);
          color = (if x < corner \<and> height - corner \<le> y then COLOR_MAGENTA else color);
          color = (if width - corner \<le> x \<and> height - corner \<le> y then COLOR_ORANGE else color);
          center_x = width div 2; center_y = height div 2;
          color = (if center_x - center_thickness div 2 \<le> x \<and> x < center_x + center_thickness div 2
                   then COLOR_WHITE else color);
          color = (if center_y - center_thickness div 2 \<le> y \<and> y < center_y + center_thickness div 2
                   then COLOR_MAGENTA else color)
      in if x mod grid_x_step < grid_thickness \<or> y mod grid_y_step < grid_thickness
         then COLOR_LIGHT_GRAY else color)"

definition fill_diagnostic_pattern_rect ::
  "bytes \<Rightarrow> usize \<Rightarrow> u32 \<Rightarrow> u32 \<Rightarrow> u32 \<Rightarrow> u32 \<Rightarrow> u32 \<Rightarrow> u32 \<Rightarrow> TransferFormat \<Rightarrow> bytes result" where
  "fill_diagnostic_pattern_rect fb pitch fb_width fb_height rect_x rect_y rect_width rect_height format =
     (if \<not> rect_x \<le> fb_width then Err ''rect x exceeds fb width''
      else if \<not> rect_y \<le> fb_height then Err ''rect y exceeds fb height''
      else case checked_add rect_x rect_width of
        None \<Rightarrow> Err ''diagnostic rectangle x extent overflow''
      | Some x_extent \<Rightarrow>
          if \<not> x_extent \<le> fb_width then Err ''rect width exceeds fb width''
          else (case checked_add rect_y rect_height of
             None \<Rightarrow> Err ''diagnostic rectangle y extent overflow''
           | Some y_extent \<Rightarrow>
               if \<not> y_extent \<le> fb_height then Err ''rect height exceeds fb height''
               else (case validate_raster fb pitch (unat fb_width) (unat fb_height) (format_bytes format) of
                  Inl e \<Rightarrow> Inl e
                | Inr _ \<Rightarrow>
                    for_range (unat rect_y) (unat rect_y + unat rect_height)
                      (\<lambda>y. for_range (unat rect_x) (unat rect_x + unat rect_width)
                        (\<lambda>x fb. write_pixel fb pitch x y format
                           (diagnostic_pattern_color x y (unat fb_width) (unat fb_height)))) fb)))"

section \<open>The scaler\<close>

record ScaledLayout =
  sl_x :: usize
  sl_y :: usize
  sl_width :: usize
  sl_height :: usize

text \<open>Products of two \<open>u32\<close> values fit \<open>u64\<close>, so they are written over natural numbers.\<close>

definition compute_scaled_layout :: "u32 \<Rightarrow> u32 \<Rightarrow> u32 \<Rightarrow> u32 \<Rightarrow> ScaledLayout result" where
  "compute_scaled_layout src_width src_height dst_width dst_height =
     (if \<not> 0 < src_width then Err ''source width must be greater than zero''
      else if \<not> 0 < src_height then Err ''source height must be greater than zero''
      else if \<not> 0 < dst_width then Err ''destination width must be greater than zero''
      else if \<not> 0 < dst_height then Err ''destination height must be greater than zero''
      else
        let width_limited_height = unat dst_width * unat src_height div unat src_width;
            (scaled_width, scaled_height) =
              (if width_limited_height \<le> unat dst_height then (unat dst_width, max width_limited_height 1)
               else (max (unat dst_height * unat src_width div unat src_height) 1, unat dst_height))
        in Ok \<lparr> sl_x = (unat dst_width - scaled_width) div 2, sl_y = (unat dst_height - scaled_height) div 2,
                sl_width = scaled_width, sl_height = scaled_height \<rparr>)"

definition scale_pixel ::
  "bytes \<Rightarrow> usize \<Rightarrow> u32 \<Rightarrow> u32 \<Rightarrow> usize \<Rightarrow> ScaledLayout \<Rightarrow> usize \<Rightarrow> usize \<Rightarrow> usize \<Rightarrow> bytes \<Rightarrow> bytes result" where
  "scale_pixel src src_pitch src_width src_height dst_pitch layout bytes_pp dst_y_rel dst_x_rel dst =
     (let src_y = dst_y_rel * unat src_height div sl_height layout;
          dst_y = sl_y layout + dst_y_rel;
          src_row = src_y * src_pitch;
          dst_row = dst_y * dst_pitch;
          src_x = dst_x_rel * unat src_width div sl_width layout;
          src_off = src_row + src_x * bytes_pp;
          dst_off = dst_row + (sl_x layout + dst_x_rel) * bytes_pp in
      case slice src src_off (src_off + bytes_pp) of
        Inl e \<Rightarrow> Inl e
      | Inr px \<Rightarrow> copy_into dst dst_off px)"

definition scale_to_fit ::
  "bytes \<Rightarrow> usize \<Rightarrow> u32 \<Rightarrow> u32 \<Rightarrow> bytes \<Rightarrow> usize \<Rightarrow> u32 \<Rightarrow> u32 \<Rightarrow> TransferFormat \<Rightarrow>
   (ScaledLayout \<times> bytes) result" where
  "scale_to_fit src src_pitch src_width src_height dst dst_pitch dst_width dst_height format =
     (case compute_scaled_layout src_width src_height dst_width dst_height of
        Inl e \<Rightarrow> Inl e
      | Inr layout \<Rightarrow>
     (case validate_raster src src_pitch (unat src_width) (unat src_height) (format_bytes format) of
        Inl e \<Rightarrow> Inl e
      | Inr _ \<Rightarrow>
     (case validate_raster dst dst_pitch (unat dst_width) (unat dst_height) (format_bytes format) of
        Inl e \<Rightarrow> Inl e
      | Inr _ \<Rightarrow>
     (case fill_solid dst dst_pitch (unat dst_width) (unat dst_height) format COLOR_BLACK of
        Inl e \<Rightarrow> Inl e
      | Inr dst \<Rightarrow>
     (case for_range 0 (sl_height layout) (\<lambda>dst_y_rel. for_range 0 (sl_width layout)
             (scale_pixel src src_pitch src_width src_height dst_pitch layout (format_bytes format) dst_y_rel)) dst of
        Inl e \<Rightarrow> Inl e
      | Inr dst \<Rightarrow> Ok (layout, dst))))))"

section \<open>The waiting screen\<close>

abbreviation (input) RGB565_GREEN :: u16 where "RGB565_GREEN \<equiv> 0x07e0"
abbreviation (input) RGB565_WHITE :: u16 where "RGB565_WHITE \<equiv> 0xffff"
abbreviation (input) WAITING_HIGHLIGHT_LINE :: usize where "WAITING_HIGHLIGHT_LINE \<equiv> 1"
abbreviation (input) WAITING_GLYPH_WIDTH :: usize where "WAITING_GLYPH_WIDTH \<equiv> 5"
abbreviation (input) WAITING_GLYPH_HEIGHT :: usize where "WAITING_GLYPH_HEIGHT \<equiv> 7"
abbreviation (input) WAITING_GLYPH_SPACING :: usize where "WAITING_GLYPH_SPACING \<equiv> 1"
abbreviation (input) WAITING_LINE_SPACING :: usize where "WAITING_LINE_SPACING \<equiv> 1"

definition WAITING_SCREEN_LINES :: "string list" where
  "WAITING_SCREEN_LINES =
     [''   _~_        .------------.'',
      ''  (o o)       |  WAITING   |'',
      '' /  V  '' @ [CHR 0x5C] @ ''      '' @ [CHR 0x27] @ ''------------'' @ [CHR 0x27],
      ''/(  _  )'' @ [CHR 0x5C] @ ''         |    |'',
      ''  ^^ ^^           |____|'']"

definition WAITING_HIGHLIGHT_TEXT :: string where
  "WAITING_HIGHLIGHT_TEXT = ''WAITING''"

definition waiting_scene_glyph :: "char \<Rightarrow> u8 list option" where
  "waiting_scene_glyph ch = map_of
     [(CHR '' '', [0, 0, 0, 0, 0, 0, 0]),
      (CHR ''_'', [0, 0, 0, 0, 0, 0, 0b11111]),
      (CHR ''~'', [0, 0b01010, 0b10101, 0, 0, 0, 0]),
      (CHR ''('', [0b00110, 0b01000, 0b10000, 0b10000, 0b10000, 0b01000, 0b00110]),
      (CHR '')'', [0b01100, 0b00010, 0b00001, 0b00001, 0b00001, 0b00010, 0b01100]),
      (CHR ''o'', [0, 0b01110, 0b10001, 0b10001, 0b10001, 0b01110, 0]),
      (CHR ''/'', [0b00001, 0b00010, 0b00100, 0b01000, 0b10000, 0, 0]),
      (CHR 0x5C, [0b10000, 0b01000, 0b00100, 0b00010, 0b00001, 0, 0]),
      (CHR ''V'', [0b10001, 0b10001, 0b10001, 0b10001, 0b01010, 0b01010, 0b00100]),
      (CHR ''^'', [0b00100, 0b01010, 0b10001, 0, 0, 0, 0]),
      (CHR ''|'', [0b00100, 0b00100, 0b00100, 0b00100, 0b00100, 0b00100, 0b00100]),
      (CHR ''.'', [0, 0, 0, 0, 0, 0b00100, 0b00100]),
      (CHR ''-'', [0, 0, 0, 0b11111, 0, 0, 0]),
      (CHR 0x27, [0b00100, 0b00100, 0b00010, 0, 0, 0, 0]),
      (CHR ''A'', [0b01110, 0b10001, 0b10001, 0b11111, 0b10001, 0b10001, 0b10001]),
      (CHR ''G'', [0b01110, 0b10001, 0b10000, 0b10111, 0b10001, 0b10001, 0b01110]),
      (CHR ''I'', [0b11111, 0b00100, 0b00100, 0b00100, 0b00100, 0b00100, 0b11111]),
      (CHR ''N'', [0b10001, 0b11001, 0b10101, 0b10011, 0b10001, 0b10001, 0b10001]),
      (CHR ''T'', [0b11111, 0b00100, 0b00100, 0b00100, 0b00100, 0b00100, 0b00100]),
      (CHR ''W'', [0b10001, 0b10001, 0b10001, 0b10101, 0b10101, 0b10101, 0b01010])] ch"

definition write_rgb565_pixel :: "usize \<Rightarrow> usize \<Rightarrow> usize \<Rightarrow> u16 \<Rightarrow> bytes \<Rightarrow> bytes result" where
  "write_rgb565_pixel pitch x y color fb =
     (let off = wrap_usize (y * pitch + x * 2) in
      if off + 1 < length fb
      then Ok (fb[off := ucast color, off + 1 := ucast (drop_bit 8 color)])
      else panic ''index out of bounds'')"

definition fill_rgb565_rect ::
  "usize \<Rightarrow> usize \<Rightarrow> usize \<Rightarrow> usize \<Rightarrow> usize \<Rightarrow> u16 \<Rightarrow> bytes \<Rightarrow> bytes result" where
  "fill_rgb565_rect pitch x y width height color =
     for_range y (wrap_usize (y + height))
       (\<lambda>yy. for_range x (wrap_usize (x + width)) (\<lambda>xx. write_rgb565_pixel pitch xx yy color))"

definition render_bitmap_glyph ::
  "usize \<Rightarrow> usize \<Rightarrow> usize \<Rightarrow> usize \<Rightarrow> u8 list \<Rightarrow> u16 \<Rightarrow> bytes \<Rightarrow> bytes result" where
  "render_bitmap_glyph pitch x y scale rows color =
     for_range 0 (length rows) (\<lambda>row_idx. for_range 0 WAITING_GLYPH_WIDTH (\<lambda>col_idx fb.
       if (rows ! row_idx) AND push_bit (WAITING_GLYPH_WIDTH - 1 - col_idx) 1 = 0 then Ok fb
       else fill_rgb565_rect pitch (wrap_usize (x + col_idx * scale)) (wrap_usize (y + row_idx * scale))
              scale scale color fb))"

text \<open>\<open>str::find\<close>.\<close>

fun find_sub :: "string \<Rightarrow> string \<Rightarrow> nat option" where
  "find_sub needle [] = (if needle = [] then Some 0 else None)"
| "find_sub needle (c # cs) =
     (if take (length needle) (c # cs) = needle then Some 0 else map_option Suc (find_sub needle cs))"

text \<open>
  The centring differences: with \<open>overflow_checks\<close> (debug) a negative difference panics, otherwise it
  wraps. When neither is negative, no other sum of the renderer overflows.
\<close>

definition sub_usize :: "bool \<Rightarrow> usize \<Rightarrow> usize \<Rightarrow> usize result" where
  "sub_usize overflow_checks a b =
     (if b \<le> a then Ok (a - b)
      else if overflow_checks then panic ''attempt to subtract with overflow''
      else Ok (usize_bound + a - b))"

definition max_cols :: usize where
  "max_cols = fold max (map length WAITING_SCREEN_LINES) 0"

definition scene_width_units :: usize where
  "scene_width_units = max_cols * WAITING_GLYPH_WIDTH + (max_cols - 1) * WAITING_GLYPH_SPACING"

definition scene_height_units :: usize where
  "scene_height_units =
     length WAITING_SCREEN_LINES * WAITING_GLYPH_HEIGHT + (length WAITING_SCREEN_LINES - 1) * WAITING_LINE_SPACING"

definition scene_scale :: "usize \<Rightarrow> usize \<Rightarrow> usize" where
  "scene_scale width height = max (min (width div scene_width_units) (height div scene_height_units)) 1"

definition render_scene ::
  "usize \<Rightarrow> usize \<Rightarrow> usize \<Rightarrow> usize \<Rightarrow> usize \<Rightarrow> bytes \<Rightarrow> bytes result" where
  "render_scene pitch scale origin_x origin_y waiting_start =
     (let waiting_end = waiting_start + length WAITING_HIGHLIGHT_TEXT in
      for_range 0 (length WAITING_SCREEN_LINES) (\<lambda>line_idx.
        let line = WAITING_SCREEN_LINES ! line_idx;
            baseline_y = wrap_usize (origin_y + line_idx * (WAITING_GLYPH_HEIGHT + WAITING_LINE_SPACING) * scale) in
        for_range 0 (length line) (\<lambda>col_idx fb.
          let ch = line ! col_idx in
          if ch = CHR '' '' then Ok fb
          else case waiting_scene_glyph ch of
            None \<Rightarrow> Err ''unsupported waiting-scene glyph''
          | Some glyph \<Rightarrow>
              (let color = (if line_idx = WAITING_HIGHLIGHT_LINE \<and> waiting_start \<le> col_idx \<and> col_idx < waiting_end
                            then RGB565_GREEN else RGB565_WHITE);
                   glyph_x = wrap_usize (origin_x + col_idx * (WAITING_GLYPH_WIDTH + WAITING_GLYPH_SPACING) * scale) in
               render_bitmap_glyph pitch glyph_x baseline_y scale glyph color fb))))"

definition render_waiting_screen ::
  "bool \<Rightarrow> bytes \<Rightarrow> usize \<Rightarrow> u32 \<Rightarrow> u32 \<Rightarrow> TransferFormat \<Rightarrow> bytes result" where
  "render_waiting_screen overflow_checks fb pitch width height format =
     (case fill_solid fb pitch (unat width) (unat height) format COLOR_BLACK of
        Inl e \<Rightarrow> Inl e
      | Inr fb \<Rightarrow>
          if format \<noteq> Rgb565 then Ok fb
          else if \<not> (0 < length WAITING_SCREEN_LINES \<and> 0 < max_cols) then Err ''waiting screen must not be empty''
          else
            let scale = scene_scale (unat width) (unat height) in
            case sub_usize overflow_checks (unat width) (scene_width_units * scale) of
              Inl e \<Rightarrow> Inl e
            | Inr dx \<Rightarrow>
           (case sub_usize overflow_checks (unat height) (scene_height_units * scale) of
              Inl e \<Rightarrow> Inl e
            | Inr dy \<Rightarrow>
           (case find_sub WAITING_HIGHLIGHT_TEXT (WAITING_SCREEN_LINES ! WAITING_HIGHLIGHT_LINE) of
              None \<Rightarrow> Err ''waiting highlight text missing from scene''
            | Some waiting_start \<Rightarrow> render_scene pitch scale (dx div 2) (dy div 2) waiting_start fb)))"

section \<open>The visible surface\<close>

datatype VisibleSurface = Content | WaitingStartup | WaitingSuspended | WaitingDisconnected

definition is_waiting :: "VisibleSurface \<Rightarrow> bool" where
  "is_waiting s \<longleftrightarrow> s \<noteq> Content"

fun surface_after_suspend :: "VisibleSurface \<Rightarrow> VisibleSurface" where
  "surface_after_suspend Content = WaitingSuspended"
| "surface_after_suspend waiting = waiting"

fun surface_after_resume :: "VisibleSurface \<Rightarrow> VisibleSurface" where
  "surface_after_resume WaitingSuspended = Content"
| "surface_after_resume waiting = waiting"

definition is_full_frame_update :: "SetBuffer \<Rightarrow> u32 \<Rightarrow> u32 \<Rightarrow> bool" where
  "is_full_frame_update info width height \<longleftrightarrow>
     sb_x info = 0 \<and> sb_y info = 0 \<and> sb_width info = width \<and> sb_height info = height"

section \<open>Painting loops\<close>

text \<open>
  Every drawing loop writes one pixel per iteration, row by row. \<open>painted\<close> is what a framebuffer holds
  after the pixels in \<open>P\<close> were written with the bytes \<open>f x y\<close>: byte \<open>i\<close> belongs to pixel
  \<open>(i mod pitch div bpp, i div pitch)\<close>.
\<close>

definition painted ::
  "usize \<Rightarrow> usize \<Rightarrow> (nat \<Rightarrow> nat \<Rightarrow> bool) \<Rightarrow> (nat \<Rightarrow> nat \<Rightarrow> bytes) \<Rightarrow> bytes \<Rightarrow> nat \<Rightarrow> u8" where
  "painted pitch bytes_pp P f fb i =
     (let y = i div pitch; x = i mod pitch div bytes_pp in
      if P x y then f x y ! (i mod pitch mod bytes_pp) else fb ! i)"

lemma pixel_index:
  fixes pitch n x y i :: nat
  assumes "0 < n" and "x * n + n \<le> pitch"
  shows "(y * pitch + x * n \<le> i \<and> i < y * pitch + x * n + n) \<longleftrightarrow> i div pitch = y \<and> i mod pitch div n = x"
    and "i div pitch = y \<Longrightarrow> i mod pitch div n = x \<Longrightarrow> i - (y * pitch + x * n) = i mod pitch mod n"
proof -
  let ?c = "i mod pitch"
  have p: "0 < pitch" using assms by simp
  have i: "i = (i div pitch) * pitch + ?c" by simp
  have c: "?c = ?c div n * n + ?c mod n" by simp
  have cl: "?c < pitch" "?c mod n < n" using p assms(1) by simp_all
  show "(y * pitch + x * n \<le> i \<and> i < y * pitch + x * n + n) \<longleftrightarrow> i div pitch = y \<and> i mod pitch div n = x"
  proof
    assume a: "y * pitch + x * n \<le> i \<and> i < y * pitch + x * n + n"
    define d where "d = i - (y * pitch + x * n)"
    have d: "i = y * pitch + (x * n + d)" "d < n" using a unfolding d_def by linarith+
    have "x * n + d < pitch" using d(2) assms(2) by simp
    then have "i div pitch = y" "i mod pitch = x * n + d" using p by (simp_all add: d(1))
    then show "i div pitch = y \<and> i mod pitch div n = x" using d(2) assms(1) by simp
  next
    assume a: "i div pitch = y \<and> i mod pitch div n = x"
    with i c have "i = y * pitch + (x * n + ?c mod n)" by metis
    with cl(2) show "y * pitch + x * n \<le> i \<and> i < y * pitch + x * n + n" by linarith
  qed
  assume a: "i div pitch = y" "i mod pitch div n = x"
  with i c have "i = y * pitch + x * n + ?c mod n" by (metis add.assoc)
  then show "i - (y * pitch + x * n) = ?c mod n" by linarith
qed

lemma pixel_in_buffer:
  fixes pitch n x y len :: nat
  assumes "x * n + n \<le> pitch" and "(y + 1) * pitch \<le> len"
  shows "y * pitch + x * n + n \<le> len"
  using assms by simp

lemma painted_step:
  assumes "0 < n" and "x * n + n \<le> pitch" and "length s = length fb" and "y * pitch + x * n + n \<le> length fb"
    and "length (f x y) = n" and "\<forall>i < length fb. s ! i = painted pitch n P f fb i"
    and "\<And>x' y'. Q x' y' \<longleftrightarrow> P x' y' \<or> x' = x \<and> y' = y"
  shows "\<forall>i < length fb. blit s (y * pitch + x * n) (f x y) ! i = painted pitch n Q f fb i"
proof (intro allI impI)
  fix i assume i: "i < length fb"
  show "blit s (y * pitch + x * n) (f x y) ! i = painted pitch n Q f fb i"
  proof (cases "i div pitch = y \<and> i mod pitch div n = x")
    case True
    with pixel_index(1) [OF assms(1,2), of y i] pixel_index(2) [OF assms(1,2), of i y] assms(3-6) i
    show ?thesis by (simp add: nth_blit painted_def Let_def assms(7))
  next
    case False
    with pixel_index(1) [OF assms(1,2), of y i] assms(3-6) i
    show ?thesis by (auto simp: nth_blit painted_def Let_def assms(7))
  qed
qed

text \<open>The total-correctness rule of the nested loops.\<close>

lemma paint_rect:
  assumes n: "0 < n" and "x1 * n \<le> pitch" and "y1 * pitch \<le> length fb"
    and "x0 \<le> x1" and "y0 \<le> y1"
    and len: "\<And>x y. x0 \<le> x \<Longrightarrow> x < x1 \<Longrightarrow> y0 \<le> y \<Longrightarrow> y < y1 \<Longrightarrow> length (f x y) = n"
    and body: "\<And>x y s. x0 \<le> x \<Longrightarrow> x < x1 \<Longrightarrow> y0 \<le> y \<Longrightarrow> y < y1 \<Longrightarrow> length s = length fb \<Longrightarrow>
      body y x s = Ok (blit s (y * pitch + x * n) (f x y))"
  shows "\<exists>fb'. for_range y0 y1 (\<lambda>y. for_range x0 x1 (body y)) fb = Ok fb' \<and> length fb' = length fb
    \<and> (\<forall>i < length fb. fb' ! i = painted pitch n (\<lambda>x y. x0 \<le> x \<and> x < x1 \<and> y0 \<le> y \<and> y < y1) f fb i)"
proof -
  define I where "I = (\<lambda>P s. length s = length fb \<and> (\<forall>i < length fb. s ! i = painted pitch n P f fb i))"
  let ?row = "\<lambda>k x y. x0 \<le> x \<and> x < x1 \<and> y0 \<le> y \<and> y < (k :: nat)"
  let ?col = "\<lambda>k m x y. ?row k x y \<or> y = k \<and> x0 \<le> x \<and> x < (m :: nat)"
  have rng: "x * n + n \<le> pitch" "y * pitch + x * n + n \<le> length fb" if "x < x1" "y < y1" for x y
  proof -
    have "Suc x * n \<le> x1 * n" using that by (intro mult_le_mono1) simp
    then show xp: "x * n + n \<le> pitch" using assms(2) by simp
    have "Suc y * pitch \<le> y1 * pitch" using that by (intro mult_le_mono1) simp
    then show "y * pitch + x * n + n \<le> length fb" using xp assms(3) by simp
  qed
  have inner: "\<exists>s'. for_range x0 x1 (body k) s = Ok s' \<and> I (?col k x1) s'"
    if k: "y0 \<le> k" "k < y1" and s: "I (?row k) s" for k s
  proof (rule for_range_total [where I = "\<lambda>m. I (?col k m)"])
    show "x0 \<le> x1" by fact
    have "?col k x0 = ?row k" by (intro ext) auto
    with s show "I (?col k x0) s" by simp
    fix m s' assume m: "x0 \<le> m" "m < x1" "I (?col k m) s'"
    have ls: "length s' = length fb" and ps: "\<forall>i < length fb. s' ! i = painted pitch n (?col k m) f fb i"
      using m(3) by (simp_all add: I_def)
    have q: "?col k (Suc m) x y \<longleftrightarrow> ?col k m x y \<or> x = m \<and> y = k" for x y using m(1) by auto
    have "I (?col k (Suc m)) (blit s' (k * pitch + m * n) (f m k))"
      using painted_step [OF n rng(1) [OF m(2) k(2)] ls rng(2) [OF m(2) k(2)] len [OF m(1,2) k] ps q]
        ls rng(2) [OF m(2) k(2)] len [OF m(1,2) k]
      by (simp add: I_def)
    then show "\<exists>s''. body k m s' = Ok s'' \<and> I (?col k (Suc m)) s''"
      using body [OF m(1,2) k] m(3) by (simp add: I_def)
  qed
  have "\<exists>s'. for_range y0 y1 (\<lambda>y. for_range x0 x1 (body y)) fb = Ok s' \<and> I (?row y1) s'"
  proof (rule for_range_total [where I = "\<lambda>k. I (?row k)"])
    show "y0 \<le> y1" by fact
    have "?row y0 = (\<lambda>_ _. False)" by (intro ext) auto
    then show "I (?row y0) fb" by (simp add: I_def painted_def Let_def)
    fix k s assume k: "y0 \<le> k" "k < y1" "I (?row k) s"
    obtain s' where s': "for_range x0 x1 (body k) s = Ok s'" "I (?col k x1) s'" using inner k by blast
    have "I (?row (Suc k)) s'"
      using s'(2) k(1) by (auto simp: I_def painted_def Let_def less_Suc_eq)
    then show "\<exists>s'. for_range x0 x1 (body k) s = Ok s' \<and> I (?row (Suc k)) s'" using s'(1) by blast
  qed
  then show ?thesis by (auto simp: I_def)
qed

section \<open>Single pixels\<close>

lemma format_bytes_pos [simp]: "0 < format_bytes fmt"
  by (cases fmt) simp_all

lemma length_pixel_bytes [simp]: "length (pixel_bytes fmt color) = format_bytes fmt"
  by (cases fmt) simp_all

lemma format_bytes_gud: "bytes_per_pixel (gud_pixel_format fmt) = Ok (format_bytes fmt)"
  by (cases fmt) (simp_all add: bytes_per_pixel_def)

lemma pixel_offset_ok:
  "0 < n \<Longrightarrow> length fb < usize_bound \<Longrightarrow>
     pixel_offset fb pitch x y n = (if y * pitch + x * n + n \<le> length fb then Ok (y * pitch + x * n)
       else pixel_offset fb pitch x y n)"
  by (auto simp: pixel_offset_def checked_mul_usize_def checked_add_usize_def)

lemma pixel_offset_Inr:
  "pixel_offset fb pitch x y n = Inr off \<Longrightarrow> off = y * pitch + x * n \<and> off + n \<le> length fb \<and> 0 < n"
  by (auto simp: pixel_offset_def bind_eq_Some_conv split: if_splits option.splits)

lemma write_pixel_ok:
  assumes "length fb < usize_bound" and "y * pitch + x * format_bytes fmt + format_bytes fmt \<le> length fb"
  shows "write_pixel fb pitch x y fmt color
    = Ok (blit fb (y * pitch + x * format_bytes fmt) (pixel_bytes fmt color))"
  using assms pixel_offset_ok [of "format_bytes fmt" fb pitch x y]
  by (simp add: write_pixel_def copy_into_def)

lemma validate_raster_Ok:
  "validate_raster pixels pitch w h n = Ok () \<longleftrightarrow>
     0 < w \<and> 0 < h \<and> 0 < n \<and> w * n < usize_bound \<and> w * n \<le> pitch \<and> pitch * h < usize_bound
     \<and> pitch * h \<le> length pixels"
  by (auto simp: validate_raster_def checked_mul_usize_def split: if_splits)

lemma validate_raster_Inl: "validate_raster pixels pitch w h n = Inl e \<Longrightarrow> \<exists>m. e = Error m"
  by (auto simp: validate_raster_def split: option.splits if_splits)

text \<open>Filling a rectangle pixel by pixel with \<open>write_pixel\<close>.\<close>

lemma paint_pixels:
  assumes "x1 * format_bytes fmt \<le> pitch" and "y1 * pitch \<le> length fb" and "length fb < usize_bound"
    and "x0 \<le> x1" and "y0 \<le> y1"
  shows "\<exists>fb'. for_range y0 y1 (\<lambda>y. for_range x0 x1 (\<lambda>x fb. write_pixel fb pitch x y fmt (color x y))) fb = Ok fb'
    \<and> length fb' = length fb
    \<and> (\<forall>i < length fb. fb' ! i = painted pitch (format_bytes fmt) (\<lambda>x y. x0 \<le> x \<and> x < x1 \<and> y0 \<le> y \<and> y < y1)
        (\<lambda>x y. pixel_bytes fmt (color x y)) fb i)"
proof (rule paint_rect [where body = "\<lambda>y x fb. write_pixel fb pitch x y fmt (color x y)"])
  fix x y and s :: bytes
  assume a: "x0 \<le> x" "x < x1" "y0 \<le> y" "y < y1" "length s = length fb"
  have "Suc x * format_bytes fmt \<le> x1 * format_bytes fmt" "Suc y * pitch \<le> y1 * pitch"
    using a by (simp_all only: mult_le_mono1 Suc_leI)
  then show "write_pixel s pitch x y fmt (color x y)
      = Ok (blit s (y * pitch + x * format_bytes fmt) (pixel_bytes fmt (color x y)))"
    using assms a by (intro write_pixel_ok) simp_all
qed (use assms in simp_all)

lemma painted_cong:
  "(\<And>x y. P x y \<Longrightarrow> f x y = g x y) \<Longrightarrow> painted pitch n P f fb i = painted pitch n P g fb i"
  by (simp add: painted_def Let_def)

lemma fill_solid_ok:
  assumes "validate_raster fb pitch w h (format_bytes fmt) = Ok ()" and "length fb < usize_bound"
  shows "\<exists>fb'. fill_solid fb pitch w h fmt color = Ok fb' \<and> length fb' = length fb
    \<and> (\<forall>i < length fb. fb' ! i = painted pitch (format_bytes fmt) (\<lambda>x y. x < w \<and> y < h)
        (\<lambda>x y. pixel_bytes fmt color) fb i)"
  using paint_pixels [of w fmt pitch h fb 0 0 "\<lambda>_ _. color"] assms
  by (simp add: fill_solid_def) (simp add: validate_raster_Ok mult.commute)

text \<open>Black is all zero bytes in every format.\<close>

lemma pixel_bytes_black: "pixel_bytes fmt COLOR_BLACK = replicate (format_bytes fmt) 0"
  by (cases fmt) (simp_all add: COLOR_BLACK_def rgb565_of_def numeral_2_eq_2 numeral_3_eq_3 numeral_eq_Suc)

section \<open>The scaled layout\<close>

lemma scaled_layout_fits:
  assumes "compute_scaled_layout sw sh dw dh = Ok l"
  shows "0 < sl_width l \<and> 0 < sl_height l \<and> sl_x l + sl_width l \<le> unat dw \<and> sl_y l + sl_height l \<le> unat dh
    \<and> 0 < unat sw \<and> 0 < unat sh \<and> 0 < unat dw \<and> 0 < unat dh
    \<and> sl_x l = (unat dw - sl_width l) div 2 \<and> sl_y l = (unat dh - sl_height l) div 2
    \<and> (sl_width l = unat dw \<or> sl_height l = unat dh)"
proof -
  have pos: "0 < unat sw" "0 < unat sh" "0 < unat dw" "0 < unat dh"
    using assms by (auto simp: compute_scaled_layout_def word_less_nat_alt split: if_splits)
  let ?wlh = "unat dw * unat sh div unat sw"
  let ?w = "unat dh * unat sw div unat sh"
  have "?w \<le> unat dw" if "unat dh < ?wlh"
  proof -
    have "unat dh * unat sw < unat dw * unat sh"
      using that pos(1) by (metis div_le_mono leD linorder_le_less_linear nonzero_mult_div_cancel_right not_less0)
    then have "?w \<le> unat dw * unat sh div unat sh" by (intro div_le_mono) simp
    then show ?thesis using pos(2) by simp
  qed
  then show ?thesis
    using assms pos by (auto simp: compute_scaled_layout_def Let_def split: if_splits)
qed

section \<open>The scaler\<close>

lemma for_range_shift:
  "for_range (i + c) (n + c) body s = for_range i n (\<lambda>k. body (k + c)) s"
proof (induction i n "\<lambda>k. body (k + c)" s rule: for_range.induct)
  case (1 i n s)
  then show ?case
    by (cases "i < n") (auto simp: for_range_step split: sum.splits)
qed

lemma for_range_from: "for_range c (c + n) body = for_range 0 n (\<lambda>k. body (c + k))"
  using for_range_shift [of 0 c n body] by (intro ext) (simp add: add.commute)

text \<open>
  The reference for the scaler: the source pixel a destination pixel of the layout shows, by integer
  scaling of its coordinates, and the bytes of a pixel of a raster.
\<close>

definition source_pixel :: "ScaledLayout \<Rightarrow> nat \<Rightarrow> nat \<Rightarrow> nat \<Rightarrow> nat \<Rightarrow> nat \<times> nat" where
  "source_pixel l sw sh x y = ((x - sl_x l) * sw div sl_width l, (y - sl_y l) * sh div sl_height l)"

definition raster_pixel :: "bytes \<Rightarrow> usize \<Rightarrow> usize \<Rightarrow> nat \<Rightarrow> nat \<Rightarrow> bytes" where
  "raster_pixel fb pitch n x y = take n (drop (y * pitch + x * n) fb)"

definition in_layout :: "ScaledLayout \<Rightarrow> nat \<Rightarrow> nat \<Rightarrow> bool" where
  "in_layout l x y \<longleftrightarrow> sl_x l \<le> x \<and> x < sl_x l + sl_width l \<and> sl_y l \<le> y \<and> y < sl_y l + sl_height l"

lemma scaled_coordinate_less: "k < (d :: nat) \<Longrightarrow> 0 < s \<Longrightarrow> k * s div d < s"
  by (simp add: div_less_iff_less_mult mult.commute)

lemma source_pixel_in_range:
  assumes "in_layout l x y" and "0 < sw" and "0 < sh"
  shows "fst (source_pixel l sw sh x y) < sw" "snd (source_pixel l sw sh x y) < sh"
  using assms by (auto simp: in_layout_def source_pixel_def intro!: scaled_coordinate_less)

lemma raster_row_bounds:
  fixes x y w h n pitch len :: nat
  assumes "x < w" and "y < h" and "w * n \<le> pitch" and "pitch * h \<le> len"
  shows "x * n + n \<le> pitch" and "y * pitch + x * n + n \<le> len"
proof -
  have "Suc x * n \<le> w * n" using assms(1) by (intro mult_le_mono1) simp
  then show xp: "x * n + n \<le> pitch" using assms(3) by simp
  have "Suc y * pitch \<le> h * pitch" using assms(2) by (intro mult_le_mono1) simp
  then show "y * pitch + x * n + n \<le> len" using xp assms(4) by (simp add: mult.commute)
qed

lemma length_raster_pixel:
  "y * pitch + x * n + n \<le> length fb \<Longrightarrow> length (raster_pixel fb pitch n x y) = n"
  by (simp add: raster_pixel_def)

lemma scale_pixel_step:
  assumes "in_layout l x y" and "0 < unat sw" and "0 < unat sh" and "length s = length dst"
    and "unat sw * n \<le> sp" and "sp * unat sh \<le> length src"
    and "dw * n \<le> dp" and "dp * dh \<le> length dst" and "sl_x l + sl_width l \<le> dw" and "sl_y l + sl_height l \<le> dh"
  shows "scale_pixel src sp sw sh dp l n (y - sl_y l) (x - sl_x l) s
    = Ok (blit s (y * dp + x * n) (case source_pixel l (unat sw) (unat sh) x y of (a, b) \<Rightarrow> raster_pixel src sp n a b))"
proof -
  obtain a b where ab: "source_pixel l (unat sw) (unat sh) x y = (a, b)" by fastforce
  have "a < unat sw" "b < unat sh" using source_pixel_in_range [OF assms(1-3)] ab by simp_all
  from raster_row_bounds [OF this assms(5,6)] have src: "b * sp + a * n + n \<le> length src" by simp
  have "x < dw" "y < dh" using assms(1,9,10) by (auto simp: in_layout_def)
  from raster_row_bounds [OF this assms(7,8)] have dst: "y * dp + x * n + n \<le> length s" using assms(4) by simp
  have "sl_y l + (y - sl_y l) = y" "sl_x l + (x - sl_x l) = x" using assms(1) by (auto simp: in_layout_def)
  moreover have "(x - sl_x l) * unat sw div sl_width l = a" "(y - sl_y l) * unat sh div sl_height l = b"
    using ab by (simp_all add: source_pixel_def)
  ultimately show ?thesis
    using src dst by (simp add: scale_pixel_def Let_def ab slice_def copy_into_def raster_pixel_def)
qed

text \<open>What the scaled destination holds, byte by byte.\<close>

definition scaled_byte ::
  "bytes \<Rightarrow> usize \<Rightarrow> nat \<Rightarrow> nat \<Rightarrow> ScaledLayout \<Rightarrow> bytes \<Rightarrow> usize \<Rightarrow> nat \<Rightarrow> nat \<Rightarrow> usize \<Rightarrow> nat \<Rightarrow> u8" where
  "scaled_byte src sp sw sh l dst dp dw dh n i =
     (let x = i mod dp div n; y = i div dp in
      if in_layout l x y
      then (case source_pixel l sw sh x y of (a, b) \<Rightarrow> raster_pixel src sp n a b ! (i mod dp mod n))
      else if x < dw \<and> y < dh then 0 else dst ! i)"

lemma scale_loop:
  assumes "0 < unat sw" and "0 < unat sh" and n: "0 < n"
    and "unat sw * n \<le> sp" and "sp * unat sh \<le> length src"
    and "dw * n \<le> dp" and "dp * dh \<le> length dst" and "sl_x l + sl_width l \<le> dw" and "sl_y l + sl_height l \<le> dh"
  shows "\<exists>dst'. for_range 0 (sl_height l) (\<lambda>yr. for_range 0 (sl_width l) (scale_pixel src sp sw sh dp l n yr)) dst
      = Ok dst' \<and> length dst' = length dst
    \<and> (\<forall>i < length dst. dst' ! i = painted dp n (in_layout l)
        (\<lambda>x y. case source_pixel l (unat sw) (unat sh) x y of (a, b) \<Rightarrow> raster_pixel src sp n a b) dst i)"
proof -
  let ?f = "\<lambda>x y. case source_pixel l (unat sw) (unat sh) x y of (a, b) \<Rightarrow> raster_pixel src sp n a b"
  let ?body = "\<lambda>y x. scale_pixel src sp sw sh dp l n (y - sl_y l) (x - sl_x l)"
  have shift: "for_range (sl_y l) (sl_y l + sl_height l) (\<lambda>y. for_range (sl_x l) (sl_x l + sl_width l) (?body y)) dst
      = for_range 0 (sl_height l) (\<lambda>yr. for_range 0 (sl_width l) (scale_pixel src sp sw sh dp l n yr)) dst"
    by (simp add: for_range_from)
  have rect: "(\<lambda>x y. sl_x l \<le> x \<and> x < sl_x l + sl_width l \<and> sl_y l \<le> y \<and> y < sl_y l + sl_height l) = in_layout l"
    by (intro ext) (simp add: in_layout_def)
  have "(sl_x l + sl_width l) * n \<le> dp"
    using assms(6,8) mult_le_mono1 [of "sl_x l + sl_width l" dw n] by linarith
  moreover have "(sl_y l + sl_height l) * dp \<le> length dst"
    using assms(7,9) mult_le_mono1 [of "sl_y l + sl_height l" dh dp] by (metis mult.commute order_trans)
  moreover have "length (?f x y) = n" if "in_layout l x y" for x y
    using source_pixel_in_range [OF that assms(1,2)] raster_row_bounds(2) [OF _ _ assms(4,5)]
    by (auto simp: length_raster_pixel split: prod.splits)
  moreover have "?body y x s = Ok (blit s (y * dp + x * n) (?f x y))"
    if "in_layout l x y" "length s = length dst" for x y s
    by (rule scale_pixel_step [OF that(1) assms(1,2) that(2) assms(4-9)])
  ultimately show ?thesis
    using paint_rect [OF n, of "sl_x l + sl_width l" dp "sl_y l + sl_height l" dst "sl_x l" "sl_y l" ?f ?body]
    unfolding shift rect by (simp add: in_layout_def)
qed

text \<open>A blank fill followed by the scaling loop is the reference.\<close>

lemma painted_over_black:
  assumes "0 < n" and "\<forall>i < length dst. mid ! i = painted dp n (\<lambda>x y. x < dw \<and> y < dh) (\<lambda>_ _. replicate n 0) dst i"
    and "i < length dst" and "\<And>x y. in_layout l x y \<Longrightarrow> x < dw \<and> y < dh"
  shows "painted dp n (in_layout l)
      (\<lambda>x y. case source_pixel l sw sh x y of (a, b) \<Rightarrow> raster_pixel src sp n a b) mid i
    = scaled_byte src sp sw sh l dst dp dw dh n i"
  using assms by (auto simp: painted_def scaled_byte_def Let_def split: prod.splits)

section \<open>The waiting scene\<close>

text \<open>
  \<open>kept_outside R fb s\<close>: \<open>s\<close> has the length of \<open>fb\<close> and differs from it at most in pixels of \<open>R\<close>.
\<close>

definition kept_outside :: "usize \<Rightarrow> (nat \<Rightarrow> nat \<Rightarrow> bool) \<Rightarrow> bytes \<Rightarrow> bytes \<Rightarrow> bool" where
  "kept_outside pitch R fb s \<longleftrightarrow> length s = length fb
     \<and> (\<forall>i < length fb. \<not> R (i mod pitch div 2) (i div pitch) \<longrightarrow> s ! i = fb ! i)"

lemma kept_outside_refl: "kept_outside pitch R fb fb"
  by (simp add: kept_outside_def)

lemma wrap_usize_id [simp]: "n < usize_bound \<Longrightarrow> wrap_usize n = n"
  by (simp add: wrap_usize_def)

lemma write_rgb565_kept:
  assumes "kept_outside pitch R fb s" and "R x y" and "x * 2 + 2 \<le> pitch" and "y * pitch + x * 2 + 2 \<le> length fb"
    and "length fb < usize_bound"
  shows "\<exists>s'. write_rgb565_pixel pitch x y color s = Ok s' \<and> kept_outside pitch R fb s'"
proof -
  let ?off = "y * pitch + x * 2"
  let ?s = "s[?off := ucast color, ?off + 1 := ucast (drop_bit 8 color)]"
  have w: "write_rgb565_pixel pitch x y color s = Ok ?s"
    using assms by (simp add: write_rgb565_pixel_def Let_def kept_outside_def)
  have "?s ! i = s ! i" if "i < length fb" "\<not> R (i mod pitch div 2) (i div pitch)" for i
  proof -
    have "\<not> (?off \<le> i \<and> i < ?off + 2)"
      using pixel_index(1) [of 2 x pitch y i] assms(2,3) that(2) by auto
    then show ?thesis by auto
  qed
  then have "kept_outside pitch R fb ?s" using assms(1) by (simp add: kept_outside_def)
  with w show ?thesis by blast
qed

lemma fill_rgb565_kept:
  assumes "kept_outside pitch R fb s" and "(x + w) * 2 \<le> pitch" and "(y + h) * pitch \<le> length fb"
    and "length fb < usize_bound" and "pitch < usize_bound" and "0 < pitch"
    and "\<And>a b. x \<le> a \<Longrightarrow> a < x + w \<Longrightarrow> y \<le> b \<Longrightarrow> b < y + h \<Longrightarrow> R a b"
  shows "\<exists>s'. fill_rgb565_rect pitch x y w h color s = Ok s' \<and> kept_outside pitch R fb s'"
proof -
  have "y + h \<le> (y + h) * pitch" using assms(6) by (cases pitch) simp_all
  then have "y + h < usize_bound" using assms(3,4) by linarith
  then have wr: "wrap_usize (x + w) = x + w" "wrap_usize (y + h) = y + h"
    using assms(2,5) by simp_all
  show ?thesis
    unfolding fill_rgb565_rect_def wr
  proof (rule for_range_total [where I = "\<lambda>_. kept_outside pitch R fb"])
    fix b s assume b: "y \<le> b" "b < y + h" "kept_outside pitch R fb s"
    show "\<exists>s'. for_range x (x + w) (\<lambda>xx. write_rgb565_pixel pitch xx b color) s = Ok s' \<and> kept_outside pitch R fb s'"
    proof (rule for_range_total [where I = "\<lambda>_. kept_outside pitch R fb"])
      fix a s assume a: "x \<le> a" "a < x + w" "kept_outside pitch R fb s"
      have "a * 2 + 2 \<le> pitch" "b * pitch + a * 2 + 2 \<le> length fb"
        using raster_row_bounds [OF a(2) b(2) assms(2)] assms(3) by (simp_all add: mult.commute)
      then show "\<exists>s'. write_rgb565_pixel pitch a b color s = Ok s' \<and> kept_outside pitch R fb s'"
        using write_rgb565_kept [OF a(3) assms(7) [OF a(1,2) b(1,2)]] assms(4) by simp
    qed (use b in simp_all)
  qed (use assms(1) in simp_all)
qed

text \<open>\<open>in_box\<close>: the scene rectangle of the waiting screen.\<close>

definition in_box :: "nat \<Rightarrow> nat \<Rightarrow> nat \<Rightarrow> nat \<Rightarrow> nat \<Rightarrow> nat \<Rightarrow> bool" where
  "in_box x0 y0 w h x y \<longleftrightarrow> x0 \<le> x \<and> x < x0 + w \<and> y0 \<le> y \<and> y < y0 + h"

lemma glyph_kept:
  assumes "kept_outside pitch (in_box x0 y0 w0 h0) fb s"
    and "x0 \<le> x" "x + 5 * scale \<le> x0 + w0" "y0 \<le> y" "y + length rows * scale \<le> y0 + h0"
    and "(x0 + w0) * 2 \<le> pitch" "(y0 + h0) * pitch \<le> length fb" "length fb < usize_bound" "pitch < usize_bound" "0 < pitch"
  shows "\<exists>s'. render_bitmap_glyph pitch x y scale rows color s = Ok s' \<and> kept_outside pitch (in_box x0 y0 w0 h0) fb s'"
  unfolding render_bitmap_glyph_def
proof (rule for_range_total [where I = "\<lambda>_. kept_outside pitch (in_box x0 y0 w0 h0) fb"])
  fix r and s :: bytes assume r: "0 \<le> r" "r < length rows" "kept_outside pitch (in_box x0 y0 w0 h0) fb s"
  let ?body = "\<lambda>col_idx fb. if (rows ! r) AND push_bit (5 - 1 - col_idx) 1 = 0 then Ok fb
       else fill_rgb565_rect pitch (wrap_usize (x + col_idx * scale)) (wrap_usize (y + r * scale)) scale scale color fb"
  show "\<exists>s'. for_range 0 5 ?body s = Ok s' \<and> kept_outside pitch (in_box x0 y0 w0 h0) fb s'"
  proof (rule for_range_total [where I = "\<lambda>_. kept_outside pitch (in_box x0 y0 w0 h0) fb"])
    fix c :: nat and s assume c: "0 \<le> c" "c < 5" "kept_outside pitch (in_box x0 y0 w0 h0) fb s"
    have "Suc c * scale \<le> 5 * scale" "Suc r * scale \<le> length rows * scale"
      using c r by (simp_all only: mult_le_mono1 Suc_leI)
    then have xe: "x + c * scale + scale \<le> x0 + w0" and ye: "y + r * scale + scale \<le> y0 + h0"
      using assms(3,5) unfolding mult_Suc by linarith+
    have xb: "(x + c * scale + scale) * 2 \<le> pitch" using xe assms(6) by simp
    have "(y + r * scale + scale) * pitch \<le> (y0 + h0) * pitch" using ye by (rule mult_le_mono1)
    then have yb: "(y + r * scale + scale) * pitch \<le> length fb" using assms(7) by linarith
    have "y + r * scale + scale \<le> (y + r * scale + scale) * pitch"
      using assms(10) by (cases pitch) simp_all
    then have "y + r * scale < usize_bound" using yb assms(8) by linarith
    then have wr: "wrap_usize (x + c * scale) = x + c * scale" "wrap_usize (y + r * scale) = y + r * scale"
      using xb assms(9) by simp_all
    have "\<exists>s'. fill_rgb565_rect pitch (x + c * scale) (y + r * scale) scale scale color s = Ok s'
        \<and> kept_outside pitch (in_box x0 y0 w0 h0) fb s'"
      by (rule fill_rgb565_kept [OF c(3) xb yb assms(8-10)]) (use assms(2,4) xe ye in \<open>simp add: in_box_def\<close>)
    then show "\<exists>s'. ?body c s = Ok s' \<and> kept_outside pitch (in_box x0 y0 w0 h0) fb s'"
      using c(3) by (simp add: wr)
  qed (use r in simp_all)
qed (use assms(1) in simp_all)

lemma waiting_lines:
  "length WAITING_SCREEN_LINES = 5" "max_cols = 28" "scene_width_units = 167" "scene_height_units = 39"
  "find_sub WAITING_HIGHLIGHT_TEXT (WAITING_SCREEN_LINES ! 1) = Some 17"
  by (simp_all add: max_cols_def scene_width_units_def scene_height_units_def WAITING_SCREEN_LINES_def
      WAITING_HIGHLIGHT_TEXT_def)

lemma waiting_glyphs:
  "list_all (\<lambda>line. length line \<le> 28 \<and>
     list_all (\<lambda>ch. case waiting_scene_glyph ch of None \<Rightarrow> False | Some rows \<Rightarrow> length rows = 7) line)
   WAITING_SCREEN_LINES"
  by (simp add: WAITING_SCREEN_LINES_def waiting_scene_glyph_def)

lemma waiting_glyph_at:
  assumes "a < 5" and "b < length (WAITING_SCREEN_LINES ! a)"
  shows "b < 28 \<and> (\<exists>rows. waiting_scene_glyph (WAITING_SCREEN_LINES ! a ! b) = Some rows \<and> length rows = 7)"
proof -
  have "WAITING_SCREEN_LINES ! a \<in> set WAITING_SCREEN_LINES" using assms(1) by (simp add: waiting_lines)
  with waiting_glyphs have l: "length (WAITING_SCREEN_LINES ! a) \<le> 28"
    "list_all (\<lambda>ch. case waiting_scene_glyph ch of None \<Rightarrow> False | Some rows \<Rightarrow> length rows = 7) (WAITING_SCREEN_LINES ! a)"
    by (simp_all add: list_all_iff)
  then have "case waiting_scene_glyph (WAITING_SCREEN_LINES ! a ! b) of None \<Rightarrow> False | Some rows \<Rightarrow> length rows = 7"
    using assms(2) by (simp add: list_all_iff)
  then show ?thesis using l(1) assms(2) by (auto split: option.splits)
qed

lemma scene_kept:
  assumes "kept_outside pitch (in_box x0 y0 (167 * scale) (39 * scale)) fb s"
    and "(x0 + 167 * scale) * 2 \<le> pitch" "(y0 + 39 * scale) * pitch \<le> length fb"
    and "length fb < usize_bound" "pitch < usize_bound" "0 < pitch"
  shows "\<exists>s'. render_scene pitch scale x0 y0 ws s = Ok s'
    \<and> kept_outside pitch (in_box x0 y0 (167 * scale) (39 * scale)) fb s'"
  unfolding render_scene_def Let_def waiting_lines
proof (rule for_range_total [where I = "\<lambda>_. kept_outside pitch (in_box x0 y0 (167 * scale) (39 * scale)) fb"])
  fix a :: nat and s assume a: "0 \<le> a" "a < 5" "kept_outside pitch (in_box x0 y0 (167 * scale) (39 * scale)) fb s"
  have "y0 + 39 * scale \<le> (y0 + 39 * scale) * pitch" using assms(6) by (cases pitch) simp_all
  then have yb: "y0 + 39 * scale < usize_bound" using assms(3,4) by linarith
  have "8 * a * scale \<le> 32 * scale" using a(2) by simp
  then have ya: "y0 + a * (7 + 1) * scale + 7 * scale \<le> y0 + 39 * scale" by simp
  let ?y = "wrap_usize (y0 + a * (7 + 1) * scale)"
  have "y0 + a * (7 + 1) * scale < usize_bound" using ya yb by linarith
  then have y: "?y = y0 + a * (7 + 1) * scale" by (rule wrap_usize_id)
  let ?glyph = "\<lambda>b. render_bitmap_glyph pitch (wrap_usize (x0 + b * (5 + 1) * scale)) ?y scale"
  let ?I = "kept_outside pitch (in_box x0 y0 (167 * scale) (39 * scale)) fb"
  have glyph: "\<exists>s'. ?glyph b rows color s = Ok s' \<and> ?I s'" if "b < 28" "length rows = 7" "?I s" for b rows color s
  proof -
    have "6 * b * scale \<le> 162 * scale" using that(1) by simp
    then have xa: "x0 + b * (5 + 1) * scale + 5 * scale \<le> x0 + 167 * scale" by simp
    then have "x0 + b * (5 + 1) * scale \<le> x0 + 167 * scale" by linarith
    moreover have "x0 + 167 * scale \<le> (x0 + 167 * scale) * 2" by simp
    ultimately have "x0 + b * (5 + 1) * scale < usize_bound" using assms(2,5) by linarith
    then have x: "wrap_usize (x0 + b * (5 + 1) * scale) = x0 + b * (5 + 1) * scale" by (rule wrap_usize_id)
    show ?thesis
      unfolding x y by (rule glyph_kept [OF that(3) _ xa _ _ assms(2-6)]) (use that(2) ya in simp_all)
  qed
  show "\<exists>s'. for_range 0 (length (WAITING_SCREEN_LINES ! a)) (\<lambda>b fb.
      if WAITING_SCREEN_LINES ! a ! b = CHR '' '' then Ok fb
      else case waiting_scene_glyph (WAITING_SCREEN_LINES ! a ! b) of
          None \<Rightarrow> Err ''unsupported waiting-scene glyph''
        | Some glyph \<Rightarrow> ?glyph b glyph (if a = 1 \<and> ws \<le> b \<and> b < ws + length WAITING_HIGHLIGHT_TEXT
            then RGB565_GREEN else RGB565_WHITE) fb) s = Ok s' \<and> ?I s'"
  proof (rule for_range_total [where I = "\<lambda>_. ?I"])
    fix b s assume b: "0 \<le> b" "b < length (WAITING_SCREEN_LINES ! a)" "?I s"
    obtain rows where "b < 28" "waiting_scene_glyph (WAITING_SCREEN_LINES ! a ! b) = Some rows" "length rows = 7"
      using waiting_glyph_at [OF a(2) b(2)] by blast
    then show "\<exists>s'. (if WAITING_SCREEN_LINES ! a ! b = CHR '' '' then Ok s
      else case waiting_scene_glyph (WAITING_SCREEN_LINES ! a ! b) of
          None \<Rightarrow> Err ''unsupported waiting-scene glyph''
        | Some glyph \<Rightarrow> ?glyph b glyph (if a = 1 \<and> ws \<le> b \<and> b < ws + length WAITING_HIGHLIGHT_TEXT
            then RGB565_GREEN else RGB565_WHITE) s) = Ok s' \<and> ?I s'"
      using glyph b(3) by auto
  qed (use a in simp_all)
qed (use assms(1) in simp_all)

text \<open>The scale is the largest that fits, so the centred scene lies within the screen.\<close>

lemma scene_fits:
  assumes "167 \<le> w" and "39 \<le> h"
  shows "167 * scene_scale w h \<le> w" and "39 * scene_scale w h \<le> h"
proof -
  have "scene_scale w h = min (w div 167) (h div 39)"
  proof -
    have "1 \<le> w div 167" "1 \<le> h div 39" using assms by (simp_all add: less_eq_div_iff_mult_less_eq)
    then show ?thesis by (simp add: scene_scale_def waiting_lines)
  qed
  then have "scene_scale w h \<le> w div 167" "scene_scale w h \<le> h div 39" by simp_all
  then show "167 * scene_scale w h \<le> w" "39 * scene_scale w h \<le> h"
    by (simp_all add: less_eq_div_iff_mult_less_eq mult.commute)
qed

lemma render_waiting_small:
  assumes "validate_raster fb pitch (unat w) (unat h) 2 = Ok ()" and "length fb < usize_bound"
    and "unat w < 167 \<or> unat h < 39"
  shows "panics (render_waiting_screen True fb pitch w h Rgb565)"
proof -
  obtain fb' where "fill_solid fb pitch (unat w) (unat h) Rgb565 COLOR_BLACK = Ok fb'"
    using fill_solid_ok [of fb pitch "unat w" "unat h" Rgb565 COLOR_BLACK] assms(1,2) by auto
  moreover have "scene_scale (unat w) (unat h) = 1"
    using assms(3) by (auto simp: scene_scale_def waiting_lines min_def)
  ultimately show ?thesis
    using assms(3) by (auto simp: render_waiting_screen_def sub_usize_def waiting_lines Let_def)
qed

section \<open>Colours read back\<close>

text \<open>RGB565 keeps the five, six and five high bits and fills the low bits from the high ones.\<close>

fun stored_color :: "TransferFormat \<Rightarrow> RgbColor \<Rightarrow> RgbColor" where
  "stored_color Rgb565 c = rgb (push_bit 3 (drop_bit 3 (col_r c)) OR drop_bit 5 (col_r c))
     (push_bit 2 (drop_bit 2 (col_g c)) OR drop_bit 6 (col_g c))
     (push_bit 3 (drop_bit 3 (col_b c)) OR drop_bit 5 (col_b c))"
| "stored_color fmt c = c"

lemma and_low_bits: "w AND 0x1f = take_bit 5 w" "w AND 0x3f = take_bit 6 w" for w :: u16
  by (simp_all add: take_bit_eq_mask mask_eq_exp_minus_1)

lemma rgb565_channels:
  fixes r g b :: u8
  defines "p \<equiv> push_bit 11 (drop_bit 3 (ucast r)) OR push_bit 5 (drop_bit 2 (ucast g)) OR drop_bit 3 (ucast b) :: u16"
  shows "ucast (take_bit 5 (drop_bit 11 p)) = drop_bit 3 r" "ucast (take_bit 6 (drop_bit 5 p)) = drop_bit 2 g"
    "ucast (take_bit 5 p) = drop_bit 3 b"
  unfolding p_def
  by (rule bit_word_eqI, auto simp: bit_simps dest: bit_imp_le_length)+

lemma rgb565_color_of: "rgb565_color (rgb565_of c) = stored_color Rgb565 c"
  unfolding rgb565_color_def rgb565_of_def and_low_bits rgb565_channels by simp

lemma pixel_color_bytes:
  assumes "off + format_bytes fmt \<le> length fb"
  shows "read_pixel (blit fb off (pixel_bytes fmt c)) pitch x y fmt =
    (case pixel_offset (blit fb off (pixel_bytes fmt c)) pitch x y (format_bytes fmt) of
       Inl e \<Rightarrow> Inl e
     | Inr o' \<Rightarrow> if o' = off then Ok (stored_color fmt c) else read_pixel (blit fb off (pixel_bytes fmt c)) pitch x y fmt)"
proof -
  have nth: "blit fb off (pixel_bytes fmt c) ! (off + k) = pixel_bytes fmt c ! k" if "k < format_bytes fmt" for k
    using assms that by (simp add: nth_blit)
  have le: "from_le_bytes [pixel_bytes Rgb565 c ! 0, pixel_bytes Rgb565 c ! 1] = rgb565_of c"
    using from_to_le_bytes_id [of 2 "rgb565_of c"] by (simp add: numeral_2_eq_2)
  show ?thesis
    using nth [of 0] nth [of 1] nth [of 2] le
    by (cases fmt) (auto simp: read_pixel_def rgb565_color_of split: sum.splits)
qed

text \<open>Pixels with different coordinates do not overlap.\<close>

lemma pixels_apart:
  fixes n :: nat
  assumes "0 < n" and "x * n + n \<le> pitch" and "x' * n + n \<le> pitch" and "(x', y') \<noteq> (x, y)" and "k < n"
  shows "y' * pitch + x' * n + k < y * pitch + x * n \<or> y * pitch + x * n + n \<le> y' * pitch + x' * n + k"
  using pixel_index(1) [OF assms(1,2), of y "y' * pitch + x' * n + k"]
    pixel_index(1) [OF assms(1,3), of y' "y' * pitch + x' * n + k"] assms(4,5)
  by auto

section \<open>Properties\<close>



text \<open>A written pixel reads back: after a successful write the buffer has the same length, reading the
  same pixel gives the colour (for RGB565 its five, six and five high bits with the low bits filled from
  the high ones, exact for black and white), and every other pixel of the raster keeps its bytes.\<close>

theorem pixel_write_read:
  assumes "length fb < usize_bound" and "x * format_bytes fmt + format_bytes fmt \<le> pitch"
    and "write_pixel fb pitch x y fmt color = Ok fb'"
  shows "length fb' = length fb \<and> read_pixel fb' pitch x y fmt = Ok (stored_color fmt color)
    \<and> stored_color fmt COLOR_BLACK = COLOR_BLACK \<and> stored_color fmt COLOR_WHITE = COLOR_WHITE
    \<and> (\<forall>x' y'. (x', y') \<noteq> (x, y) \<and> x' * format_bytes fmt + format_bytes fmt \<le> pitch
        \<and> y' * pitch + x' * format_bytes fmt + format_bytes fmt \<le> length fb \<longrightarrow>
        raster_pixel fb' pitch (format_bytes fmt) x' y' = raster_pixel fb pitch (format_bytes fmt) x' y')"
proof -
  let ?n = "format_bytes fmt" and ?off = "y * pitch + x * format_bytes fmt"
  have off: "?off + ?n \<le> length fb" and fb': "fb' = blit fb ?off (pixel_bytes fmt color)"
    using assms(3) by (auto simp: write_pixel_def dest!: pixel_offset_Inr split: sum.splits)
  have len: "length fb' = length fb" using off by (simp add: fb')
  have "pixel_offset fb' pitch x y ?n = Ok ?off"
    using pixel_offset_ok [of ?n fb' pitch x y] assms(1) off len by simp
  then have rd: "read_pixel fb' pitch x y fmt = Ok (stored_color fmt color)"
    using pixel_color_bytes [OF off, of color pitch x y] by (simp add: fb')
  have "raster_pixel fb' pitch ?n x' y' = raster_pixel fb pitch ?n x' y'"
    if "(x', y') \<noteq> (x, y)" "x' * ?n + ?n \<le> pitch" "y' * pitch + x' * ?n + ?n \<le> length fb" for x' y'
  proof (rule nth_equalityI)
    fix k assume "k < length (raster_pixel fb' pitch ?n x' y')"
    then have k: "k < ?n" using that(3) len by (simp add: raster_pixel_def)
    have "fb' ! (y' * pitch + x' * ?n + k) = fb ! (y' * pitch + x' * ?n + k)"
      unfolding fb' by (rule nth_blit_out)
        (use pixels_apart [OF format_bytes_pos assms(2) that(2,1) k] off that(3) k in simp_all)
    then show "raster_pixel fb' pitch ?n x' y' ! k = raster_pixel fb pitch ?n x' y' ! k"
      using k that(3) len by (simp add: raster_pixel_def)
  qed (use that(3) len in \<open>simp add: raster_pixel_def\<close>)
  moreover have "stored_color fmt COLOR_BLACK = COLOR_BLACK" "stored_color fmt COLOR_WHITE = COLOR_WHITE"
    by (cases fmt; simp add: COLOR_BLACK_def COLOR_WHITE_def)+
  ultimately show ?thesis using len rd by simp
qed

theorem pixel_write_read_witness:
  "\<exists>fb'. write_pixel (replicate 8 0) 4 1 1 Rgb565 (rgb 255 166 0) = Ok fb'
     \<and> read_pixel fb' 4 1 1 Rgb565 = Ok (rgb 255 166 0)"
proof -
  obtain fb' where w: "write_pixel (replicate 8 0) 4 1 1 Rgb565 (rgb 255 166 0) = Ok fb'"
    using write_pixel_ok [of "replicate 8 0" 1 4 1 Rgb565 "rgb 255 166 0"] by (simp add: usize_bound_def)
  then show ?thesis
    using pixel_write_read [OF _ _ w] by (simp add: usize_bound_def)
qed

text \<open>The diagnostic pattern is drawn exactly in its rectangle: the call never panics, fails exactly
  when the rectangle leaves the framebuffer (32-bit overflow of its extent included) or the raster is
  invalid, and otherwise every pixel of the rectangle has the pattern's colour and every other byte is
  unchanged.\<close>

theorem diagnostic_rect_exact:
  assumes "length fb < usize_bound"
  shows "if unat rx + unat rw \<le> unat w \<and> unat ry + unat rh \<le> unat h
       \<and> is_ok (validate_raster fb pitch (unat w) (unat h) (format_bytes fmt))
    then \<exists>fb'. fill_diagnostic_pattern_rect fb pitch w h rx ry rw rh fmt = Ok fb' \<and> length fb' = length fb
      \<and> (\<forall>i < length fb. fb' ! i =
          (let x = i mod pitch div format_bytes fmt; y = i div pitch in
           if unat rx \<le> x \<and> x < unat rx + unat rw \<and> unat ry \<le> y \<and> y < unat ry + unat rh
           then pixel_bytes fmt (diagnostic_pattern_color x y (unat w) (unat h)) ! (i mod pitch mod format_bytes fmt)
           else fb ! i))
    else \<exists>m. fill_diagnostic_pattern_rect fb pitch w h rx ry rw rh fmt = Err m"
proof (cases "unat rx + unat rw \<le> unat w \<and> unat ry + unat rh \<le> unat h
    \<and> is_ok (validate_raster fb pitch (unat w) (unat h) (format_bytes fmt))")
  case True
  then have v: "validate_raster fb pitch (unat w) (unat h) (format_bytes fmt) = Ok ()"
    by (simp add: is_ok_iff)
  have ext: "checked_add rx rw = Some (rx + rw)" "rx + rw \<le> w" "checked_add ry rh = Some (ry + rh)" "ry + rh \<le> h"
      "rx \<le> w" "ry \<le> h"
    using True unat_u32_bound [of w] unat_u32_bound [of h]
    by (auto simp: checked_add_def word_le_nat_alt unat_word_ariths)
  have "(unat rx + unat rw) * format_bytes fmt \<le> unat w * format_bytes fmt"
      "(unat ry + unat rh) * pitch \<le> unat h * pitch" using True by (simp_all only: mult_le_mono1)
  with v have "(unat rx + unat rw) * format_bytes fmt \<le> pitch" "(unat ry + unat rh) * pitch \<le> length fb"
    unfolding validate_raster_Ok by (auto simp only: mult.commute [of _ pitch])
  then show ?thesis
    using True v ext paint_pixels [of "unat rx + unat rw" fmt pitch "unat ry + unat rh" fb "unat rx" "unat ry"
        "\<lambda>x y. diagnostic_pattern_color x y (unat w) (unat h)"] assms
    by (simp add: fill_diagnostic_pattern_rect_def painted_def Let_def)
next
  case False
  have "\<exists>m. fill_diagnostic_pattern_rect fb pitch w h rx ry rw rh fmt = Err m"
    using False checked_add_SomeD [of rx rw] checked_add_SomeD [of ry rh]
    by (auto simp: fill_diagnostic_pattern_rect_def word_le_nat_alt is_ok_iff
        dest: validate_raster_Inl split: option.splits sum.splits)
  then show ?thesis by (subst if_not_P [OF False])
qed

theorem diagnostic_rect_exact_witness:
  "is_ok (fill_diagnostic_pattern_rect (replicate 16 0) 8 4 2 1 1 2 1 Rgb565)"
proof -
  have "is_ok (validate_raster (replicate 16 (0 :: u8)) 8 4 2 2)"
    by (simp add: validate_raster_def checked_mul_usize_def usize_bound_def)
  then show ?thesis
    using diagnostic_rect_exact [where fb = "replicate 16 0" and rx = 1 and rw = 2 and w = 4 and ry = 1 and rh = 1
        and h = 2 and pitch = 8 and fmt = Rgb565]
    by (auto simp: usize_bound_def)
qed

text \<open>C29. On every display of at least 167 by 39 pixels with a valid raster the waiting screen is drawn
  without error or panic in both build profiles; the centred scene lies within the screen, everything
  around it is black, and bytes outside the visible raster are unchanged.\<close>

theorem waiting_screen_drawn:
  assumes "is_ok (validate_raster fb pitch (unat w) (unat h) (format_bytes fmt))" and "length fb < usize_bound"
    and "167 \<le> unat w" and "39 \<le> unat h"
  shows "\<exists>fb'. render_waiting_screen overflow_checks fb pitch w h fmt = Ok fb' \<and> length fb' = length fb
    \<and> (let s = scene_scale (unat w) (unat h); x0 = (unat w - 167 * s) div 2; y0 = (unat h - 39 * s) div 2 in
       x0 + 167 * s \<le> unat w \<and> y0 + 39 * s \<le> unat h
       \<and> (\<forall>i < length fb. let x = i mod pitch div format_bytes fmt; y = i div pitch in
           \<not> in_box x0 y0 (167 * s) (39 * s) x y \<longrightarrow>
           fb' ! i = (if x < unat w \<and> y < unat h then 0 else fb ! i)))"
proof -
  let ?s = "scene_scale (unat w) (unat h)"
  let ?x0 = "(unat w - 167 * ?s) div 2" and ?y0 = "(unat h - 39 * ?s) div 2"
  have v: "validate_raster fb pitch (unat w) (unat h) (format_bytes fmt) = Ok ()"
    using assms(1) by (simp add: is_ok_iff)
  note fits = scene_fits [OF assms(3,4)]
  then have box: "?x0 + 167 * ?s \<le> unat w" "?y0 + 39 * ?s \<le> unat h" by linarith+
  obtain mid where mid: "fill_solid fb pitch (unat w) (unat h) fmt COLOR_BLACK = Ok mid" "length mid = length fb"
      "\<forall>i < length fb. mid ! i = painted pitch (format_bytes fmt) (\<lambda>x y. x < unat w \<and> y < unat h)
        (\<lambda>_ _. replicate (format_bytes fmt) 0) fb i"
    using fill_solid_ok [OF v assms(2), of COLOR_BLACK] by (auto simp: pixel_bytes_black)
  have black: "mid ! i = (if i mod pitch div format_bytes fmt < unat w \<and> i div pitch < unat h then 0 else fb ! i)"
    if "i < length fb" for i using mid(3) that by (simp add: painted_def Let_def)
  show ?thesis
  proof (cases "fmt = Rgb565")
    case False
    then show ?thesis using mid black box by (simp add: render_waiting_screen_def Let_def)
  next
    case True
    with v have r: "unat w * 2 \<le> pitch" "pitch * unat h \<le> length fb" "0 < pitch"
      using assms(3) by (auto simp: validate_raster_Ok)
    have "(?x0 + 167 * ?s) * 2 \<le> pitch" using box(1) r(1) by simp
    moreover have "(?y0 + 39 * ?s) * pitch \<le> length mid"
      using mult_le_mono1 [OF box(2), of pitch] r(2) mid(2) unfolding mid(2) mult.commute [of pitch] by linarith
    moreover have "pitch < usize_bound"
    proof -
      have "pitch * 1 \<le> pitch * unat h" using assms(4) by (intro mult_le_mono2) simp
      then show ?thesis using r(2) assms(2) by linarith
    qed
    ultimately obtain fb' where fb': "render_scene pitch ?s ?x0 ?y0 17 mid = Ok fb'"
        "kept_outside pitch (in_box ?x0 ?y0 (167 * ?s) (39 * ?s)) mid fb'"
      using scene_kept [OF kept_outside_refl, of ?x0 ?s pitch ?y0 mid 17] assms(2) r(3) mid(2) by auto
    have "find_sub WAITING_HIGHLIGHT_TEXT (WAITING_SCREEN_LINES ! Suc 0) = Some 17"
      using waiting_lines(5) by simp
    then have "render_waiting_screen overflow_checks fb pitch w h fmt = Ok fb'"
      using True mid(1) fits fb'(1) by (simp add: render_waiting_screen_def waiting_lines(1-4) sub_usize_def Let_def)
    then show ?thesis using True fb'(2) mid(2) black box by (simp add: kept_outside_def Let_def)
  qed
qed

theorem waiting_screen_drawn_witness:
  "is_ok (render_waiting_screen True (replicate 320000 0) 800 400 400 Rgb565)"
proof -
  have "is_ok (validate_raster (replicate 320000 (0 :: u8)) 800 400 400 2)"
    by (simp add: validate_raster_def checked_mul_usize_def usize_bound_def)
  then show ?thesis
    using waiting_screen_drawn [of "replicate 320000 0" 800 400 400 Rgb565 True]
    by (auto simp: usize_bound_def)
qed

end
