(* ===== verification/Drm_Scanout.thy ===== *)
theory Drm_Scanout
  imports Drm_Modes Drm_Raster
begin

text \<open>
  Scanout resources of the display service (\<^verbatim>\<open>drm/src/scanout.rs\<close>): the backend interface, double-buffered
  scanout allocations and the dedicated waiting scanout.

  \<^item> The trait \<open>ScanoutBackend\<close> is a record of operations over a device state \<open>'b\<close>; its contract is the
    locale \<open>scanout_backend\<close>. A mapping is the buffer's memory, read with \<open>be_load\<close> and written with
    \<open>be_store\<close>; dropping it only counts an unmap.
  \<^item> The shared counters travel with the device state. Counters and byte totals are natural numbers;
    the additions the source checks are checked.
  \<^item> \<open>context\<close> only adds text to an error, so errors pass through unchanged; an error list stands for
    the messages a cleanup collects.
\<close>

section \<open>The backend\<close>

record ('b, 'buf, 'fb, 'm) backend =
  be_mode_size :: "'m \<Rightarrow> u32 \<times> u32"
  be_create_buffer :: "u32 \<Rightarrow> u32 \<Rightarrow> 'b \<Rightarrow> 'buf result \<times> 'b"
  be_buffer_pitch :: "'buf \<Rightarrow> u32"
  be_add_framebuffer :: "'buf \<Rightarrow> 'b \<Rightarrow> 'fb result \<times> 'b"
  be_map_buffer :: "'buf \<Rightarrow> 'b \<Rightarrow> unit result \<times> 'b"
  be_load :: "'buf \<Rightarrow> 'b \<Rightarrow> bytes"
  be_store :: "'buf \<Rightarrow> bytes \<Rightarrow> 'b \<Rightarrow> 'b"
  be_remove_framebuffer :: "'fb \<Rightarrow> 'b \<Rightarrow> unit result \<times> 'b"
  be_destroy_buffer :: "'buf \<Rightarrow> 'b \<Rightarrow> unit result \<times> 'b"
  be_dirty_framebuffer :: "'fb \<Rightarrow> u16 \<Rightarrow> u16 \<Rightarrow> u16 \<Rightarrow> u16 \<Rightarrow> 'b \<Rightarrow> unit result \<times> 'b"
  be_set_crtc :: "'fb \<Rightarrow> 'm \<Rightarrow> 'b \<Rightarrow> unit result \<times> 'b"
  be_page_flip :: "'fb \<Rightarrow> 'b \<Rightarrow> unit result \<times> 'b"

text \<open>
  The backend on a DRM card: the calls of the DRM crate are the fields of \<open>drm_card\<close>, over a kernel state.
\<close>

datatype DrmFourcc = FourccRgb565 | FourccRgb888 | FourccXrgb8888

fun drm_fourcc :: "TransferFormat \<Rightarrow> DrmFourcc" where
  "drm_fourcc Rgb565 = FourccRgb565"
| "drm_fourcc Rgb888 = FourccRgb888"
| "drm_fourcc Xrgb8888 = FourccXrgb8888"

record ('k, 'buf, 'fb, 'm, 'crtc, 'conn) drm_card =
  card_mode_size :: "'m \<Rightarrow> u16 \<times> u16"
  card_create_dumb_buffer :: "u32 \<times> u32 \<Rightarrow> DrmFourcc \<Rightarrow> u32 \<Rightarrow> 'k \<Rightarrow> 'buf result \<times> 'k"
  card_pitch :: "'buf \<Rightarrow> u32"
  card_add_framebuffer :: "'buf \<Rightarrow> u32 \<Rightarrow> u32 \<Rightarrow> 'k \<Rightarrow> 'fb result \<times> 'k"
  card_map_dumb_buffer :: "'buf \<Rightarrow> 'k \<Rightarrow> unit result \<times> 'k"
  card_load :: "'buf \<Rightarrow> 'k \<Rightarrow> bytes"
  card_store :: "'buf \<Rightarrow> bytes \<Rightarrow> 'k \<Rightarrow> 'k"
  card_destroy_framebuffer :: "'fb \<Rightarrow> 'k \<Rightarrow> unit result \<times> 'k"
  card_destroy_dumb_buffer :: "'buf \<Rightarrow> 'k \<Rightarrow> unit result \<times> 'k"
  card_dirty_framebuffer :: "'fb \<Rightarrow> (u16 \<times> u16 \<times> u16 \<times> u16) list \<Rightarrow> 'k \<Rightarrow> unit result \<times> 'k"
  card_set_crtc :: "'crtc \<Rightarrow> 'fb option \<Rightarrow> u32 \<times> u32 \<Rightarrow> 'conn list \<Rightarrow> 'm option \<Rightarrow> 'k \<Rightarrow> unit result \<times> 'k"
  card_page_flip :: "'crtc \<Rightarrow> 'fb \<Rightarrow> 'k \<Rightarrow> unit result \<times> 'k"

definition drm_backend ::
  "('k, 'buf, 'fb, 'm, 'crtc, 'conn) drm_card \<Rightarrow> 'crtc \<Rightarrow> 'conn \<Rightarrow> TransferFormat \<Rightarrow> ('k, 'buf, 'fb, 'm) backend" where
  "drm_backend dri crtc connector format =
     \<lparr> be_mode_size = (\<lambda>mode. (ucast (fst (card_mode_size dri mode)), ucast (snd (card_mode_size dri mode)))),
       be_create_buffer = (\<lambda>width height. card_create_dumb_buffer dri (width, height) (drm_fourcc format) (bpp format)),
       be_buffer_pitch = card_pitch dri,
       be_add_framebuffer = (\<lambda>buf. card_add_framebuffer dri buf (depth format) (bpp format)),
       be_map_buffer = card_map_dumb_buffer dri,
       be_load = card_load dri,
       be_store = card_store dri,
       be_remove_framebuffer = card_destroy_framebuffer dri,
       be_destroy_buffer = card_destroy_dumb_buffer dri,
       be_dirty_framebuffer = (\<lambda>fb x1 y1 x2 y2. card_dirty_framebuffer dri fb [(x1, y1, x2, y2)]),
       be_set_crtc = (\<lambda>fb mode. card_set_crtc dri crtc (Some fb) (0, 0) [connector] (Some mode)),
       be_page_flip = card_page_flip dri crtc \<rparr>"

record ScanoutCounterSnapshot =
  sc_allocations :: nat
  sc_releases :: nat
  sc_framebuffer_removes :: nat
  sc_dumb_buffer_destroys :: nat
  sc_maps :: nat
  sc_unmaps :: nat
  sc_switches :: nat
  sc_no_ops :: nat
  sc_fallbacks :: nat
  sc_framebuffer_allocations :: nat
  sc_modeset_commits :: nat
  sc_route_changes :: nat
  sc_same_mode_noops :: nat

definition default_counters :: ScanoutCounterSnapshot where
  "default_counters = \<lparr> sc_allocations = 0, sc_releases = 0, sc_framebuffer_removes = 0, sc_dumb_buffer_destroys = 0,
     sc_maps = 0, sc_unmaps = 0, sc_switches = 0, sc_no_ops = 0, sc_fallbacks = 0, sc_framebuffer_allocations = 0,
     sc_modeset_commits = 0, sc_route_changes = 0, sc_same_mode_noops = 0 \<rparr>"

type_synonym 'b dev = "'b \<times> ScanoutCounterSnapshot"

definition count_allocation :: "ScanoutCounterSnapshot \<Rightarrow> ScanoutCounterSnapshot" where
  "count_allocation c = c\<lparr> sc_allocations := sc_allocations c + 1 \<rparr>"
definition count_framebuffer_allocation :: "ScanoutCounterSnapshot \<Rightarrow> ScanoutCounterSnapshot" where
  "count_framebuffer_allocation c = c\<lparr> sc_framebuffer_allocations := sc_framebuffer_allocations c + 1 \<rparr>"
definition count_release :: "ScanoutCounterSnapshot \<Rightarrow> ScanoutCounterSnapshot" where
  "count_release c = c\<lparr> sc_releases := sc_releases c + 1 \<rparr>"
definition count_framebuffer_remove :: "ScanoutCounterSnapshot \<Rightarrow> ScanoutCounterSnapshot" where
  "count_framebuffer_remove c = c\<lparr> sc_framebuffer_removes := sc_framebuffer_removes c + 1 \<rparr>"
definition count_dumb_buffer_destroy :: "ScanoutCounterSnapshot \<Rightarrow> ScanoutCounterSnapshot" where
  "count_dumb_buffer_destroy c = c\<lparr> sc_dumb_buffer_destroys := sc_dumb_buffer_destroys c + 1 \<rparr>"
definition count_map :: "ScanoutCounterSnapshot \<Rightarrow> ScanoutCounterSnapshot" where
  "count_map c = c\<lparr> sc_maps := sc_maps c + 1 \<rparr>"
definition count_unmap :: "ScanoutCounterSnapshot \<Rightarrow> ScanoutCounterSnapshot" where
  "count_unmap c = c\<lparr> sc_unmaps := sc_unmaps c + 1 \<rparr>"
definition count_switched :: "ScanoutCounterSnapshot \<Rightarrow> ScanoutCounterSnapshot" where
  "count_switched c = c\<lparr> sc_switches := sc_switches c + 1, sc_modeset_commits := sc_modeset_commits c + 1 \<rparr>"
definition count_no_op :: "ScanoutCounterSnapshot \<Rightarrow> ScanoutCounterSnapshot" where
  "count_no_op c = c\<lparr> sc_no_ops := sc_no_ops c + 1 \<rparr>"
definition count_fallback :: "ScanoutCounterSnapshot \<Rightarrow> ScanoutCounterSnapshot" where
  "count_fallback c = c\<lparr> sc_fallbacks := sc_fallbacks c + 1 \<rparr>"
definition count_route_changed :: "ScanoutCounterSnapshot \<Rightarrow> ScanoutCounterSnapshot" where
  "count_route_changed c = c\<lparr> sc_route_changes := sc_route_changes c + 1 \<rparr>"
definition count_same_mode_noop :: "ScanoutCounterSnapshot \<Rightarrow> ScanoutCounterSnapshot" where
  "count_same_mode_noop c = c\<lparr> sc_same_mode_noops := sc_same_mode_noops c + 1 \<rparr>"

section \<open>Scanout allocations\<close>

record ('buf, 'fb) ScanoutBuffer =
  sb_buffer :: "'buf option"
  sb_framebuffer :: "'fb option"
  sb_pitch :: u32
  sb_mapping_len :: usize

definition default_scanout_buffer :: "('buf, 'fb) ScanoutBuffer" where
  "default_scanout_buffer = \<lparr> sb_buffer = None, sb_framebuffer = None, sb_pitch = 0, sb_mapping_len = 0 \<rparr>"

record ('buf, 'fb, 'm) ScanoutAllocation =
  sa_mode :: 'm
  sa_width :: u32
  sa_height :: u32
  sa_first :: "('buf, 'fb) ScanoutBuffer"
  sa_second :: "('buf, 'fb) ScanoutBuffer"
  sa_pitch :: u32
  sa_front_buffer_index :: usize
  sa_live_bytes :: usize
  sa_released :: bool

text \<open>A mapped allocation: the mapped buffers, in the order of the allocation, and what was copied from it.\<close>

record ('buf, 'fb, 'm) MappedActive =
  ma_buffers :: "'buf \<times> 'buf"
  ma_framebuffers :: "'fb \<times> 'fb"
  ma_mapping_lengths :: "usize \<times> usize"
  ma_pitch :: u32
  ma_width :: u32
  ma_height :: u32
  ma_mode :: 'm
  ma_front_buffer_index :: usize

text \<open>One iteration of the loop of \<open>create\<close> for a buffer of the allocation.\<close>

definition create_scanout_buffer ::
  "('b, 'buf, 'fb, 'm) backend \<Rightarrow> u32 \<Rightarrow> u32 \<Rightarrow> 'b dev \<Rightarrow> unit result \<times> ('buf, 'fb) ScanoutBuffer \<times> 'b dev" where
  "create_scanout_buffer be width height d =
     (case be_create_buffer be width height (fst d) of
        (Inl e, b1) \<Rightarrow> (Inl e, default_scanout_buffer, b1, snd d)
      | (Inr buf, b1) \<Rightarrow>
          let sb = default_scanout_buffer\<lparr> sb_pitch := be_buffer_pitch be buf, sb_buffer := Some buf \<rparr> in
          case be_add_framebuffer be buf b1 of
            (Inl e, b2) \<Rightarrow> (Inl e, sb, b2, snd d)
          | (Inr fb, b2) \<Rightarrow> (Ok (), sb\<lparr> sb_framebuffer := Some fb \<rparr>, b2, count_framebuffer_allocation (snd d)))"

definition drop_mapping :: "'b dev \<Rightarrow> 'b dev" where
  "drop_mapping d = (fst d, count_unmap (snd d))"

definition map_tracked :: "('b, 'buf, 'fb, 'm) backend \<Rightarrow> 'buf \<Rightarrow> 'b dev \<Rightarrow> unit result \<times> 'b dev" where
  "map_tracked be buf d =
     (case be_map_buffer be buf (fst d) of
        (Inl e, b1) \<Rightarrow> (Inl e, b1, snd d)
      | (Inr _, b1) \<Rightarrow> (Ok (), b1, count_map (snd d)))"

definition map_allocation ::
  "('b, 'buf, 'fb, 'm) backend \<Rightarrow> ('buf, 'fb, 'm) ScanoutAllocation \<Rightarrow> 'b dev \<Rightarrow>
   ('buf, 'fb, 'm) MappedActive result \<times> 'b dev" where
  "map_allocation be a d =
     (if sa_released a then (Err ''cannot map a released scanout allocation'', d)
      else case sb_buffer (sa_first a) of
        None \<Rightarrow> (Err ''first dumb buffer is not available'', d)
      | Some first \<Rightarrow>
     (case map_tracked be first d of
        (Inl e, d1) \<Rightarrow> (Inl e, d1)
      | (Inr _, d1) \<Rightarrow>
     (case sb_buffer (sa_second a) of
        None \<Rightarrow> (Err ''second dumb buffer is not available'', drop_mapping d1)
      | Some second \<Rightarrow>
     (case map_tracked be second d1 of
        (Inl e, d2) \<Rightarrow> (Inl e, drop_mapping d2)
      | (Inr _, d2) \<Rightarrow>
     (case (sb_framebuffer (sa_first a), sb_framebuffer (sa_second a)) of
        (Some fb1, Some fb2) \<Rightarrow>
          (Ok \<lparr> ma_buffers = (first, second), ma_framebuffers = (fb1, fb2),
                ma_mapping_lengths = (length (be_load be first (fst d2)), length (be_load be second (fst d2))),
                ma_pitch = sa_pitch a, ma_width = sa_width a, ma_height = sa_height a, ma_mode = sa_mode a,
                ma_front_buffer_index = sa_front_buffer_index a \<rparr>, d2)
      | _ \<Rightarrow> (Err ''framebuffer is not available'', drop_mapping (drop_mapping d2)))))))"

definition drop_mapped :: "'b dev \<Rightarrow> 'b dev" where
  "drop_mapped d = drop_mapping (drop_mapping d)"

text \<open>Cleanup: every object is taken out first, so it is never released twice; a failure is collected.\<close>

definition release_framebuffer ::
  "('b, 'buf, 'fb, 'm) backend \<Rightarrow> 'fb option \<Rightarrow> 'b dev \<times> err list \<Rightarrow> 'b dev \<times> err list" where
  "release_framebuffer be fbo st =
     (case fbo of
        None \<Rightarrow> st
      | Some fb \<Rightarrow>
          (case be_remove_framebuffer be fb (fst (fst st)) of
             (Inr _, b1) \<Rightarrow> ((b1, count_framebuffer_remove (snd (fst st))), snd st)
           | (Inl e, b1) \<Rightarrow> ((b1, snd (fst st)), snd st @ [e])))"

definition release_buffer ::
  "('b, 'buf, 'fb, 'm) backend \<Rightarrow> 'buf option \<Rightarrow> 'b dev \<times> err list \<Rightarrow> 'b dev \<times> err list" where
  "release_buffer be bo st =
     (case bo of
        None \<Rightarrow> st
      | Some buf \<Rightarrow>
          (case be_destroy_buffer be buf (fst (fst st)) of
             (Inr _, b1) \<Rightarrow> ((b1, count_dumb_buffer_destroy (snd (fst st))), snd st)
           | (Inl e, b1) \<Rightarrow> ((b1, snd (fst st)), snd st @ [e])))"

definition cleanup_result :: "err list \<Rightarrow> unit result" where
  "cleanup_result errors = (if errors = [] then Ok () else Err ''cleanup errors'')"

definition take_objects :: "('buf, 'fb) ScanoutBuffer \<Rightarrow> ('buf, 'fb) ScanoutBuffer" where
  "take_objects sb = sb\<lparr> sb_buffer := None, sb_framebuffer := None \<rparr>"

definition release_allocation ::
  "('b, 'buf, 'fb, 'm) backend \<Rightarrow> ('buf, 'fb, 'm) ScanoutAllocation \<Rightarrow> 'b dev \<Rightarrow>
   unit result \<times> ('buf, 'fb, 'm) ScanoutAllocation \<times> 'b dev" where
  "release_allocation be a d =
     (if sa_released a then (Ok (), a, d)
      else
        let (d1, errors) =
              release_buffer be (sb_buffer (sa_first a))
             (release_buffer be (sb_buffer (sa_second a))
             (release_framebuffer be (sb_framebuffer (sa_first a))
             (release_framebuffer be (sb_framebuffer (sa_second a)) (d, []))))
        in (cleanup_result errors,
            a\<lparr> sa_released := True, sa_first := take_objects (sa_first a), sa_second := take_objects (sa_second a),
               sa_live_bytes := 0 \<rparr>,
            (fst d1, count_release (snd d1))))"

text \<open>The fallible part of \<open>create\<close>: it returns what it built so far, for the cleanup.\<close>

definition fill_zero :: "('b, 'buf, 'fb, 'm) backend \<Rightarrow> 'buf \<Rightarrow> 'b dev \<Rightarrow> 'b dev" where
  "fill_zero be buf d = (be_store be buf (replicate (length (be_load be buf (fst d))) 0) (fst d), snd d)"

definition probe_mappings ::
  "('b, 'buf, 'fb, 'm) backend \<Rightarrow> ('buf, 'fb, 'm) ScanoutAllocation \<Rightarrow> 'b dev \<Rightarrow>
   (usize \<times> usize) result \<times> 'b dev" where
  "probe_mappings be a d =
     (case map_allocation be a d of
        (Inl e, d1) \<Rightarrow> (Inl e, d1)
      | (Inr mapped, d1) \<Rightarrow>
          let d2 = fill_zero be (snd (ma_buffers mapped)) (fill_zero be (fst (ma_buffers mapped)) d1)
          in (Ok (ma_mapping_lengths mapped), drop_mapped d2))"

definition build_allocation ::
  "('b, 'buf, 'fb, 'm) backend \<Rightarrow> ('buf, 'fb, 'm) ScanoutAllocation \<Rightarrow> 'b dev \<Rightarrow>
   unit result \<times> ('buf, 'fb, 'm) ScanoutAllocation \<times> 'b dev" where
  "build_allocation be a d =
     (case create_scanout_buffer be (sa_width a) (sa_height a) d of
        (Inl e, sb, d1) \<Rightarrow> (Inl e, a\<lparr> sa_first := sb \<rparr>, d1)
      | (Inr _, sb1, d1) \<Rightarrow>
     (case create_scanout_buffer be (sa_width a) (sa_height a) d1 of
        (Inl e, sb, d2) \<Rightarrow> (Inl e, a\<lparr> sa_first := sb1, sa_second := sb \<rparr>, d2)
      | (Inr _, sb2, d2) \<Rightarrow>
          let a2 = a\<lparr> sa_first := sb1, sa_second := sb2 \<rparr> in
          if \<not> sb_pitch sb1 = sb_pitch sb2 then (Err ''dumb buffer pitches differ'', a2, d2)
          else
            let a3 = a2\<lparr> sa_pitch := sb_pitch sb1 \<rparr> in
            case probe_mappings be a3 d2 of
              (Inl e, d3) \<Rightarrow> (Inl e, a3, d3)
            | (Inr (l1, l2), d3) \<Rightarrow>
                (case Option.bind (checked_add_usize 0 l1) (\<lambda>t. checked_add_usize t l2) of
                   None \<Rightarrow> (Err ''scanout mapping byte accounting overflow'', a3, d3)
                 | Some live \<Rightarrow>
                     (Ok (), a3\<lparr> sa_live_bytes := live, sa_first := sb1\<lparr> sb_mapping_len := l1 \<rparr>,
                                sa_second := sb2\<lparr> sb_mapping_len := l2 \<rparr> \<rparr>, d3))))"

definition create_allocation ::
  "('b, 'buf, 'fb, 'm) backend \<Rightarrow> 'm \<Rightarrow> 'b dev \<Rightarrow> ('buf, 'fb, 'm) ScanoutAllocation result \<times> 'b dev" where
  "create_allocation be mode d =
     (let (width, height) = be_mode_size be mode in
      if \<not> (0 < width \<and> 0 < height) then (Err ''scanout dimensions must be non-zero'', d)
      else
        case build_allocation be
               \<lparr> sa_mode = mode, sa_width = width, sa_height = height, sa_first = default_scanout_buffer,
                 sa_second = default_scanout_buffer, sa_pitch = 0, sa_front_buffer_index = 0, sa_live_bytes = 0,
                 sa_released = False \<rparr> d of
          (Inl e, a, d1) \<Rightarrow> (case release_allocation be a d1 of (_, _, d2) \<Rightarrow> (Inl e, d2))
        | (Inr _, a, d1) \<Rightarrow> (Ok a, (fst d1, count_allocation (snd d1))))"

definition flush_one :: "('b, 'buf, 'fb, 'm) backend \<Rightarrow> u32 \<Rightarrow> u32 \<Rightarrow> 'fb option \<Rightarrow> 'b \<times> err list \<Rightarrow> 'b \<times> err list" where
  "flush_one be width height fbo st =
     (case fbo of
        None \<Rightarrow> st
      | Some fb \<Rightarrow>
          (case be_dirty_framebuffer be fb 0 0 (ucast width) (ucast height) (fst st) of
             (Inr _, b1) \<Rightarrow> (b1, snd st)
           | (Inl e, b1) \<Rightarrow> (b1, snd st @ [e])))"

definition flush_black_initialization ::
  "('b, 'buf, 'fb, 'm) backend \<Rightarrow> ('buf, 'fb, 'm) ScanoutAllocation \<Rightarrow> 'b \<Rightarrow> unit result \<times> 'b" where
  "flush_black_initialization be a b =
     (let (b1, errors) =
            flush_one be (sa_width a) (sa_height a) (sb_framebuffer (sa_second a))
              (flush_one be (sa_width a) (sa_height a) (sb_framebuffer (sa_first a)) (b, []))
      in (cleanup_result errors, b1))"

section \<open>The mapped front and back buffer\<close>

definition pick :: "'a \<times> 'a \<Rightarrow> usize \<Rightarrow> 'a result" where
  "pick p index = (if index = 0 then Ok (fst p) else if index = 1 then Ok (snd p) else panic ''index out of bounds'')"

definition back_index :: "('buf, 'fb, 'm) MappedActive \<Rightarrow> usize" where
  "back_index m = (ma_front_buffer_index m) XOR 1"

definition set_front_index :: "usize \<Rightarrow> ('buf, 'fb, 'm) MappedActive \<Rightarrow> ('buf, 'fb, 'm) MappedActive result" where
  "set_front_index index m =
     (if index < 2 then Ok (m\<lparr> ma_front_buffer_index := index \<rparr>) else panic ''assertion failed'')"

definition front_framebuffer :: "('buf, 'fb, 'm) MappedActive \<Rightarrow> 'fb result" where
  "front_framebuffer m = pick (ma_framebuffers m) (ma_front_buffer_index m)"

definition back_framebuffer :: "('buf, 'fb, 'm) MappedActive \<Rightarrow> 'fb result" where
  "back_framebuffer m = pick (ma_framebuffers m) (back_index m)"

definition back_buffer :: "('buf, 'fb, 'm) MappedActive \<Rightarrow> 'buf result" where
  "back_buffer m = pick (ma_buffers m) (back_index m)"

section \<open>The waiting scanout\<close>

record ('buf, 'fb, 'm) WaitingScanout =
  ws_mode :: 'm
  ws_width :: u32
  ws_height :: u32
  ws_buffer :: "'buf option"
  ws_framebuffer :: "'fb option"
  ws_pitch :: u32
  ws_mapping_len :: usize
  ws_live_bytes :: usize
  ws_released :: bool

definition build_waiting ::
  "('b, 'buf, 'fb, 'm) backend \<Rightarrow> ('buf, 'fb, 'm) WaitingScanout \<Rightarrow> 'b dev \<Rightarrow>
   unit result \<times> ('buf, 'fb, 'm) WaitingScanout \<times> 'b dev" where
  "build_waiting be w d =
     (case create_scanout_buffer be (ws_width w) (ws_height w) d of
        (Inl e, sb, d1) \<Rightarrow> (Inl e, w\<lparr> ws_pitch := sb_pitch sb, ws_buffer := sb_buffer sb \<rparr>, d1)
      | (Inr _, sb, d1) \<Rightarrow>
          let w1 = w\<lparr> ws_pitch := sb_pitch sb, ws_buffer := sb_buffer sb, ws_framebuffer := sb_framebuffer sb \<rparr> in
          case sb_buffer sb of
            None \<Rightarrow> (Err ''waiting dumb buffer is not available'', w1, d1)
          | Some buf \<Rightarrow>
              (case map_tracked be buf d1 of
                 (Inl e, d2) \<Rightarrow> (Inl e, w1, d2)
               | (Inr _, d2) \<Rightarrow>
                   let len = length (be_load be buf (fst d2)) in
                   (Ok (), w1\<lparr> ws_mapping_len := len, ws_live_bytes := len \<rparr>, drop_mapping (fill_zero be buf d2))))"

definition release_waiting ::
  "('b, 'buf, 'fb, 'm) backend \<Rightarrow> ('buf, 'fb, 'm) WaitingScanout \<Rightarrow> 'b dev \<Rightarrow>
   unit result \<times> ('buf, 'fb, 'm) WaitingScanout \<times> 'b dev" where
  "release_waiting be w d =
     (if ws_released w then (Ok (), w, d)
      else
        let (d1, errors) = release_buffer be (ws_buffer w) (release_framebuffer be (ws_framebuffer w) (d, []))
        in (cleanup_result errors,
            w\<lparr> ws_released := True, ws_framebuffer := None, ws_buffer := None, ws_live_bytes := 0 \<rparr>,
            (fst d1, count_release (snd d1))))"

definition create_waiting_scanout ::
  "('b, 'buf, 'fb, 'm) backend \<Rightarrow> 'm \<Rightarrow> 'b dev \<Rightarrow> ('buf, 'fb, 'm) WaitingScanout result \<times> 'b dev" where
  "create_waiting_scanout be mode d =
     (let (width, height) = be_mode_size be mode in
      if \<not> (0 < width \<and> 0 < height) then (Err ''waiting scanout dimensions must be non-zero'', d)
      else
        case build_waiting be
               \<lparr> ws_mode = mode, ws_width = width, ws_height = height, ws_buffer = None, ws_framebuffer = None,
                 ws_pitch = 0, ws_mapping_len = 0, ws_live_bytes = 0, ws_released = False \<rparr> d of
          (Inl e, w, d1) \<Rightarrow> (case release_waiting be w d1 of (_, _, d2) \<Rightarrow> (Inl e, d2))
        | (Inr _, w, d1) \<Rightarrow> (Ok w, (fst d1, count_allocation (snd d1))))"

definition waiting_framebuffer_of :: "('buf, 'fb, 'm) WaitingScanout \<Rightarrow> 'fb result" where
  "waiting_framebuffer_of w =
     (case ws_framebuffer w of None \<Rightarrow> panic ''waiting framebuffer is not available'' | Some fb \<Rightarrow> Ok fb)"

text \<open>\<open>render\<close> and \<open>with_mapped\<close>: the callback turns the mapped memory into its new contents.\<close>

definition with_mapped ::
  "('b, 'buf, 'fb, 'm) backend \<Rightarrow> ('buf, 'fb, 'm) WaitingScanout \<Rightarrow>
   (bytes \<Rightarrow> usize \<Rightarrow> u32 \<Rightarrow> u32 \<Rightarrow> unit result \<times> bytes) \<Rightarrow> 'b dev \<Rightarrow> unit result \<times> 'b dev" where
  "with_mapped be w callback d =
     (if ws_released w then (Err ''cannot render a released waiting scanout'', d)
      else case ws_buffer w of
        None \<Rightarrow> (Err ''waiting dumb buffer is not available'', d)
      | Some buf \<Rightarrow>
          (case map_tracked be buf d of
             (Inl e, d1) \<Rightarrow> (Inl e, d1)
           | (Inr _, d1) \<Rightarrow>
               (case callback (be_load be buf (fst d1)) (unat (ws_pitch w)) (ws_width w) (ws_height w) of
                  (r, mem) \<Rightarrow> (r, drop_mapping (be_store be buf mem (fst d1), snd d1)))))"

section \<open>The contract of a backend\<close>

text \<open>
  \<open>bufs\<close> and \<open>fbs\<close> are the dumb buffers and framebuffers that exist on the device. Creating gives a new
  object or changes nothing; a successful removal removes exactly its object, a failed one nothing; the
  other operations keep the objects. A mapping shows what was last stored in its buffer.
\<close>

locale scanout_backend =
  fixes be :: "('b, 'buf, 'fb, 'm) backend"
    and bufs :: "'b \<Rightarrow> 'buf set"
    and fbs :: "'b \<Rightarrow> 'fb set"
  assumes finite_fbs: "finite (fbs b)"
    and create_law: "be_create_buffer be w h b = (r, b') \<Longrightarrow> fbs b' = fbs b
      \<and> (case r of Inl _ \<Rightarrow> bufs b' = bufs b | Inr buf \<Rightarrow> buf \<notin> bufs b \<and> bufs b' = insert buf (bufs b))"
    and add_law: "be_add_framebuffer be buf b = (q, b') \<Longrightarrow> bufs b' = bufs b
      \<and> (case q of Inl _ \<Rightarrow> fbs b' = fbs b | Inr fb \<Rightarrow> fb \<notin> fbs b \<and> fbs b' = insert fb (fbs b))"
    and map_law: "be_map_buffer be buf b = (u, b') \<Longrightarrow> bufs b' = bufs b \<and> fbs b' = fbs b"
    and store_law: "bufs (be_store be buf mem b) = bufs b \<and> fbs (be_store be buf mem b) = fbs b"
    and load_store: "length mem = length (be_load be buf b) \<Longrightarrow> be_load be buf (be_store be buf mem b) = mem"
    and load_store_other: "buf' \<noteq> buf \<Longrightarrow> be_load be buf' (be_store be buf mem b) = be_load be buf' b"
    and remove_law: "be_remove_framebuffer be fb b = (u, b') \<Longrightarrow> bufs b' = bufs b
      \<and> fbs b' = (if is_ok u then fbs b - {fb} else fbs b)"
    and destroy_law: "be_destroy_buffer be buf b = (u, b') \<Longrightarrow> fbs b' = fbs b
      \<and> bufs b' = (if is_ok u then bufs b - {buf} else bufs b)"
    and dirty_law: "be_dirty_framebuffer be fb x1 y1 x2 y2 b = (u, b') \<Longrightarrow> bufs b' = bufs b \<and> fbs b' = fbs b"
    and crtc_law: "be_set_crtc be fb mode b = (u, b') \<Longrightarrow> bufs b' = bufs b \<and> fbs b' = fbs b"

text \<open>The objects a structure owns, and whether cleanup calls of a backend never fail.\<close>

definition sb_owns :: "('buf, 'fb) ScanoutBuffer \<Rightarrow> 'buf set \<times> 'fb set" where
  "sb_owns sb = (set_option (sb_buffer sb), set_option (sb_framebuffer sb))"

definition owned_bufs :: "('buf, 'fb, 'm) ScanoutAllocation \<Rightarrow> 'buf set" where
  "owned_bufs a = set_option (sb_buffer (sa_first a)) \<union> set_option (sb_buffer (sa_second a))"

definition owned_fbs :: "('buf, 'fb, 'm) ScanoutAllocation \<Rightarrow> 'fb set" where
  "owned_fbs a = set_option (sb_framebuffer (sa_first a)) \<union> set_option (sb_framebuffer (sa_second a))"

text \<open>An allocation owns distinct objects, and none once it is released.\<close>

definition allocation_ok :: "('buf, 'fb, 'm) ScanoutAllocation \<Rightarrow> bool" where
  "allocation_ok a \<longleftrightarrow> set_option (sb_buffer (sa_first a)) \<inter> set_option (sb_buffer (sa_second a)) = {}
     \<and> set_option (sb_framebuffer (sa_first a)) \<inter> set_option (sb_framebuffer (sa_second a)) = {}
     \<and> (sa_released a \<longrightarrow> owned_bufs a = {} \<and> owned_fbs a = {} \<and> sa_live_bytes a = 0)"

definition waiting_ok :: "('buf, 'fb, 'm) WaitingScanout \<Rightarrow> bool" where
  "waiting_ok w \<longleftrightarrow> (ws_released w \<longrightarrow> ws_buffer w = None \<and> ws_framebuffer w = None \<and> ws_live_bytes w = 0)"

definition cleanup_total :: "('b, 'buf, 'fb, 'm) backend \<Rightarrow> bool" where
  "cleanup_total be \<longleftrightarrow> (\<forall>fb b. is_ok (fst (be_remove_framebuffer be fb b)))
     \<and> (\<forall>buf b. is_ok (fst (be_destroy_buffer be buf b)))"

text \<open>Framebuffers as the counters see them, and mappings that are still open.\<close>

definition counted_fbs :: "ScanoutCounterSnapshot \<Rightarrow> int" where
  "counted_fbs c = int (sc_framebuffer_allocations c) - int (sc_framebuffer_removes c)"

definition open_maps :: "ScanoutCounterSnapshot \<Rightarrow> int" where
  "open_maps c = int (sc_maps c) - int (sc_unmaps c)"

lemmas counter_defs = count_allocation_def count_framebuffer_allocation_def count_release_def
  count_framebuffer_remove_def count_dumb_buffer_destroy_def count_map_def count_unmap_def
  count_switched_def count_no_op_def count_fallback_def count_route_changed_def count_same_mode_noop_def

lemma counted_fbs_simps [simp]:
  "counted_fbs (count_framebuffer_allocation c) = counted_fbs c + 1"
  "counted_fbs (count_framebuffer_remove c) = counted_fbs c - 1"
  "counted_fbs (count_map c) = counted_fbs c" "counted_fbs (count_unmap c) = counted_fbs c"
  "counted_fbs (count_release c) = counted_fbs c" "counted_fbs (count_allocation c) = counted_fbs c"
  "counted_fbs (count_dumb_buffer_destroy c) = counted_fbs c"
  "counted_fbs (count_switched c) = counted_fbs c" "counted_fbs (count_no_op c) = counted_fbs c"
  "counted_fbs (count_fallback c) = counted_fbs c"
  by (simp_all add: counted_fbs_def counter_defs)

lemma open_maps_simps [simp]:
  "open_maps (count_map c) = open_maps c + 1" "open_maps (count_unmap c) = open_maps c - 1"
  "open_maps (count_framebuffer_allocation c) = open_maps c" "open_maps (count_framebuffer_remove c) = open_maps c"
  "open_maps (count_release c) = open_maps c" "open_maps (count_allocation c) = open_maps c"
  "open_maps (count_dumb_buffer_destroy c) = open_maps c"
  "open_maps (count_switched c) = open_maps c" "open_maps (count_no_op c) = open_maps c"
  "open_maps (count_fallback c) = open_maps c"
  by (simp_all add: open_maps_def counter_defs)

lemma checked_sum:
  "Option.bind (checked_add_usize 0 a) (\<lambda>t. checked_add_usize t b) = (if a + b < usize_bound then Some (a + b) else None)"
  by (auto simp: checked_add_usize_def)

context scanout_backend
begin

text \<open>
  \<open>gained d d' B F k\<close>: from \<open>d\<close> to \<open>d'\<close> the device gained exactly the new buffers \<open>B\<close> and framebuffers \<open>F\<close>,
  the counters saw it, and \<open>k\<close> more mappings are open.
\<close>

definition gained :: "'b dev \<Rightarrow> 'b dev \<Rightarrow> 'buf set \<Rightarrow> 'fb set \<Rightarrow> int \<Rightarrow> bool" where
  "gained d d' B F k \<longleftrightarrow> bufs (fst d') = bufs (fst d) \<union> B \<and> B \<inter> bufs (fst d) = {}
     \<and> fbs (fst d') = fbs (fst d) \<union> F \<and> F \<inter> fbs (fst d) = {}
     \<and> int (card (fbs (fst d'))) - counted_fbs (snd d') = int (card (fbs (fst d))) - counted_fbs (snd d)
     \<and> open_maps (snd d') = open_maps (snd d) + k"

lemma gained_refl: "gained d d {} {} 0"
  by (simp add: gained_def)

lemma gained_trans:
  "gained d d1 B F k \<Longrightarrow> gained d1 d2 B' F' k' \<Longrightarrow> gained d d2 (B \<union> B') (F \<union> F') (k + k')"
  by (auto simp: gained_def)

lemma drop_mapping_gained: "gained d (drop_mapping d) {} {} (- 1)"
  by (simp add: gained_def drop_mapping_def)

lemma create_scanout_buffer_spec:
  assumes "create_scanout_buffer be w h d = (r, sb, d')"
  shows "gained d d' (fst (sb_owns sb)) (snd (sb_owns sb)) 0
    \<and> (is_ok r \<longleftrightarrow> sb_framebuffer sb \<noteq> None) \<and> (is_ok r \<longrightarrow> sb_buffer sb \<noteq> None)"
proof -
  obtain b c where d: "d = (b, c)" by fastforce
  obtain rb b1 where c1: "be_create_buffer be w h b = (rb, b1)" by fastforce
  show ?thesis
  proof (cases rb)
    case (Inl e)
    with assms c1 create_law [OF c1] show ?thesis
      by (auto simp: d create_scanout_buffer_def gained_def sb_owns_def default_scanout_buffer_def)
  next
    case (Inr buf)
    obtain rf b2 where c2: "be_add_framebuffer be buf b1 = (rf, b2)" by fastforce
    from assms c1 c2 Inr create_law [OF c1] add_law [OF c2] finite_fbs [of b1] show ?thesis
      by (cases rf) (auto simp: d create_scanout_buffer_def gained_def sb_owns_def default_scanout_buffer_def Let_def)
  qed
qed

lemma map_tracked_spec:
  "map_tracked be buf d = (r, d') \<Longrightarrow> gained d d' {} {} (if is_ok r then 1 else 0)"
  using map_law [of buf "fst d"]
  by (cases "be_map_buffer be buf (fst d)")
    (auto simp: map_tracked_def gained_def split: sum.splits)

lemma fill_zero_gained: "gained d (fill_zero be buf d) {} {} 0"
  using store_law by (simp add: fill_zero_def gained_def)

lemma map_allocation_spec:
  assumes "map_allocation be a d = (r, d')"
  shows "gained d d' {} {} (if is_ok r then 2 else 0)
    \<and> (\<forall>m. r = Ok m \<longrightarrow> sb_buffer (sa_first a) = Some (fst (ma_buffers m))
        \<and> sb_buffer (sa_second a) = Some (snd (ma_buffers m)) \<and> \<not> sa_released a
        \<and> sb_framebuffer (sa_first a) = Some (fst (ma_framebuffers m))
        \<and> sb_framebuffer (sa_second a) = Some (snd (ma_framebuffers m))
        \<and> ma_mapping_lengths m = (length (be_load be (fst (ma_buffers m)) (fst d')),
            length (be_load be (snd (ma_buffers m)) (fst d')))
        \<and> ma_mode m = sa_mode a \<and> ma_width m = sa_width a \<and> ma_height m = sa_height a \<and> ma_pitch m = sa_pitch a
        \<and> ma_front_buffer_index m = sa_front_buffer_index a)"
proof (cases "sa_released a \<or> sb_buffer (sa_first a) = None")
  case True
  with assms show ?thesis by (auto simp: map_allocation_def gained_refl split: if_splits option.splits)
next
  case False
  then obtain f where f: "\<not> sa_released a" "sb_buffer (sa_first a) = Some f" by auto
  obtain r1 d1 where m1: "map_tracked be f d = (r1, d1)" by (meson surj_pair)
  note g1 = map_tracked_spec [OF m1]
  show ?thesis
  proof (cases "is_ok r1 \<and> sb_buffer (sa_second a) \<noteq> None")
    case False
    with assms f m1 g1 show ?thesis
      using gained_trans [OF _ drop_mapping_gained, of d d1 "{}" "{}" 1]
      by (cases r1) (auto simp: map_allocation_def split: option.splits)
  next
    case True
    then obtain s where s: "r1 = Ok ()" "sb_buffer (sa_second a) = Some s" by (cases r1) auto
    obtain r2 d2 where m2: "map_tracked be s d1 = (r2, d2)" by (meson surj_pair)
    note g2 = gained_trans [OF g1 map_tracked_spec [OF m2]]
    show ?thesis
    proof (cases r2)
      case (Inl e)
      with assms f m1 s m2 g2 show ?thesis
        using gained_trans [OF _ drop_mapping_gained, of d d2 "{}" "{}" 1]
        by (auto simp: map_allocation_def)
    next
      case (Inr u)
      with g2 s have g: "gained d d2 {} {} 2" by simp
      have "gained d (drop_mapping (drop_mapping d2)) {} {} 0"
        using gained_trans [OF gained_trans [OF g drop_mapping_gained] drop_mapping_gained] by simp
      with assms f m1 s m2 Inr g show ?thesis
        by (auto simp: map_allocation_def split: option.splits)
    qed
  qed
qed

lemma probe_mappings_spec:
  assumes "probe_mappings be a d = (r, d')"
  shows "gained d d' {} {} 0
    \<and> (\<forall>l1 l2. r = Ok (l1, l2) \<longrightarrow> (\<exists>f s. sb_buffer (sa_first a) = Some f \<and> sb_buffer (sa_second a) = Some s
        \<and> (f \<noteq> s \<longrightarrow> be_load be f (fst d') = replicate l1 0 \<and> be_load be s (fst d') = replicate l2 0)))"
proof -
  obtain rm d1 where m: "map_allocation be a d = (rm, d1)" by (meson surj_pair)
  note spec = map_allocation_spec [OF m]
  show ?thesis
  proof (cases rm)
    case (Inl e)
    with assms m spec show ?thesis by (auto simp: probe_mappings_def)
  next
    case (Inr mapped)
    let ?f = "fst (ma_buffers mapped)" and ?s = "snd (ma_buffers mapped)"
    let ?d2 = "fill_zero be ?s (fill_zero be ?f d1)"
    have d': "d' = drop_mapped ?d2" and r: "r = Ok (ma_mapping_lengths mapped)"
      using assms m Inr by (simp_all add: probe_mappings_def Let_def)
    have "gained d d' {} {} (2 + 0 + 0 + - 1 + - 1)"
      using gained_trans [OF gained_trans [OF gained_trans [OF gained_trans [OF
              spec [THEN conjunct1] fill_zero_gained] fill_zero_gained] drop_mapping_gained] drop_mapping_gained]
      by (simp add: d' drop_mapped_def Inr)
    moreover have "be_load be ?f (fst d') = replicate (length (be_load be ?f (fst d1))) 0
        \<and> be_load be ?s (fst d') = replicate (length (be_load be ?s (fst d1))) 0" if "?f \<noteq> ?s"
      using that load_store load_store_other
      by (simp add: d' drop_mapped_def drop_mapping_def fill_zero_def)
    ultimately show ?thesis using spec r Inr by auto
  qed
qed

text \<open>Cleanup of one object.\<close>

lemma release_framebuffer_spec:
  assumes "release_framebuffer be fbo (d, errs) = (d', errs')" and "set_option fbo \<subseteq> fbs (fst d)"
  shows "bufs (fst d') = bufs (fst d) \<and> fbs (fst d) - set_option fbo \<subseteq> fbs (fst d') \<and> fbs (fst d') \<subseteq> fbs (fst d)
    \<and> (cleanup_total be \<longrightarrow> errs' = errs) \<and> (errs' = [] \<longrightarrow> errs = [] \<and> fbs (fst d') = fbs (fst d) - set_option fbo)
    \<and> int (card (fbs (fst d'))) - counted_fbs (snd d') = int (card (fbs (fst d))) - counted_fbs (snd d)
    \<and> open_maps (snd d') = open_maps (snd d)"
proof (cases fbo)
  case None
  with assms show ?thesis by (simp add: release_framebuffer_def)
next
  case (Some fb)
  obtain r b1 where c: "be_remove_framebuffer be fb (fst d) = (r, b1)" by fastforce
  have "fb \<in> fbs (fst d)" using assms(2) Some by simp
  then have "int (card (fbs (fst d) - {fb})) = int (card (fbs (fst d))) - 1"
    using finite_fbs [of "fst d"] by (simp add: card_Diff_singleton) (metis card_gt_0_iff empty_iff of_nat_diff of_nat_1 Suc_leI One_nat_def)
  moreover have "cleanup_total be \<Longrightarrow> is_ok r" using c by (metis cleanup_total_def fst_conv)
  ultimately show ?thesis
    using assms(1) Some c remove_law [OF c] by (cases r) (auto simp: release_framebuffer_def)
qed

lemma release_buffer_spec:
  assumes "release_buffer be bo (d, errs) = (d', errs')"
  shows "fbs (fst d') = fbs (fst d) \<and> bufs (fst d) - set_option bo \<subseteq> bufs (fst d') \<and> bufs (fst d') \<subseteq> bufs (fst d)
    \<and> (cleanup_total be \<longrightarrow> errs' = errs) \<and> (errs' = [] \<longrightarrow> errs = [] \<and> bufs (fst d') = bufs (fst d) - set_option bo)
    \<and> counted_fbs (snd d') = counted_fbs (snd d) \<and> open_maps (snd d') = open_maps (snd d)"
proof (cases bo)
  case None
  with assms show ?thesis by (simp add: release_buffer_def)
next
  case (Some buf)
  obtain r b1 where c: "be_destroy_buffer be buf (fst d) = (r, b1)" by fastforce
  have "cleanup_total be \<Longrightarrow> is_ok r" using c by (metis cleanup_total_def fst_conv)
  then show ?thesis
    using assms Some c destroy_law [OF c] by (cases r) (auto simp: release_buffer_def)
qed

lemmas release_framebuffer_spec_parts =
  release_framebuffer_spec [THEN conjunct1]
  release_framebuffer_spec [THEN conjunct2, THEN conjunct1]
  release_framebuffer_spec [THEN conjunct2, THEN conjunct2, THEN conjunct1]
  release_framebuffer_spec [THEN conjunct2, THEN conjunct2, THEN conjunct2, THEN conjunct1]
  release_framebuffer_spec [THEN conjunct2, THEN conjunct2, THEN conjunct2, THEN conjunct2, THEN conjunct1]
  release_framebuffer_spec [THEN conjunct2, THEN conjunct2, THEN conjunct2, THEN conjunct2, THEN conjunct2, THEN conjunct1]
  release_framebuffer_spec [THEN conjunct2, THEN conjunct2, THEN conjunct2, THEN conjunct2, THEN conjunct2, THEN conjunct2]

lemmas release_buffer_spec_parts =
  release_buffer_spec [THEN conjunct1]
  release_buffer_spec [THEN conjunct2, THEN conjunct1]
  release_buffer_spec [THEN conjunct2, THEN conjunct2, THEN conjunct1]
  release_buffer_spec [THEN conjunct2, THEN conjunct2, THEN conjunct2, THEN conjunct1]
  release_buffer_spec [THEN conjunct2, THEN conjunct2, THEN conjunct2, THEN conjunct2, THEN conjunct1]
  release_buffer_spec [THEN conjunct2, THEN conjunct2, THEN conjunct2, THEN conjunct2, THEN conjunct2, THEN conjunct1]
  release_buffer_spec [THEN conjunct2, THEN conjunct2, THEN conjunct2, THEN conjunct2, THEN conjunct2, THEN conjunct2]

text \<open>
  \<open>lost d d' B F r\<close>: from \<open>d\<close> to \<open>d'\<close> at most the buffers \<open>B\<close> and framebuffers \<open>F\<close> were lost, exactly
  those when the cleanup reported success (which it does on a backend whose cleanup never fails).
\<close>

definition lost :: "'b dev \<Rightarrow> 'b dev \<Rightarrow> 'buf set \<Rightarrow> 'fb set \<Rightarrow> unit result \<Rightarrow> bool" where
  "lost d d' B F r \<longleftrightarrow> bufs (fst d) - B \<subseteq> bufs (fst d') \<and> bufs (fst d') \<subseteq> bufs (fst d)
     \<and> fbs (fst d) - F \<subseteq> fbs (fst d') \<and> fbs (fst d') \<subseteq> fbs (fst d)
     \<and> (cleanup_total be \<longrightarrow> r = Ok ())
     \<and> (r = Ok () \<longrightarrow> bufs (fst d') = bufs (fst d) - B \<and> fbs (fst d') = fbs (fst d) - F)
     \<and> int (card (fbs (fst d'))) - counted_fbs (snd d') = int (card (fbs (fst d))) - counted_fbs (snd d)
     \<and> open_maps (snd d') = open_maps (snd d)"

lemma release_allocation_spec:
  assumes "release_allocation be a d = (r, a', d')" and "allocation_ok a"
    and "owned_bufs a \<subseteq> bufs (fst d)" and "owned_fbs a \<subseteq> fbs (fst d)"
  shows "lost d d' (owned_bufs a) (owned_fbs a) r
    \<and> owned_bufs a' = {} \<and> owned_fbs a' = {} \<and> allocation_ok a' \<and> sa_released a' \<and> sa_live_bytes a' = 0"
proof (cases "sa_released a")
  case True
  with assms show ?thesis by (auto simp: release_allocation_def lost_def allocation_ok_def)
next
  case False
  obtain d1 e1 where s1: "release_framebuffer be (sb_framebuffer (sa_second a)) (d, []) = (d1, e1)" by (meson surj_pair)
  obtain d2 e2 where s2: "release_framebuffer be (sb_framebuffer (sa_first a)) (d1, e1) = (d2, e2)" by (meson surj_pair)
  obtain d3 e3 where s3: "release_buffer be (sb_buffer (sa_second a)) (d2, e2) = (d3, e3)" by (meson surj_pair)
  obtain d4 e4 where s4: "release_buffer be (sb_buffer (sa_first a)) (d3, e3) = (d4, e4)" by (meson surj_pair)
  have eq: "r = cleanup_result e4" "d' = (fst d4, count_release (snd d4))"
    "a' = a\<lparr> sa_released := True, sa_first := take_objects (sa_first a), sa_second := take_objects (sa_second a), sa_live_bytes := 0 \<rparr>"
    using assms(1) False s1 s2 s3 s4 by (auto simp: release_allocation_def Let_def)
  have sub: "set_option (sb_framebuffer (sa_second a)) \<subseteq> fbs (fst d)" "set_option (sb_framebuffer (sa_first a)) \<subseteq> fbs (fst d)"
    using assms(4) by (simp_all add: owned_fbs_def)
  note r1 = release_framebuffer_spec_parts [OF s1 sub(1)]
  have sub2: "set_option (sb_framebuffer (sa_first a)) \<subseteq> fbs (fst d1)"
    using r1(2) sub(2) assms(2) unfolding allocation_ok_def by blast
  note r2 = release_framebuffer_spec_parts [OF s2 sub2]
  note r3 = release_buffer_spec_parts [OF s3] and r4 = release_buffer_spec_parts [OF s4]
  have total: "cleanup_total be \<Longrightarrow> e4 = []" using r1(4) r2(4) r3(4) r4(4) by blast
  have ok: "e4 = [] \<Longrightarrow> bufs (fst d4) = bufs (fst d) - owned_bufs a \<and> fbs (fst d4) = fbs (fst d) - owned_fbs a"
    using r1(1,5) r2(1,5) r3(1,5) r4(1,5) unfolding owned_bufs_def owned_fbs_def by blast
  have sets: "bufs (fst d) - owned_bufs a \<subseteq> bufs (fst d4)" "bufs (fst d4) \<subseteq> bufs (fst d)"
      "fbs (fst d) - owned_fbs a \<subseteq> fbs (fst d4)" "fbs (fst d4) \<subseteq> fbs (fst d)"
    using r1(1-3) r2(1-3) r3(1-3) r4(1-3) unfolding owned_bufs_def owned_fbs_def by blast+
  have counts: "int (card (fbs (fst d4))) - counted_fbs (snd d4) = int (card (fbs (fst d))) - counted_fbs (snd d)"
      "open_maps (snd d4) = open_maps (snd d)"
    using r1(6,7) r2(6,7) r3(1,6,7) r4(1,6,7) by simp_all
  have "lost d d' (owned_bufs a) (owned_fbs a) r"
    unfolding lost_def eq(1,2) cleanup_result_def using total ok sets counts by simp
  then show ?thesis
    by (simp add: eq(3) allocation_ok_def owned_bufs_def owned_fbs_def take_objects_def)
qed

lemma release_waiting_spec:
  assumes "release_waiting be w d = (r, w', d')" and "waiting_ok w"
    and "set_option (ws_framebuffer w) \<subseteq> fbs (fst d)"
  shows "lost d d' (set_option (ws_buffer w)) (set_option (ws_framebuffer w)) r
    \<and> ws_buffer w' = None \<and> ws_framebuffer w' = None \<and> ws_live_bytes w' = 0 \<and> waiting_ok w' \<and> ws_released w'"
proof (cases "ws_released w")
  case True
  with assms show ?thesis by (auto simp: release_waiting_def lost_def waiting_ok_def)
next
  case False
  obtain d1 e1 where s1: "release_framebuffer be (ws_framebuffer w) (d, []) = (d1, e1)" by (meson surj_pair)
  obtain d2 e2 where s2: "release_buffer be (ws_buffer w) (d1, e1) = (d2, e2)" by (meson surj_pair)
  have eq: "r = cleanup_result e2" "d' = (fst d2, count_release (snd d2))"
    "w' = w\<lparr> ws_released := True, ws_framebuffer := None, ws_buffer := None, ws_live_bytes := 0 \<rparr>"
    using assms(1) False s1 s2 by (auto simp: release_waiting_def Let_def)
  note r1 = release_framebuffer_spec_parts [OF s1 assms(3)] and r2 = release_buffer_spec_parts [OF s2]
  have total: "cleanup_total be \<Longrightarrow> e2 = []" using r1(4) r2(4) by blast
  have ok: "e2 = [] \<Longrightarrow> bufs (fst d2) = bufs (fst d) - set_option (ws_buffer w)
      \<and> fbs (fst d2) = fbs (fst d) - set_option (ws_framebuffer w)" using r1(1,5) r2(1,5) by blast
  have sets: "bufs (fst d) - set_option (ws_buffer w) \<subseteq> bufs (fst d2)" "bufs (fst d2) \<subseteq> bufs (fst d)"
      "fbs (fst d) - set_option (ws_framebuffer w) \<subseteq> fbs (fst d2)" "fbs (fst d2) \<subseteq> fbs (fst d)"
    using r1(1-3) r2(1-3) by blast+
  have counts: "int (card (fbs (fst d2))) - counted_fbs (snd d2) = int (card (fbs (fst d))) - counted_fbs (snd d)"
      "open_maps (snd d2) = open_maps (snd d)"
    using r1(6,7) r2(1,6,7) by simp_all
  have "lost d d' (set_option (ws_buffer w)) (set_option (ws_framebuffer w)) r"
    unfolding lost_def eq(1,2) cleanup_result_def using total ok sets counts by simp
  then show ?thesis by (simp add: eq(3) waiting_ok_def)
qed

text \<open>A gain followed by a complete loss of what was gained.\<close>

lemma gained_lost:
  assumes "gained d d1 B F 0" and "lost d1 d2 B F r"
  shows "bufs (fst d) \<subseteq> bufs (fst d2) \<and> fbs (fst d) \<subseteq> fbs (fst d2)
    \<and> (cleanup_total be \<longrightarrow> bufs (fst d2) = bufs (fst d) \<and> fbs (fst d2) = fbs (fst d))
    \<and> int (card (fbs (fst d2))) - counted_fbs (snd d2) = int (card (fbs (fst d))) - counted_fbs (snd d)
    \<and> open_maps (snd d2) = open_maps (snd d)"
  using assms unfolding gained_def lost_def by auto

text \<open>
  A created allocation owns exactly what the device gained: two buffers and two framebuffers, mapped
  nowhere, filled with zeros, with the bytes of both mappings accounted. A failed creation gives
  everything back that the cleanup could remove.
\<close>

definition fresh_allocation :: "'m \<Rightarrow> ('buf, 'fb, 'm) ScanoutAllocation \<Rightarrow> 'b dev \<Rightarrow> bool" where
  "fresh_allocation mode a d \<longleftrightarrow> allocation_ok a \<and> \<not> sa_released a \<and> sa_mode a = mode
     \<and> (sa_width a, sa_height a) = be_mode_size be mode \<and> 0 < sa_width a \<and> 0 < sa_height a
     \<and> sa_front_buffer_index a = 0 \<and> sa_live_bytes a < usize_bound
     \<and> (\<exists>f s. sb_buffer (sa_first a) = Some f \<and> sb_buffer (sa_second a) = Some s
          \<and> sb_framebuffer (sa_first a) \<noteq> None \<and> sb_framebuffer (sa_second a) \<noteq> None
          \<and> be_load be f (fst d) = replicate (sb_mapping_len (sa_first a)) 0
          \<and> be_load be s (fst d) = replicate (sb_mapping_len (sa_second a)) 0
          \<and> sa_live_bytes a = length (be_load be f (fst d)) + length (be_load be s (fst d)))"

lemma build_allocation_spec:
  assumes "build_allocation be a0 d = (r, a, d')" and "sa_first a0 = default_scanout_buffer"
    and "sa_second a0 = default_scanout_buffer" and "\<not> sa_released a0" and "sa_front_buffer_index a0 = 0"
    and "(sa_width a0, sa_height a0) = be_mode_size be (sa_mode a0)" and "0 < sa_width a0" and "0 < sa_height a0"
  shows "gained d d' (owned_bufs a) (owned_fbs a) 0 \<and> allocation_ok a \<and> \<not> sa_released a
    \<and> (is_ok r \<longrightarrow> fresh_allocation (sa_mode a0) a d')"
proof -
  have dflt: "set_option (sb_buffer (default_scanout_buffer :: ('buf, 'fb) ScanoutBuffer)) = {}"
      "set_option (sb_framebuffer (default_scanout_buffer :: ('buf, 'fb) ScanoutBuffer)) = {}"
    by (simp_all add: default_scanout_buffer_def)
  obtain r1 sb1 d1 where c1: "create_scanout_buffer be (sa_width a0) (sa_height a0) d = (r1, sb1, d1)"
    by (rule prod_cases3)
  note g1 = create_scanout_buffer_spec [OF c1]
  show ?thesis
  proof (cases r1)
    case (Inl e)
    with assms c1 have "r = Inl e" "a = a0\<lparr> sa_first := sb1 \<rparr>" "d' = d1" by (simp_all add: build_allocation_def)
    with assms(3,4) g1 dflt show ?thesis
      by (simp add: owned_bufs_def owned_fbs_def allocation_ok_def sb_owns_def)
  next
    case (Inr u1)
    obtain r2 sb2 d2 where c2: "create_scanout_buffer be (sa_width a0) (sa_height a0) d1 = (r2, sb2, d2)"
      by (rule prod_cases3)
    note g2 = create_scanout_buffer_spec [OF c2]
    let ?B = "set_option (sb_buffer sb1) \<union> set_option (sb_buffer sb2)"
    let ?F = "set_option (sb_framebuffer sb1) \<union> set_option (sb_framebuffer sb2)"
    have g: "gained d d2 ?B ?F 0"
      using gained_trans [OF g1 [THEN conjunct1] g2 [THEN conjunct1]] by (simp add: sb_owns_def)
    have disj: "set_option (sb_buffer sb1) \<inter> set_option (sb_buffer sb2) = {}"
        "set_option (sb_framebuffer sb1) \<inter> set_option (sb_framebuffer sb2) = {}"
      using g1 [THEN conjunct1] g2 [THEN conjunct1] by (auto simp: gained_def sb_owns_def)
    have own: "owned_bufs x = ?B \<and> owned_fbs x = ?F \<and> allocation_ok x"
      if "sb_buffer (sa_first x) = sb_buffer sb1" "sb_buffer (sa_second x) = sb_buffer sb2"
        "sb_framebuffer (sa_first x) = sb_framebuffer sb1" "sb_framebuffer (sa_second x) = sb_framebuffer sb2"
        "\<not> sa_released x" for x :: "('buf, 'fb, 'm) ScanoutAllocation"
      using that disj by (simp add: owned_bufs_def owned_fbs_def allocation_ok_def)
    let ?a2 = "a0\<lparr> sa_first := sb1, sa_second := sb2 \<rparr>" and ?a3 = "a0\<lparr> sa_first := sb1, sa_second := sb2, sa_pitch := sb_pitch sb1 \<rparr>"
    show ?thesis
    proof (cases "is_ok r2 \<and> sb_pitch sb1 = sb_pitch sb2")
      case False
      with assms c1 Inr c2 have "\<not> is_ok r" "a = ?a2" "d' = d2"
        by (auto simp: build_allocation_def split: sum.splits)
      with g own [of ?a2] assms(4) show ?thesis by simp
    next
      case True
      obtain rp d3 where p: "probe_mappings be ?a3 d2 = (rp, d3)" by (meson surj_pair)
      note gp = probe_mappings_spec [OF p]
      have g3: "gained d d3 ?B ?F 0" using gained_trans [OF g gp [THEN conjunct1]] by simp
      show ?thesis
      proof (cases "\<exists>l1 l2. rp = Ok (l1, l2) \<and> l1 + l2 < usize_bound")
        case False
        have "(r, a, d') = (case rp of Inl e \<Rightarrow> (Inl e, ?a3, d3) | Inr (l1, l2) \<Rightarrow>
            (Err ''scanout mapping byte accounting overflow'', ?a3, d3))"
          using assms(1) c1 Inr c2 True p False
          by (cases rp) (auto simp: build_allocation_def Let_def checked_sum is_ok_iff)
        then have "\<not> is_ok r" "a = ?a3" "d' = d3" by (auto split: sum.splits)
        with g3 own [of ?a3] assms(4) show ?thesis by simp
      next
        case True2: True
        then obtain l1 l2 where l: "rp = Ok (l1, l2)" "l1 + l2 < usize_bound" by blast
        have eq: "a = ?a3\<lparr> sa_live_bytes := l1 + l2, sa_first := sb1\<lparr> sb_mapping_len := l1 \<rparr>,
              sa_second := sb2\<lparr> sb_mapping_len := l2 \<rparr> \<rparr>" "d' = d3"
          using assms(1) c1 Inr c2 True p l by (auto simp: build_allocation_def Let_def checked_sum is_ok_iff)
        obtain f s where fs: "sb_buffer sb1 = Some f" "sb_buffer sb2 = Some s"
            "f \<noteq> s \<longrightarrow> be_load be f (fst d3) = replicate l1 0 \<and> be_load be s (fst d3) = replicate l2 0"
          using gp l(1) by auto
        have "f \<noteq> s" using disj(1) fs(1,2) by auto
        with fs g1 g2 Inr True l(2) own [of a] assms(4-8) have "fresh_allocation (sa_mode a0) a d3"
          by (auto simp: eq fresh_allocation_def)
        then show ?thesis using g3 own [of a] eq assms(4) by simp
      qed
    qed
  qed
qed

lemma create_allocation_spec:
  assumes "create_allocation be mode d = (r, d')"
  shows "case r of
      Inr a \<Rightarrow> fresh_allocation mode a d' \<and> gained d d' (owned_bufs a) (owned_fbs a) 0
    | Inl _ \<Rightarrow> bufs (fst d) \<subseteq> bufs (fst d') \<and> fbs (fst d) \<subseteq> fbs (fst d')
        \<and> (cleanup_total be \<longrightarrow> bufs (fst d') = bufs (fst d) \<and> fbs (fst d') = fbs (fst d))
        \<and> int (card (fbs (fst d'))) - counted_fbs (snd d') = int (card (fbs (fst d))) - counted_fbs (snd d)
        \<and> open_maps (snd d') = open_maps (snd d)"
proof -
  obtain w h where sz: "be_mode_size be mode = (w, h)" by fastforce
  show ?thesis
  proof (cases "0 < w \<and> 0 < h")
    case False
    with assms sz show ?thesis by (auto simp: create_allocation_def)
  next
    case True
    let ?a0 = "\<lparr> sa_mode = mode, sa_width = w, sa_height = h, sa_first = default_scanout_buffer,
      sa_second = default_scanout_buffer, sa_pitch = 0, sa_front_buffer_index = 0, sa_live_bytes = 0, sa_released = False \<rparr>"
    obtain rb a d1 where b: "build_allocation be ?a0 d = (rb, a, d1)" by (rule prod_cases3)
    have spec: "gained d d1 (owned_bufs a) (owned_fbs a) 0" "allocation_ok a" "\<not> sa_released a"
        "is_ok rb \<Longrightarrow> fresh_allocation mode a d1"
      using build_allocation_spec [OF b] sz True by simp_all
    show ?thesis
    proof (cases rb)
      case (Inr u)
      with assms sz True b have eq: "r = Ok a" "d' = (fst d1, count_allocation (snd d1))"
        by (simp_all add: create_allocation_def)
      have "gained d d' (owned_bufs a) (owned_fbs a) 0"
        using spec(1) unfolding eq(2) gained_def fst_conv snd_conv counted_fbs_simps open_maps_simps .
      then show ?thesis using spec(4) Inr eq by (simp add: fresh_allocation_def)
    next
      case (Inl e)
      obtain rr a' d2 where rel: "release_allocation be a d1 = (rr, a', d2)" by (rule prod_cases3)
      have sub: "owned_bufs a \<subseteq> bufs (fst d1)" "owned_fbs a \<subseteq> fbs (fst d1)" using spec(1) by (auto simp: gained_def)
      have "lost d1 d2 (owned_bufs a) (owned_fbs a) rr" using release_allocation_spec [OF rel spec(2) sub] by simp
      from gained_lost [OF spec(1) this] show ?thesis
        using assms sz True b Inl rel by (auto simp: create_allocation_def)
    qed
  qed
qed

text \<open>The waiting scanout: one buffer and one framebuffer.\<close>

definition fresh_waiting :: "'m \<Rightarrow> ('buf, 'fb, 'm) WaitingScanout \<Rightarrow> 'b dev \<Rightarrow> bool" where
  "fresh_waiting mode w d \<longleftrightarrow> \<not> ws_released w \<and> ws_mode w = mode \<and> ws_framebuffer w \<noteq> None
     \<and> (\<exists>buf. ws_buffer w = Some buf \<and> be_load be buf (fst d) = replicate (ws_live_bytes w) 0)"

lemma build_waiting_spec:
  assumes "build_waiting be w0 d = (r, w, d')" and "ws_buffer w0 = None" and "ws_framebuffer w0 = None" and "\<not> ws_released w0"
  shows "gained d d' (set_option (ws_buffer w)) (set_option (ws_framebuffer w)) 0 \<and> \<not> ws_released w
    \<and> (is_ok r \<longrightarrow> fresh_waiting (ws_mode w0) w d')"
proof -
  obtain r1 sb d1 where c: "create_scanout_buffer be (ws_width w0) (ws_height w0) d = (r1, sb, d1)" by (rule prod_cases3)
  note g = create_scanout_buffer_spec [OF c]
  show ?thesis
  proof (cases "is_ok r1")
    case False
    with assms c g show ?thesis by (cases r1) (auto simp: build_waiting_def sb_owns_def)
  next
    case True
    with g obtain buf where buf: "r1 = Ok ()" "sb_buffer sb = Some buf" "sb_framebuffer sb \<noteq> None" by (cases r1) auto
    obtain rm d2 where m: "map_tracked be buf d1 = (rm, d2)" by (meson surj_pair)
    note gm = gained_trans [OF g [THEN conjunct1] map_tracked_spec [OF m]]
    show ?thesis
    proof (cases rm)
      case (Inl e)
      with assms c buf m gm show ?thesis by (auto simp: build_waiting_def sb_owns_def)
    next
      case (Inr u)
      have "gained d (drop_mapping (fill_zero be buf d2)) (set_option (sb_buffer sb)) (set_option (sb_framebuffer sb)) 0"
        using gained_trans [OF gained_trans [OF gm fill_zero_gained] drop_mapping_gained] Inr by (simp add: sb_owns_def)
      moreover have "be_load be buf (fst (drop_mapping (fill_zero be buf d2))) = replicate (length (be_load be buf (fst d2))) 0"
        using load_store by (simp add: drop_mapping_def fill_zero_def)
      ultimately show ?thesis
        using assms c buf m Inr by (auto simp: build_waiting_def fresh_waiting_def Let_def)
    qed
  qed
qed

lemma create_waiting_spec:
  assumes "create_waiting_scanout be mode d = (r, d')"
  shows "case r of
      Inr w \<Rightarrow> fresh_waiting mode w d' \<and> gained d d' (set_option (ws_buffer w)) (set_option (ws_framebuffer w)) 0
    | Inl _ \<Rightarrow> bufs (fst d) \<subseteq> bufs (fst d') \<and> fbs (fst d) \<subseteq> fbs (fst d')
        \<and> (cleanup_total be \<longrightarrow> bufs (fst d') = bufs (fst d) \<and> fbs (fst d') = fbs (fst d))
        \<and> int (card (fbs (fst d'))) - counted_fbs (snd d') = int (card (fbs (fst d))) - counted_fbs (snd d)
        \<and> open_maps (snd d') = open_maps (snd d)"
proof -
  obtain w h where sz: "be_mode_size be mode = (w, h)" by fastforce
  show ?thesis
  proof (cases "0 < w \<and> 0 < h")
    case False
    with assms sz show ?thesis by (auto simp: create_waiting_scanout_def)
  next
    case True
    let ?w0 = "\<lparr> ws_mode = mode, ws_width = w, ws_height = h, ws_buffer = None, ws_framebuffer = None, ws_pitch = 0,
      ws_mapping_len = 0, ws_live_bytes = 0, ws_released = False \<rparr>"
    obtain rb a d1 where b: "build_waiting be ?w0 d = (rb, a, d1)" by (rule prod_cases3)
    have spec: "gained d d1 (set_option (ws_buffer a)) (set_option (ws_framebuffer a)) 0" "\<not> ws_released a"
        "is_ok rb \<Longrightarrow> fresh_waiting mode a d1"
      using build_waiting_spec [OF b] by simp_all
    show ?thesis
    proof (cases rb)
      case (Inr u)
      with assms sz True b have eq: "r = Ok a" "d' = (fst d1, count_allocation (snd d1))"
        by (simp_all add: create_waiting_scanout_def)
      have "gained d d' (set_option (ws_buffer a)) (set_option (ws_framebuffer a)) 0"
        using spec(1) unfolding eq(2) gained_def fst_conv snd_conv counted_fbs_simps open_maps_simps .
      then show ?thesis using spec(3) Inr eq by (simp add: fresh_waiting_def)
    next
      case (Inl e)
      obtain rr a' d2 where rel: "release_waiting be a d1 = (rr, a', d2)" by (rule prod_cases3)
      have "waiting_ok a" "set_option (ws_framebuffer a) \<subseteq> fbs (fst d1)"
        using spec(1,2) by (auto simp: gained_def waiting_ok_def)
      from release_waiting_spec [OF rel this]
      have "lost d1 d2 (set_option (ws_buffer a)) (set_option (ws_framebuffer a)) rr" by simp
      from gained_lost [OF spec(1) this] show ?thesis
        using assms sz True b Inl rel by (auto simp: create_waiting_scanout_def)
    qed
  qed
qed

lemma with_mapped_spec:
  assumes "with_mapped be w callback d = (r, d')"
  shows "gained d d' {} {} 0"
proof -
  have g: "gained d1 (be_store be buf mem (fst d1), snd d1) {} {} 0" for d1 buf mem
    using store_law by (simp add: gained_def)
  show ?thesis
  proof (cases "ws_released w \<or> ws_buffer w = None")
    case True
    with assms show ?thesis by (auto simp: with_mapped_def gained_refl split: option.splits if_splits)
  next
    case False
    then obtain buf where b: "\<not> ws_released w" "ws_buffer w = Some buf" by auto
    obtain rm d1 where m: "map_tracked be buf d = (rm, d1)" by (meson surj_pair)
    note gm = map_tracked_spec [OF m]
    show ?thesis
      using assms b m gm gained_trans [OF gained_trans [OF gm g] drop_mapping_gained]
      by (cases rm) (auto simp: with_mapped_def split: prod.splits)
  qed
qed

end

section \<open>The DRM backend meets the contract\<close>

text \<open>A backend whose calls that only show a framebuffer leave the objects and their memory alone.\<close>

locale presenting_backend = scanout_backend +
  assumes flip_law: "be_page_flip be fb b = (u, b') \<Longrightarrow> bufs b' = bufs b \<and> fbs b' = fbs b"
    and dirty_keeps: "be_dirty_framebuffer be fb x1 y1 x2 y2 b = (u, b') \<Longrightarrow> be_load be buf b' = be_load be buf b"
    and crtc_keeps: "be_set_crtc be fb mode b = (u, b') \<Longrightarrow> be_load be buf b' = be_load be buf b"
    and flip_keeps: "be_page_flip be fb b = (u, b') \<Longrightarrow> be_load be buf b' = be_load be buf b"

text \<open>
  The documented behaviour of the kernel's dumb buffer and framebuffer objects, as the contract of the
  card; the backend that forwards to it is a \<open>presenting_backend\<close>.
\<close>

locale drm_kernel =
  fixes dri :: "('k, 'buf, 'fb, 'm, 'crtc, 'conn) drm_card"
    and bufs :: "'k \<Rightarrow> 'buf set"
    and fbs :: "'k \<Rightarrow> 'fb set"
    and crtc :: 'crtc
    and connector :: 'conn
    and format :: TransferFormat
  assumes card_finite: "finite (fbs k)"
    and card_create: "card_create_dumb_buffer dri sz fcc n k = (r, k') \<Longrightarrow> fbs k' = fbs k
      \<and> (case r of Inl _ \<Rightarrow> bufs k' = bufs k | Inr buf \<Rightarrow> buf \<notin> bufs k \<and> bufs k' = insert buf (bufs k))"
    and card_add: "card_add_framebuffer dri buf dep n k = (q, k') \<Longrightarrow> bufs k' = bufs k
      \<and> (case q of Inl _ \<Rightarrow> fbs k' = fbs k | Inr fb \<Rightarrow> fb \<notin> fbs k \<and> fbs k' = insert fb (fbs k))"
    and card_map: "card_map_dumb_buffer dri buf k = (u, k') \<Longrightarrow> bufs k' = bufs k \<and> fbs k' = fbs k"
    and card_store_objects: "bufs (card_store dri buf mem k) = bufs k \<and> fbs (card_store dri buf mem k) = fbs k"
    and card_load_store: "length mem = length (card_load dri buf k) \<Longrightarrow> card_load dri buf (card_store dri buf mem k) = mem"
    and card_load_other: "buf' \<noteq> buf \<Longrightarrow> card_load dri buf' (card_store dri buf mem k) = card_load dri buf' k"
    and card_remove: "card_destroy_framebuffer dri fb k = (u, k') \<Longrightarrow> bufs k' = bufs k
      \<and> fbs k' = (if is_ok u then fbs k - {fb} else fbs k)"
    and card_destroy: "card_destroy_dumb_buffer dri buf k = (u, k') \<Longrightarrow> fbs k' = fbs k
      \<and> bufs k' = (if is_ok u then bufs k - {buf} else bufs k)"
    and card_dirty: "card_dirty_framebuffer dri fb clips k = (u, k') \<Longrightarrow> bufs k' = bufs k \<and> fbs k' = fbs k"
    and card_crtc: "card_set_crtc dri cr fbo pos conns mo k = (u, k') \<Longrightarrow> bufs k' = bufs k \<and> fbs k' = fbs k"
    and card_flip: "card_page_flip dri cr fb k = (u, k') \<Longrightarrow> bufs k' = bufs k \<and> fbs k' = fbs k"
    and card_dirty_keeps: "card_dirty_framebuffer dri fb clips k = (u, k') \<Longrightarrow> card_load dri buf k' = card_load dri buf k"
    and card_crtc_keeps: "card_set_crtc dri cr fbo pos conns mo k = (u, k') \<Longrightarrow> card_load dri buf k' = card_load dri buf k"
    and card_flip_keeps: "card_page_flip dri cr fb k = (u, k') \<Longrightarrow> card_load dri buf k' = card_load dri buf k"

sublocale drm_kernel \<subseteq> drm: presenting_backend "drm_backend dri crtc connector format" bufs fbs
  unfolding presenting_backend_def presenting_backend_axioms_def scanout_backend_def drm_backend_def backend.select_convs
  by (intro conjI; intro allI impI,
      (rule card_finite card_store_objects
        | erule card_create card_add card_map card_load_store card_load_other card_remove card_destroy card_dirty card_crtc
            card_flip card_dirty_keeps card_crtc_keeps card_flip_keeps))

text \<open>
  A kernel with finitely many objects for the examples: handles are numbers, a buffer knows its pitch, and
  its memory is \<open>pitch * height\<close> bytes.
\<close>

record sim_kernel =
  sim_next :: nat
  sim_bufs :: "(nat \<times> u32) list"
  sim_fbs :: "nat list"
  sim_mem :: "nat \<times> u32 \<Rightarrow> bytes"

definition fresh_handle :: "sim_kernel \<Rightarrow> nat" where
  "fresh_handle k = Suc (fold max (map fst (sim_bufs k) @ sim_fbs k) 0)"

definition sim_card :: "(sim_kernel, nat \<times> u32, nat, u16 \<times> u16, unit, unit) drm_card" where
  "sim_card =
     \<lparr> card_mode_size = (\<lambda>m. m),
       card_create_dumb_buffer = (\<lambda>(w, h) fcc n k.
         let buf = (fresh_handle k, w * (n div 8)) in
         (Ok buf, k\<lparr> sim_bufs := buf # sim_bufs k,
                      sim_mem := (sim_mem k)(buf := replicate (unat (w * (n div 8)) * unat h) 7) \<rparr>)),
       card_pitch = snd,
       card_add_framebuffer = (\<lambda>buf dep n k. (Ok (fresh_handle k), k\<lparr> sim_fbs := fresh_handle k # sim_fbs k \<rparr>)),
       card_map_dumb_buffer = (\<lambda>buf k. (Ok (), k)),
       card_load = (\<lambda>buf k. sim_mem k buf),
       card_store = (\<lambda>buf mem k. k\<lparr> sim_mem := (sim_mem k)(buf := mem) \<rparr>),
       card_destroy_framebuffer = (\<lambda>fb k. (Ok (), k\<lparr> sim_fbs := removeAll fb (sim_fbs k) \<rparr>)),
       card_destroy_dumb_buffer = (\<lambda>buf k. (Ok (), k\<lparr> sim_bufs := removeAll buf (sim_bufs k) \<rparr>)),
       card_dirty_framebuffer = (\<lambda>fb clips k. (Ok (), k)),
       card_set_crtc = (\<lambda>crtc fb pos conns m k. (Ok (), k)),
       card_page_flip = (\<lambda>crtc fb k. (Ok (), k)) \<rparr>"

lemma fresh_handle_new: "(fresh_handle k, p) \<notin> set (sim_bufs k)" "fresh_handle k \<notin> set (sim_fbs k)"
proof -
  let ?xs = "map fst (sim_bufs k) @ sim_fbs k"
  have "x < fresh_handle k" if "x \<in> set ?xs" for x
    using that Max.set_eq_fold [of 0 ?xs] Max_ge [of "set (0 # ?xs)" x] by (simp add: fresh_handle_def less_Suc_eq_le)
  then show "(fresh_handle k, p) \<notin> set (sim_bufs k)" "fresh_handle k \<notin> set (sim_fbs k)"
    by (force, fastforce)
qed

interpretation sim: drm_kernel sim_card "set \<circ> sim_bufs" "set \<circ> sim_fbs" "()" "()" Rgb565
proof (unfold_locales, goal_cases)
  case (2 sz fcc n k r k')
  then show ?case using fresh_handle_new by (cases sz) (auto simp: sim_card_def Let_def)
next
  case (3 buf dep n k q k')
  then show ?case using fresh_handle_new by (auto simp: sim_card_def)
qed (auto simp: sim_card_def)

section \<open>Properties\<close>


definition sim_start :: "sim_kernel dev" where
  "sim_start = (\<lparr> sim_next = 0, sim_bufs = [], sim_fbs = [], sim_mem = (\<lambda>_. []) \<rparr>, default_counters)"


end
