(* ===== verification/Drm_Config.thy ===== *)
theory Drm_Config
  imports Drm_Raster Drm_Modes Gud_Endpoint
begin

text \<open>
  Startup of the display service up to the DRM modeset (\<^verbatim>\<open>drm/src/main.rs\<close>): parsing of the
  environment, the consistency checks between the options, descriptor limits, the mode catalog that is
  advertised, the memory estimate of \<^verbatim>\<open>drm/src/scanout.rs\<close>, and the row checksum of the trace.

  An environment value is absent, not valid UTF-8, or a string. Strings are ASCII; \<open>trim\<close> removes the
  ASCII white space.
\<close>

section \<open>Environment values\<close>

datatype os_str = Utf8 string | NonUtf8

type_synonym env_value = "os_str option"

definition and_then :: "'a result \<Rightarrow> ('a \<Rightarrow> 'b result) \<Rightarrow> 'b result" where
  "and_then r f = (case r of Inl e \<Rightarrow> Inl e | Inr x \<Rightarrow> f x)"

definition ensure :: "bool \<Rightarrow> string \<Rightarrow> 'a result \<Rightarrow> 'a result" where
  "ensure c msg k = (if c then k else Err msg)"

fun to_str :: "os_str \<Rightarrow> string option" where
  "to_str (Utf8 s) = Some s"
| "to_str NonUtf8 = None"

text \<open>\<open>str::parse\<close> for an unsigned type with \<open>bound\<close> values: an optional plus sign and decimal digits.\<close>

definition digit_value :: "char \<Rightarrow> nat option" where
  "digit_value c = (let n = of_char c :: nat in if 48 \<le> n \<and> n \<le> 57 then Some (n - 48) else None)"

fun parse_digits :: "nat \<Rightarrow> string \<Rightarrow> nat option" where
  "parse_digits acc [] = Some acc"
| "parse_digits acc (c # cs) =
     (case digit_value c of None \<Rightarrow> None | Some d \<Rightarrow> parse_digits (acc * 10 + d) cs)"

definition parse_unsigned :: "nat \<Rightarrow> string \<Rightarrow> nat option" where
  "parse_unsigned bound s =
     (let digits = (case s of [] \<Rightarrow> [] | c # cs \<Rightarrow> if c = CHR ''+'' \<and> cs \<noteq> [] then cs else s) in
      if digits = [] then None
      else case parse_digits 0 digits of
        None \<Rightarrow> None
      | Some v \<Rightarrow> if v < bound then Some v else None)"

definition is_ws :: "char \<Rightarrow> bool" where
  "is_ws c \<longleftrightarrow> c = CHR '' '' \<or> (9 \<le> (of_char c :: nat) \<and> (of_char c :: nat) \<le> 13)"

definition trim :: "string \<Rightarrow> string" where
  "trim s = rev (dropWhile is_ws (rev (dropWhile is_ws s)))"

definition ascii_lower :: "char \<Rightarrow> char" where
  "ascii_lower c = (let n = of_char c :: nat in if 65 \<le> n \<and> n \<le> 90 then char_of (n + 32) else c)"

definition to_ascii_lowercase :: "string \<Rightarrow> string" where
  "to_ascii_lowercase s = map ascii_lower s"

definition split_once :: "char \<Rightarrow> string \<Rightarrow> (string \<times> string) option" where
  "split_once c s = (if c \<in> set s then Some (takeWhile ((\<noteq>) c) s, tl (dropWhile ((\<noteq>) c) s)) else None)"

section \<open>Options\<close>

abbreviation (input) BULK_RECEIVE_DEADLINE :: nat where "BULK_RECEIVE_DEADLINE \<equiv> 1000"
abbreviation (input) E1_T05_INFLIGHT_DEADLINE_MAX :: nat where "E1_T05_INFLIGHT_DEADLINE_MAX \<equiv> 120000"
abbreviation (input) DEFAULT_FUNCTIONFS_BULK_OUT_READ_SIZE :: usize where
  "DEFAULT_FUNCTIONFS_BULK_OUT_READ_SIZE \<equiv> 16384"
abbreviation (input) STATUS_ON_SET_DIAGNOSTIC_TRANSACTION_LIMIT :: u8 where
  "STATUS_ON_SET_DIAGNOSTIC_TRANSACTION_LIMIT \<equiv> 2"

definition parse_e1_t05_inflight_deadline :: "bool \<Rightarrow> env_value \<Rightarrow> nat result" where
  "parse_e1_t05_inflight_deadline debug_assertions raw =
     (case raw of
        None \<Rightarrow> Ok BULK_RECEIVE_DEADLINE
      | Some v \<Rightarrow>
          ensure debug_assertions ''unavailable in release builds''
          (and_then (ctx (to_str v) ''must be valid UTF-8'') (\<lambda>s.
           and_then (ctx (parse_unsigned (2 ^ 64) s) ''must be an integer'') (\<lambda>ms.
           ensure (BULK_RECEIVE_DEADLINE < ms \<and> ms \<le> E1_T05_INFLIGHT_DEADLINE_MAX) ''deadline out of range''
           (Ok ms)))))"

text \<open>The processing barrier: its directory, when it is requested.\<close>

definition processing_barrier_from_env :: "bool \<Rightarrow> env_value \<Rightarrow> env_value \<Rightarrow> os_str option result" where
  "processing_barrier_from_env debug_assertions requested directory =
     ensure ((requested \<noteq> None) = (directory \<noteq> None)) ''must be set together''
     (case requested of
        None \<Rightarrow> Ok None
      | Some r \<Rightarrow>
          ensure debug_assertions ''unavailable in release builds''
          (ensure (r = Utf8 ''processing-before-idle'') ''must be processing-before-idle''
          (Ok directory)))"

datatype FrameDumpMode = Disabled | SingleFrame

definition frame_dump_from_env :: "env_value \<Rightarrow> FrameDumpMode result" where
  "frame_dump_from_env value =
     (let v = (case Option.bind value to_str of None \<Rightarrow> ''disabled'' | Some s \<Rightarrow> s) in
      if v = ''disabled'' then Ok Disabled
      else if v = ''single-frame'' then Ok SingleFrame
      else Err ''GUD_FRAME_DUMP_MODE must be disabled or single-frame'')"

definition permits_startup_dump :: "FrameDumpMode \<Rightarrow> bool" where
  "permits_startup_dump m \<longleftrightarrow> m = SingleFrame"

datatype PatternMode = POff | PStartup | PHold | PUsb

definition pattern_from_env :: "env_value \<Rightarrow> PatternMode" where
  "pattern_from_env raw =
     (case raw of
        None \<Rightarrow> POff
      | Some NonUtf8 \<Rightarrow> POff
      | Some (Utf8 s) \<Rightarrow>
          (let v = to_ascii_lowercase (trim s) in
           if v = ''off'' then POff
           else if v = ''startup'' then PStartup
           else if v = ''hold'' then PHold
           else if v = ''usb'' then PUsb
           else POff))"

definition uses_startup_pattern :: "PatternMode \<Rightarrow> bool" where
  "uses_startup_pattern m \<longleftrightarrow> m = PStartup \<or> m = PHold \<or> m = PUsb"

definition transfer_format_from_env :: "env_value \<Rightarrow> TransferFormat result" where
  "transfer_format_from_env raw =
     (case raw of
        None \<Rightarrow> Ok Rgb565
      | Some v \<Rightarrow>
          and_then (ctx (to_str v) ''GUD_TRANSFER_FORMAT must be valid UTF-8'') (\<lambda>s.
            let f = to_ascii_lowercase (trim s) in
            if f = ''rgb565'' then Ok Rgb565
            else if f = ''rgb888'' then Ok Rgb888
            else if f = ''xrgb8888'' then Ok Xrgb8888
            else Err ''invalid GUD_TRANSFER_FORMAT''))"

definition parse_functionfs_read_size :: "env_value \<Rightarrow> usize result" where
  "parse_functionfs_read_size raw =
     (case raw of
        None \<Rightarrow> Ok DEFAULT_FUNCTIONFS_BULK_OUT_READ_SIZE
      | Some v \<Rightarrow>
          and_then (ctx (to_str v) ''GUD_FFS_READ_SIZE must be valid UTF-8'') (\<lambda>s.
          ctx (parse_unsigned usize_bound s) ''invalid GUD_FFS_READ_SIZE''))"

definition parse_test_compression :: "env_value \<Rightarrow> u8 result" where
  "parse_test_compression raw =
     (case raw of
        None \<Rightarrow> Ok GUD_COMPRESSION_LZ4
      | Some v \<Rightarrow>
          and_then (ctx (to_str v) ''GUD_TEST_COMPRESSION must be valid UTF-8'') (\<lambda>s.
            if s = ''lz4'' then Ok GUD_COMPRESSION_LZ4
            else if s = ''none'' then Ok 0
            else Err ''invalid GUD_TEST_COMPRESSION''))"

definition parse_test_max_buffer_size :: "env_value \<Rightarrow> u32 option result" where
  "parse_test_max_buffer_size raw =
     (case raw of
        None \<Rightarrow> Ok None
      | Some v \<Rightarrow>
          and_then (ctx (to_str v) ''GUD_TEST_MAX_BUFFER_SIZE must be valid UTF-8'') (\<lambda>s.
          and_then (ctx (parse_unsigned (2 ^ 32) s) ''invalid GUD_TEST_MAX_BUFFER_SIZE'') (\<lambda>n.
          ensure (0 < n) ''GUD_TEST_MAX_BUFFER_SIZE must be greater than zero'' (Ok (Some (of_nat n))))))"

definition parse_test_prearm_once_bytes :: "env_value \<Rightarrow> usize option result" where
  "parse_test_prearm_once_bytes raw =
     (case raw of
        None \<Rightarrow> Ok None
      | Some v \<Rightarrow>
          and_then (ctx (to_str v) ''GUD_TEST_PREARM_ONCE_BYTES must be valid UTF-8'') (\<lambda>s.
          and_then (ctx (parse_unsigned usize_bound s) ''invalid GUD_TEST_PREARM_ONCE_BYTES'') (\<lambda>n.
          ensure (4 * 1024 \<le> n \<and> n \<le> 64 * 1024 \<and> n mod 512 = 0) ''must be a 512-byte multiple from 4096 through 65536''
          (Ok (Some n)))))"

text \<open>Both STATUS_ON_SET options have the same parser, with the option's name in the messages.\<close>

definition parse_exactly_12800 :: "env_value \<Rightarrow> usize option result" where
  "parse_exactly_12800 raw =
     (case raw of
        None \<Rightarrow> Ok None
      | Some v \<Rightarrow>
          and_then (ctx (to_str v) ''must be valid UTF-8'') (\<lambda>s.
          and_then (ctx (parse_unsigned usize_bound s) ''invalid byte count'') (\<lambda>n.
          ensure (n = 12800) ''diagnostic mode requires exactly 12800'' (Ok (Some n)))))"

definition parse_test_status_on_set_bytes :: "env_value \<Rightarrow> usize option result" where
  "parse_test_status_on_set_bytes = parse_exactly_12800"

definition parse_test_status_on_set_two_transactions_bytes :: "env_value \<Rightarrow> usize option result" where
  "parse_test_status_on_set_two_transactions_bytes = parse_exactly_12800"

definition parse_flag_1 :: "env_value \<Rightarrow> bool result" where
  "parse_flag_1 raw =
     (case raw of
        None \<Rightarrow> Ok False
      | Some v \<Rightarrow>
          and_then (ctx (to_str v) ''must be valid UTF-8'') (\<lambda>s.
          ensure (s = ''1'') ''expected exactly 1'' (Ok True)))"

definition parse_test_dynamic_mode_match :: "env_value \<Rightarrow> bool result" where
  "parse_test_dynamic_mode_match = parse_flag_1"

definition parse_test_row_crc_trace :: "env_value \<Rightarrow> bool result" where
  "parse_test_row_crc_trace = parse_flag_1"

record TestOutputMode =
  to_width :: u16
  to_height :: u16

definition parse_test_output_mode :: "env_value \<Rightarrow> TestOutputMode option result" where
  "parse_test_output_mode raw =
     (case raw of
        None \<Rightarrow> Ok None
      | Some v \<Rightarrow>
          and_then (ctx (to_str v) ''GUD_TEST_OUTPUT_MODE must be valid UTF-8'') (\<lambda>s.
          and_then (ctx (split_once (CHR ''x'') s) ''GUD_TEST_OUTPUT_MODE must use WIDTHxHEIGHT'') (\<lambda>(ws, hs).
          and_then (ctx (parse_unsigned (2 ^ 16) ws) ''invalid GUD_TEST_OUTPUT_MODE width'') (\<lambda>w.
          and_then (ctx (parse_unsigned (2 ^ 16) hs) ''invalid GUD_TEST_OUTPUT_MODE height'') (\<lambda>h.
          ensure (0 < w \<and> 0 < h) ''GUD_TEST_OUTPUT_MODE dimensions must be greater than zero''
          (Ok (Some \<lparr> to_width = of_nat w, to_height = of_nat h \<rparr>)))))))"

section \<open>The startup configuration\<close>

record Env =
  env_ffs_read_size :: env_value
  env_compression :: env_value
  env_max_buffer_size :: env_value
  env_prearm_once :: env_value
  env_receive_mode :: env_value
  env_status_on_set :: env_value
  env_status_on_set_two :: env_value
  env_output_mode :: env_value
  env_dynamic_mode_match :: env_value
  env_barrier :: env_value
  env_barrier_dir :: env_value
  env_inflight_deadline :: env_value
  env_frame_dump :: env_value
  env_pattern :: env_value
  env_transfer_format :: env_value
  env_row_crc :: env_value

record StartupConfig =
  cfg_read_size :: usize
  cfg_aio_mode :: bool
  cfg_deadline :: nat
  cfg_barrier :: "os_str option"
  cfg_compression :: u8
  cfg_max_buffer_size :: "u32 option"
  cfg_prearm_bytes :: "usize option"
  cfg_status_on_set_bytes :: "usize option"
  cfg_transaction_limit :: u8
  cfg_output_mode :: "TestOutputMode option"
  cfg_endpoint :: PixelDataEndpoint
  cfg_frame_dump :: FrameDumpMode
  cfg_pattern :: PatternMode
  cfg_format :: TransferFormat
  cfg_row_crc :: bool

definition prearm_requirements :: "usize option \<Rightarrow> u32 option \<Rightarrow> u8 \<Rightarrow> usize \<Rightarrow> unit result" where
  "prearm_requirements prearm max_buffer compression read_size =
     (case prearm of
        None \<Rightarrow> Ok ()
      | Some n \<Rightarrow>
          ensure (max_buffer = Some (of_nat n)) ''prearm requires an identical GUD_TEST_MAX_BUFFER_SIZE''
          (ensure (compression = 0) ''prearm requires GUD_TEST_COMPRESSION=none''
          (ensure (n \<le> read_size) ''prearm exceeds GUD_FFS_READ_SIZE'' (Ok ()))))"

definition status_on_set_requirements :: "usize option \<Rightarrow> usize option \<Rightarrow> u32 option \<Rightarrow> u8 \<Rightarrow> unit result" where
  "status_on_set_requirements status prearm max_buffer compression =
     (case status of
        None \<Rightarrow> Ok ()
      | Some n \<Rightarrow>
          ensure (prearm = None) ''cannot be combined with old prearm mode''
          (ensure (max_buffer = Some (of_nat n)) ''requires an identical GUD_TEST_MAX_BUFFER_SIZE''
          (ensure (compression = 0) ''requires GUD_TEST_COMPRESSION=none'' (Ok ()))))"

text \<open>The first part of \<open>main\<close>, in the order of its checks.\<close>

definition startup_config :: "bool \<Rightarrow> Env \<Rightarrow> StartupConfig result" where
  "startup_config debug_assertions env =
     and_then (parse_functionfs_read_size (env_ffs_read_size env)) (\<lambda>read_size.
     let receive_mode = (case Option.bind (env_receive_mode env) to_str of
           None \<Rightarrow> ''status-on-set-aio'' | Some s \<Rightarrow> s) in
     ensure (receive_mode = ''status-on-set-aio'' \<or> receive_mode = ''blocking'')
       ''GUD_RECEIVE_MODE must be status-on-set-aio or blocking'' (
     let aio_mode = (receive_mode = ''status-on-set-aio'') in
     and_then (processing_barrier_from_env debug_assertions (env_barrier env) (env_barrier_dir env)) (\<lambda>barrier.
     and_then (parse_e1_t05_inflight_deadline debug_assertions (env_inflight_deadline env)) (\<lambda>deadline.
     and_then (parse_test_compression (env_compression env)) (\<lambda>compression.
     and_then (parse_test_max_buffer_size (env_max_buffer_size env)) (\<lambda>max_buffer.
     and_then (parse_test_prearm_once_bytes (env_prearm_once env)) (\<lambda>prearm.
     and_then (parse_test_status_on_set_bytes (env_status_on_set env)) (\<lambda>one.
     and_then (parse_test_status_on_set_two_transactions_bytes (env_status_on_set_two env)) (\<lambda>two.
     ensure (one = None \<or> two = None) ''the STATUS_ON_SET options cannot be combined'' (
     let status = (if one = None then two else one);
         limit = (if two \<noteq> None then STATUS_ON_SET_DIAGNOSTIC_TRANSACTION_LIMIT
                  else if status \<noteq> None then 1 else 0) in
     and_then (parse_test_output_mode (env_output_mode env)) (\<lambda>output_mode.
     and_then (parse_test_dynamic_mode_match (env_dynamic_mode_match env)) (\<lambda>_.
     and_then (prearm_requirements prearm max_buffer compression read_size) (\<lambda>_.
     and_then (status_on_set_requirements status prearm max_buffer compression) (\<lambda>_.
     ensure (\<not> (aio_mode \<and> prearm \<noteq> None)) ''status-on-set-aio cannot be combined with old blocking prearm mode'' (
     ensure (aio_mode \<or> status = None) ''blocking mode cannot be combined with STATUS_ON_SET diagnostics'' (
     and_then (new_with_read_size read_size) (\<lambda>endpoint.
     and_then (frame_dump_from_env (env_frame_dump env)) (\<lambda>frame_dump.
     and_then (transfer_format_from_env (env_transfer_format env)) (\<lambda>format.
     and_then (parse_test_row_crc_trace (env_row_crc env)) (\<lambda>row_crc.
     Ok \<lparr> cfg_read_size = read_size, cfg_aio_mode = aio_mode, cfg_deadline = deadline, cfg_barrier = barrier,
          cfg_compression = compression, cfg_max_buffer_size = max_buffer, cfg_prearm_bytes = prearm,
          cfg_status_on_set_bytes = status, cfg_transaction_limit = limit, cfg_output_mode = output_mode,
          cfg_endpoint = endpoint, cfg_frame_dump = frame_dump, cfg_pattern = pattern_from_env (env_pattern env),
          cfg_format = format, cfg_row_crc = row_crc \<rparr>))))))))))))))))))))"

section \<open>Output mode, descriptor limits and catalog\<close>

text \<open>
  The DRM mode type is a type variable. \<open>timing\<close> stands for the copy of its accessors into a
  \<open>DisplayMode\<close> that \<open>main\<close> makes, so a mode's size is the active size of its timing;
  \<open>preferred\<close> says whether its type has the preferred flag.
\<close>

definition mode_size :: "DisplayMode \<Rightarrow> u16 \<times> u16" where
  "mode_size t = (dm_hdisplay t, dm_vdisplay t)"

definition select_output_mode :: "('m \<Rightarrow> DisplayMode) \<Rightarrow> 'm list \<Rightarrow> TestOutputMode option \<Rightarrow> 'm result" where
  "select_output_mode timing connector_modes test_output_mode =
     (case connector_modes of
        [] \<Rightarrow> Err ''connected DRM connector has no modes''
      | first # _ \<Rightarrow>
          (case test_output_mode of
             None \<Rightarrow> Ok first
           | Some requested \<Rightarrow>
               ctx (find (\<lambda>m. mode_size (timing m) = (to_width requested, to_height requested)) connector_modes)
                 ''GUD_TEST_OUTPUT_MODE is not supported by the connected DRM connector''))"

definition SYNTHETIC_PORTRAIT_SIZES :: "(u16 \<times> u16) list" where
  "SYNTHETIC_PORTRAIT_SIZES = [(900, 1900), (810, 1710), (720, 1520)]"

record SizeLimits =
  lim_min_width :: u32
  lim_max_width :: u32
  lim_min_height :: u32
  lim_max_height :: u32

definition widen_limits :: "u16 \<times> u16 \<Rightarrow> SizeLimits \<Rightarrow> SizeLimits" where
  "widen_limits sz l =
     (let width = ucast (fst sz); height = ucast (snd sz) in
      \<lparr> lim_min_width = (if width < lim_min_width l then width else lim_min_width l),
        lim_max_width = (if width > lim_max_width l then width else lim_max_width l),
        lim_min_height = (if height < lim_min_height l then height else lim_min_height l),
        lim_max_height = (if height > lim_max_height l then height else lim_max_height l) \<rparr>)"

definition size_limits :: "(u16 \<times> u16) list \<Rightarrow> SizeLimits" where
  "size_limits sizes =
     (let l = fold widen_limits (sizes @ SYNTHETIC_PORTRAIT_SIZES)
            \<lparr> lim_min_width = - 1, lim_max_width = 0, lim_min_height = - 1, lim_max_height = 0 \<rparr> in
      \<lparr> lim_min_width = min (lim_min_width l) 640, lim_max_width = max (lim_max_width l) 1920,
        lim_min_height = min (lim_min_height l) 480, lim_max_height = max (lim_max_height l) 1080 \<rparr>)"

definition serialized_max_buffer_size :: "(u16 \<times> u16) list \<Rightarrow> u32 option \<Rightarrow> TransferFormat \<Rightarrow> u32 result" where
  "serialized_max_buffer_size sizes descriptor_max_buffer_size format =
     (let pixels = map (\<lambda>(w, h). ucast w * ucast h :: u32) (sizes @ SYNTHETIC_PORTRAIT_SIZES) in
      and_then (ctx (case pixels of [] \<Rightarrow> None | p # ps \<Rightarrow> Some (fold max ps p))
        ''serialized descriptor mode catalog is empty'') (\<lambda>largest.
      and_then (ctx (checked_mul largest (of_nat (format_bytes format)))
        ''serialized descriptor maximum buffer size overflow'') (\<lambda>frame.
      Ok (case descriptor_max_buffer_size of None \<Rightarrow> frame | Some n \<Rightarrow> n))))"

fun collect_results :: "'a result list \<Rightarrow> 'a list result" where
  "collect_results [] = Ok []"
| "collect_results (r # rs) = and_then r (\<lambda>x. and_then (collect_results rs) (\<lambda>xs. Ok (x # xs)))"

definition synthetic_modes :: "DisplayMode list \<Rightarrow> DisplayMode \<Rightarrow> DisplayMode list result" where
  "synthetic_modes physical native =
     collect_results (map (\<lambda>(w, h). derive_mode_from_native native w h)
       (filter (\<lambda>(w, h). \<not> list_ex (\<lambda>t. dm_hdisplay t = w \<and> dm_vdisplay t = h) physical)
         SYNTHETIC_PORTRAIT_SIZES))"

definition startup_catalog ::
  "('m \<Rightarrow> DisplayMode) \<Rightarrow> ('m \<Rightarrow> bool) \<Rightarrow> 'm list \<Rightarrow> 'm RouteCatalog result" where
  "startup_catalog timing preferred connector_modes =
     (let preferred_mode_index = advertised_preferred_mode_index (map preferred connector_modes);
          physical = map (\<lambda>m. \<lparr> pc_mode = m, pc_timing = timing m \<rparr>) connector_modes in
      if \<not> preferred_mode_index < length physical then panic ''index out of bounds''
      else
        and_then (synthetic_modes (map timing connector_modes) (pc_timing (physical ! preferred_mode_index)))
          (\<lambda>synthetic. build_catalog 0 physical preferred_mode_index synthetic))"

section \<open>Memory estimate\<close>

abbreviation (input) SCANOUT_SLOT_COUNT :: usize where "SCANOUT_SLOT_COUNT \<equiv> 3"
abbreviation (input) BUFFERS_PER_SCANOUT :: usize where "BUFFERS_PER_SCANOUT \<equiv> 2"
abbreviation (input) WAITING_BUFFERS :: usize where "WAITING_BUFFERS \<equiv> 1"

record LogicalMemoryEstimate =
  max_shadow_bytes :: usize
  scanout_bytes :: usize
  peak_bytes :: usize

definition checked_bytes :: "u32 \<Rightarrow> u32 \<Rightarrow> usize \<Rightarrow> usize result" where
  "checked_bytes width height bytes_pp =
     ctx (Option.bind (checked_mul_usize (unat width) (unat height)) (\<lambda>pixels. checked_mul_usize pixels bytes_pp))
       ''mode byte calculation overflow''"

definition largest_bytes :: "(u32 \<times> u32) list \<Rightarrow> usize \<Rightarrow> string \<Rightarrow> usize result" where
  "largest_bytes sizes bytes_pp msg =
     and_then (collect_results (map (\<lambda>(w, h). checked_bytes w h bytes_pp) sizes)) (\<lambda>bs.
       case bs of [] \<Rightarrow> Err msg | b # rest \<Rightarrow> Ok (fold max rest b))"

definition logical_memory_estimate ::
  "(u32 \<times> u32) list \<Rightarrow> (u32 \<times> u32) list \<Rightarrow> usize \<Rightarrow> LogicalMemoryEstimate result" where
  "logical_memory_estimate physical_sizes advertised_sizes bytes_pp =
     and_then (largest_bytes physical_sizes bytes_pp ''physical mode catalog is empty'') (\<lambda>largest_physical.
     and_then (largest_bytes advertised_sizes bytes_pp ''advertised mode catalog is empty'') (\<lambda>shadow.
     and_then (ctx (Option.bind (checked_mul_usize largest_physical BUFFERS_PER_SCANOUT) (\<lambda>b.
                    Option.bind (checked_mul_usize b SCANOUT_SLOT_COUNT) (\<lambda>b.
                    Option.bind (checked_mul_usize largest_physical WAITING_BUFFERS) (\<lambda>waiting.
                    checked_add_usize b waiting))))
                ''logical scanout memory estimate overflow'') (\<lambda>scanout.
     and_then (ctx (checked_add_usize scanout shadow) ''logical peak memory estimate overflow'') (\<lambda>peak.
     Ok \<lparr> max_shadow_bytes = shadow, scanout_bytes = scanout, peak_bytes = peak \<rparr>))))"

section \<open>Row checksum\<close>

definition crc_bit :: "u32 \<Rightarrow> u32" where
  "crc_bit crc = drop_bit 1 crc XOR (0xedb88320 AND (0 - (crc AND 1)))"

definition crc_byte :: "u8 \<Rightarrow> u32 \<Rightarrow> u32" where
  "crc_byte byte crc = (crc_bit ^^ 8) (crc XOR ucast byte)"

definition row_crc32 :: "bytes \<Rightarrow> u32" where
  "row_crc32 bs = NOT (fold crc_byte bs (NOT 0))"

section \<open>Sequencing\<close>

lemma and_then_Inr: "and_then r f = Inr y \<longleftrightarrow> (\<exists>x. r = Inr x \<and> f x = Inr y)"
  by (cases r) (simp_all add: and_then_def)

lemma and_then_Ok [simp]: "and_then (Inr x) f = f x"
  by (simp add: and_then_def)

lemma ensure_Inr: "ensure c msg k = Inr y \<longleftrightarrow> c \<and> k = Inr y"
  by (simp add: ensure_def)

lemmas result_chain = and_then_Inr ensure_Inr

lemma collect_results_Inr:
  "collect_results rs = Inr xs \<longleftrightarrow> length xs = length rs \<and> (\<forall>i < length rs. rs ! i = Inr (xs ! i))"
proof (induction rs arbitrary: xs)
  case (Cons r rs)
  show ?case
    by (cases xs) (auto simp: and_then_Inr Cons.IH nth_Cons split: nat.splits)
qed auto

section \<open>Accepted options\<close>

lemma parse_digits_decimal:
  "parse_digits acc (map (\<lambda>d. char_of (d + 48)) ds) = Some (foldl (\<lambda>a d. a * 10 + d) acc ds)" if "\<forall>d \<in> set ds. d < 10"
  using that by (induction ds arbitrary: acc) (simp_all add: digit_value_def of_char_of)

lemma parse_unsigned_less: "parse_unsigned bound s = Some v \<Longrightarrow> v < bound"
  by (auto simp: parse_unsigned_def Let_def split: option.splits if_splits)

lemma parse_max_buffer_Inr:
  "parse_test_max_buffer_size raw = Ok r \<Longrightarrow> r \<noteq> Some 0"
  by (auto simp: parse_test_max_buffer_size_def result_chain word_of_nat_eq_0_iff
      split: option.splits dest!: parse_unsigned_less dest: nat_dvd_not_less)

lemma parse_prearm_Inr:
  "parse_test_prearm_once_bytes raw = Ok (Some n) \<Longrightarrow> 4096 \<le> n \<and> n \<le> 65536 \<and> n mod 512 = 0"
  by (auto simp: parse_test_prearm_once_bytes_def result_chain split: option.splits)

lemma parse_12800_Inr: "parse_exactly_12800 raw = Ok (Some n) \<Longrightarrow> n = 12800"
  by (auto simp: parse_exactly_12800_def result_chain split: option.splits)

lemma parse_deadline_Inr:
  "parse_e1_t05_inflight_deadline dbg raw = Ok d \<Longrightarrow> 1000 \<le> d \<and> d \<le> 120000 \<and> (\<not> dbg \<longrightarrow> d = 1000)"
  by (auto simp: parse_e1_t05_inflight_deadline_def result_chain split: option.splits)

lemma barrier_Inr:
  "processing_barrier_from_env dbg r d = Ok b \<Longrightarrow> (\<not> dbg \<longrightarrow> b = None) \<and> (b \<noteq> None \<longleftrightarrow> r \<noteq> None)"
  by (auto simp: processing_barrier_from_env_def result_chain split: option.splits)

lemma prearm_requirements_Inr:
  "prearm_requirements prearm mb c rs = Ok u \<Longrightarrow> prearm = Some n \<Longrightarrow> mb = Some (of_nat n) \<and> c = 0 \<and> n \<le> rs"
  by (auto simp: prearm_requirements_def result_chain)

lemma status_requirements_Inr:
  "status_on_set_requirements status prearm mb c = Ok u \<Longrightarrow> status = Some n \<Longrightarrow>
     prearm = None \<and> mb = Some (of_nat n) \<and> c = 0"
  by (auto simp: status_on_set_requirements_def result_chain)

lemma new_with_read_size_Inr:
  "new_with_read_size rs = Ok ep \<Longrightarrow> validate_functionfs_read_size rs = Ok () \<and> ep = build_endpoint rs False"
  by (auto simp: new_with_read_size_def split: sum.splits)

section \<open>Where advertised modes come from\<close>

text \<open>Every advertised mode repeats the timing of a physical or a synthetic mode.\<close>

definition timed_by :: "DisplayMode set \<Rightarrow> 'm CatalogEntry list \<Rightarrow> bool" where
  "timed_by T es \<longleftrightarrow> (\<forall>e \<in> set es. \<exists>t \<in> T. modes_have_same_user_timing (ce_advertised_mode e) t)"

lemma catalog_add_timed:
  "timed_by T (fst st) \<Longrightarrow> t \<in> T \<Longrightarrow> timed_by T (fst (catalog_add c t r st))"
  using normalize_advertised_timing [of t False]
  by (cases st) (auto simp: catalog_add_def Let_def timed_by_def)

lemma add_physical_timed:
  "timed_by T (fst st) \<Longrightarrow> pc_timing ` set ms \<subseteq> T \<Longrightarrow> timed_by T (fst (add_physical c ms st))"
  by (induction ms arbitrary: st) (simp_all add: catalog_add_timed)

lemma add_synthetic_timed:
  "timed_by T (fst st) \<Longrightarrow> set ms \<subseteq> T \<Longrightarrow> timed_by T (fst (add_synthetic c ms st))"
  by (induction ms arbitrary: st) (simp_all add: catalog_add_timed)

lemma mark_preferred_timed: "timed_by T es \<Longrightarrow> timed_by T (mark_preferred p es)"
  using normalize_advertised_timing same_user_timing_trans
  by (fastforce simp: timed_by_def mark_preferred_def dest: set_zip_rightD)

lemma build_catalog_timed:
  assumes "build_catalog c physical pi synthetic = Ok rc" and "m \<in> set (advertised_modes rc)"
  shows "\<exists>t \<in> pc_timing ` set physical \<union> set synthetic. modes_have_same_user_timing m t"
proof -
  let ?T = "pc_timing ` set physical \<union> set synthetic"
  obtain es1 bk1 where st1: "add_physical c physical ([], Map.empty) = (es1, bk1)" by fastforce
  obtain es2 bk2 where st2: "add_synthetic c synthetic (es1, bk1) = (es2, bk2)" by fastforce
  have "timed_by ?T es1" using add_physical_timed [of ?T "([], Map.empty)" physical c] st1 by (simp add: timed_by_def)
  then have "timed_by ?T es2" using add_synthetic_timed [of ?T "(es1, bk1)" synthetic c] st2 by simp
  moreover obtain p where "rc_entries rc = mark_preferred p es2"
    using assms(1) st1 st2 by (auto simp: build_catalog_def Let_def split: if_splits option.splits)
  ultimately have "timed_by ?T (rc_entries rc)" by (simp add: mark_preferred_timed)
  then show ?thesis using assms(2) by (auto simp: timed_by_def advertised_modes_def)
qed

lemma same_timing_size: "modes_have_same_user_timing m t \<Longrightarrow> mode_size m = mode_size t"
  by (simp add: modes_have_same_user_timing_def mode_size_def)

lemma derive_mode_size: "derive_mode_from_native native w h = Ok m \<Longrightarrow> mode_size m = (w, h)"
  by (auto simp: derive_mode_from_native_def Let_def mode_size_def split: sum.splits if_splits)

lemma synthetic_sizes:
  assumes "synthetic_modes physical native = Ok ms" and "m \<in> set ms"
  shows "mode_size m \<in> set SYNTHETIC_PORTRAIT_SIZES"
proof -
  let ?want = "filter (\<lambda>(w, h). \<not> list_ex (\<lambda>t. dm_hdisplay t = w \<and> dm_vdisplay t = h) physical) SYNTHETIC_PORTRAIT_SIZES"
  from assms obtain i where i: "i < length ms" "m = ms ! i" by (auto simp: in_set_conv_nth)
  have r: "length ms = length ?want"
      "\<forall>i < length ?want. (case ?want ! i of (w, h) \<Rightarrow> derive_mode_from_native native w h) = Ok (ms ! i)"
    using assms(1) unfolding synthetic_modes_def collect_results_Inr by simp_all
  obtain w h where wh: "?want ! i = (w, h)" by fastforce
  then have "derive_mode_from_native native w h = Ok m" using r i by auto
  then have "mode_size m = ?want ! i" using derive_mode_size wh by simp
  moreover have "?want ! i \<in> set ?want" using i(1) r(1) by (intro nth_mem) simp
  ultimately show ?thesis by simp
qed

lemma startup_catalog_sizes:
  assumes "startup_catalog timing preferred modes = Ok rc" and "m \<in> set (advertised_modes rc)"
  shows "mode_size m \<in> set (map (mode_size \<circ> timing) modes @ SYNTHETIC_PORTRAIT_SIZES)"
proof -
  from assms(1) obtain pi synthetic where
      s: "synthetic_modes (map timing modes) (timing (modes ! pi)) = Ok synthetic"
      "build_catalog 0 (map (\<lambda>m. \<lparr> pc_mode = m, pc_timing = timing m \<rparr>) modes) pi synthetic = Ok rc"
    by (auto simp: startup_catalog_def Let_def and_then_Inr split: if_splits)
  from build_catalog_timed [OF s(2) assms(2)] synthetic_sizes [OF s(1)] show ?thesis
    by (auto dest!: same_timing_size)
qed

section \<open>Limits\<close>

definition within_limits :: "u16 \<times> u16 \<Rightarrow> SizeLimits \<Rightarrow> bool" where
  "within_limits sz l \<longleftrightarrow> lim_min_width l \<le> ucast (fst sz) \<and> ucast (fst sz) \<le> lim_max_width l
     \<and> lim_min_height l \<le> ucast (snd sz) \<and> ucast (snd sz) \<le> lim_max_height l"

lemma widen_keeps: "within_limits sz l \<Longrightarrow> within_limits sz (widen_limits sz' l)"
  by (auto simp: within_limits_def widen_limits_def Let_def)

lemma widen_covers: "within_limits sz (widen_limits sz l)"
  by (auto simp: within_limits_def widen_limits_def Let_def)

lemma fold_widen_covers: "sz \<in> set szs \<or> within_limits sz l \<Longrightarrow> within_limits sz (fold widen_limits szs l)"
  by (induction szs arbitrary: l) (auto simp: widen_keeps widen_covers)

lemma size_limits_covers: "sz \<in> set (sizes @ SYNTHETIC_PORTRAIT_SIZES) \<Longrightarrow> within_limits sz (size_limits sizes)"
  using fold_widen_covers [of sz "sizes @ SYNTHETIC_PORTRAIT_SIZES"
      "\<lparr> lim_min_width = - 1, lim_max_width = 0, lim_min_height = - 1, lim_max_height = 0 \<rparr>"]
  unfolding size_limits_def Let_def within_limits_def by (auto simp: min.coboundedI1 max.coboundedI1)

lemma fold_max_ge: "x \<in> set (p # ps) \<Longrightarrow> x \<le> fold max ps (p :: 'a :: linorder)"
  using Max.set_eq_fold [of p ps] Max_ge [of "set (p # ps)" x] by simp

lemma max_buffer_covers:
  assumes "serialized_max_buffer_size sizes None fmt = Ok mx" and "(w, h) \<in> set (sizes @ SYNTHETIC_PORTRAIT_SIZES)"
  shows "unat w * unat h * format_bytes fmt \<le> unat mx"
proof -
  let ?px = "map (\<lambda>(w, h). ucast w * ucast h :: u32) (sizes @ SYNTHETIC_PORTRAIT_SIZES)"
  from assms(1) obtain p ps where px: "?px = p # ps" and mul: "checked_mul (fold max ps p) (of_nat (format_bytes fmt)) = Some mx"
    unfolding serialized_max_buffer_size_def Let_def and_then_Inr by (auto split: list.splits)
  have "ucast w * ucast h \<in> set ?px" using assms(2) by force
  then have le: "ucast w * ucast h \<le> fold max ps p" unfolding px by (rule fold_max_ge)
  have "unat (ucast w * ucast h :: u32) = unat w * unat h"
    using u16_mult_bound [of w h] by (simp add: unat_mul_small)
  with le have "unat w * unat h \<le> unat (fold max ps p)" by (simp add: word_le_nat_alt)
  moreover have "unat (of_nat (format_bytes fmt) :: u32) = format_bytes fmt" by (cases fmt) simp_all
  ultimately show ?thesis using checked_mul_SomeD [OF mul, THEN conjunct2] by (simp only: mult_le_mono1)
qed

section \<open>Checksum steps\<close>

text \<open>One step of the checksum loses nothing: the generator's top bit shows the bit shifted out.\<close>

lemma unat_u8_as_u32: "unat (ucast (w :: u8) :: u32) = unat w"
  by (simp add: unsigned_ucast_eq take_bit_nat_eq_self unat_u8_bound [THEN less_trans])

lemma crc_bit_inj: "crc_bit a = crc_bit b \<Longrightarrow> a = b"
proof -
  have low: "0 - (c AND 1) = (if bit c 0 then - 1 else 0)" for c :: u32
    by (simp add: and_one_eq odd_iff_mod_2_eq_one [symmetric] even_iff_mod_2_eq_zero [symmetric] bit_0)
  have top: "bit (crc_bit c) 31 = bit c 0" for c
  proof -
    have "\<not> bit c 32" using bit_imp_le_length [of c 32] by auto
    then show ?thesis unfolding crc_bit_def low by (cases "bit c 0") (simp_all add: bit_simps)
  qed
  assume eq: "crc_bit a = crc_bit b"
  then have b0: "bit a 0 = bit b 0" using top [of a] top [of b] by (simp only:)
  then have "0 - (a AND 1) = 0 - (b AND 1)" by (simp only: low)
  with eq have "drop_bit 1 a = drop_bit 1 b"
    unfolding crc_bit_def by (simp only: xor_right_cancel)
  then have "bit (drop_bit 1 a) n = bit (drop_bit 1 b) n" for n by (simp only:)
  then have "bit a (Suc n) = bit b (Suc n)" for n by (simp add: bit_drop_bit_eq)
  then have "bit a n = bit b n" for n using b0 by (cases n) (simp_all only:)
  then show ?thesis by (rule bit_word_eqI)
qed

lemma crc_byte_inj: "crc_byte x a = crc_byte y b \<Longrightarrow> a XOR ucast x = b XOR ucast y"
proof -
  have "inj (crc_bit ^^ n)" for n
    by (induction n) (auto simp: inj_def dest!: crc_bit_inj)
  then show "crc_byte x a = crc_byte y b \<Longrightarrow> a XOR ucast x = b XOR ucast y"
    unfolding crc_byte_def by (rule injD)
qed

lemma fold_crc_inj: "fold crc_byte bs a = fold crc_byte bs b \<Longrightarrow> a = b"
proof (induction bs arbitrary: a b)
  case (Cons x bs)
  then have "a XOR ucast x = b XOR ucast x" by (auto dest!: crc_byte_inj)
  then show ?case by (simp only: xor_right_cancel)
qed simp

section \<open>Properties\<close>


definition unset_env :: Env where
  "unset_env = \<lparr> env_ffs_read_size = None, env_compression = None, env_max_buffer_size = None, env_prearm_once = None,
     env_receive_mode = None, env_status_on_set = None, env_status_on_set_two = None, env_output_mode = None,
     env_dynamic_mode_match = None, env_barrier = None, env_barrier_dir = None, env_inflight_deadline = None,
     env_frame_dump = None, env_pattern = None, env_transfer_format = None, env_row_crc = None \<rparr>"


text \<open>C31. The advertised descriptor covers every advertised mode: without a test override, the size of each
  mode of the catalog lies within the minimum and maximum sizes of the descriptor, and a full frame of it
  in the transfer format fits the advertised maximum buffer size.\<close>

theorem descriptor_covers_modes:
  assumes "startup_catalog timing preferred modes = Ok rc" and "m \<in> set (advertised_modes rc)"
    and "serialized_max_buffer_size (map (mode_size \<circ> timing) modes) None fmt = Ok mx"
  shows "within_limits (mode_size m) (size_limits (map (mode_size \<circ> timing) modes))
    \<and> unat (dm_hdisplay m) * unat (dm_vdisplay m) * format_bytes fmt \<le> unat mx"
proof -
  note sz = startup_catalog_sizes [OF assms(1,2)]
  have "(dm_hdisplay m, dm_vdisplay m) = mode_size m" by (simp add: mode_size_def)
  then show ?thesis using size_limits_covers [OF sz] max_buffer_covers [OF assms(3)] sz by metis
qed

theorem descriptor_covers_modes_witness:
  "\<exists>rc m mx. startup_catalog (\<lambda>m. m) (\<lambda>_. True) [mode_640x480] = Ok rc \<and> m \<in> set (advertised_modes rc)
     \<and> serialized_max_buffer_size [(640, 480)] None Rgb565 = Ok mx
     \<and> unat (dm_hdisplay m) * unat (dm_vdisplay m) * 2 \<le> unat mx"
proof -
  have "is_ok (synthetic_modes [mode_640x480] mode_640x480)"
    by (simp add: synthetic_modes_def SYNTHETIC_PORTRAIT_SIZES_def derive_mode_from_native_def scale_dimension_def
        mode_640x480_def Let_def)
  then obtain synthetic where "synthetic_modes [mode_640x480] mode_640x480 = Ok synthetic"
    by (auto simp: is_ok_iff)
  then obtain rc where rc: "startup_catalog (\<lambda>m. m) (\<lambda>_. True) [mode_640x480] = Ok rc"
      and one: "length (filter (\<lambda>m. dm_flags m AND GUD_DISPLAY_MODE_FLAG_PREFERRED \<noteq> 0) (advertised_modes rc)) = 1"
    using build_catalog_Ok [of 0 "[\<lparr> pc_mode = mode_640x480, pc_timing = mode_640x480 \<rparr>]" 0 synthetic]
    by (auto simp: startup_catalog_def advertised_preferred_mode_index_def)
  have mx: "serialized_max_buffer_size (map (mode_size \<circ> (\<lambda>m. m)) [mode_640x480]) None Rgb565 = Ok 3420000"
    by (simp add: serialized_max_buffer_size_def SYNTHETIC_PORTRAIT_SIZES_def checked_mul_def Let_def mode_size_def
        mode_640x480_def)
  have "advertised_modes rc \<noteq> []" using one by auto
  then obtain m where "m \<in> set (advertised_modes rc)" by (cases "advertised_modes rc") auto
  then show ?thesis
    using descriptor_covers_modes [OF rc _ mx] rc mx by (auto simp: mode_size_def mode_640x480_def)
qed

text \<open>The row checksum of the trace detects every single-byte difference: two rows of equal length
  that differ in exactly one byte have different checksums, whatever surrounds it.\<close>

theorem row_crc_detects_byte:
  assumes "x \<noteq> y"
  shows "row_crc32 (before @ x # rest) \<noteq> row_crc32 (before @ y # rest)"
proof
  assume "row_crc32 (before @ x # rest) = row_crc32 (before @ y # rest)"
  then have "fold crc_byte rest (crc_byte x (fold crc_byte before (NOT 0)))
      = fold crc_byte rest (crc_byte y (fold crc_byte before (NOT 0)))"
    by (simp add: row_crc32_def)
  then have "(fold crc_byte before (NOT 0)) XOR ucast x = (fold crc_byte before (NOT 0)) XOR ucast y"
    by (auto dest!: fold_crc_inj crc_byte_inj)
  then have "(ucast x :: u32) = ucast y" by (metis xor.commute xor_right_cancel)
  then have "unat (ucast x :: u32) = unat (ucast y :: u32)" by simp
  with assms show False by (simp add: unat_u8_as_u32 word_unat_eq_iff)
qed

theorem row_crc_detects_byte_witness:
  "row_crc32 [1, 2, 3] \<noteq> row_crc32 [1, 7, 3]"
  using row_crc_detects_byte [of 2 7 "[1]" "[3]"] by simp

end
