(* ===== verification/Drm_Shadow.thy ===== *)
theory Drm_Shadow
  imports Drm_Config
begin

text \<open>
  The source shadow of \<^verbatim>\<open>drm/src/main.rs\<close>: the frame the host writes while the panel shows a scaled
  copy. It is allocated once, before the gadget is bound, for the largest advertised mode.
\<close>

section \<open>Model\<close>

record ShadowRasterIdentity =
  si_width :: u32
  si_height :: u32
  si_format :: u8

datatype ShadowActivation = Preserved | Zeroed

record ShadowFramebuffer =
  sf_width :: u32
  sf_height :: u32
  sf_pitch :: usize
  sf_pixels :: bytes
  sf_preallocated_capacity :: "usize option"
  sf_identity :: "ShadowRasterIdentity option"
  sf_content_valid :: bool

definition default_shadow :: ShadowFramebuffer where
  "default_shadow = \<lparr> sf_width = 0, sf_height = 0, sf_pitch = 0, sf_pixels = [], sf_preallocated_capacity = None,
     sf_identity = None, sf_content_valid = False \<rparr>"

text \<open>\<open>reserved\<close> is whether the allocator granted the reservation.\<close>

definition preallocated :: "bool \<Rightarrow> usize \<Rightarrow> ShadowFramebuffer result" where
  "preallocated reserved max_capacity =
     ensure (0 < max_capacity) ''maximum source shadow capacity must be non-zero''
     (ensure reserved ''allocate maximum source shadow''
     (Ok (default_shadow\<lparr> sf_pixels := replicate max_capacity 0, sf_preallocated_capacity := Some max_capacity \<rparr>)))"

definition activate_scaled :: "ShadowRasterIdentity \<Rightarrow> ShadowFramebuffer \<Rightarrow> (ShadowActivation \<times> ShadowFramebuffer) result" where
  "activate_scaled identity s =
     and_then (bytes_per_pixel (si_format identity)) (\<lambda>bytes_pp.
     and_then (ctx (checked_mul_usize (unat (si_width identity)) bytes_pp) ''source shadow pitch overflow'') (\<lambda>pitch.
     and_then (ctx (checked_mul_usize pitch (unat (si_height identity))) ''source shadow length overflow'') (\<lambda>len.
     and_then (case sf_preallocated_capacity s of
                 Some capacity \<Rightarrow>
                   ensure (len \<le> capacity \<and> length (sf_pixels s) = capacity)
                     ''committed shadow raster exceeds the preallocated capacity'' (Ok s)
               | None \<Rightarrow> Ok (if length (sf_pixels s) \<noteq> len then s\<lparr> sf_pixels := replicate len 0 \<rparr> else s)) (\<lambda>s.
     let preserve = (sf_identity s = Some identity \<and> sf_content_valid s);
         s' = s\<lparr> sf_width := si_width identity, sf_height := si_height identity, sf_pitch := pitch,
                 sf_identity := Some identity, sf_content_valid := True \<rparr> in
     if preserve then Ok (Preserved, s')
     else Ok (Zeroed, s'\<lparr> sf_pixels := blit (sf_pixels s') 0 (replicate len 0) \<rparr>)))))"

definition ensure_size :: "ShadowRasterIdentity \<Rightarrow> ShadowFramebuffer \<Rightarrow> ShadowFramebuffer result" where
  "ensure_size identity s = and_then (activate_scaled identity s) (\<lambda>(_, s'). Ok s')"

definition shadow_is_active :: "ShadowRasterIdentity \<Rightarrow> ShadowFramebuffer \<Rightarrow> bool" where
  "shadow_is_active identity s \<longleftrightarrow> sf_identity s = Some identity \<and> sf_content_valid s"

definition invalidate_content :: "ShadowFramebuffer \<Rightarrow> ShadowFramebuffer" where
  "invalidate_content s = s\<lparr> sf_content_valid := False \<rparr>"

definition shadow_identity :: "DisplayStateSnapshot \<Rightarrow> ShadowRasterIdentity" where
  "shadow_identity sn = \<lparr> si_width = ucast (dm_hdisplay (sn_mode sn)), si_height = ucast (dm_vdisplay (sn_mode sn)),
     si_format = sn_format sn \<rparr>"

section \<open>The memory estimate\<close>

lemma largest_bytes_covers:
  assumes "largest_bytes sizes n msg = Ok b" and "(w, h) \<in> set sizes"
  shows "unat w * unat h * n \<le> b \<and> b < usize_bound"
proof -
  let ?rs = "map (\<lambda>(w, h). checked_bytes w h n) sizes"
  from assms(1) obtain x xs where bs: "collect_results ?rs = Ok (x # xs)" and b: "b = fold max xs x"
    unfolding largest_bytes_def and_then_Inr by (auto simp: neq_Nil_conv split: list.splits)
  from assms(2) obtain i where i: "i < length sizes" "sizes ! i = (w, h)" by (auto simp: in_set_conv_nth)
  have r: "length (x # xs) = length ?rs" "\<forall>i < length ?rs. ?rs ! i = Ok ((x # xs) ! i)"
    using bs unfolding collect_results_Inr by simp_all
  have val: "v < usize_bound" if "v \<in> set (x # xs)" for v
  proof -
    from that obtain j where j: "j < length (x # xs)" "v = (x # xs) ! j" unfolding in_set_conv_nth by blast
    obtain w' h' where "sizes ! j = (w', h')" by fastforce
    then have "checked_bytes w' h' n = Ok v" using r j by auto
    then show ?thesis by (auto simp: checked_bytes_def bind_eq_Some_conv)
  qed
  have "checked_bytes w h n = Ok ((x # xs) ! i)" using r i by auto
  then have "(x # xs) ! i = unat w * unat h * n" by (auto simp: checked_bytes_def bind_eq_Some_conv)
  moreover have "(x # xs) ! i \<le> b" unfolding b by (rule fold_max_ge, rule nth_mem) (use r(1) i(1) in simp)
  moreover have "fold max xs x \<in> set (x # xs)" using Max.set_eq_fold [of x xs] Max_in [of "set (x # xs)"] by simp
  ultimately show ?thesis using val b by simp
qed

lemma memory_estimate_parts:
  assumes "logical_memory_estimate ps as n = Ok est"
  shows "\<exists>p. largest_bytes ps n ''physical mode catalog is empty'' = Ok p
    \<and> largest_bytes as n ''advertised mode catalog is empty'' = Ok (max_shadow_bytes est)
    \<and> scanout_bytes est = 7 * p \<and> peak_bytes est = 7 * p + max_shadow_bytes est \<and> peak_bytes est < usize_bound"
  using assms by (auto simp: logical_memory_estimate_def and_then_Inr bind_eq_Some_conv)

section \<open>The invariant\<close>

text \<open>
  \<open>shadow_ok\<close>: a preallocated buffer keeps its size, and an active raster lies within the buffer with
  the pitch and size of its identity.
\<close>

definition shadow_ok :: "usize \<Rightarrow> ShadowFramebuffer \<Rightarrow> bool" where
  "shadow_ok capacity s \<longleftrightarrow> sf_preallocated_capacity s = Some capacity \<and> length (sf_pixels s) = capacity
     \<and> (\<forall>identity. sf_identity s = Some identity \<longrightarrow>
          sf_width s = si_width identity \<and> sf_height s = si_height identity
          \<and> (\<exists>n. bytes_per_pixel (si_format identity) = Ok n \<and> sf_pitch s = unat (si_width identity) * n
               \<and> sf_pitch s * unat (si_height identity) \<le> capacity))"

lemma preallocated_ok: "preallocated reserved capacity = Ok s \<Longrightarrow> shadow_ok capacity s"
  by (auto simp: preallocated_def result_chain shadow_ok_def default_shadow_def)

lemma invalidate_ok: "shadow_ok capacity s \<Longrightarrow> shadow_ok capacity (invalidate_content s)"
  by (simp add: shadow_ok_def invalidate_content_def)

lemma activate_scaled_preallocated:
  assumes "shadow_ok capacity s" and "capacity < usize_bound" and "bytes_per_pixel (si_format identity) = Ok n"
    and "unat (si_width identity) * n * unat (si_height identity) \<le> capacity"
  shows "\<exists>act s'. activate_scaled identity s = Ok (act, s') \<and> shadow_ok capacity s' \<and> shadow_is_active identity s'
    \<and> (if shadow_is_active identity s then act = Preserved \<and> sf_pixels s' = sf_pixels s
       else act = Zeroed \<and> (\<forall>i < unat (si_width identity) * n * unat (si_height identity). sf_pixels s' ! i = 0))"
proof -
  let ?len = "unat (si_width identity) * n * unat (si_height identity)"
  have "0 < n" using assms(3) by (auto simp: bytes_per_pixel_def split: if_splits)
  then have "unat (si_width identity) * n < usize_bound"
    using unat_u32_bound [of "si_width identity"] assms(3) by (auto simp: bytes_per_pixel_def usize_bound_def split: if_splits)
  moreover have "?len < usize_bound" using assms(2,4) by linarith
  ultimately show ?thesis
    using assms
    by (auto simp: activate_scaled_def checked_mul_usize_def ensure_def shadow_ok_def shadow_is_active_def Let_def
        nth_blit)
qed

text \<open>A history of the shadow: activations (a failed one changes nothing) and invalidations.\<close>

datatype shadow_op = Activate ShadowRasterIdentity | Invalidate

fun shadow_step :: "shadow_op \<Rightarrow> ShadowFramebuffer \<Rightarrow> ShadowFramebuffer" where
  "shadow_step (Activate identity) s = (case activate_scaled identity s of Inl _ \<Rightarrow> s | Inr (_, s') \<Rightarrow> s')"
| "shadow_step Invalidate s = invalidate_content s"

lemma activate_scaled_ok:
  assumes "shadow_ok capacity s" and "capacity < usize_bound" and "activate_scaled identity s = Ok (act, s')"
  shows "shadow_ok capacity s'"
proof -
  from assms(1,3) obtain n where "bytes_per_pixel (si_format identity) = Ok n"
      "unat (si_width identity) * n * unat (si_height identity) \<le> capacity"
    by (auto simp: activate_scaled_def and_then_Inr ensure_Inr shadow_ok_def)
  from activate_scaled_preallocated [OF assms(1,2) this] assms(3) show ?thesis by auto
qed

lemma shadow_run_ok:
  "shadow_ok capacity s \<Longrightarrow> capacity < usize_bound \<Longrightarrow> shadow_ok capacity (fold shadow_step ops s)"
proof (induction ops arbitrary: s)
  case (Cons op ops)
  have "shadow_ok capacity (shadow_step op s)"
    using Cons.prems by (cases op) (auto simp: invalidate_ok activate_scaled_ok split: sum.splits)
  then show ?case using Cons by simp
qed simp

section \<open>Properties\<close>


definition sample_estimate :: LogicalMemoryEstimate where
  "sample_estimate = \<lparr> max_shadow_bytes = 614400, scanout_bytes = 4300800, peak_bytes = 4915200 \<rparr>"


end
