(* ===== verification/Drm_Pool.thy ===== *)
theory Drm_Pool
  imports Drm_Scanout Drm_Shadow
begin

text \<open>
  The scanout pool of \<^verbatim>\<open>drm/src/scanout.rs\<close>: three slots with the roles active, baseline and candidate,
  the waiting scanout, the accounting of live bytes, and the state of the dynamic routes. \<open>ScanoutRuntime\<close> is
  what \<open>split_runtime\<close> lends beside the slots; an operation on a slot gets that slot and returns its new
  content. The counters are shared with the device state (\<open>dev\<close>). A panic ends the process: the state
  returned beside it is not used.
\<close>

section \<open>Routes\<close>

datatype FallbackReason = PrepareFailed | SwitchFailed | BaselineSwitchFailed | PlanMismatch | FailedCacheHit

datatype PendingPlanKind =
    ExactActiveNoOp
  | ExactCandidate usize
  | ScaledBaseline bool
  | ScaledCurrentAfterFailure FallbackReason

record 'm PendingPlan =
  pp_snapshot :: DisplayStateSnapshot
  pp_logical_key :: ModeKey
  pp_requested_physical_key :: "ModeKey option"
  pp_requested_mode :: "'m option"
  pp_kind :: PendingPlanKind
  pp_failed_cache_hit :: bool
  pp_mode_prepare_ms :: nat

record FailedRouteKey =
  fr_logical :: ModeKey
  fr_current_physical :: ModeKey

text \<open>The two scaled routes have a prefix, because the plan kinds have the same names.\<close>

datatype PresentationRoute =
    DirectExact ModeKey ModeKey
  | RouteScaledBaseline ModeKey
  | RouteScaledCurrentAfterFailure ModeKey FallbackReason

record 'm DynamicRouteState =
  dr_pending_plan :: "'m PendingPlan option"
  dr_failed_routes :: "FailedRouteKey set"
  dr_committed_snapshot :: "DisplayStateSnapshot option"
  dr_presentation_route :: "PresentationRoute option"
  dr_baseline_physical_key :: ModeKey
  dr_current_physical_key :: ModeKey
  dr_candidate_key :: "ModeKey option"

definition new_dynamic_routes :: "ModeKey \<Rightarrow> 'm DynamicRouteState" where
  "new_dynamic_routes baseline =
     \<lparr> dr_pending_plan = None, dr_failed_routes = {}, dr_committed_snapshot = None, dr_presentation_route = None,
       dr_baseline_physical_key = baseline, dr_current_physical_key = baseline, dr_candidate_key = None \<rparr>"

definition failed_key :: "ModeKey \<Rightarrow> 'm DynamicRouteState \<Rightarrow> FailedRouteKey" where
  "failed_key logical dr = \<lparr> fr_logical = logical, fr_current_physical = dr_current_physical_key dr \<rparr>"

definition invalidate_pending :: "'m DynamicRouteState \<Rightarrow> 'm DynamicRouteState" where
  "invalidate_pending dr = dr\<lparr> dr_pending_plan := None, dr_candidate_key := None \<rparr>"

section \<open>The pool and its manager\<close>

type_synonym ('buf, 'fb, 'm) ScanoutSlot = "('buf, 'fb, 'm) ScanoutAllocation option"

record ScanoutRoles =
  ro_active :: usize
  ro_baseline :: usize
  ro_candidate :: "usize option"

record ('buf, 'fb, 'm) ScanoutPool =
  po_slots :: "('buf, 'fb, 'm) ScanoutSlot list"
  po_roles :: ScanoutRoles

record ('buf, 'fb, 'm) ScanoutRuntime =
  rt_roles :: ScanoutRoles
  rt_waiting :: "('buf, 'fb, 'm) WaitingScanout option"
  rt_current_live_bytes :: usize
  rt_observed_peak_live_bytes :: usize
  rt_dynamic_routes :: "'m DynamicRouteState option"

record ('buf, 'fb, 'm) ScanoutManager =
  sm_pool :: "('buf, 'fb, 'm) ScanoutPool"
  sm_waiting :: "('buf, 'fb, 'm) WaitingScanout option"
  sm_current_live_bytes :: usize
  sm_observed_peak_live_bytes :: usize
  sm_dynamic_routes :: "'m DynamicRouteState option"

definition checked_add_live_bytes :: "usize \<Rightarrow> usize \<Rightarrow> usize result" where
  "checked_add_live_bytes current addition =
     ctx (checked_add_usize current addition) ''actual scanout live-byte accounting overflow''"

definition with_baseline :: "('buf, 'fb, 'm) ScanoutAllocation \<Rightarrow> ('buf, 'fb, 'm) ScanoutPool" where
  "with_baseline a = \<lparr> po_slots = [Some a, None, None],
     po_roles = \<lparr> ro_active = 0, ro_baseline = 0, ro_candidate = None \<rparr> \<rparr>"

text \<open>\<open>new_baseline\<close> starts with new counters; \<open>checked_add(0)\<close> of a \<open>usize\<close> never overflows.\<close>

definition new_baseline ::
  "('b, 'buf, 'fb, 'm) backend \<Rightarrow> 'm \<Rightarrow> 'b \<Rightarrow> ('buf, 'fb, 'm) ScanoutManager result \<times> 'b dev" where
  "new_baseline be mode b =
     (case create_allocation be mode (b, default_counters) of
        (Inl e, d) \<Rightarrow> (Inl e, d)
      | (Inr a, d) \<Rightarrow>
          (case checked_add_usize (sa_live_bytes a) 0 of
             None \<Rightarrow>
               (case release_allocation be a d of
                  (Inl e, _, d1) \<Rightarrow> (Inl e, d1)
                | (Inr _, _, d1) \<Rightarrow> (Err ''baseline live-byte accounting overflow'', d1))
           | Some _ \<Rightarrow>
               (Ok \<lparr> sm_pool = with_baseline a, sm_waiting = None, sm_current_live_bytes = sa_live_bytes a,
                     sm_observed_peak_live_bytes = sa_live_bytes a, sm_dynamic_routes = None \<rparr>, d)))"

definition create_waiting ::
  "('b, 'buf, 'fb, 'm) backend \<Rightarrow> 'm \<Rightarrow> ('buf, 'fb, 'm) ScanoutManager \<Rightarrow> 'b dev \<Rightarrow>
   unit result \<times> ('buf, 'fb, 'm) ScanoutManager \<times> 'b dev" where
  "create_waiting be mode sm d =
     (if sm_waiting sm \<noteq> None then (Err ''waiting scanout is already allocated'', sm, d)
      else case create_waiting_scanout be mode d of
        (Inl e, d1) \<Rightarrow> (Inl e, sm, d1)
      | (Inr w, d1) \<Rightarrow>
          (case checked_add_live_bytes (sm_current_live_bytes sm) (ws_live_bytes w) of
             Inl e \<Rightarrow>
               (case release_waiting be w d1 of
                  (Inl e1, _, d2) \<Rightarrow> (Inl e1, sm, d2)
                | (Inr _, _, d2) \<Rightarrow> (Inl e, sm, d2))
           | Inr n \<Rightarrow>
               (Ok (), sm\<lparr> sm_waiting := Some w, sm_current_live_bytes := n,
                          sm_observed_peak_live_bytes := max (sm_observed_peak_live_bytes sm) n \<rparr>, d1)))"

definition render_waiting ::
  "('b, 'buf, 'fb, 'm) backend \<Rightarrow> (bytes \<Rightarrow> usize \<Rightarrow> u32 \<Rightarrow> u32 \<Rightarrow> unit result \<times> bytes) \<Rightarrow>
   ('buf, 'fb, 'm) ScanoutManager \<Rightarrow> 'b dev \<Rightarrow> unit result \<times> 'b dev" where
  "render_waiting be render sm d =
     (case sm_waiting sm of
        None \<Rightarrow> (Err ''waiting scanout is not allocated'', d)
      | Some w \<Rightarrow> with_mapped be w render d)"

definition initialize_dynamic_routes ::
  "ModeKey \<Rightarrow> ('buf, 'fb, 'm) ScanoutManager \<Rightarrow> ('buf, 'fb, 'm) ScanoutManager result" where
  "initialize_dynamic_routes baseline sm =
     ensure (sm_dynamic_routes sm = None) ''dynamic route state is already initialized''
     (Ok (sm\<lparr> sm_dynamic_routes := Some (new_dynamic_routes baseline) \<rparr>))"

definition split_runtime ::
  "('buf, 'fb, 'm) ScanoutManager \<Rightarrow> ('buf, 'fb, 'm) ScanoutSlot list \<times> ('buf, 'fb, 'm) ScanoutRuntime" where
  "split_runtime sm =
     (po_slots (sm_pool sm),
      \<lparr> rt_roles = po_roles (sm_pool sm), rt_waiting = sm_waiting sm, rt_current_live_bytes = sm_current_live_bytes sm,
        rt_observed_peak_live_bytes = sm_observed_peak_live_bytes sm, rt_dynamic_routes = sm_dynamic_routes sm \<rparr>)"

text \<open>The manager again once the slots and the runtime are given back.\<close>

definition join_runtime ::
  "('buf, 'fb, 'm) ScanoutSlot list \<Rightarrow> ('buf, 'fb, 'm) ScanoutRuntime \<Rightarrow> ('buf, 'fb, 'm) ScanoutManager" where
  "join_runtime slots rt =
     \<lparr> sm_pool = \<lparr> po_slots = slots, po_roles = rt_roles rt \<rparr>, sm_waiting = rt_waiting rt,
       sm_current_live_bytes = rt_current_live_bytes rt, sm_observed_peak_live_bytes = rt_observed_peak_live_bytes rt,
       sm_dynamic_routes = rt_dynamic_routes rt \<rparr>"

definition release_slot ::
  "('b, 'buf, 'fb, 'm) backend \<Rightarrow> ('buf, 'fb, 'm) ScanoutSlot \<Rightarrow> 'b dev \<times> err list \<Rightarrow> 'b dev \<times> err list" where
  "release_slot be slot st =
     (case slot of
        None \<Rightarrow> st
      | Some a \<Rightarrow>
          (case release_allocation be a (fst st) of
             (Inl e, _, d) \<Rightarrow> (d, snd st @ [e])
           | (Inr _, _, d) \<Rightarrow> (d, snd st)))"

definition release_pool ::
  "('b, 'buf, 'fb, 'm) backend \<Rightarrow> ('buf, 'fb, 'm) ScanoutPool \<Rightarrow> 'b dev \<Rightarrow>
   unit result \<times> ('buf, 'fb, 'm) ScanoutPool \<times> 'b dev" where
  "release_pool be po d =
     (let (d1, errors) = foldr (release_slot be) (po_slots po) (d, []) in
      (cleanup_result errors,
       po\<lparr> po_slots := map (\<lambda>_. None) (po_slots po), po_roles := (po_roles po)\<lparr> ro_candidate := None \<rparr> \<rparr>, d1))"

definition release_all ::
  "('b, 'buf, 'fb, 'm) backend \<Rightarrow> ('buf, 'fb, 'm) ScanoutManager \<Rightarrow> 'b dev \<Rightarrow>
   unit result \<times> ('buf, 'fb, 'm) ScanoutManager \<times> 'b dev" where
  "release_all be sm d =
     (let (d1, errors1) =
            (case sm_waiting sm of
               None \<Rightarrow> (d, [])
             | Some w \<Rightarrow>
                 (case release_waiting be w d of
                    (Inl e, _, d1) \<Rightarrow> (d1, [e])
                  | (Inr _, _, d1) \<Rightarrow> (d1, []))) in
      case release_pool be (sm_pool sm) d1 of
        (r, po, d2) \<Rightarrow>
          (cleanup_result (case r of Inl e \<Rightarrow> errors1 @ [e] | Inr _ \<Rightarrow> errors1),
           sm\<lparr> sm_pool := po, sm_waiting := None, sm_current_live_bytes := 0 \<rparr>, d2))"

section \<open>The runtime operations\<close>

definition waiting_framebuffer :: "('buf, 'fb, 'm) ScanoutRuntime \<Rightarrow> 'fb result" where
  "waiting_framebuffer rt =
     (case rt_waiting rt of
        None \<Rightarrow> Err ''waiting scanout is not allocated''
      | Some w \<Rightarrow> waiting_framebuffer_of w)"

text \<open>A replacement that cannot be accounted is released, and its own release error wins.\<close>

definition discard_replacement ::
  "('b, 'buf, 'fb, 'm) backend \<Rightarrow> ('buf, 'fb, 'm) WaitingScanout \<Rightarrow> err \<Rightarrow> 'b dev \<Rightarrow> 'a result \<times> 'b dev" where
  "discard_replacement be w e d =
     (case release_waiting be w d of
        (Inl e1, _, d1) \<Rightarrow> (Inl e1, d1)
      | (Inr _, _, d1) \<Rightarrow> (Inl e, d1))"

text \<open>
  \<open>ensure_waiting_mode\<close>: the new waiting scanout exists and is rendered before the old one goes. An
  underflow of the accounting would return at once and leave the replacement behind.
\<close>

definition ensure_waiting_mode ::
  "('b, 'buf, 'fb, 'm) backend \<Rightarrow> 'm \<Rightarrow> (bytes \<Rightarrow> usize \<Rightarrow> u32 \<Rightarrow> u32 \<Rightarrow> unit result \<times> bytes) \<Rightarrow>
   ('buf, 'fb, 'm) ScanoutRuntime \<Rightarrow> 'b dev \<Rightarrow> bool result \<times> ('buf, 'fb, 'm) ScanoutRuntime \<times> 'b dev" where
  "ensure_waiting_mode be mode render rt d =
     (if (case rt_waiting rt of None \<Rightarrow> False | Some w \<Rightarrow> ws_mode w = mode) then (Ok False, rt, d)
      else case create_waiting_scanout be mode d of
        (Inl e, d1) \<Rightarrow> (Inl e, rt, d1)
      | (Inr w, d1) \<Rightarrow>
     (case with_mapped be w render d1 of
        (Inl e, d2) \<Rightarrow> (case release_waiting be w d2 of (_, _, d3) \<Rightarrow> (Inl e, rt, d3))
      | (Inr _, d2) \<Rightarrow>
     (let current = rt_current_live_bytes rt;
          old_bytes = (case rt_waiting rt of None \<Rightarrow> 0 | Some old \<Rightarrow> ws_live_bytes old) in
      case checked_sub_usize current old_bytes of
        None \<Rightarrow> (Err ''waiting scanout live-byte accounting underflow'', rt, d2)
      | Some retained \<Rightarrow>
     (case checked_add_live_bytes current (ws_live_bytes w) of
        Inl e \<Rightarrow> (case discard_replacement be w e d2 of (r, d3) \<Rightarrow> (r, rt, d3))
      | Inr transient \<Rightarrow>
     (case checked_add_live_bytes retained (ws_live_bytes w) of
        Inl e \<Rightarrow> (case discard_replacement be w e d2 of (r, d3) \<Rightarrow> (r, rt, d3))
      | Inr n \<Rightarrow>
          let d3 = (case rt_waiting rt of None \<Rightarrow> d2 | Some old \<Rightarrow> snd (snd (release_waiting be old d2)))
          in (Ok True, rt\<lparr> rt_waiting := Some w, rt_current_live_bytes := n,
                            rt_observed_peak_live_bytes := max (rt_observed_peak_live_bytes rt) transient \<rparr>, d3))))))"

text \<open>
  \<open>stage_candidate\<close> takes the allocation over; when a check before the accounting fails, the allocation
  is dropped without a release.
\<close>

definition stage_candidate ::
  "('b, 'buf, 'fb, 'm) backend \<Rightarrow> usize \<Rightarrow> ('buf, 'fb, 'm) ScanoutSlot \<Rightarrow> ('buf, 'fb, 'm) ScanoutAllocation \<Rightarrow>
   ('buf, 'fb, 'm) ScanoutRuntime \<Rightarrow> 'b dev \<Rightarrow>
   unit result \<times> ('buf, 'fb, 'm) ScanoutSlot \<times> ('buf, 'fb, 'm) ScanoutRuntime \<times> 'b dev" where
  "stage_candidate be slot_index slot a rt d =
     (if ro_candidate (rt_roles rt) \<noteq> None then (Err ''candidate role is already occupied'', slot, rt, d)
      else if slot_index = ro_active (rt_roles rt) then (Err ''candidate slot aliases active scanout'', slot, rt, d)
      else if slot \<noteq> None then (Err ''candidate slot is not empty'', slot, rt, d)
      else case checked_add_live_bytes (rt_current_live_bytes rt) (sa_live_bytes a) of
        Inl e \<Rightarrow>
          (case release_allocation be a d of
             (Inl e1, _, d1) \<Rightarrow> (Inl e1, slot, rt, d1)
           | (Inr _, _, d1) \<Rightarrow> (Inl e, slot, rt, d1))
      | Inr n \<Rightarrow>
          (Ok (), Some a,
           rt\<lparr> rt_roles := (rt_roles rt)\<lparr> ro_candidate := Some slot_index \<rparr>, rt_current_live_bytes := n,
               rt_observed_peak_live_bytes := max (rt_observed_peak_live_bytes rt) n \<rparr>, d))"

definition release_candidate ::
  "('b, 'buf, 'fb, 'm) backend \<Rightarrow> usize \<Rightarrow> ('buf, 'fb, 'm) ScanoutSlot \<Rightarrow> ('buf, 'fb, 'm) ScanoutRuntime \<Rightarrow> 'b dev \<Rightarrow>
   unit result \<times> ('buf, 'fb, 'm) ScanoutSlot \<times> ('buf, 'fb, 'm) ScanoutRuntime \<times> 'b dev" where
  "release_candidate be slot_index slot rt d =
     (if ro_candidate (rt_roles rt) \<noteq> Some slot_index then (Err ''slot is not the current candidate'', slot, rt, d)
      else if slot_index = ro_active (rt_roles rt) then (Err ''candidate slot aliases active scanout'', slot, rt, d)
      else case slot of
        None \<Rightarrow> (Err ''candidate scanout slot is empty'', slot, rt, d)
      | Some a \<Rightarrow>
          (case release_allocation be a d of
             (r, _, d1) \<Rightarrow>
               (case checked_sub_usize (rt_current_live_bytes rt) (sa_live_bytes a) of
                  None \<Rightarrow> (Err ''candidate live-byte accounting underflow'', None, rt, d1)
                | Some n \<Rightarrow>
                    (r, None,
                     rt\<lparr> rt_current_live_bytes := n, rt_roles := (rt_roles rt)\<lparr> ro_candidate := None \<rparr>,
                         rt_dynamic_routes := map_option (\<lambda>dr. dr\<lparr> dr_candidate_key := None \<rparr>) (rt_dynamic_routes rt) \<rparr>,
                     d1))))"

definition activate_slot :: "usize \<Rightarrow> ('buf, 'fb, 'm) ScanoutRuntime \<Rightarrow> usize result \<times> ('buf, 'fb, 'm) ScanoutRuntime" where
  "activate_slot target rt =
     (let ro = rt_roles rt in
      if \<not> target < SCANOUT_SLOT_COUNT then (Err ''invalid scanout slot'', rt)
      else if ro_candidate ro = Some target
      then (Ok (ro_active ro), rt\<lparr> rt_roles := ro\<lparr> ro_candidate := None, ro_active := target \<rparr> \<rparr>)
      else if target = ro_baseline ro
      then (Ok (ro_active ro), rt\<lparr> rt_roles := ro\<lparr> ro_active := target \<rparr> \<rparr>)
      else (Err ''target slot is neither the candidate nor the baseline'', rt))"

definition release_inactive ::
  "('b, 'buf, 'fb, 'm) backend \<Rightarrow> usize \<Rightarrow> ('buf, 'fb, 'm) ScanoutSlot \<Rightarrow> ('buf, 'fb, 'm) ScanoutRuntime \<Rightarrow> 'b dev \<Rightarrow>
   unit result \<times> ('buf, 'fb, 'm) ScanoutSlot \<times> ('buf, 'fb, 'm) ScanoutRuntime \<times> 'b dev" where
  "release_inactive be slot_index slot rt d =
     (if slot_index = ro_active (rt_roles rt) then (Err ''cannot release active scanout'', slot, rt, d)
      else if slot_index = ro_baseline (rt_roles rt) then (Ok (), slot, rt, d)
      else case slot of
        None \<Rightarrow> (Ok (), slot, rt, d)
      | Some a \<Rightarrow>
          (case release_allocation be a d of
             (r, _, d1) \<Rightarrow>
               (case checked_sub_usize (rt_current_live_bytes rt) (sa_live_bytes a) of
                  None \<Rightarrow> (Err ''released scanout live-byte accounting underflow'', None, rt, d1)
                | Some n \<Rightarrow> (r, None, rt\<lparr> rt_current_live_bytes := n \<rparr>, d1))))"

section \<open>What the pool owns\<close>

fun slot_owns :: "('buf, 'fb, 'm) ScanoutSlot \<Rightarrow> 'buf set \<times> 'fb set" where
  "slot_owns None = ({}, {})"
| "slot_owns (Some a) = (owned_bufs a, owned_fbs a)"

fun waiting_owns :: "('buf, 'fb, 'm) WaitingScanout option \<Rightarrow> 'buf set \<times> 'fb set" where
  "waiting_owns None = ({}, {})"
| "waiting_owns (Some w) = (set_option (ws_buffer w), set_option (ws_framebuffer w))"

fun slot_bytes :: "('buf, 'fb, 'm) ScanoutSlot \<Rightarrow> nat" where
  "slot_bytes None = 0"
| "slot_bytes (Some a) = sa_live_bytes a"

fun waiting_bytes :: "('buf, 'fb, 'm) WaitingScanout option \<Rightarrow> nat" where
  "waiting_bytes None = 0"
| "waiting_bytes (Some w) = ws_live_bytes w"

text \<open>The owners: the slots by index, then the waiting scanout.\<close>

definition owners ::
  "('buf, 'fb, 'm) ScanoutSlot list \<Rightarrow> ('buf, 'fb, 'm) WaitingScanout option \<Rightarrow> nat \<Rightarrow> 'buf set \<times> 'fb set" where
  "owners slots w i =
     (if i < length slots then slot_owns (slots ! i) else if i = length slots then waiting_owns w else ({}, {}))"

lemma owners_slot: "i < length slots \<Longrightarrow> owners (slots[i := s]) w = (owners slots w)(i := slot_owns s)"
  by (auto simp: owners_def fun_eq_iff)

lemma owners_waiting: "owners slots w = (owners slots v)(length slots := waiting_owns w)"
  by (auto simp: owners_def fun_eq_iff)

lemma owners_at: "i < length slots \<Longrightarrow> owners slots w i = slot_owns (slots ! i)"
    "owners slots w (length slots) = waiting_owns w" "length slots < i \<Longrightarrow> owners slots w i = ({}, {})"
  by (simp_all add: owners_def)

definition live_bytes :: "('buf, 'fb, 'm) ScanoutSlot list \<Rightarrow> ('buf, 'fb, 'm) WaitingScanout option \<Rightarrow> nat" where
  "live_bytes slots w = sum_list (map slot_bytes slots) + waiting_bytes w"

lemma live_bytes_slot:
  assumes "i < length slots"
  shows "live_bytes (slots[i := s]) w = live_bytes slots w + slot_bytes s - slot_bytes (slots ! i)"
    and "slot_bytes (slots ! i) \<le> live_bytes slots w"
proof -
  have "slot_bytes (slots ! i) \<le> sum_list (map slot_bytes slots)"
    using assms member_le_sum_list [of "slot_bytes (slots ! i)" "map slot_bytes slots"] by simp
  then show "slot_bytes (slots ! i) \<le> live_bytes slots w"
    and "live_bytes (slots[i := s]) w = live_bytes slots w + slot_bytes s - slot_bytes (slots ! i)"
    using assms by (simp_all add: live_bytes_def map_update sum_list_update)
qed

context scanout_backend
begin

text \<open>
  \<open>holds base c own d\<close>: every owner's objects exist on the device and belong to no other owner and not to
  \<open>base\<close> (the objects of others), which are all still there; when no cleanup call fails, nothing else
  exists; the counters of framebuffers agree with the device up to the constant \<open>c\<close>.
\<close>

definition holds :: "'buf set \<times> 'fb set \<Rightarrow> int \<Rightarrow> (nat \<Rightarrow> 'buf set \<times> 'fb set) \<Rightarrow> 'b dev \<Rightarrow> bool" where
  "holds base c own d \<longleftrightarrow>
     fst base \<subseteq> bufs (fst d) \<and> snd base \<subseteq> fbs (fst d)
     \<and> (\<forall>i. fst (own i) \<subseteq> bufs (fst d) - fst base \<and> snd (own i) \<subseteq> fbs (fst d) - snd base)
     \<and> (\<forall>i j. i \<noteq> j \<longrightarrow> fst (own i) \<inter> fst (own j) = {} \<and> snd (own i) \<inter> snd (own j) = {})
     \<and> (cleanup_total be \<longrightarrow> bufs (fst d) = fst base \<union> (\<Union>i. fst (own i)) \<and> fbs (fst d) = snd base \<union> (\<Union>i. snd (own i)))
     \<and> int (card (fbs (fst d))) - counted_fbs (snd d) = c"

lemma holdsD:
  assumes "holds base c own d"
  shows "fst base \<subseteq> bufs (fst d)" "snd base \<subseteq> fbs (fst d)"
    "fst (own i) \<subseteq> bufs (fst d) - fst base" "snd (own i) \<subseteq> fbs (fst d) - snd base"
    "i \<noteq> j \<Longrightarrow> fst (own i) \<inter> fst (own j) = {}" "i \<noteq> j \<Longrightarrow> snd (own i) \<inter> snd (own j) = {}"
    "cleanup_total be \<Longrightarrow> bufs (fst d) = fst base \<union> (\<Union>i. fst (own i))"
    "cleanup_total be \<Longrightarrow> fbs (fst d) = snd base \<union> (\<Union>i. snd (own i))"
    "int (card (fbs (fst d))) - counted_fbs (snd d) = c"
  using assms unfolding holds_def by (elim conjE; metis)+

lemma holdsI:
  assumes "fst base \<subseteq> bufs (fst d)" "snd base \<subseteq> fbs (fst d)"
    "\<And>i. fst (own i) \<subseteq> bufs (fst d) - fst base" "\<And>i. snd (own i) \<subseteq> fbs (fst d) - snd base"
    "\<And>i j. i \<noteq> j \<Longrightarrow> fst (own i) \<inter> fst (own j) = {}" "\<And>i j. i \<noteq> j \<Longrightarrow> snd (own i) \<inter> snd (own j) = {}"
    "cleanup_total be \<Longrightarrow> bufs (fst d) = fst base \<union> (\<Union>i. fst (own i))"
    "cleanup_total be \<Longrightarrow> fbs (fst d) = snd base \<union> (\<Union>i. snd (own i))"
    "int (card (fbs (fst d))) - counted_fbs (snd d) = c"
  shows "holds base c own d"
  using assms unfolding holds_def by metis

lemma Union_upd: "(\<Union>i. f ((g(k := x)) i)) = f x \<union> (\<Union>i \<in> - {k}. f (g i))"
  by (auto split: if_splits)

lemma Union_at: "(\<Union>i. f (g i)) = f (g k) \<union> (\<Union>i \<in> - {k}. f (g i))"
  by auto

lemma Union_new: "f (g i) = {} \<Longrightarrow> (\<Union>j. f ((g(i := x)) j)) = (\<Union>j. f (g j)) \<union> f x"
  unfolding Union_upd [of f g i x] Union_at [of f g i] by blast

lemma holds_gain:
  assumes h: "holds base c own d" and e: "own i = ({}, {})" and g: "gained d d' X Y k"
  shows "holds base c (own(i := (X, Y))) d'"
proof -
  let ?o = "own(i := (X, Y))"
  note D = holdsD [OF h]
  have B: "bufs (fst d') = bufs (fst d) \<union> X" "X \<inter> bufs (fst d) = {}"
    and F: "fbs (fst d') = fbs (fst d) \<union> Y" "Y \<inter> fbs (fst d) = {}"
    and n: "int (card (fbs (fst d'))) - counted_fbs (snd d') = int (card (fbs (fst d))) - counted_fbs (snd d)"
    using g unfolding gained_def by blast+
  show ?thesis
  proof (rule holdsI)
    show "fst base \<subseteq> bufs (fst d')" "snd base \<subseteq> fbs (fst d')" using D(1,2) B(1) F(1) by blast+
    show "fst (?o j) \<subseteq> bufs (fst d') - fst base" for j using D(1) D(3) [of j] B by (cases "j = i") auto
    show "snd (?o j) \<subseteq> fbs (fst d') - snd base" for j using D(2) D(4) [of j] F by (cases "j = i") auto
    have "X \<inter> fst (own j) = {}" "Y \<inter> snd (own j) = {}" for j using D(3,4) [of j] B(2) F(2) by blast+
    then show "fst (?o j) \<inter> fst (?o l) = {}" "snd (?o j) \<inter> snd (?o l) = {}" if "j \<noteq> l" for j l
      using that D(5,6) [of j l] by (simp_all add: Int_commute)
    have u: "(\<Union>j. fst (?o j)) = (\<Union>j. fst (own j)) \<union> X" "(\<Union>j. snd (?o j)) = (\<Union>j. snd (own j)) \<union> Y"
      using Union_new [of fst own i "(X, Y)"] Union_new [of snd own i "(X, Y)"] e by simp_all
    show "bufs (fst d') = fst base \<union> (\<Union>j. fst (?o j))" if "cleanup_total be"
      unfolding u B(1) using D(7) [OF that] by blast
    show "fbs (fst d') = snd base \<union> (\<Union>j. snd (?o j))" if "cleanup_total be"
      unfolding u F(1) using D(8) [OF that] by blast
    show "int (card (fbs (fst d'))) - counted_fbs (snd d') = c" unfolding n by (rule D(9))
  qed
qed

lemma holds_failed:
  assumes h: "holds base c own d" and "bufs (fst d) \<subseteq> bufs (fst d')" and "fbs (fst d) \<subseteq> fbs (fst d')"
    and "cleanup_total be \<longrightarrow> bufs (fst d') = bufs (fst d) \<and> fbs (fst d') = fbs (fst d)"
    and "int (card (fbs (fst d'))) - counted_fbs (snd d') = int (card (fbs (fst d))) - counted_fbs (snd d)"
  shows "holds base c own d'"
proof -
  note D = holdsD [OF h]
  show ?thesis
    by (rule holdsI)
      (use D(1-4) assms(2,3) in blast, use D(1-4) assms(2,3) in blast, use D(3) assms(2) in blast,
       use D(4) assms(3) in blast, rule D(5), assumption, rule D(6), assumption, use D(7) assms(4) in blast,
       use D(8) assms(4) in blast, use D(9) assms(5) in linarith)
qed

lemma holds_same:
  assumes "holds base c own d" and "gained d d' {} {} k"
  shows "holds base c own d'"
  by (rule holds_failed [OF assms(1)]) (use assms(2) in \<open>auto simp: gained_def\<close>)

lemma holds_lost:
  assumes h: "holds base c own d" and l: "lost d d' (fst (own i)) (snd (own i)) r"
  shows "holds base c (own(i := ({}, {}))) d'"
proof -
  let ?o = "own(i := ({}, {}))"
  note D = holdsD [OF h]
  have B: "bufs (fst d) - fst (own i) \<subseteq> bufs (fst d')" "cleanup_total be \<Longrightarrow> bufs (fst d') = bufs (fst d) - fst (own i)"
    and F: "fbs (fst d) - snd (own i) \<subseteq> fbs (fst d')" "cleanup_total be \<Longrightarrow> fbs (fst d') = fbs (fst d) - snd (own i)"
    and n: "int (card (fbs (fst d'))) - counted_fbs (snd d') = int (card (fbs (fst d))) - counted_fbs (snd d)"
    using l unfolding lost_def by blast+
  show ?thesis
  proof (rule holdsI)
    show "fst base \<subseteq> bufs (fst d')" using D(1) D(3) [of i] B(1) by blast
    show "snd base \<subseteq> fbs (fst d')" using D(2) D(4) [of i] F(1) by blast
    show "fst (?o j) \<subseteq> bufs (fst d') - fst base" for j using D(3) [of j] D(5) [of j i] B(1) by (cases "j = i") auto
    show "snd (?o j) \<subseteq> fbs (fst d') - snd base" for j using D(4) [of j] D(6) [of j i] F(1) by (cases "j = i") auto
    show "fst (?o j) \<inter> fst (?o l) = {}" "snd (?o j) \<inter> snd (?o l) = {}" if "j \<noteq> l" for j l
      using that D(5,6) [of j l] by simp_all
    show "bufs (fst d') = fst base \<union> (\<Union>j. fst (?o j))" if t: "cleanup_total be"
    proof -
      have "fst (own i) \<inter> fst (own j) = {}" if "j \<in> - {i}" for j using D(5) [of i j] that by simp
      then have "fst (own i) \<inter> (\<Union>j \<in> - {i}. fst (own j)) = {}" by blast
      moreover have "fst (own i) \<inter> fst base = {}" using D(3) [of i] by blast
      moreover have "bufs (fst d) = fst base \<union> (fst (own i) \<union> (\<Union>j \<in> - {i}. fst (own j)))"
        using D(7) [OF t] unfolding Union_at [of fst own i] .
      ultimately show ?thesis unfolding B(2) [OF t] Union_upd [of fst own i] fst_conv by blast
    qed
    show "fbs (fst d') = snd base \<union> (\<Union>j. snd (?o j))" if t: "cleanup_total be"
    proof -
      have "snd (own i) \<inter> snd (own j) = {}" if "j \<in> - {i}" for j using D(6) [of i j] that by simp
      then have "snd (own i) \<inter> (\<Union>j \<in> - {i}. snd (own j)) = {}" by blast
      moreover have "snd (own i) \<inter> snd base = {}" using D(4) [of i] by blast
      moreover have "fbs (fst d) = snd base \<union> (snd (own i) \<union> (\<Union>j \<in> - {i}. snd (own j)))"
        using D(8) [OF t] unfolding Union_at [of snd own i] .
      ultimately show ?thesis unfolding F(2) [OF t] Union_upd [of snd own i] snd_conv by blast
    qed
    show "int (card (fbs (fst d'))) - counted_fbs (snd d') = c" unfolding n by (rule D(9))
  qed
qed

lemma holds_move:
  assumes h: "holds base c own d" and "own j = ({}, {})" and "i \<noteq> j"
  shows "holds base c (own(j := own i, i := ({}, {}))) d"
proof -
  define p where "p = id(i := j, j := i)"
  have pp: "p (p k) = k" for k by (simp add: p_def)
  have o: "own(j := own i, i := ({}, {})) = (\<lambda>k. own (p k))" using assms(2,3) by (auto simp: p_def)
  have inj: "k \<noteq> l \<Longrightarrow> p k \<noteq> p l" for k l using pp by metis
  have onto: "(\<Union>k. f (own (p k))) = (\<Union>k. f (own k))" for f :: "'buf set \<times> 'fb set \<Rightarrow> 'x set"
  proof (intro equalityI subsetI)
    fix x assume "x \<in> (\<Union>k. f (own k))"
    then obtain k where "x \<in> f (own (p (p k)))" unfolding pp by blast
    then show "x \<in> (\<Union>k. f (own (p k)))" by blast
  qed blast
  note D = holdsD [OF h]
  show ?thesis
    unfolding o
    by (rule holdsI)
      (rule D(1), rule D(2), rule D(3), rule D(4), rule D(5), erule inj, rule D(6), erule inj,
       unfold onto, rule D(7), assumption, rule D(8), assumption, rule D(9))
qed

text \<open>A usable allocation and a usable waiting scanout.\<close>

definition ready :: "('buf, 'fb, 'm) ScanoutAllocation \<Rightarrow> bool" where
  "ready a \<longleftrightarrow> allocation_ok a \<and> \<not> sa_released a \<and> sa_front_buffer_index a < 2 \<and> (sa_width a, sa_height a) = be_mode_size be (sa_mode a)
     \<and> sb_buffer (sa_first a) \<noteq> None \<and> sb_buffer (sa_second a) \<noteq> None
     \<and> sb_framebuffer (sa_first a) \<noteq> None \<and> sb_framebuffer (sa_second a) \<noteq> None"

definition ready_waiting :: "('buf, 'fb, 'm) WaitingScanout \<Rightarrow> bool" where
  "ready_waiting w \<longleftrightarrow> waiting_ok w \<and> \<not> ws_released w \<and> ws_buffer w \<noteq> None \<and> ws_framebuffer w \<noteq> None"

lemma fresh_ready: "fresh_allocation mode a d \<Longrightarrow> ready a \<and> sa_mode a = mode \<and> sa_live_bytes a < usize_bound"
  by (auto simp: fresh_allocation_def ready_def)

lemma fresh_ready_waiting: "fresh_waiting mode w d \<Longrightarrow> ready_waiting w"
  by (auto simp: fresh_waiting_def ready_waiting_def waiting_ok_def)

text \<open>
  The pool with its device: three slots and the waiting scanout hold usable, pairwise disjoint objects,
  and the accounted live bytes are the sum of what is held, never above the observed peak.
\<close>

definition pool_ok ::
  "'buf set \<times> 'fb set \<Rightarrow> int \<Rightarrow> ('buf, 'fb, 'm) ScanoutSlot list \<Rightarrow> ('buf, 'fb, 'm) ScanoutRuntime \<Rightarrow> 'b dev \<Rightarrow> bool" where
  "pool_ok base c slots rt d \<longleftrightarrow> length slots = 3 \<and> (\<forall>a. Some a \<in> set slots \<longrightarrow> ready a)
     \<and> (\<forall>w. rt_waiting rt = Some w \<longrightarrow> ready_waiting w)
     \<and> rt_current_live_bytes rt = live_bytes slots (rt_waiting rt)
     \<and> rt_current_live_bytes rt < usize_bound \<and> rt_current_live_bytes rt \<le> rt_observed_peak_live_bytes rt
     \<and> holds base c (owners slots (rt_waiting rt)) d"

lemma pool_okD:
  assumes "pool_ok base c slots rt d"
  shows "length slots = 3" "i < 3 \<Longrightarrow> slots ! i = Some a \<Longrightarrow> ready a" "rt_waiting rt = Some w \<Longrightarrow> ready_waiting w"
    "rt_current_live_bytes rt = live_bytes slots (rt_waiting rt)" "rt_current_live_bytes rt < usize_bound"
    "rt_current_live_bytes rt \<le> rt_observed_peak_live_bytes rt" "holds base c (owners slots (rt_waiting rt)) d"
  using assms unfolding pool_ok_def by (elim conjE, metis nth_mem)+

text \<open>Taking a slot's allocation out and releasing it.\<close>

lemma slot_released:
  assumes ok: "pool_ok base c slots rt d" and i: "i < 3" "slots ! i = Some a"
    and rel: "release_allocation be a d = (r, a', d')"
  shows "sa_live_bytes a \<le> rt_current_live_bytes rt
    \<and> pool_ok base c (slots[i := None]) (rt\<lparr> rt_current_live_bytes := rt_current_live_bytes rt - sa_live_bytes a \<rparr>) d'
    \<and> (cleanup_total be \<longrightarrow> r = Ok ())"
proof -
  note D = pool_okD [OF ok]
  have rd: "ready a" using D(2) i by blast
  have own: "owners slots (rt_waiting rt) i = (owned_bufs a, owned_fbs a)" using D(1) i by (simp add: owners_at)
  have sub: "owned_bufs a \<subseteq> bufs (fst d)" "owned_fbs a \<subseteq> fbs (fst d)"
    using holdsD(3,4) [OF D(7), of i] unfolding own by auto
  have l: "lost d d' (owned_bufs a) (owned_fbs a) r"
    using release_allocation_spec [OF rel _ sub] rd by (simp add: ready_def)
  then have "holds base c ((owners slots (rt_waiting rt))(i := ({}, {}))) d'"
    using holds_lost [OF D(7), of d' i r] by (simp add: own)
  then have h: "holds base c (owners (slots[i := None]) (rt_waiting rt)) d'"
    using D(1) i(1) owners_slot [of i slots None] by simp
  have bytes: "sa_live_bytes a \<le> rt_current_live_bytes rt"
      "live_bytes (slots[i := None]) (rt_waiting rt) = rt_current_live_bytes rt - sa_live_bytes a"
    using D(1,4) i live_bytes_slot(1) [of i slots None "rt_waiting rt"] live_bytes_slot(2) [of i slots "rt_waiting rt"] by simp_all
  have lim: "rt_current_live_bytes rt - sa_live_bytes a < usize_bound"
      "rt_current_live_bytes rt - sa_live_bytes a \<le> rt_observed_peak_live_bytes rt"
    using D(5,6) by (meson diff_le_self le_less_trans le_trans)+
  have "\<forall>x. Some x \<in> set (slots[i := None]) \<longrightarrow> ready x"
    using ok set_update_subset_insert [of slots i None] unfolding pool_ok_def by blast
  then have "pool_ok base c (slots[i := None]) (rt\<lparr> rt_current_live_bytes := rt_current_live_bytes rt - sa_live_bytes a \<rparr>) d'"
    using D(1,3) h bytes lim by (simp add: pool_ok_def)
  then show ?thesis using bytes(1) l by (simp add: lost_def)
qed

text \<open>\<open>pool_ok\<close> does not read the roles and the routes.\<close>

lemma pool_ok_roles:
  "pool_ok base c slots rt d \<Longrightarrow> rt_waiting rt' = rt_waiting rt \<Longrightarrow> rt_current_live_bytes rt' = rt_current_live_bytes rt
    \<Longrightarrow> rt_observed_peak_live_bytes rt' = rt_observed_peak_live_bytes rt \<Longrightarrow> pool_ok base c slots rt' d"
  unfolding pool_ok_def by metis

lemma pool_ok_dev: "pool_ok base c slots rt d \<Longrightarrow> gained d d' {} {} k \<Longrightarrow> pool_ok base c slots rt d'"
  unfolding pool_ok_def using holds_same by blast

lemma pool_ok_failed:
  assumes "pool_ok base c slots rt d" and "bufs (fst d) \<subseteq> bufs (fst d')" and "fbs (fst d) \<subseteq> fbs (fst d')"
    and "cleanup_total be \<longrightarrow> bufs (fst d') = bufs (fst d) \<and> fbs (fst d') = fbs (fst d)"
    and "int (card (fbs (fst d'))) - counted_fbs (snd d') = int (card (fbs (fst d))) - counted_fbs (snd d)"
  shows "pool_ok base c slots rt d'"
  using assms(1) holds_failed [OF _ assms(2-5)] unfolding pool_ok_def by blast

lemma release_candidate_spec:
  assumes ok: "pool_ok base c slots rt d" and i: "i < 3" "slots ! i \<noteq> None"
    and ro: "ro_candidate (rt_roles rt) = Some i" "i \<noteq> ro_active (rt_roles rt)"
    and op: "release_candidate be i (slots ! i) rt d = (r, slot', rt', d')"
  shows "slot' = None \<and> pool_ok base c (slots[i := None]) rt' d'
    \<and> rt_roles rt' = (rt_roles rt)\<lparr> ro_candidate := None \<rparr>
    \<and> rt_dynamic_routes rt' = map_option (\<lambda>dr. dr\<lparr> dr_candidate_key := None \<rparr>) (rt_dynamic_routes rt)
    \<and> rt_waiting rt' = rt_waiting rt \<and> (cleanup_total be \<longrightarrow> r = Ok ())"
proof -
  obtain a where a: "slots ! i = Some a" using i(2) by blast
  obtain r1 a' d1 where rel: "release_allocation be a d = (r1, a', d1)" by (rule prod_cases3)
  note R = slot_released [OF ok i(1) a rel]
  have op': "r = r1" "slot' = None" "d' = d1" "rt' = rt\<lparr> rt_current_live_bytes := rt_current_live_bytes rt - sa_live_bytes a,
      rt_roles := (rt_roles rt)\<lparr> ro_candidate := None \<rparr>,
      rt_dynamic_routes := map_option (\<lambda>dr. dr\<lparr> dr_candidate_key := None \<rparr>) (rt_dynamic_routes rt) \<rparr>"
    using op ro a rel R by (auto simp: release_candidate_def checked_sub_usize_def)
  have "pool_ok base c (slots[i := None]) rt' d1"
    by (rule pool_ok_roles [OF R [THEN conjunct2, THEN conjunct1]]) (simp_all add: op'(4))
  then show ?thesis using R op' by simp
qed

lemma release_inactive_spec:
  assumes ok: "pool_ok base c slots rt d" and i: "i < 3" "i \<noteq> ro_active (rt_roles rt)" "i \<noteq> ro_baseline (rt_roles rt)"
    and op: "release_inactive be i (slots ! i) rt d = (r, slot', rt', d')"
  shows "slot' = None \<and> pool_ok base c (slots[i := None]) rt' d' \<and> rt_roles rt' = rt_roles rt
    \<and> rt_dynamic_routes rt' = rt_dynamic_routes rt \<and> rt_waiting rt' = rt_waiting rt \<and> (cleanup_total be \<longrightarrow> r = Ok ())"
proof (cases "slots ! i")
  case None
  then have "slots[i := None] = slots" using list_update_id [of slots i] by simp
  then show ?thesis using op i None ok by (auto simp: release_inactive_def)
next
  case (Some a)
  obtain r1 a' d1 where rel: "release_allocation be a d = (r1, a', d1)" by (rule prod_cases3)
  note R = slot_released [OF ok i(1) Some rel]
  have op': "r = r1" "slot' = None" "d' = d1" "rt' = rt\<lparr> rt_current_live_bytes := rt_current_live_bytes rt - sa_live_bytes a \<rparr>"
    using op i(2,3) Some rel R by (auto simp: release_inactive_def checked_sub_usize_def)
  show ?thesis using R unfolding op' by simp
qed

text \<open>Creating an allocation, flushing it and staging it in an empty slot.\<close>

lemma flush_one_gained:
  assumes "flush_one be w h fbo (b, es) = (b', es')"
  shows "gained (b, cs) (b', cs) {} {} 0"
proof (cases fbo)
  case (Some fb)
  obtain u b1 where "be_dirty_framebuffer be fb 0 0 (ucast w) (ucast h) b = (u, b1)" by (meson surj_pair)
  moreover from this have "b' = b1" using assms Some by (cases u) (simp_all add: flush_one_def)
  ultimately show ?thesis using dirty_law by (simp add: gained_def)
qed (use assms in \<open>simp add: flush_one_def gained_refl\<close>)

lemma flush_black_gained:
  assumes "flush_black_initialization be a b = (r, b')"
  shows "gained (b, cs) (b', cs) {} {} 0"
proof -
  obtain b1 es1 where 1: "flush_one be (sa_width a) (sa_height a) (sb_framebuffer (sa_first a)) (b, []) = (b1, es1)"
    by (meson surj_pair)
  obtain b2 es2 where 2: "flush_one be (sa_width a) (sa_height a) (sb_framebuffer (sa_second a)) (b1, es1) = (b2, es2)"
    by (meson surj_pair)
  have "b' = b2" using assms 1 2 by (simp add: flush_black_initialization_def)
  then show ?thesis using gained_trans [OF flush_one_gained [OF 1] flush_one_gained [OF 2]] by simp
qed

lemma stage_candidate_spec:
  assumes ok: "pool_ok base c slots rt d" and i: "i < 3" "slots ! i = None"
    and ro: "ro_candidate (rt_roles rt) = None" "i \<noteq> ro_active (rt_roles rt)"
    and new: "create_allocation be mode d = (Ok a, d1)" and fl: "gained d1 d2 {} {} 0"
    and op: "stage_candidate be i None a rt d2 = (r, slot', rt', d')"
  shows "pool_ok base c (slots[i := slot']) rt' d' \<and> rt_waiting rt' = rt_waiting rt
    \<and> rt_dynamic_routes rt' = rt_dynamic_routes rt
    \<and> (case r of Inl _ \<Rightarrow> slot' = None \<and> rt' = rt
       | Inr _ \<Rightarrow> slot' = Some a \<and> sa_mode a = mode \<and> rt_roles rt' = (rt_roles rt)\<lparr> ro_candidate := Some i \<rparr>)"
proof -
  note D = pool_okD [OF ok]
  have fresh: "fresh_allocation mode a d1" and g: "gained d d1 (owned_bufs a) (owned_fbs a) 0"
    using create_allocation_spec [OF new] by simp_all
  note rd = fresh_ready [OF fresh]
  have own: "owners slots (rt_waiting rt) i = ({}, {})" using D(1) i by (simp add: owners_at)
  have h: "holds base c (owners (slots[i := Some a]) (rt_waiting rt)) d2"
    using holds_same [OF holds_gain [OF D(7) own g] fl] owners_slot [of i slots "Some a"] D(1) i(1) by simp
  show ?thesis
  proof (cases "rt_current_live_bytes rt + sa_live_bytes a < usize_bound")
    case True
    then have op': "r = Ok ()" "slot' = Some a" "d' = d2" "rt' = rt\<lparr> rt_roles := (rt_roles rt)\<lparr> ro_candidate := Some i \<rparr>,
        rt_current_live_bytes := rt_current_live_bytes rt + sa_live_bytes a,
        rt_observed_peak_live_bytes := max (rt_observed_peak_live_bytes rt) (rt_current_live_bytes rt + sa_live_bytes a) \<rparr>"
      using op ro by (auto simp: stage_candidate_def checked_add_live_bytes_def checked_add_usize_def)
    have "\<forall>x. Some x \<in> set (slots[i := Some a]) \<longrightarrow> ready x"
      using ok rd set_update_subset_insert [of slots i "Some a"] unfolding pool_ok_def by blast
    moreover have "live_bytes (slots[i := Some a]) (rt_waiting rt) = rt_current_live_bytes rt + sa_live_bytes a"
      using live_bytes_slot(1) [of i slots "Some a" "rt_waiting rt"] D(1,4) i by simp
    ultimately have "pool_ok base c (slots[i := Some a]) rt' d2"
      using D(1,3) h True op'(4) by (simp add: pool_ok_def)
    then show ?thesis using op' rd by simp
  next
    case False
    obtain r1 a' d3 where rel: "release_allocation be a d2 = (r1, a', d3)" by (rule prod_cases3)
    have op': "slot' = None" "d' = d3" "rt' = rt" "\<not> is_ok r"
      using op ro rel False by (auto simp: stage_candidate_def checked_add_live_bytes_def checked_add_usize_def
          split: sum.splits)
    have own': "owners (slots[i := Some a]) (rt_waiting rt) i = (owned_bufs a, owned_fbs a)"
      using D(1) i(1) by (simp add: owners_at)
    have sub: "owned_bufs a \<subseteq> bufs (fst d2)" "owned_fbs a \<subseteq> fbs (fst d2)"
      using holdsD(3,4) [OF h, of i] unfolding own' by auto
    have "lost d2 d3 (owned_bufs a) (owned_fbs a) r1"
      using release_allocation_spec [OF rel _ sub] rd by (simp add: ready_def)
    then have "holds base c ((owners (slots[i := Some a]) (rt_waiting rt))(i := ({}, {}))) d3"
      using holds_lost [OF h, of d3 i r1] by (simp add: own')
    then have "holds base c (owners slots (rt_waiting rt)) d3"
      using owners_slot [of i slots "Some a"] D(1) i(1) own by (simp add: fun_upd_idem)
    then have "pool_ok base c slots rt d3" using ok unfolding pool_ok_def by blast
    moreover have "slots[i := None] = slots" using i(2) list_update_id [of slots i] by simp
    ultimately show ?thesis using op' by (cases r) simp_all
  qed
qed

text \<open>Replacing the waiting scanout. The replacement is an owner of its own until it is installed.\<close>

lemma waiting_lost:
  assumes h: "holds base c own d" and o: "own i = waiting_owns (Some w)" and "ready_waiting w"
    and rel: "release_waiting be w d = (r, w', d')"
  shows "holds base c (own(i := ({}, {}))) d'"
proof -
  have "set_option (ws_framebuffer w) \<subseteq> fbs (fst d)" using holdsD(4) [OF h, of i] o by auto
  then have "lost d d' (fst (own i)) (snd (own i)) r"
    using release_waiting_spec [OF rel] assms(3) o by (simp add: ready_waiting_def)
  then show ?thesis by (rule holds_lost [OF h])
qed

lemma ensure_waiting_mode_spec:
  assumes ok: "pool_ok base c slots rt d" and op: "ensure_waiting_mode be mode render rt d = (r, rt', d')"
  shows "pool_ok base c slots rt' d' \<and> rt_roles rt' = rt_roles rt \<and> rt_dynamic_routes rt' = rt_dynamic_routes rt
    \<and> (is_ok r \<longrightarrow> (\<exists>w. rt_waiting rt' = Some w \<and> ws_mode w = mode))"
proof (cases "\<exists>w. rt_waiting rt = Some w \<and> ws_mode w = mode")
  case True
  then show ?thesis using op ok by (auto simp: ensure_waiting_mode_def)
next
  case False
  then have other: "(case rt_waiting rt of None \<Rightarrow> False | Some w \<Rightarrow> ws_mode w = mode) = False" by (auto split: option.splits)
  note D = pool_okD [OF ok]
  let ?own = "owners slots (rt_waiting rt)"
  obtain rc d1 where c: "create_waiting_scanout be mode d = (rc, d1)" by (meson surj_pair)
  note cs = create_waiting_spec [OF c]
  show ?thesis
  proof (cases rc)
    case (Inl e)
    then have "pool_ok base c slots rt d1" using pool_ok_failed [OF ok, of d1] cs by simp
    then show ?thesis using op other c Inl by (auto simp: ensure_waiting_mode_def)
  next
    case (Inr w)
    have fresh: "ready_waiting w" "ws_mode w = mode" and g: "gained d d1 (set_option (ws_buffer w)) (set_option (ws_framebuffer w)) 0"
      using cs Inr fresh_ready_waiting [of mode w d1] by (simp_all add: fresh_waiting_def)
    obtain rr d2 where m: "with_mapped be w render d1 = (rr, d2)" by (meson surj_pair)
    have e4: "?own 4 = ({}, {})" using D(1) by (simp add: owners_def)
    have h2: "holds base c (?own(4 := waiting_owns (Some w))) d2"
      using holds_same [OF holds_gain [OF D(7) e4 g] with_mapped_spec [OF m]] by simp
    have undone: "pool_ok base c slots rt d3" if "release_waiting be w d2 = (q, w', d3)" for q w' d3
    proof -
      have "holds base c ?own d3"
        using waiting_lost [OF h2 _ fresh(1) that, of 4] e4 by (simp add: fun_upd_idem)
      then show ?thesis using ok unfolding pool_ok_def by blast
    qed
    obtain q w' d3 where rel: "release_waiting be w d2 = (q, w', d3)" by (rule prod_cases3)
    let ?old = "waiting_bytes (rt_waiting rt)" and ?cur = "rt_current_live_bytes rt"
    have old: "?old \<le> ?cur" "(case rt_waiting rt of None \<Rightarrow> 0 | Some old \<Rightarrow> ws_live_bytes old) = ?old"
      using D(4) by (auto simp: live_bytes_def split: option.splits)
    show ?thesis
    proof (cases "is_ok rr \<and> ?cur + ws_live_bytes w < usize_bound")
      case False
      then have "\<not> is_ok r" "rt' = rt" "d' = d3"
        using op other c Inr m rel old
        by (auto simp: ensure_waiting_mode_def discard_replacement_def checked_sub_usize_def checked_add_live_bytes_def
            checked_add_usize_def Let_def split: sum.splits if_splits)
      then show ?thesis using undone [OF rel] by simp
    next
      case True
      have lim: "?cur - ?old + ws_live_bytes w < usize_bound" using True old(1) by linarith
      let ?d3 = "case rt_waiting rt of None \<Rightarrow> d2 | Some old \<Rightarrow> snd (snd (release_waiting be old d2))"
      have op': "is_ok r" "d' = ?d3" "rt' = rt\<lparr> rt_waiting := Some w, rt_current_live_bytes := ?cur - ?old + ws_live_bytes w,
          rt_observed_peak_live_bytes := max (rt_observed_peak_live_bytes rt) (?cur + ws_live_bytes w) \<rparr>"
        using op other c Inr m True old lim
        by (auto simp: ensure_waiting_mode_def checked_sub_usize_def checked_add_live_bytes_def checked_add_usize_def
            Let_def is_ok_iff)
      have "holds base c ((?own(4 := waiting_owns (Some w)))(3 := ({}, {}))) ?d3"
      proof (cases "rt_waiting rt")
        case None
        then have "?own(3 := ({}, {})) = ?own" using D(1) by (simp add: owners_def fun_upd_idem)
        then show ?thesis using h2 None by (simp add: fun_upd_twist)
      next
        case (Some v)
        obtain q1 v' d4 where r: "release_waiting be v d2 = (q1, v', d4)" by (rule prod_cases3)
        have "(?own(4 := waiting_owns (Some w))) 3 = waiting_owns (Some v)" using D(1) Some by (simp add: owners_def)
        then have "holds base c ((?own(4 := waiting_owns (Some w)))(3 := ({}, {}))) d4"
          by (rule waiting_lost [OF h2 _ D(3) [OF Some] r])
        then show ?thesis using Some r by simp
      qed
      from holds_move [OF this, of 3 4]
      have "holds base c ((?own(4 := waiting_owns (Some w), 3 := ({}, {})))(3 := waiting_owns (Some w), 4 := ({}, {}))) ?d3"
        by simp
      moreover have "(?own(4 := waiting_owns (Some w), 3 := ({}, {})))(3 := waiting_owns (Some w), 4 := ({}, {}))
          = owners slots (Some w)"
        using D(1) by (auto simp: owners_def fun_eq_iff)
      ultimately have h: "holds base c (owners slots (Some w)) ?d3" by simp
      have "live_bytes slots (Some w) = ?cur - ?old + ws_live_bytes w" using D(4) by (simp add: live_bytes_def)
      then have "pool_ok base c slots rt' ?d3"
        using ok h True fresh(1) lim unfolding op'(3) pool_ok_def by simp
      then show ?thesis using op' fresh(2) by simp
    qed
  qed
qed

text \<open>A new manager, its waiting scanout, and the release of everything.\<close>

lemma new_baseline_spec:
  assumes "new_baseline be mode b = (Ok sm, d)" and "split_runtime sm = (slots, rt)"
  shows "pool_ok (bufs b, fbs b) (int (card (fbs b))) slots rt d
    \<and> (\<exists>a. slots = [Some a, None, None] \<and> sa_mode a = mode)
    \<and> rt_roles rt = \<lparr> ro_active = 0, ro_baseline = 0, ro_candidate = None \<rparr> \<and> rt_waiting rt = None
    \<and> rt_dynamic_routes rt = None"
proof -
  obtain r d1 where c: "create_allocation be mode (b, default_counters) = (r, d1)" by (meson surj_pair)
  then obtain a where a: "r = Ok a" using assms(1) by (cases r) (simp_all add: new_baseline_def)
  have fresh: "fresh_allocation mode a d1" and g: "gained (b, default_counters) d1 (owned_bufs a) (owned_fbs a) 0"
    using create_allocation_spec [OF c] a by simp_all
  note rd = fresh_ready [OF fresh]
  have eq: "d = d1" "slots = [Some a, None, None]" "rt = \<lparr> rt_roles = \<lparr> ro_active = 0, ro_baseline = 0, ro_candidate = None \<rparr>,
      rt_waiting = None, rt_current_live_bytes = sa_live_bytes a, rt_observed_peak_live_bytes = sa_live_bytes a,
      rt_dynamic_routes = None \<rparr>"
    using assms c a rd by (auto simp: new_baseline_def checked_add_usize_def split_runtime_def with_baseline_def
        split: sum.splits if_splits)
  have "holds (bufs b, fbs b) (int (card (fbs b))) (\<lambda>_. ({}, {})) (b, default_counters)"
    by (rule holdsI) (simp_all add: counted_fbs_def default_counters_def)
  from holds_gain [OF this _ g, of 0]
  have "holds (bufs b, fbs b) (int (card (fbs b))) ((\<lambda>_. ({}, {}))(0 := (owned_bufs a, owned_fbs a))) d1" by simp
  moreover have "owners slots None = (\<lambda>_. ({}, {}))(0 := (owned_bufs a, owned_fbs a))"
    unfolding eq(2) by (auto simp: owners_def fun_eq_iff nth_Cons')
  ultimately have "holds (bufs b, fbs b) (int (card (fbs b))) (owners slots None) d1" by simp
  then show ?thesis using rd eq by (auto simp: pool_ok_def live_bytes_def)
qed

lemma create_waiting_manager_spec:
  assumes ok: "pool_ok base c slots rt d" and sm: "split_runtime sm = (slots, rt)"
    and op: "create_waiting be mode sm d = (Ok (), sm', d')" and sm': "split_runtime sm' = (slots', rt')"
  shows "pool_ok base c slots' rt' d' \<and> slots' = slots \<and> rt_roles rt' = rt_roles rt
    \<and> rt_dynamic_routes rt' = rt_dynamic_routes rt \<and> (\<exists>w. rt_waiting rt' = Some w \<and> ws_mode w = mode)"
proof -
  note D = pool_okD [OF ok]
  have none: "rt_waiting rt = None" using op sm by (auto simp: create_waiting_def split_runtime_def split: if_splits)
  obtain rc d1 where c: "create_waiting_scanout be mode d = (rc, d1)" by (meson surj_pair)
  then obtain w where w: "rc = Ok w"
    using op by (cases rc) (auto simp: create_waiting_def split: if_splits)
  have fresh: "ready_waiting w" "ws_mode w = mode" and g: "gained d d1 (set_option (ws_buffer w)) (set_option (ws_framebuffer w)) 0"
    using create_waiting_spec [OF c] w fresh_ready_waiting [of mode w d1] by (simp_all add: fresh_waiting_def)
  have eq: "slots' = slots" "d' = d1" "rt_current_live_bytes rt + ws_live_bytes w < usize_bound"
      "rt' = rt\<lparr> rt_waiting := Some w, rt_current_live_bytes := rt_current_live_bytes rt + ws_live_bytes w,
        rt_observed_peak_live_bytes := max (rt_observed_peak_live_bytes rt) (rt_current_live_bytes rt + ws_live_bytes w) \<rparr>"
    using op sm sm' c w
    by (auto simp: create_waiting_def split_runtime_def checked_add_live_bytes_def checked_add_usize_def
        split: if_splits sum.splits prod.splits)
  have "holds base c ((owners slots None)(3 := waiting_owns (Some w))) d1"
    using holds_gain [OF D(7) _ g, of 3] none D(1) by (simp add: owners_def)
  then have "holds base c (owners slots (Some w)) d1" using owners_waiting [of slots "Some w" None] D(1) by simp
  moreover have "live_bytes slots (Some w) = rt_current_live_bytes rt + ws_live_bytes w"
    using D(4) none by (simp add: live_bytes_def)
  ultimately show ?thesis using ok eq fresh by (simp add: pool_ok_def)
qed

lemma release_slot_holds:
  assumes h: "holds base c (owners (pre @ s # rest) w) d" and "\<forall>a. s = Some a \<longrightarrow> ready a"
    and op: "release_slot be s (d, es) = (d', es')"
  shows "holds base c (owners (pre @ None # rest) w) d' \<and> (cleanup_total be \<longrightarrow> es' = es)"
proof (cases s)
  case (Some a)
  let ?i = "length pre"
  obtain r a' d1 where rel: "release_allocation be a d = (r, a', d1)" by (rule prod_cases3)
  have own: "owners (pre @ s # rest) w ?i = (owned_bufs a, owned_fbs a)" using Some by (simp add: owners_def)
  have "owned_bufs a \<subseteq> bufs (fst d)" "owned_fbs a \<subseteq> fbs (fst d)"
    using holdsD(3,4) [OF h, of ?i] unfolding own by auto
  then have l: "lost d d1 (owned_bufs a) (owned_fbs a) r"
    using release_allocation_spec [OF rel] assms(2) Some by (simp add: ready_def)
  then have "holds base c ((owners (pre @ s # rest) w)(?i := ({}, {}))) d1"
    using holds_lost [OF h, of d1 ?i r] by (simp add: own)
  moreover have "(owners (pre @ s # rest) w)(?i := ({}, {})) = owners (pre @ None # rest) w"
    using owners_slot [of ?i "pre @ s # rest" None w] by simp
  ultimately show ?thesis using op Some rel l by (cases r) (auto simp: release_slot_def lost_def)
qed (use assms in \<open>simp add: release_slot_def\<close>)

lemma release_slots_holds:
  assumes "holds base c (owners (pre @ slots) w) d" and "\<forall>a. Some a \<in> set slots \<longrightarrow> ready a"
    and "foldr (release_slot be) slots (d, es) = (d', es')"
  shows "holds base c (owners (pre @ map (\<lambda>_. None) slots) w) d' \<and> (cleanup_total be \<longrightarrow> es' = es)"
  using assms
proof (induction slots arbitrary: pre d' es')
  case (Cons s slots)
  obtain d1 es1 where rest: "foldr (release_slot be) slots (d, es) = (d1, es1)" by (meson surj_pair)
  have "holds base c (owners ((pre @ [s]) @ map (\<lambda>_. None) slots) w) d1 \<and> (cleanup_total be \<longrightarrow> es1 = es)"
    by (rule Cons.IH [OF _ _ rest]) (use Cons.prems in simp_all)
  then show ?case
    using release_slot_holds [of base c pre s "map (\<lambda>_. None) slots" w d1 es1 d' es'] Cons.prems rest by auto
qed simp

lemma release_all_spec:
  assumes ok: "pool_ok base c slots rt d" and op: "release_all be (join_runtime slots rt) d = (r, sm', d')"
  shows "holds base c (\<lambda>_. ({}, {})) d' \<and> sm_current_live_bytes sm' = 0 \<and> sm_waiting sm' = None
    \<and> set (po_slots (sm_pool sm')) \<subseteq> {None} \<and> ro_candidate (po_roles (sm_pool sm')) = None
    \<and> (cleanup_total be \<longrightarrow> r = Ok () \<and> bufs (fst d') = fst base \<and> fbs (fst d') = snd base)"
proof -
  note D = pool_okD [OF ok]
  define d1e where "d1e = (case rt_waiting rt of None \<Rightarrow> (d, []) | Some w \<Rightarrow>
      (case release_waiting be w d of (Inl e, _, d1) \<Rightarrow> (d1, [e]) | (Inr _, _, d1) \<Rightarrow> (d1, [])))"
  obtain d1 es1 where d1: "d1e = (d1, es1)" by (meson surj_pair)
  have "holds base c (owners slots None) d1 \<and> (cleanup_total be \<longrightarrow> es1 = [])"
  proof (cases "rt_waiting rt")
    case None
    then show ?thesis using D(7) d1 by (simp add: d1e_def)
  next
    case (Some w)
    obtain q w' d2 where rel: "release_waiting be w d = (q, w', d2)" by (rule prod_cases3)
    have fb: "set_option (ws_framebuffer w) \<subseteq> fbs (fst d)"
      using holdsD(4) [OF D(7), of 3] D(1) Some by (auto simp: owners_def)
    have "holds base c ((owners slots (rt_waiting rt))(3 := ({}, {}))) d2"
      by (rule waiting_lost [OF D(7) _ D(3) [OF Some] rel]) (use D(1) Some in \<open>simp add: owners_def\<close>)
    moreover have "(owners slots (rt_waiting rt))(3 := ({}, {})) = owners slots None"
      using owners_waiting [of slots None "rt_waiting rt"] D(1) by simp
    moreover have "cleanup_total be \<longrightarrow> q = Ok ()"
      using release_waiting_spec [OF rel _ fb] D(3) [OF Some] by (simp add: ready_waiting_def lost_def)
    ultimately show ?thesis using d1 Some rel by (cases q) (auto simp: d1e_def)
  qed
  note h1 = this
  obtain d2 es2 where fo: "foldr (release_slot be) slots (d1, []) = (d2, es2)" by (meson surj_pair)
  have h2: "holds base c (owners (map (\<lambda>_. None) slots :: ('buf, 'fb, 'm) ScanoutSlot list) None) d2 \<and> (cleanup_total be \<longrightarrow> es2 = [])"
    using release_slots_holds [of base c "[]" slots None d1 "[]" d2 es2] h1 ok fo by (simp add: pool_ok_def)
  have "owners (map (\<lambda>_. None) slots :: ('buf, 'fb, 'm) ScanoutSlot list) None = (\<lambda>_. ({}, {}))"
    by (auto simp: owners_def fun_eq_iff)
  with h2 have h3: "holds base c (\<lambda>_. ({}, {})) d2" by simp
  have "d' = d2" "sm' = (join_runtime slots rt)\<lparr> sm_pool := \<lparr> po_slots = map (\<lambda>_. None) slots,
      po_roles = (rt_roles rt)\<lparr> ro_candidate := None \<rparr> \<rparr>, sm_waiting := None, sm_current_live_bytes := 0 \<rparr>"
      "cleanup_total be \<Longrightarrow> r = Ok ()"
    using op d1 [unfolded d1e_def] fo h1 h2
    by (auto simp: release_all_def release_pool_def join_runtime_def cleanup_result_def)
  then show ?thesis
    using h3 holdsD(7,8) [OF h3] by (auto simp: join_runtime_def)
qed

end

end
