(* ===== verification/Drm_Routes.thy ===== *)
theory Drm_Routes
  imports Drm_Pool
begin

text \<open>
  The presentation routes of \<^verbatim>\<open>drm/src/main.rs\<close>: startup of the display, preparing a plan when the host checks a
  state, switching the physical mode when it commits it, dropping the plan when the protocol state is
  invalidated, and the waiting surface of the USB lifecycle. The Rust functions get a slot reference
  together with its index (always \<open>slot_mut!(index)\<close>); the model passes the index and the slot array.
  Elapsed milliseconds are arguments where they are stored and are left out where they are only logged.
\<close>

section \<open>Model\<close>

definition physical_mode_routing_enabled :: bool where
  "physical_mode_routing_enabled = True"

datatype ('buf, 'fb, 'm) StableMappedActive =
    Slot0 "('buf, 'fb, 'm) MappedActive"
  | Slot1 "('buf, 'fb, 'm) MappedActive"
  | Slot2 "('buf, 'fb, 'm) MappedActive"

fun active_index :: "('buf, 'fb, 'm) StableMappedActive \<Rightarrow> usize" where
  "active_index (Slot0 _) = 0"
| "active_index (Slot1 _) = 1"
| "active_index (Slot2 _) = 2"

fun active_mapped :: "('buf, 'fb, 'm) StableMappedActive \<Rightarrow> ('buf, 'fb, 'm) MappedActive" where
  "active_mapped (Slot0 m) = m"
| "active_mapped (Slot1 m) = m"
| "active_mapped (Slot2 m) = m"

type_synonym ('b, 'buf, 'fb, 'm) pool_state =
  "('buf, 'fb, 'm) ScanoutSlot list \<times> ('buf, 'fb, 'm) ScanoutRuntime \<times> 'b dev"

text \<open>A runtime operation on \<open>slot_mut!(i)\<close>, and one that only counts.\<close>

definition at_slot ::
  "(usize \<Rightarrow> ('buf, 'fb, 'm) ScanoutSlot \<Rightarrow> ('buf, 'fb, 'm) ScanoutRuntime \<Rightarrow> 'b dev \<Rightarrow>
    'r \<times> ('buf, 'fb, 'm) ScanoutSlot \<times> ('buf, 'fb, 'm) ScanoutRuntime \<times> 'b dev) \<Rightarrow>
   usize \<Rightarrow> ('b, 'buf, 'fb, 'm) pool_state \<Rightarrow> 'r \<times> ('b, 'buf, 'fb, 'm) pool_state" where
  "at_slot f i st =
     (case st of (slots, rt, d) \<Rightarrow>
        case f i (slots ! i) rt d of (r, slot, rt', d') \<Rightarrow> (r, slots[i := slot], rt', d'))"

definition counting ::
  "(ScanoutCounterSnapshot \<Rightarrow> ScanoutCounterSnapshot) \<Rightarrow> ('b, 'buf, 'fb, 'm) pool_state \<Rightarrow> ('b, 'buf, 'fb, 'm) pool_state" where
  "counting f st = (case st of (slots, rt, b, cs) \<Rightarrow> (slots, rt, b, f cs))"

definition release_dynamic_candidate_in_available_slots ::
  "('b, 'buf, 'fb, 'm) backend \<Rightarrow> usize \<Rightarrow> usize option \<Rightarrow> ('b, 'buf, 'fb, 'm) pool_state \<Rightarrow>
   unit result \<times> ('b, 'buf, 'fb, 'm) pool_state" where
  "release_dynamic_candidate_in_available_slots be primary secondary st =
     (case ro_candidate (rt_roles (fst (snd st))) of
        None \<Rightarrow> (Ok (), st)
      | Some index \<Rightarrow>
          if index = primary then at_slot (release_candidate be) primary st
          else if secondary = Some index then at_slot (release_candidate be) index st
          else (Err ''candidate slot is not available'', st))"

text \<open>
  The closure \<open>prepared_slot\<close>: an allocation for the physical mode, flushed (a failed flush is only
  logged), goes to the primary slot when it is empty and else to the secondary one.
\<close>

definition prepare_slot ::
  "('b, 'buf, 'fb, 'm) backend \<Rightarrow> 'm \<Rightarrow> usize \<Rightarrow> usize option \<Rightarrow> ('b, 'buf, 'fb, 'm) pool_state \<Rightarrow>
   usize result \<times> ('b, 'buf, 'fb, 'm) pool_state" where
  "prepare_slot be mode primary secondary st =
     (case st of (slots, rt, d) \<Rightarrow>
      case create_allocation be mode d of
        (Inl e, d1) \<Rightarrow> (Inl e, slots, rt, d1)
      | (Inr a, d1) \<Rightarrow>
          let d2 = (snd (flush_black_initialization be a (fst d1)), snd d1);
              stage = (\<lambda>i. case at_slot (\<lambda>i slot. stage_candidate be i slot a) i (slots, rt, d2) of
                             (Inl e, st') \<Rightarrow> (Inl e, st')
                           | (Inr _, st') \<Rightarrow> (Ok i, st')) in
          if slots ! primary = None then stage primary
          else case secondary of
            None \<Rightarrow> (Err ''no second candidate scanout slot is available'', slots, rt, d2)
          | Some i \<Rightarrow>
              if slots ! i \<noteq> None then (Err ''no empty candidate scanout slot'', slots, rt, d2)
              else stage i)"

definition dynamic_routes :: "('b, 'buf, 'fb, 'm) pool_state \<Rightarrow> 'm DynamicRouteState result" where
  "dynamic_routes st = ctx (rt_dynamic_routes (fst (snd st))) ''dynamic route state is not initialized''"

definition update_routes ::
  "('m DynamicRouteState \<Rightarrow> 'm DynamicRouteState) \<Rightarrow> ('b, 'buf, 'fb, 'm) pool_state \<Rightarrow>
   unit result \<times> ('b, 'buf, 'fb, 'm) pool_state" where
  "update_routes f st =
     (case st of (slots, rt, d) \<Rightarrow>
      case rt_dynamic_routes rt of
        None \<Rightarrow> (Err ''dynamic route state is not initialized'', st)
      | Some dr \<Rightarrow> (Ok (), slots, rt\<lparr> rt_dynamic_routes := Some (f dr) \<rparr>, d))"

text \<open>The end of the preparation: the plan and its candidate key are stored.\<close>

definition store_plan ::
  "'m PendingPlan \<Rightarrow> ModeKey option \<Rightarrow> ('b, 'buf, 'fb, 'm) pool_state \<Rightarrow> unit result \<times> ('b, 'buf, 'fb, 'm) pool_state" where
  "store_plan plan new_candidate_key =
     update_routes (\<lambda>dr. dr\<lparr> dr_candidate_key := new_candidate_key, dr_pending_plan := Some plan \<rparr>)"

definition prepare_dynamic_check_in_available_slots ::
  "('b, 'buf, 'fb, 'm) backend \<Rightarrow> usize \<Rightarrow> usize option \<Rightarrow> 'm RouteCatalog \<Rightarrow> DisplayStateSnapshot \<Rightarrow> nat \<Rightarrow>
   ('b, 'buf, 'fb, 'm) pool_state \<Rightarrow> unit result \<times> ('b, 'buf, 'fb, 'm) pool_state" where
  "prepare_dynamic_check_in_available_slots be primary secondary catalog sn ms st =
     (case entry_for_snapshot sn catalog of
        None \<Rightarrow> (Err ''checked snapshot is absent from route catalog'', st)
      | Some entry \<Rightarrow>
     (case dynamic_routes st of
        Inl e \<Rightarrow> (Inl e, st)
      | Inr dr \<Rightarrow>
     (let logical = key_from_snapshot sn;
          roles = rt_roles (fst (snd st));
          fk = failed_key logical dr;
          plan = (\<lambda>kind key mode hit. \<lparr> pp_snapshot = sn, pp_logical_key = logical, pp_requested_physical_key = key,
                    pp_requested_mode = mode, pp_kind = kind, pp_failed_cache_hit = hit, pp_mode_prepare_ms = ms \<rparr>);
          released = (\<lambda>k. case release_dynamic_candidate_in_available_slots be primary secondary st of
                            (Inl e, st1) \<Rightarrow> (Inl e, st1)
                          | (Inr _, st1) \<Rightarrow> k st1) in
      case ce_route entry of
        ExactRoute mode \<Rightarrow>
          if ce_key entry = dr_current_physical_key dr
          then released (\<lambda>st1. store_plan (plan ExactActiveNoOp (Some (ce_key entry)) (Some mode) False) None
                                 (counting count_no_op st1))
          else if dr_candidate_key dr = Some (ce_key entry) \<and> ro_candidate roles \<noteq> None
          then store_plan (plan (ExactCandidate (the (ro_candidate roles))) (Some (ce_key entry)) (Some mode) False)
                 (dr_candidate_key dr) st
          else if fk \<in> dr_failed_routes dr
          then released (\<lambda>st1. store_plan (plan (ScaledCurrentAfterFailure FailedCacheHit) (Some (ce_key entry)) (Some mode) True)
                                 None (counting count_fallback st1))
          else released (\<lambda>st1.
                 case prepare_slot be mode primary secondary st1 of
                   (Inr i, st2) \<Rightarrow>
                     store_plan (plan (ExactCandidate i) (Some (ce_key entry)) (Some mode) False) (Some (ce_key entry)) st2
                 | (Inl _, st2) \<Rightarrow>
                     (case update_routes (\<lambda>dr. dr\<lparr> dr_failed_routes := insert fk (dr_failed_routes dr) \<rparr>) st2 of
                        (Inl e, st3) \<Rightarrow> (Inl e, st3)
                      | (Inr _, st3) \<Rightarrow>
                          store_plan (plan (ScaledCurrentAfterFailure PrepareFailed) (Some (ce_key entry)) (Some mode) False)
                            None (counting count_fallback st3)))
      | ScaledFallback \<Rightarrow>
          released (\<lambda>st1.
            let ro = rt_roles (fst (snd st1)) in
            store_plan (plan (ScaledBaseline (ro_active ro \<noteq> ro_baseline ro)) None None False) None
              (counting count_fallback st1)))))"

definition invalidate_dynamic_pending_in_available_slots ::
  "('b, 'buf, 'fb, 'm) backend \<Rightarrow> usize \<Rightarrow> usize option \<Rightarrow> ('b, 'buf, 'fb, 'm) pool_state \<Rightarrow>
   unit result \<times> ('b, 'buf, 'fb, 'm) pool_state" where
  "invalidate_dynamic_pending_in_available_slots be primary secondary st =
     (case release_dynamic_candidate_in_available_slots be primary secondary st of
        (Inl e, st1) \<Rightarrow> (Inl e, st1)
      | (Inr _, st1) \<Rightarrow> update_routes invalidate_pending st1)"

datatype ('buf, 'fb, 'm) MappedSwitch =
    Switched "('buf, 'fb, 'm) MappedActive"
  | Retained "('buf, 'fb, 'm) MappedActive" err

definition attempt_mapped_switch ::
  "('b, 'buf, 'fb, 'm) backend \<Rightarrow> ('buf, 'fb, 'm) MappedActive \<Rightarrow> ('buf, 'fb, 'm) ScanoutAllocation \<Rightarrow> 'b dev \<Rightarrow>
   ('buf, 'fb, 'm) MappedSwitch result \<times> 'b dev" where
  "attempt_mapped_switch be old target d =
     (case map_allocation be target d of
        (Inl e, d1) \<Rightarrow> (Ok (Retained old e), d1)
      | (Inr t, d1) \<Rightarrow>
          (case front_framebuffer t of
             Inl e \<Rightarrow> (Inl e, d1)
           | Inr fb \<Rightarrow>
               (case be_set_crtc be fb (ma_mode t) (fst d1) of
                  (Inr _, b) \<Rightarrow> (Ok (Switched t), drop_mapped (b, snd d1))
                | (Inl e, b) \<Rightarrow> (Ok (Retained old e), drop_mapped (b, snd d1)))))"

fun committed_physical_key :: "PresentationRoute \<Rightarrow> ModeKey option \<Rightarrow> ModeKey \<Rightarrow> ModeKey option" where
  "committed_physical_key (RouteScaledBaseline _) requested baseline = Some baseline"
| "committed_physical_key _ requested baseline = requested"

definition record_committed_route ::
  "DisplayStateSnapshot \<Rightarrow> PresentationRoute \<Rightarrow> ModeKey option \<Rightarrow> ('b, 'buf, 'fb, 'm) pool_state \<Rightarrow>
   unit result \<times> ('b, 'buf, 'fb, 'm) pool_state" where
  "record_committed_route sn route new_key st =
     (case dynamic_routes st of
        Inl e \<Rightarrow> (Inl e, st)
      | Inr dr \<Rightarrow>
          let st1 = (if dr_presentation_route dr \<noteq> Some route then counting count_route_changed st else st) in
          update_routes (\<lambda>dr. dr\<lparr> dr_committed_snapshot := Some sn, dr_presentation_route := Some route,
            dr_current_physical_key :=
              (case committed_physical_key route new_key (dr_baseline_physical_key dr) of
                 None \<Rightarrow> dr_current_physical_key dr
               | Some key \<Rightarrow> key),
            dr_candidate_key := None \<rparr>) st1)"

text \<open>\<open>Inl True\<close>: a plan for another state was pending; \<open>Inl False\<close>: none was.\<close>

definition take_matching_pending_plan ::
  "'m PendingPlan option \<Rightarrow> DisplayStateSnapshot \<Rightarrow> (bool + 'm PendingPlan)" where
  "take_matching_pending_plan pending committed =
     (case pending of
        None \<Rightarrow> Inl False
      | Some plan \<Rightarrow> if pp_snapshot plan = committed then Inr plan else Inl True)"

section \<open>The display of the event loop\<close>

record ('buf, 'fb, 'm) Display =
  di_slots :: "('buf, 'fb, 'm) ScanoutSlot list"
  di_runtime :: "('buf, 'fb, 'm) ScanoutRuntime"
  di_active :: "('buf, 'fb, 'm) StableMappedActive"
  di_shadow :: ShadowFramebuffer
  di_surface :: VisibleSurface

definition on_pool ::
  "(('b, 'buf, 'fb, 'm) pool_state \<Rightarrow> 'r \<times> ('b, 'buf, 'fb, 'm) pool_state) \<Rightarrow> ('buf, 'fb, 'm) Display \<Rightarrow> 'b dev \<Rightarrow>
   'r \<times> ('buf, 'fb, 'm) Display \<times> 'b dev" where
  "on_pool f di d =
     (case f (di_slots di, di_runtime di, d) of
        (r, slots, rt, d') \<Rightarrow> (r, di\<lparr> di_slots := slots, di_runtime := rt \<rparr>, d'))"

text \<open>The slots a handler may borrow while one is mapped: the arms of \<open>match active\<close>.\<close>

fun available_slots :: "('buf, 'fb, 'm) StableMappedActive \<Rightarrow> usize \<times> usize option" where
  "available_slots (Slot0 _) = (1, Some 2)"
| "available_slots (Slot1 _) = (2, None)"
| "available_slots (Slot2 _) = (1, None)"

definition mapped_in :: "usize \<Rightarrow> ('buf, 'fb, 'm) MappedActive \<Rightarrow> ('buf, 'fb, 'm) StableMappedActive" where
  "mapped_in index m = (if index = 0 then Slot0 m else if index = 1 then Slot1 m else Slot2 m)"

definition waiting_callback :: "bool \<Rightarrow> TransferFormat \<Rightarrow> bytes \<Rightarrow> usize \<Rightarrow> u32 \<Rightarrow> u32 \<Rightarrow> unit result \<times> bytes" where
  "waiting_callback overflow_checks format mem pitch width height =
     (case render_waiting_screen overflow_checks mem pitch width height format of
        Inl e \<Rightarrow> (Inl e, mem)
      | Inr mem' \<Rightarrow> (Ok (), mem'))"

definition present_waiting_surface ::
  "('b, 'buf, 'fb, 'm) backend \<Rightarrow> bool \<Rightarrow> TransferFormat \<Rightarrow> ('buf, 'fb, 'm) StableMappedActive \<Rightarrow>
   ('b, 'buf, 'fb, 'm) pool_state \<Rightarrow> unit result \<times> ('b, 'buf, 'fb, 'm) pool_state" where
  "present_waiting_surface be overflow_checks format active st =
     (case st of (slots, rt, d) \<Rightarrow>
      let m = active_mapped active in
      case ensure_waiting_mode be (ma_mode m) (waiting_callback overflow_checks format) rt d of
        (Inl e, rt1, d1) \<Rightarrow> (Inl e, slots, rt1, d1)
      | (Inr _, rt1, d1) \<Rightarrow>
     (case waiting_framebuffer rt1 of
        Inl e \<Rightarrow> (Inl e, slots, rt1, d1)
      | Inr fb \<Rightarrow>
     (case be_set_crtc be fb (ma_mode m) (fst d1) of
        (Inl e, b) \<Rightarrow> (Inl e, slots, rt1, b, snd d1)
      | (Inr _, b) \<Rightarrow>
          (Ok (), slots, rt1, snd (be_dirty_framebuffer be fb 0 0 (ucast (ma_width m)) (ucast (ma_height m)) b), snd d1))))"

text \<open>Event \<open>StateChecked\<close>: a failure is logged and the loop goes on.\<close>

definition state_checked ::
  "('b, 'buf, 'fb, 'm) backend \<Rightarrow> 'm RouteCatalog \<Rightarrow> DisplayStateSnapshot \<Rightarrow> nat \<Rightarrow> ('buf, 'fb, 'm) Display \<Rightarrow> 'b dev \<Rightarrow>
   ('buf, 'fb, 'm) Display \<times> 'b dev" where
  "state_checked be catalog sn ms di d =
     (if physical_mode_routing_enabled then
        (case available_slots (di_active di) of (primary, secondary) \<Rightarrow>
           snd (on_pool (prepare_dynamic_check_in_available_slots be primary secondary catalog sn ms) di d))
      else (di, fst d, count_no_op (snd d)))"

text \<open>Event \<open>ProtocolStateInvalidated\<close>: the plan is dropped and its candidate released.\<close>

definition drop_pending ::
  "('b, 'buf, 'fb, 'm) backend \<Rightarrow> ('buf, 'fb, 'm) Display \<Rightarrow> 'b dev \<Rightarrow> ('buf, 'fb, 'm) Display \<times> 'b dev" where
  "drop_pending be di d =
     (case available_slots (di_active di) of (primary, secondary) \<Rightarrow>
        snd (on_pool (invalidate_dynamic_pending_in_available_slots be primary secondary) di d))"

definition protocol_invalidated ::
  "('b, 'buf, 'fb, 'm) backend \<Rightarrow> ('buf, 'fb, 'm) Display \<Rightarrow> 'b dev \<Rightarrow> ('buf, 'fb, 'm) Display \<times> 'b dev" where
  "protocol_invalidated be di d = (if physical_mode_routing_enabled then drop_pending be di d else (di, d))"

text \<open>
  The physical switch of a commit. On success the target becomes active and an old slot other than the
  baseline is released; on failure the old scanout stays mapped and a candidate is released.
\<close>

definition switch_slot ::
  "('b, 'buf, 'fb, 'm) backend \<Rightarrow> usize \<Rightarrow> bool \<Rightarrow> ('buf, 'fb, 'm) Display \<Rightarrow> 'b dev \<Rightarrow>
   bool result \<times> ('buf, 'fb, 'm) Display \<times> 'b dev" where
  "switch_slot be target is_candidate di d =
     (let old_index = active_index (di_active di) in
      case di_slots di ! target of
        None \<Rightarrow> (Err ''slot is empty at commit'', di, d)
      | Some t \<Rightarrow>
     (case attempt_mapped_switch be (active_mapped (di_active di)) t d of
        (Inl e, d1) \<Rightarrow> (Inl e, di, d1)
      | (Inr (Switched m), d1) \<Rightarrow>
          (case activate_slot target (di_runtime di) of
             (Inl e, rt) \<Rightarrow> (Inl e, di\<lparr> di_runtime := rt \<rparr>, d1)
           | (Inr old_slot, rt) \<Rightarrow>
               let di1 = di\<lparr> di_runtime := rt \<rparr> in
               if old_slot \<noteq> old_index then (Err ''unexpected active slot'', di1, d1)
               else if old_index = 0 then (Ok True, di1\<lparr> di_active := mapped_in target m \<rparr>, d1)
               else case on_pool (at_slot (release_inactive be) old_index) di1 d1 of
                 (Inl e, di2, d2) \<Rightarrow> (Inl e, di2, d2)
               | (Inr _, di2, d2) \<Rightarrow> (Ok True, di2\<lparr> di_active := mapped_in target m \<rparr>, d2))
      | (Inr (Retained old _), d1) \<Rightarrow>
          if is_candidate then
            (case on_pool (at_slot (release_candidate be) target) di d1 of
               (Inl e, di1, d2) \<Rightarrow> (Inl e, di1, d2)
             | (Inr _, di1, d2) \<Rightarrow> (Ok False, di1\<lparr> di_active := mapped_in old_index old \<rparr>, d2))
          else (Ok False, di\<lparr> di_active := mapped_in old_index old \<rparr>, d1)))"

definition activate_shadow ::
  "DisplayStateSnapshot \<Rightarrow> ('buf, 'fb, 'm) Display \<Rightarrow> ('buf, 'fb, 'm) Display result" where
  "activate_shadow sn di =
     (case activate_scaled (shadow_identity sn) (di_shadow di) of
        Inl e \<Rightarrow> Inl e
      | Inr (_, s) \<Rightarrow> Ok (di\<lparr> di_shadow := s \<rparr>))"

text \<open>The arms of \<open>match plan.kind\<close>, with the route they give.\<close>

definition compatible_slots :: "usize \<Rightarrow> usize \<Rightarrow> bool" where
  "compatible_slots active candidate \<longleftrightarrow> (active, candidate) \<in> {(0, 1), (0, 2), (1, 2), (2, 1)}"

definition commit_exact_candidate ::
  "('b, 'buf, 'fb, 'm) backend \<Rightarrow> 'm PendingPlan \<Rightarrow> usize \<Rightarrow> DisplayStateSnapshot \<Rightarrow> ('buf, 'fb, 'm) Display \<Rightarrow> 'b dev \<Rightarrow>
   PresentationRoute result \<times> ('buf, 'fb, 'm) Display \<times> 'b dev" where
  "commit_exact_candidate be plan slot sn di d =
     (let logical = key_from_snapshot sn in
      case pp_requested_physical_key plan of
        None \<Rightarrow> (Err ''exact candidate plan has no physical key'', di, d)
      | Some requested \<Rightarrow>
     (if \<not> compatible_slots (active_index (di_active di)) slot
      then (Err ''candidate slot is incompatible with active slot'', di, d)
      else case switch_slot be slot True di d of
        (Inl e, di1, d1) \<Rightarrow> (Inl e, di1, d1)
      | (Inr True, di1, d1) \<Rightarrow>
          (case on_pool (record_committed_route sn (DirectExact logical requested) (Some requested))
                  (di1\<lparr> di_shadow := invalidate_content (di_shadow di1) \<rparr>) (fst d1, count_switched (snd d1)) of
             (Inl e, di2, d2) \<Rightarrow> (Inl e, di2, d2)
           | (Inr _, di2, d2) \<Rightarrow> (Ok (DirectExact logical requested), di2, d2))
      | (Inr False, di1, d1) \<Rightarrow>
          (case on_pool (update_routes (\<lambda>dr. dr\<lparr> dr_failed_routes := insert (failed_key logical dr) (dr_failed_routes dr) \<rparr>)) di1 d1 of
             (Inl e, di2, d2) \<Rightarrow> (Inl e, di2, d2)
           | (Inr _, di2, d2) \<Rightarrow>
               (case activate_shadow sn di2 of
                  Inl e \<Rightarrow> (Inl e, di2, fst d2, count_fallback (snd d2))
                | Inr di3 \<Rightarrow> (Ok (RouteScaledCurrentAfterFailure logical SwitchFailed), di3, fst d2, count_fallback (snd d2))))))"

definition commit_scaled_baseline ::
  "('b, 'buf, 'fb, 'm) backend \<Rightarrow> bool \<Rightarrow> DisplayStateSnapshot \<Rightarrow> ('buf, 'fb, 'm) Display \<Rightarrow> 'b dev \<Rightarrow>
   PresentationRoute result \<times> ('buf, 'fb, 'm) Display \<times> 'b dev" where
  "commit_scaled_baseline be switch_required sn di d =
     (let logical = key_from_snapshot sn in
      if \<not> switch_required then
        (if active_index (di_active di) \<noteq> ro_baseline (rt_roles (di_runtime di))
         then (Err ''baseline no-switch plan does not match active slot'', di, d)
         else case activate_shadow sn di of
           Inl e \<Rightarrow> (Inl e, di, d)
         | Inr di1 \<Rightarrow> (Ok (RouteScaledBaseline logical), di1, d))
      else if active_index (di_active di) = 0
      then (Err ''baseline switch plan was marked required while baseline was already active'', di, drop_mapped d)
      else case switch_slot be 0 False di d of
        (Inl e, di1, d1) \<Rightarrow> (Inl e, di1, d1)
      | (Inr switched, di1, d1) \<Rightarrow>
          (case activate_shadow sn di1 of
             Inl e \<Rightarrow> (Inl e, di1, d1)
           | Inr di2 \<Rightarrow>
               if switched then (Ok (RouteScaledBaseline logical), di2, fst d1, count_switched (snd d1))
               else (Ok (RouteScaledCurrentAfterFailure logical BaselineSwitchFailed), di2, fst d1, count_fallback (snd d1))))"

definition commit_plan ::
  "('b, 'buf, 'fb, 'm) backend \<Rightarrow> 'm PendingPlan \<Rightarrow> DisplayStateSnapshot \<Rightarrow> ModeKey \<Rightarrow> ('buf, 'fb, 'm) Display \<Rightarrow> 'b dev \<Rightarrow>
   PresentationRoute result \<times> ('buf, 'fb, 'm) Display \<times> 'b dev" where
  "commit_plan be plan sn old_physical_key di d =
     (case pp_kind plan of
        ExactActiveNoOp \<Rightarrow>
          (Ok (DirectExact (key_from_snapshot sn) old_physical_key),
           di\<lparr> di_shadow := invalidate_content (di_shadow di) \<rparr>, fst d, count_same_mode_noop (count_no_op (snd d)))
      | ScaledCurrentAfterFailure reason \<Rightarrow>
          (case activate_shadow sn di of
             Inl e \<Rightarrow> (Inl e, di, d)
           | Inr di1 \<Rightarrow> (Ok (RouteScaledCurrentAfterFailure (key_from_snapshot sn) reason), di1, d))
      | ExactCandidate slot \<Rightarrow> commit_exact_candidate be plan slot sn di d
      | ScaledBaseline switch_required \<Rightarrow> commit_scaled_baseline be switch_required sn di d)"

text \<open>A commit without a plan for exactly this state keeps the current scanout and scales.\<close>

definition commit_mismatch ::
  "('b, 'buf, 'fb, 'm) backend \<Rightarrow> DisplayStateSnapshot \<Rightarrow> ('buf, 'fb, 'm) Display \<Rightarrow> 'b dev \<Rightarrow>
   unit result \<times> ('buf, 'fb, 'm) Display \<times> 'b dev" where
  "commit_mismatch be sn di d =
     (case drop_pending be di d of (di1, d1) \<Rightarrow>
      case activate_shadow sn di1 of
        Inl e \<Rightarrow> (Inl e, di1, d1)
      | Inr di2 \<Rightarrow>
          (case on_pool (record_committed_route sn
                  (RouteScaledCurrentAfterFailure (key_from_snapshot sn) PlanMismatch) None) di2 d1 of
             (Inl e, di3, d3) \<Rightarrow> (Inl e, di3, d3)
           | (Inr _, di3, d3) \<Rightarrow> (Ok (), di3, fst d3, count_fallback (snd d3))))"

fun is_exact_candidate :: "PendingPlanKind \<Rightarrow> bool" where
  "is_exact_candidate (ExactCandidate _) = True"
| "is_exact_candidate _ = False"

fun is_direct :: "PresentationRoute \<Rightarrow> bool" where
  "is_direct (DirectExact _ _) = True"
| "is_direct _ = False"

text \<open>Event \<open>StateCommitted\<close>; an error leaves the event loop.\<close>

definition state_committed ::
  "('b, 'buf, 'fb, 'm) backend \<Rightarrow> bool \<Rightarrow> TransferFormat \<Rightarrow> PatternMode \<Rightarrow> DisplayStateSnapshot \<Rightarrow>
   ('buf, 'fb, 'm) Display \<Rightarrow> 'b dev \<Rightarrow> unit result \<times> ('buf, 'fb, 'm) Display \<times> 'b dev" where
  "state_committed be overflow_checks format pattern sn di d =
     (if \<not> physical_mode_routing_enabled then (Ok (), di, d)
      else case rt_dynamic_routes (di_runtime di) of
        None \<Rightarrow> (Err ''dynamic route state is not initialized'', di, d)
      | Some dr \<Rightarrow>
     (let di0 = di\<lparr> di_runtime := (di_runtime di)\<lparr> rt_dynamic_routes := Some (dr\<lparr> dr_pending_plan := None \<rparr>) \<rparr> \<rparr> in
      case take_matching_pending_plan (dr_pending_plan dr) sn of
        Inl _ \<Rightarrow> commit_mismatch be sn di0 d
      | Inr plan \<Rightarrow>
     (case commit_plan be plan sn (dr_current_physical_key dr) di0 d of
        (Inl e, di1, d1) \<Rightarrow> (Inl e, di1, d1)
      | (Inr route, di1, d1) \<Rightarrow>
     (case (if \<not> is_exact_candidate (pp_kind plan) \<or> \<not> is_direct route
            then on_pool (record_committed_route sn route None) di1 d1 else (Ok (), di1, d1)) of
        (Inl e, di2, d2) \<Rightarrow> (Inl e, di2, d2)
      | (Inr _, di2, d2) \<Rightarrow>
          if pattern = POff \<and> is_waiting (di_surface di2)
          then on_pool (present_waiting_surface be overflow_checks format (di_active di2)) di2 d2
          else (Ok (), di2, d2)))))"

text \<open>The surface shown for a lifecycle event (only without a diagnostic pattern).\<close>

definition waiting_surface_for :: "ProtocolInvalidationReason \<Rightarrow> VisibleSurface \<Rightarrow> VisibleSurface option" where
  "waiting_surface_for reason surface =
     (case reason of
        ReasonSuspend \<Rightarrow> Some (surface_after_suspend surface)
      | ReasonEnable \<Rightarrow> Some WaitingStartup
      | ReasonBind \<Rightarrow> Some WaitingStartup
      | Disconnected \<Rightarrow> Some WaitingDisconnected
      | _ \<Rightarrow> None)"

definition lifecycle_surface ::
  "('b, 'buf, 'fb, 'm) backend \<Rightarrow> bool \<Rightarrow> TransferFormat \<Rightarrow> PatternMode \<Rightarrow> ProtocolInvalidationReason \<Rightarrow>
   ('buf, 'fb, 'm) Display \<Rightarrow> 'b dev \<Rightarrow> unit result \<times> ('buf, 'fb, 'm) Display \<times> 'b dev" where
  "lifecycle_surface be overflow_checks format pattern reason di d =
     (if pattern \<noteq> POff then (Ok (), di, d)
      else case waiting_surface_for reason (di_surface di) of
        Some surface \<Rightarrow>
          (case on_pool (present_waiting_surface be overflow_checks format (di_active di)) di d of
             (Inl e, di1, d1) \<Rightarrow> (if panics (Inl e :: unit result) then Inl e else Ok (), di1, d1)
           | (Inr _, di1, d1) \<Rightarrow> (Ok (), di1\<lparr> di_surface := surface \<rparr>, d1))
      | None \<Rightarrow>
          if reason = ReasonResume \<and> surface_after_resume (di_surface di) \<noteq> di_surface di then
            (let m = active_mapped (di_active di) in
             case front_framebuffer m of
               Inl e \<Rightarrow> (Inl e, di, d)
             | Inr fb \<Rightarrow>
                 (case be_set_crtc be fb (ma_mode m) (fst d) of
                    (Inr _, b) \<Rightarrow> (Ok (), di\<lparr> di_surface := surface_after_resume (di_surface di) \<rparr>, b, snd d)
                  | (Inl _, b) \<Rightarrow> (Ok (), di, b, snd d)))
          else (Ok (), di, d))"

section \<open>Startup\<close>

abbreviation (input) CRTC_SET_RETRIES :: nat where "CRTC_SET_RETRIES \<equiv> 20"

fun set_crtc_retry :: "('b, 'buf, 'fb, 'm) backend \<Rightarrow> 'fb \<Rightarrow> 'm \<Rightarrow> nat \<Rightarrow> 'b \<Rightarrow> unit result \<times> 'b" where
  "set_crtc_retry be fb mode 0 b = (Ok (), b)"
| "set_crtc_retry be fb mode (Suc n) b =
     (case be_set_crtc be fb mode b of
        (Inr _, b1) \<Rightarrow> (Ok (), b1)
      | (Inl e, b1) \<Rightarrow> if n = 0 then (Inl e, b1) else set_crtc_retry be fb mode n b1)"

definition pattern_buffer ::
  "('b, 'buf, 'fb, 'm) backend \<Rightarrow> TransferFormat \<Rightarrow> ('buf, 'fb, 'm) MappedActive \<Rightarrow> 'buf \<Rightarrow> 'b \<Rightarrow> unit result \<times> 'b" where
  "pattern_buffer be format m buf b =
     (case fill_diagnostic_pattern_rect (be_load be buf b) (unat (ma_pitch m)) (ma_width m) (ma_height m) 0 0
             (ma_width m) (ma_height m) format of
        Inl e \<Rightarrow> (Inl e, b)
      | Inr mem \<Rightarrow> (Ok (), be_store be buf mem b))"

definition fill_startup_pattern ::
  "('b, 'buf, 'fb, 'm) backend \<Rightarrow> TransferFormat \<Rightarrow> PatternMode \<Rightarrow> ('buf, 'fb, 'm) MappedActive \<Rightarrow> 'b \<Rightarrow> unit result \<times> 'b" where
  "fill_startup_pattern be format pattern m b =
     (if \<not> uses_startup_pattern pattern then (Ok (), b)
      else case pattern_buffer be format m (fst (ma_buffers m)) b of
        (Inl e, b1) \<Rightarrow> (Inl e, b1)
      | (Inr _, b1) \<Rightarrow> pattern_buffer be format m (snd (ma_buffers m)) b1)"

text \<open>The scanouts of \<open>main\<close>: the manager with the waiting scanout and the route state.\<close>

definition start_scanouts ::
  "('b, 'buf, 'fb, 'm) backend \<Rightarrow> bool \<Rightarrow> TransferFormat \<Rightarrow> ('m \<Rightarrow> DisplayMode) \<Rightarrow> 'm list \<Rightarrow> 'm \<Rightarrow> 'b \<Rightarrow>
   ('buf, 'fb, 'm) ScanoutManager result \<times> 'b dev" where
  "start_scanouts be overflow_checks format timing connector_modes mode b =
     (case new_baseline be mode b of
        (Inl e, d) \<Rightarrow> (Inl e, d)
      | (Inr sm, d) \<Rightarrow>
     (case create_waiting be mode sm d of
        (Inl e, _, d1) \<Rightarrow> (Inl e, d1)
      | (Inr _, sm1, d1) \<Rightarrow>
     (case render_waiting be (waiting_callback overflow_checks format) sm1 d1 of
        (Inl e, d2) \<Rightarrow> (Inl e, d2)
      | (Inr _, d2) \<Rightarrow>
     (case find (\<lambda>m. m = mode) connector_modes of
        None \<Rightarrow> (Err ''selected startup mode is absent from physical catalog'', d2)
      | Some m \<Rightarrow>
          (if physical_mode_routing_enabled then initialize_dynamic_routes (mode_key 0 (timing m)) sm1 else Ok sm1, d2)))))"

definition start_display ::
  "('b, 'buf, 'fb, 'm) backend \<Rightarrow> bool \<Rightarrow> TransferFormat \<Rightarrow> PatternMode \<Rightarrow> ('m \<Rightarrow> DisplayMode) \<Rightarrow> 'm list \<Rightarrow> 'm \<Rightarrow>
   ShadowFramebuffer \<Rightarrow> 'b \<Rightarrow> ('buf, 'fb, 'm) Display result \<times> 'b dev" where
  "start_display be overflow_checks format pattern timing connector_modes mode shadow b =
     (case start_scanouts be overflow_checks format timing connector_modes mode b of
        (Inl e, d) \<Rightarrow> (Inl e, d)
      | (Inr sm, d) \<Rightarrow>
     (case split_runtime sm of (slots, rt) \<Rightarrow>
      case slots ! 0 of
        None \<Rightarrow> (Err ''baseline scanout slot is empty'', d)
      | Some baseline \<Rightarrow>
     (case map_allocation be baseline d of
        (Inl e, d1) \<Rightarrow> (Inl e, d1)
      | (Inr m, d1) \<Rightarrow>
     (case (if pattern = POff then waiting_framebuffer rt else front_framebuffer m) of
        Inl e \<Rightarrow> (Inl e, d1)
      | Inr fb \<Rightarrow>
     (case set_crtc_retry be fb mode CRTC_SET_RETRIES (fst d1) of
        (Inl e, b2) \<Rightarrow> (Inl e, b2, snd d1)
      | (Inr _, b2) \<Rightarrow>
     (case fill_startup_pattern be format pattern m b2 of
        (Inl e, b3) \<Rightarrow> (Inl e, b3, snd d1)
      | (Inr _, b3) \<Rightarrow>
          (Ok \<lparr> di_slots = slots, di_runtime = rt, di_active = Slot0 m, di_shadow = shadow,
                di_surface = (if pattern = POff then WaitingStartup else Content) \<rparr>,
           snd (be_dirty_framebuffer be fb 0 0 (ucast (ma_width m)) (ucast (ma_height m)) b3), snd d1)))))))"

section \<open>The contract of a routed display\<close>

text \<open>
  \<open>timing\<close> is the copy of a physical mode's accessors: the backend's size of a mode is the active size of its
  timing, and an exact route of the catalog leads to a physical mode of the key's timing.
\<close>

locale routed_display = presenting_backend be bufs fbs
  for be :: "('b, 'buf, 'fb, 'm) backend" and bufs :: "'b \<Rightarrow> 'buf set" and fbs :: "'b \<Rightarrow> 'fb set" +
  fixes timing :: "'m \<Rightarrow> DisplayMode"
    and catalog :: "'m RouteCatalog"
  assumes size_law: "be_mode_size be m = (ucast (dm_hdisplay (timing m)), ucast (dm_vdisplay (timing m)))"
    and key_law: "entry_for_key k catalog = Some e \<Longrightarrow> ce_key e = k"
    and exact_law: "entry_for_key k catalog = Some e \<Longrightarrow> ce_route e = ExactRoute m \<Longrightarrow> mode_key 0 (timing m) = k"

definition roles_ok :: "('buf, 'fb, 'm) ScanoutSlot list \<Rightarrow> ScanoutRoles \<Rightarrow> usize \<Rightarrow> bool" where
  "roles_ok slots ro idx \<longleftrightarrow> ro_active ro = idx \<and> idx < 3 \<and> ro_baseline ro = 0 \<and> slots ! idx \<noteq> None \<and> slots ! 0 \<noteq> None
     \<and> (\<forall>i. ro_candidate ro = Some i \<longrightarrow> 0 < i \<and> i < 3 \<and> i \<noteq> idx \<and> slots ! i \<noteq> None)
     \<and> (\<forall>i < 3. slots ! i \<noteq> None \<longrightarrow> i = idx \<or> i = 0 \<or> ro_candidate ro = Some i)"

text \<open>The mapping of the active slot shows the slot's allocation.\<close>

definition mapped_ok :: "('buf, 'fb, 'm) ScanoutAllocation \<Rightarrow> ('buf, 'fb, 'm) MappedActive \<Rightarrow> bool" where
  "mapped_ok a m \<longleftrightarrow> ma_mode m = sa_mode a \<and> ma_width m = sa_width a \<and> ma_height m = sa_height a
     \<and> ma_pitch m = sa_pitch a \<and> ma_front_buffer_index m = sa_front_buffer_index a
     \<and> sb_buffer (sa_first a) = Some (fst (ma_buffers m)) \<and> sb_buffer (sa_second a) = Some (snd (ma_buffers m))
     \<and> sb_framebuffer (sa_first a) = Some (fst (ma_framebuffers m))
     \<and> sb_framebuffer (sa_second a) = Some (snd (ma_framebuffers m))"

text \<open>The committed route, the committed state and the shadow agree.\<close>

definition route_ok :: "'m DynamicRouteState \<Rightarrow> ShadowFramebuffer \<Rightarrow> bool" where
  "route_ok dr shadow \<longleftrightarrow>
     (case (dr_presentation_route dr, dr_committed_snapshot dr) of
        (None, None) \<Rightarrow> True
      | (Some (DirectExact l p), Some sn) \<Rightarrow> l = key_from_snapshot sn \<and> p = l \<and> dr_current_physical_key dr = l
      | (Some (RouteScaledBaseline l), Some sn) \<Rightarrow> l = key_from_snapshot sn
          \<and> dr_current_physical_key dr = dr_baseline_physical_key dr \<and> shadow_is_active (shadow_identity sn) shadow
      | (Some (RouteScaledCurrentAfterFailure l _), Some sn) \<Rightarrow> l = key_from_snapshot sn
          \<and> shadow_is_active (shadow_identity sn) shadow
      | _ \<Rightarrow> False)"

lemma active_index_less [simp]: "active_index act < 3"
  by (cases act) auto

lemma mapped_in_simps [simp]:
  "i < 3 \<Longrightarrow> active_index (mapped_in i m) = i" "active_mapped (mapped_in i m) = m"
  "mapped_in (active_index act) (active_mapped act) = act"
proof -
  show "mapped_in (active_index act) (active_mapped act) = act" by (cases act) (simp_all add: mapped_in_def)
qed (auto simp: mapped_in_def)

context routed_display
begin

definition shows_key :: "ModeKey \<Rightarrow> ('buf, 'fb, 'm) ScanoutSlot \<Rightarrow> bool" where
  "shows_key k slot \<longleftrightarrow> (\<exists>a. slot = Some a \<and> mode_key 0 (timing (sa_mode a)) = k)"

definition keys_ok :: "('buf, 'fb, 'm) ScanoutSlot list \<Rightarrow> ScanoutRoles \<Rightarrow> 'm DynamicRouteState \<Rightarrow> bool" where
  "keys_ok slots ro dr \<longleftrightarrow> shows_key (dr_current_physical_key dr) (slots ! ro_active ro)
     \<and> shows_key (dr_baseline_physical_key dr) (slots ! 0)
     \<and> (\<forall>i k. ro_candidate ro = Some i \<longrightarrow> dr_candidate_key dr = Some k \<longrightarrow> shows_key k (slots ! i))"

definition plan_ok :: "('buf, 'fb, 'm) ScanoutSlot list \<Rightarrow> ScanoutRoles \<Rightarrow> 'm DynamicRouteState \<Rightarrow> 'm PendingPlan \<Rightarrow> bool" where
  "plan_ok slots ro dr p \<longleftrightarrow>
     (case pp_kind p of
        ExactActiveNoOp \<Rightarrow> key_from_snapshot (pp_snapshot p) = dr_current_physical_key dr
      | ExactCandidate i \<Rightarrow> ro_candidate ro = None \<or> ro_candidate ro = Some i
          \<and> pp_requested_physical_key p = Some (key_from_snapshot (pp_snapshot p))
          \<and> shows_key (key_from_snapshot (pp_snapshot p)) (slots ! i)
      | _ \<Rightarrow> True)"

text \<open>The pool part of the invariant, without and with the keys, and the whole of it.\<close>

definition pre_ok ::
  "'buf set \<times> 'fb set \<Rightarrow> int \<Rightarrow> usize \<Rightarrow> ('b, 'buf, 'fb, 'm) pool_state \<Rightarrow> 'm DynamicRouteState \<Rightarrow> bool" where
  "pre_ok base c idx st dr \<longleftrightarrow>
     (case st of (slots, rt, d) \<Rightarrow> pool_ok base c slots rt d \<and> roles_ok slots (rt_roles rt) idx \<and> rt_waiting rt \<noteq> None
        \<and> rt_dynamic_routes rt = Some dr)"

definition core_ok ::
  "'buf set \<times> 'fb set \<Rightarrow> int \<Rightarrow> usize \<Rightarrow> ('b, 'buf, 'fb, 'm) pool_state \<Rightarrow> 'm DynamicRouteState \<Rightarrow> bool" where
  "core_ok base c idx st dr \<longleftrightarrow> pre_ok base c idx st dr \<and> keys_ok (fst st) (rt_roles (fst (snd st))) dr"

definition display_ok :: "'buf set \<times> 'fb set \<Rightarrow> int \<Rightarrow> ('buf, 'fb, 'm) Display \<Rightarrow> 'b dev \<Rightarrow> bool" where
  "display_ok base c di d \<longleftrightarrow>
     (\<exists>dr. core_ok base c (active_index (di_active di)) (di_slots di, di_runtime di, d) dr
        \<and> (\<forall>p. dr_pending_plan dr = Some p \<longrightarrow> plan_ok (di_slots di) (rt_roles (di_runtime di)) dr p)
        \<and> route_ok dr (di_shadow di)
        \<and> (\<exists>a. di_slots di ! active_index (di_active di) = Some a \<and> mapped_ok a (active_mapped (di_active di))))"

lemma pool_ok_count: "pool_ok base c slots rt (b, cs) \<Longrightarrow> counted_fbs cs' = counted_fbs cs \<Longrightarrow> pool_ok base c slots rt (b, cs')"
  by (simp add: pool_ok_def holds_def)

lemma counted_fbs_routes [simp]:
  "counted_fbs (count_route_changed cs) = counted_fbs cs" "counted_fbs (count_same_mode_noop cs) = counted_fbs cs"
  by (simp_all add: counted_fbs_def counter_defs)

lemma pre_ok_count:
  "pre_ok base c idx st dr \<Longrightarrow> (\<And>cs. counted_fbs (f cs) = counted_fbs cs) \<Longrightarrow> pre_ok base c idx (counting f st) dr"
  by (auto simp: pre_ok_def counting_def elim: pool_ok_count split: prod.splits)

lemma counting_simps [simp]:
  "fst (counting f st) = fst st" "fst (snd (counting f st)) = fst (snd st)"
  by (auto simp: counting_def split: prod.splits)

lemma update_routes_pre:
  assumes "pre_ok base c idx st dr" and "update_routes f st = (r, st')"
  shows "r = Ok () \<and> pre_ok base c idx st' (f dr) \<and> fst st' = fst st \<and> snd (snd st') = snd (snd st)
    \<and> rt_roles (fst (snd st')) = rt_roles (fst (snd st))"
proof -
  obtain slots rt d where st: "st = (slots, rt, d)" by (rule prod_cases3)
  then have eq: "r = Ok ()" "st' = (slots, rt\<lparr> rt_dynamic_routes := Some (f dr) \<rparr>, d)"
    using assms(1,2) by (auto simp: update_routes_def pre_ok_def)
  have "pool_ok base c slots (rt\<lparr> rt_dynamic_routes := Some (f dr) \<rparr>) d"
    by (rule pool_ok_roles [of _ _ _ rt]) (use assms(1) st in \<open>simp_all add: pre_ok_def\<close>)
  then show ?thesis using assms(1) st eq by (simp add: pre_ok_def)
qed

text \<open>Releasing the candidate leaves only the active and the baseline slot occupied.\<close>

lemma release_dynamic_core:
  assumes ok: "core_ok base c (active_index act) st dr" and av: "available_slots act = (p, s)"
    and op: "release_dynamic_candidate_in_available_slots be p s st = (r, st')"
  shows "\<exists>dr'. core_ok base c (active_index act) st' dr' \<and> (dr' = dr \<or> dr' = dr\<lparr> dr_candidate_key := None \<rparr>)
    \<and> rt_roles (fst (snd st')) = (rt_roles (fst (snd st)))\<lparr> ro_candidate := None \<rparr>
    \<and> (\<forall>i \<in> {0, active_index act}. fst st' ! i = fst st ! i) \<and> (cleanup_total be \<longrightarrow> r = Ok ())"
proof -
  obtain slots rt d where st: "st = (slots, rt, d)" by (rule prod_cases3)
  have D: "pool_ok base c slots rt d" "roles_ok slots (rt_roles rt) (active_index act)" "rt_waiting rt \<noteq> None"
      "rt_dynamic_routes rt = Some dr" "keys_ok slots (rt_roles rt) dr" using ok st by (simp_all add: core_ok_def pre_ok_def)
  show ?thesis
  proof (cases "ro_candidate (rt_roles rt)")
    case None
    then have eq: "r = Ok ()" "st' = st" using op st by (simp_all add: release_dynamic_candidate_in_available_slots_def)
    have "rt_roles rt = (rt_roles rt)\<lparr> ro_candidate := None \<rparr>" using None by (cases "rt_roles rt") simp
    then show ?thesis using eq ok st by (intro exI [of _ dr]) simp
  next
    case (Some i)
    then have i: "0 < i" "i < 3" "i \<noteq> active_index act" "slots ! i \<noteq> None" "ro_active (rt_roles rt) = active_index act"
      using D(2) by (auto simp: roles_ok_def)
    have "i = p \<or> s = Some i" using i(1-3) av by (cases act) auto
    then have op': "at_slot (release_candidate be) i st = (r, st')"
      using op st Some by (auto simp: release_dynamic_candidate_in_available_slots_def split: if_splits)
    obtain r1 slot rt' d' where rel: "release_candidate be i (slots ! i) rt d = (r1, slot, rt', d')" by (rule prod_cases4)
    have eq: "r = r1" "st' = (slots[i := slot], rt', d')" using op' st rel by (simp_all add: at_slot_def)
    have R: "slot = None" "pool_ok base c (slots[i := None]) rt' d'" "rt_roles rt' = (rt_roles rt)\<lparr> ro_candidate := None \<rparr>"
        "rt_dynamic_routes rt' = Some (dr\<lparr> dr_candidate_key := None \<rparr>)" "rt_waiting rt' = rt_waiting rt"
        "cleanup_total be \<longrightarrow> r1 = Ok ()"
      using release_candidate_spec [OF D(1) i(2,4) Some _ rel] i(3,5) D(4) by simp_all
    have keep: "\<forall>j \<in> {0, active_index act}. slots[i := None] ! j = slots ! j" using i(1,3) by auto
    have len: "length slots = 3" by (rule pool_okD(1) [OF D(1)])
    have "roles_ok (slots[i := None]) (rt_roles rt') (active_index act)"
      using D(2) i Some R(3) len by (auto simp: roles_ok_def nth_list_update)
    moreover have "keys_ok (slots[i := None]) (rt_roles rt') (dr\<lparr> dr_candidate_key := None \<rparr>)"
      using D(5) i R(3) by (simp add: keys_ok_def)
    ultimately have "core_ok base c (active_index act) st' (dr\<lparr> dr_candidate_key := None \<rparr>)"
      using R eq D(3) by (simp add: core_ok_def pre_ok_def)
    then show ?thesis using eq R st keep by (intro exI [of _ "dr\<lparr> dr_candidate_key := None \<rparr>"]) simp
  qed
qed

lemma prepare_slot_pre:
  assumes ok: "pre_ok base c (active_index act) st dr" and av: "available_slots act = (p, s)"
    and none: "ro_candidate (rt_roles (fst (snd st))) = None"
    and op: "prepare_slot be mode p s st = (r, st')"
  shows "pre_ok base c (active_index act) st' dr \<and> (\<forall>i \<in> {0, active_index act}. fst st' ! i = fst st ! i)
    \<and> (case r of
        Inl _ \<Rightarrow> rt_roles (fst (snd st')) = rt_roles (fst (snd st))
      | Inr i \<Rightarrow> rt_roles (fst (snd st')) = (rt_roles (fst (snd st)))\<lparr> ro_candidate := Some i \<rparr>
          \<and> (\<exists>a. fst st' ! i = Some a \<and> sa_mode a = mode))"
proof -
  obtain slots rt d where st: "st = (slots, rt, d)" by (rule prod_cases3)
  have D: "pool_ok base c slots rt d" "roles_ok slots (rt_roles rt) (active_index act)" "rt_waiting rt \<noteq> None"
      "rt_dynamic_routes rt = Some dr" using ok st by (simp_all add: pre_ok_def)
  have len: "length slots = 3" by (rule pool_okD(1) [OF D(1)])
  have p: "p < 3" "p \<noteq> 0" "p \<noteq> active_index act" using av by (cases act; auto)+
  have empty: "slots ! p = None" using D(2) none p st by (auto simp: roles_ok_def)
  obtain rc d1 where c: "create_allocation be mode d = (rc, d1)" by (meson surj_pair)
  show ?thesis
  proof (cases rc)
    case (Inl e)
    then have eq: "r = Inl e" "st' = (slots, rt, d1)" using op st c by (simp_all add: prepare_slot_def)
    have "pool_ok base c slots rt d1" using pool_ok_failed [OF D(1), of d1] create_allocation_spec [OF c] Inl by simp
    then show ?thesis using eq D st by (simp add: pre_ok_def)
  next
    case (Inr a)
    obtain rf b1 where f: "flush_black_initialization be a (fst d1) = (rf, b1)" by (meson surj_pair)
    have g: "gained d1 (b1, snd d1) {} {} 0" using flush_black_gained [OF f, of "snd d1"] by simp
    obtain r1 slot rt' d' where stg: "stage_candidate be p None a rt (b1, snd d1) = (r1, slot, rt', d')" by (rule prod_cases4)
    have eq: "st' = (slots[p := slot], rt', d')" "r = (case r1 of Inl e \<Rightarrow> Inl e | Inr _ \<Rightarrow> Ok p)"
      using op st c Inr f empty stg by (auto simp: prepare_slot_def at_slot_def Let_def split: sum.splits)
    have S: "pool_ok base c (slots[p := slot]) rt' d'" "rt_waiting rt' = rt_waiting rt" "rt_dynamic_routes rt' = Some dr"
        "case r1 of Inl _ \<Rightarrow> slot = None \<and> rt' = rt
         | Inr _ \<Rightarrow> slot = Some a \<and> sa_mode a = mode \<and> rt_roles rt' = (rt_roles rt)\<lparr> ro_candidate := Some p \<rparr>"
      using stage_candidate_spec [OF D(1) p(1) empty _ _ c [unfolded Inr] g stg] none st p(3) D(2,4)
      by (simp_all add: roles_ok_def)
    have same: "slots[p := None] = slots" using empty list_update_id [of slots p] by simp
    have "roles_ok (slots[p := slot]) (rt_roles rt') (active_index act)"
      using D(2) S(4) p len none st same by (cases r1) (auto simp: roles_ok_def nth_list_update)
    then show ?thesis
      using S eq D(3) st p len by (cases r1) (auto simp: pre_ok_def)
  qed
qed

text \<open>A stored plan that fits the slots keeps the display's invariant.\<close>

lemma store_plan_core:
  assumes ok: "pre_ok base c idx st dr" and op: "store_plan plan key st = (r, st')"
    and cur: "shows_key (dr_current_physical_key dr) (fst st ! idx)" "shows_key (dr_baseline_physical_key dr) (fst st ! 0)"
    and cand: "\<And>i k. ro_candidate (rt_roles (fst (snd st))) = Some i \<Longrightarrow> key = Some k \<Longrightarrow> shows_key k (fst st ! i)"
    and plan: "plan_ok (fst st) (rt_roles (fst (snd st))) dr plan"
  shows "r = Ok () \<and> core_ok base c idx st' (dr\<lparr> dr_candidate_key := key, dr_pending_plan := Some plan \<rparr>)
    \<and> fst st' = fst st \<and> plan_ok (fst st) (rt_roles (fst (snd st'))) (dr\<lparr> dr_candidate_key := key, dr_pending_plan := Some plan \<rparr>) plan"
proof -
  note u = update_routes_pre [OF ok op [unfolded store_plan_def]]
  have act: "ro_active (rt_roles (fst (snd st))) = idx" using ok by (auto simp: pre_ok_def roles_ok_def)
  show ?thesis
    using u cur cand plan act unfolding core_ok_def keys_ok_def by (simp add: plan_ok_def cong: PendingPlanKind.case_cong)
qed

lemma plan_ok_released:
  "plan_ok slots ro dr p \<Longrightarrow> ro_candidate ro' = None \<Longrightarrow> dr_current_physical_key dr' = dr_current_physical_key dr
    \<Longrightarrow> plan_ok slots' ro' dr' p"
  by (auto simp: plan_ok_def split: PendingPlanKind.splits)

text \<open>What a handler on the pool keeps: the committed route and the occupied slots of the roles.\<close>

definition same_route :: "'m DynamicRouteState \<Rightarrow> 'm DynamicRouteState \<Rightarrow> bool" where
  "same_route dr dr' \<longleftrightarrow> dr_presentation_route dr' = dr_presentation_route dr
     \<and> dr_committed_snapshot dr' = dr_committed_snapshot dr
     \<and> dr_current_physical_key dr' = dr_current_physical_key dr \<and> dr_baseline_physical_key dr' = dr_baseline_physical_key dr"

lemma same_route_ok:
  assumes "same_route dr dr'" and "route_ok dr s"
  shows "route_ok dr' s"
proof -
  have e: "dr_presentation_route dr' = dr_presentation_route dr" "dr_committed_snapshot dr' = dr_committed_snapshot dr"
      "dr_current_physical_key dr' = dr_current_physical_key dr" "dr_baseline_physical_key dr' = dr_baseline_physical_key dr"
    using assms(1) by (simp_all add: same_route_def)
  show ?thesis using assms(2) unfolding route_ok_def e .
qed

definition planned ::
  "'buf set \<times> 'fb set \<Rightarrow> int \<Rightarrow> ('buf, 'fb, 'm) StableMappedActive \<Rightarrow> ('b, 'buf, 'fb, 'm) pool_state \<Rightarrow>
   'm DynamicRouteState \<Rightarrow> ('b, 'buf, 'fb, 'm) pool_state \<Rightarrow> bool" where
  "planned base c act st dr st' \<longleftrightarrow>
     (\<exists>dr'. core_ok base c (active_index act) st' dr' \<and> same_route dr dr'
        \<and> (\<forall>p. dr_pending_plan dr' = Some p \<longrightarrow> plan_ok (fst st') (rt_roles (fst (snd st'))) dr' p)
        \<and> fst st' ! active_index act = fst st ! active_index act)"

lemma plannedI:
  assumes ok: "core_ok base c (active_index act) st1 dr1" and "same_route dr dr1"
    and "pre_ok base c (active_index act) st2 dr2" and "same_route dr1 dr2"
    and "fst st1 ! active_index act = fst st ! active_index act"
    and "fst st2 ! 0 = fst st1 ! 0" and "fst st2 ! active_index act = fst st1 ! active_index act"
    and op: "store_plan plan key st2 = (r, st')"
    and cand: "\<And>i k. ro_candidate (rt_roles (fst (snd st2))) = Some i \<Longrightarrow> key = Some k \<Longrightarrow> shows_key k (fst st2 ! i)"
    and plan: "plan_ok (fst st2) (rt_roles (fst (snd st2))) dr2 plan"
  shows "r = Ok () \<and> planned base c act st dr st'"
proof -
  have act: "ro_active (rt_roles (fst (snd st1))) = active_index act" using ok by (auto simp: core_ok_def pre_ok_def roles_ok_def)
  have "shows_key (dr_current_physical_key dr2) (fst st2 ! active_index act)" "shows_key (dr_baseline_physical_key dr2) (fst st2 ! 0)"
    using ok assms(4,6,7) act by (simp_all add: core_ok_def keys_ok_def same_route_def)
  note sp = store_plan_core [OF assms(3) op this cand plan]
  then show ?thesis
    using assms(2,4,5,7) unfolding planned_def
    by (intro conjI exI [of _ "dr2\<lparr> dr_candidate_key := key, dr_pending_plan := Some plan \<rparr>"]) (simp_all add: same_route_def)
qed

lemma released_planned:
  assumes ok: "core_ok base c (active_index act) st dr" and av: "available_slots act = (p, s)"
    and plans: "\<forall>p. dr_pending_plan dr = Some p \<longrightarrow> plan_ok (fst st) (rt_roles (fst (snd st))) dr p"
    and op: "release_dynamic_candidate_in_available_slots be p s st = (r, st1)"
  shows "\<exists>dr1. core_ok base c (active_index act) st1 dr1 \<and> same_route dr dr1 \<and> planned base c act st dr st1
    \<and> dr_failed_routes dr1 = dr_failed_routes dr
    \<and> rt_roles (fst (snd st1)) = (rt_roles (fst (snd st)))\<lparr> ro_candidate := None \<rparr>
    \<and> fst st1 ! active_index act = fst st ! active_index act \<and> (cleanup_total be \<longrightarrow> r = Ok ())"
proof -
  obtain dr1 where R: "core_ok base c (active_index act) st1 dr1" "dr1 = dr \<or> dr1 = dr\<lparr> dr_candidate_key := None \<rparr>"
      "rt_roles (fst (snd st1)) = (rt_roles (fst (snd st)))\<lparr> ro_candidate := None \<rparr>"
      "\<forall>i \<in> {0, active_index act}. fst st1 ! i = fst st ! i" "cleanup_total be \<longrightarrow> r = Ok ()"
    using release_dynamic_core [OF ok av op] by blast
  have same: "same_route dr dr1" "dr_pending_plan dr1 = dr_pending_plan dr" "dr_failed_routes dr1 = dr_failed_routes dr"
    using R(2) by (auto simp: same_route_def)
  have "plan_ok (fst st1) (rt_roles (fst (snd st1))) dr1 q" if "dr_pending_plan dr1 = Some q" for q
    by (rule plan_ok_released [of "fst st" "rt_roles (fst (snd st))" dr])
      (use plans that same R(3) in \<open>simp_all add: same_route_def\<close>)
  then have "planned base c act st dr st1" using R same unfolding planned_def by blast
  then show ?thesis using R same by auto
qed

text \<open>The exact routes that are not shown yet: the prepared candidate, a known failure, a new candidate.\<close>

lemma prepare_other:
  assumes ok: "core_ok base c (active_index act) st dr" and av: "available_slots act = (p, s)"
    and plans: "\<forall>p. dr_pending_plan dr = Some p \<longrightarrow> plan_ok (fst st) (rt_roles (fst (snd st))) dr p"
    and op: "prepare_dynamic_check_in_available_slots be p s catalog sn ms st = (r, st')"
    and entry: "entry_for_snapshot sn catalog = Some entry" and routes: "dynamic_routes st = Ok dr"
    and exact: "ce_route entry = ExactRoute mode" and other: "ce_key entry \<noteq> dr_current_physical_key dr"
  shows "planned base c act st dr st'"
proof -
  let ?k = "key_from_snapshot sn"
  have e: "entry_for_key ?k catalog = Some entry" using entry by (simp add: entry_for_snapshot_def)
  note key = key_law [OF e] and shown = exact_law [OF e exact]
  let ?plan = "\<lambda>kind hit. \<lparr> pp_snapshot = sn, pp_logical_key = ?k, pp_requested_physical_key = Some (ce_key entry),
    pp_requested_mode = Some mode, pp_kind = kind, pp_failed_cache_hit = hit, pp_mode_prepare_ms = ms \<rparr>"
  show ?thesis
  proof (cases "dr_candidate_key dr = Some (ce_key entry) \<and> ro_candidate (rt_roles (fst (snd st))) \<noteq> None")
    case True
    then obtain i where i: "ro_candidate (rt_roles (fst (snd st))) = Some i" by blast
    have sp: "store_plan (?plan (ExactCandidate i) False) (dr_candidate_key dr) st = (r, st')"
      using op entry routes exact other True i by (simp add: prepare_dynamic_check_in_available_slots_def Let_def)
    have sk: "shows_key ?k (fst st ! i)" using ok True i key by (simp add: core_ok_def keys_ok_def)
    have "pre_ok base c (active_index act) st dr" using ok by (simp add: core_ok_def)
    from plannedI [where dr = dr and st = st, OF ok _ this _ _ _ _ sp] show ?thesis
      using True i sk key by (auto simp: same_route_def plan_ok_def)
  next
    case stage: False
    obtain r1 st1 where rel: "release_dynamic_candidate_in_available_slots be p s st = (r1, st1)" by (meson surj_pair)
    obtain dr1 where R: "core_ok base c (active_index act) st1 dr1" "same_route dr dr1" "planned base c act st dr st1"
        "ro_candidate (rt_roles (fst (snd st1))) = None" "fst st1 ! active_index act = fst st ! active_index act"
      using released_planned [OF ok av plans rel] by auto
    have pre: "pre_ok base c (active_index act) st1 dr1" using R(1) by (simp add: core_ok_def)
    have any: "plan_ok slots ro dr'' (?plan (ScaledCurrentAfterFailure reason) hit)" for slots ro dr'' reason hit
      by (simp add: plan_ok_def)
    show ?thesis
    proof (cases r1)
      case (Inl err)
      then show ?thesis using op entry routes exact other stage rel R(3)
        by (auto simp: prepare_dynamic_check_in_available_slots_def Let_def)
    next
      case ok1: (Inr u)
      show ?thesis
      proof (cases "failed_key ?k dr \<in> dr_failed_routes dr")
        case True
        then have "store_plan (?plan (ScaledCurrentAfterFailure FailedCacheHit) True) None (counting count_fallback st1) = (r, st')"
          using op entry routes exact other stage rel ok1
          by (auto simp: prepare_dynamic_check_in_available_slots_def Let_def)
        from plannedI [OF R(1,2) pre_ok_count [OF pre] _ R(5) _ _ this] show ?thesis by (simp add: same_route_def any)
      next
        case fresh: False
        obtain r2 st2 where ps: "prepare_slot be mode p s st1 = (r2, st2)" by (meson surj_pair)
        note P = prepare_slot_pre [OF pre av R(4) ps]
        have op': "(r, st') = (case prepare_slot be mode p s st1 of
             (Inr i, st2) \<Rightarrow> store_plan (?plan (ExactCandidate i) False) (Some (ce_key entry)) st2
           | (Inl _, st2) \<Rightarrow>
               (case update_routes (\<lambda>dr'. dr'\<lparr> dr_failed_routes := insert (failed_key ?k dr) (dr_failed_routes dr') \<rparr>) st2 of
                  (Inl e, st3) \<Rightarrow> (Inl e, st3)
                | (Inr _, st3) \<Rightarrow> store_plan (?plan (ScaledCurrentAfterFailure PrepareFailed) False) None (counting count_fallback st3)))"
          using op entry routes exact other stage rel ok1 fresh
          by (auto simp: prepare_dynamic_check_in_available_slots_def Let_def)
        show ?thesis
        proof (cases r2)
          case (Inr i)
          then have sp: "store_plan (?plan (ExactCandidate i) False) (Some (ce_key entry)) st2 = (r, st')" using op' ps by simp
          have sk: "ro_candidate (rt_roles (fst (snd st2))) = Some i" "shows_key ?k (fst st2 ! i)"
            using P Inr shown by (auto simp: shows_key_def)
          have "pre_ok base c (active_index act) st2 dr1" using P by simp
          from plannedI [OF R(1,2) this _ R(5) _ _ sp] show ?thesis
            using P sk key by (auto simp: same_route_def plan_ok_def)
        next
          case (Inl err)
          obtain r3 st3 where u: "update_routes (\<lambda>dr'. dr'\<lparr> dr_failed_routes := insert (failed_key ?k dr) (dr_failed_routes dr') \<rparr>) st2
              = (r3, st3)" by (meson surj_pair)
          have pre2: "pre_ok base c (active_index act) st2 dr1" using P by simp
          note U = update_routes_pre [OF pre2 u]
          have sp: "store_plan (?plan (ScaledCurrentAfterFailure PrepareFailed) False) None (counting count_fallback st3) = (r, st')"
            using op' ps Inl u U by simp
          from plannedI [OF R(1,2) pre_ok_count [OF U [THEN conjunct2, THEN conjunct1]] _ R(5) _ _ sp] show ?thesis
            using P U by (simp add: same_route_def any)
        qed
      qed
    qed
  qed
qed

lemma prepare_planned:
  assumes ok: "core_ok base c (active_index act) st dr" and av: "available_slots act = (p, s)"
    and plans: "\<forall>p. dr_pending_plan dr = Some p \<longrightarrow> plan_ok (fst st) (rt_roles (fst (snd st))) dr p"
    and op: "prepare_dynamic_check_in_available_slots be p s catalog sn ms st = (r, st')"
  shows "planned base c act st dr st'"
proof -
  have stay: "planned base c act st dr st" using ok plans by (auto simp: planned_def same_route_def)
  have routes: "dynamic_routes st = Ok dr" using ok by (auto simp: dynamic_routes_def core_ok_def pre_ok_def)
  let ?k = "key_from_snapshot sn"
  show ?thesis
  proof (cases "entry_for_snapshot sn catalog")
    case None
    then show ?thesis using op stay by (simp add: prepare_dynamic_check_in_available_slots_def)
  next
    case (Some entry)
    then have entry: "entry_for_key ?k catalog = Some entry" by (simp add: entry_for_snapshot_def)
    note key = key_law [OF entry]
    obtain r1 st1 where rel: "release_dynamic_candidate_in_available_slots be p s st = (r1, st1)" by (meson surj_pair)
    obtain dr1 where R: "core_ok base c (active_index act) st1 dr1" "same_route dr dr1" "planned base c act st dr st1"
        "ro_candidate (rt_roles (fst (snd st1))) = None" "fst st1 ! active_index act = fst st ! active_index act"
      using released_planned [OF ok av plans rel] by auto
    have pre: "pre_ok base c (active_index act) (counting f st1) dr1" if "\<And>cs. counted_fbs (f cs) = counted_fbs cs" for f
      using R(1) that by (auto simp: core_ok_def intro: pre_ok_count)
    have direct: "planned base c act st dr st''"
      if "store_plan plan None (counting f st1) = (q, st'')" "\<And>cs. counted_fbs (f cs) = counted_fbs cs"
        "plan_ok (fst st1) (rt_roles (fst (snd st1))) dr1 plan" for plan f q st''
      using plannedI [OF R(1,2) pre [OF that(2)] _ R(5) _ _ that(1)] that(3) R(4) by (simp add: same_route_def)
    show ?thesis
    proof (cases "ce_route entry")
      case ScaledFallback
      then show ?thesis using op rel R(3) direct
        by (cases r1) (auto simp: prepare_dynamic_check_in_available_slots_def Some routes Let_def plan_ok_def)
    next
      case (ExactRoute mode)
      show ?thesis
      proof (cases "ce_key entry = dr_current_physical_key dr")
        case True
        then have "plan_ok (fst st1) (rt_roles (fst (snd st1))) dr1 \<lparr> pp_snapshot = sn, pp_logical_key = ?k,
            pp_requested_physical_key = Some (ce_key entry), pp_requested_mode = Some mode, pp_kind = ExactActiveNoOp,
            pp_failed_cache_hit = False, pp_mode_prepare_ms = ms \<rparr>"
          using key R(2) by (simp add: plan_ok_def same_route_def)
        from direct [OF _ _ this] show ?thesis using op rel R(3) True ExactRoute
          by (cases r1) (auto simp: prepare_dynamic_check_in_available_slots_def Some routes Let_def)
      next
        case other: False
        show ?thesis
          by (rule prepare_other [OF ok av plans op Some routes ExactRoute other])
      qed
    qed
  qed
qed

lemma planned_display:
  assumes "planned base c (di_active di) (di_slots di, di_runtime di, d) dr (slots, rt, d')"
    and "route_ok dr (di_shadow di)"
    and "di_slots di ! active_index (di_active di) = Some a" and "mapped_ok a (active_mapped (di_active di))"
  shows "display_ok base c (di\<lparr> di_slots := slots, di_runtime := rt \<rparr>) d'"
proof -
  obtain dr' where P: "core_ok base c (active_index (di_active di)) (slots, rt, d') dr'" "same_route dr dr'"
      "\<forall>p. dr_pending_plan dr' = Some p \<longrightarrow> plan_ok slots (rt_roles rt) dr' p"
      "slots ! active_index (di_active di) = di_slots di ! active_index (di_active di)"
    using assms(1) by (auto simp: planned_def)
  have "route_ok dr' (di_shadow di)" by (rule same_route_ok [OF P(2) assms(2)])
  then show ?thesis using P assms(3,4) unfolding display_ok_def by auto
qed

lemma display_okD:
  assumes "display_ok base c di d"
  obtains dr a where "core_ok base c (active_index (di_active di)) (di_slots di, di_runtime di, d) dr"
    "\<forall>p. dr_pending_plan dr = Some p \<longrightarrow> plan_ok (di_slots di) (rt_roles (di_runtime di)) dr p"
    "route_ok dr (di_shadow di)" "di_slots di ! active_index (di_active di) = Some a"
    "mapped_ok a (active_mapped (di_active di))"
  using assms unfolding display_ok_def by blast

lemma state_checked_ok:
  assumes ok: "display_ok base c di d" and op: "state_checked be catalog sn ms di d = (di', d')"
  shows "display_ok base c di' d' \<and> di_active di' = di_active di \<and> di_shadow di' = di_shadow di \<and> di_surface di' = di_surface di"
proof -
  obtain dr a where D: "core_ok base c (active_index (di_active di)) (di_slots di, di_runtime di, d) dr"
    "\<forall>p. dr_pending_plan dr = Some p \<longrightarrow> plan_ok (di_slots di) (rt_roles (di_runtime di)) dr p"
    "route_ok dr (di_shadow di)" "di_slots di ! active_index (di_active di) = Some a"
    "mapped_ok a (active_mapped (di_active di))" using ok by (rule display_okD)
  obtain p s where av: "available_slots (di_active di) = (p, s)" by (meson surj_pair)
  obtain r slots rt d1 where pr: "prepare_dynamic_check_in_available_slots be p s catalog sn ms (di_slots di, di_runtime di, d)
      = (r, slots, rt, d1)" by (rule prod_cases4)
  have "planned base c (di_active di) (di_slots di, di_runtime di, d) dr (slots, rt, d1)"
    by (rule prepare_planned [OF D(1) av _ pr]) (use D(2) in simp)
  from planned_display [OF this D(3-5)] show ?thesis
    using op av pr by (auto simp: state_checked_def physical_mode_routing_enabled_def on_pool_def)
qed

lemma invalidate_planned:
  assumes ok: "core_ok base c (active_index act) st dr" and av: "available_slots act = (p, s)"
    and plans: "\<forall>p. dr_pending_plan dr = Some p \<longrightarrow> plan_ok (fst st) (rt_roles (fst (snd st))) dr p"
    and op: "invalidate_dynamic_pending_in_available_slots be p s st = (r, st')"
  shows "planned base c act st dr st'"
proof -
  obtain r1 st1 where rel: "release_dynamic_candidate_in_available_slots be p s st = (r1, st1)" by (meson surj_pair)
  obtain dr1 where R: "core_ok base c (active_index act) st1 dr1" "same_route dr dr1" "planned base c act st dr st1"
      "ro_candidate (rt_roles (fst (snd st1))) = None" "fst st1 ! active_index act = fst st ! active_index act"
    using released_planned [OF ok av plans rel] by auto
  show ?thesis
  proof (cases r1)
    case (Inl e)
    then show ?thesis using op rel R(3) by (simp add: invalidate_dynamic_pending_in_available_slots_def)
  next
    case (Inr u)
    then have up: "update_routes invalidate_pending st1 = (r, st')"
      using op rel by (simp add: invalidate_dynamic_pending_in_available_slots_def)
    have "pre_ok base c (active_index act) st1 dr1" using R(1) by (simp add: core_ok_def)
    note U = update_routes_pre [OF this up]
    have "core_ok base c (active_index act) st' (invalidate_pending dr1)"
      using U R(1,4) by (simp add: core_ok_def keys_ok_def invalidate_pending_def)
    then show ?thesis
      using U R(2,5) unfolding planned_def
      by (intro exI [of _ "invalidate_pending dr1"]) (simp add: invalidate_pending_def same_route_def)
  qed
qed

lemma drop_pending_ok:
  assumes ok: "display_ok base c di d" and op: "drop_pending be di d = (di', d')"
  shows "display_ok base c di' d' \<and> di_active di' = di_active di \<and> di_shadow di' = di_shadow di \<and> di_surface di' = di_surface di"
proof -
  obtain dr a where D: "core_ok base c (active_index (di_active di)) (di_slots di, di_runtime di, d) dr"
    "\<forall>p. dr_pending_plan dr = Some p \<longrightarrow> plan_ok (di_slots di) (rt_roles (di_runtime di)) dr p"
    "route_ok dr (di_shadow di)" "di_slots di ! active_index (di_active di) = Some a"
    "mapped_ok a (active_mapped (di_active di))" using ok by (rule display_okD)
  obtain p s where av: "available_slots (di_active di) = (p, s)" by (meson surj_pair)
  obtain r slots rt d1 where pr: "invalidate_dynamic_pending_in_available_slots be p s (di_slots di, di_runtime di, d)
      = (r, slots, rt, d1)" by (rule prod_cases4)
  have "planned base c (di_active di) (di_slots di, di_runtime di, d) dr (slots, rt, d1)"
    by (rule invalidate_planned [OF D(1) av _ pr]) (use D(2) in simp)
  from planned_display [OF this D(3-5)] show ?thesis
    using op av pr by (auto simp: drop_pending_def on_pool_def)
qed

lemma map_allocation_mapped:
  assumes "map_allocation be a d = (Ok m, d')"
  shows "mapped_ok a m \<and> gained d d' {} {} 2"
proof -
  have "ma_mode m = sa_mode a \<and> ma_width m = sa_width a \<and> ma_height m = sa_height a \<and> ma_pitch m = sa_pitch a
      \<and> ma_front_buffer_index m = sa_front_buffer_index a"
    using assms by (auto simp: map_allocation_def split: if_splits option.splits sum.splits prod.splits)
  then show ?thesis using map_allocation_spec [OF assms] by (simp add: mapped_ok_def)
qed

lemma drop_mapped_gained: "gained d (drop_mapped d) {} {} (- 2)"
  using gained_trans [OF drop_mapping_gained drop_mapping_gained] by (simp add: drop_mapped_def)

lemma crtc_gained: "be_set_crtc be fb mode (fst d) = (u, b) \<Longrightarrow> gained d (b, snd d) {} {} 0"
  using crtc_law by (simp add: gained_def)

lemma dirty_gained: "gained (b, cs) (snd (be_dirty_framebuffer be fb x1 y1 x2 y2 b), cs) {} {} 0"
  using dirty_law [of fb x1 y1 x2 y2 b] by (cases "be_dirty_framebuffer be fb x1 y1 x2 y2 b") (simp add: gained_def)

text \<open>One attempt to switch: exactly one of the two scanouts stays mapped.\<close>

lemma attempt_switch_spec:
  assumes op: "attempt_mapped_switch be old t d = (r, d')" and t: "ready t"
  shows "gained d d' {} {} 0 \<and> (\<exists>sw. r = Ok sw \<and> (case sw of Switched m \<Rightarrow> mapped_ok t m | Retained old' _ \<Rightarrow> old' = old))"
proof -
  obtain rm d1 where m: "map_allocation be t d = (rm, d1)" by (meson surj_pair)
  show ?thesis
  proof (cases rm)
    case (Inl e)
    then show ?thesis using op m map_allocation_spec [OF m] by (auto simp: attempt_mapped_switch_def)
  next
    case (Inr mt)
    note M = map_allocation_mapped [OF m [unfolded Inr]]
    obtain fb where fb: "front_framebuffer mt = Ok fb"
      using M t by (auto simp: front_framebuffer_def pick_def mapped_ok_def ready_def less_2_cases_iff)
    obtain u b where cr: "be_set_crtc be fb (ma_mode mt) (fst d1) = (u, b)" by (meson surj_pair)
    have g: "gained d (drop_mapped (b, snd d1)) {} {} 0"
      using gained_trans [OF gained_trans [OF M [THEN conjunct2] crtc_gained [OF cr]] drop_mapped_gained] by simp
    show ?thesis using op m Inr fb cr g M by (cases u) (auto simp: attempt_mapped_switch_def)
  qed
qed

lemma ensure_waiting_pre:
  assumes ok: "pre_ok base c idx (slots, rt, d) dr" and op: "ensure_waiting_mode be mode render rt d = (r, rt', d')"
  shows "pre_ok base c idx (slots, rt', d') dr \<and> rt_roles rt' = rt_roles rt"
proof -
  have D: "pool_ok base c slots rt d" using ok by (simp add: pre_ok_def)
  note W = ensure_waiting_mode_spec [OF D op]
  have "rt_waiting rt' \<noteq> None"
  proof (cases r)
    case (Inl err)
    then show ?thesis using op ok unfolding pre_ok_def
      by (auto simp: ensure_waiting_mode_def Let_def discard_replacement_def split: if_splits prod.splits sum.splits option.splits)
  qed (use W in auto)
  then show ?thesis using ok W by (simp add: pre_ok_def)
qed

lemma pre_ok_dev: "pre_ok base c idx (slots, rt, d) dr \<Longrightarrow> gained d d' {} {} k \<Longrightarrow> pre_ok base c idx (slots, rt, d') dr"
  unfolding pre_ok_def prod.case using pool_ok_dev by blast

lemma present_waiting_pre:
  assumes ok: "pre_ok base c idx st dr" and op: "present_waiting_surface be oc format act st = (r, st')"
  shows "pre_ok base c idx st' dr \<and> fst st' = fst st \<and> rt_roles (fst (snd st')) = rt_roles (fst (snd st))"
proof -
  obtain slots rt d where st: "st = (slots, rt, d)" by (rule prod_cases3)
  let ?m = "active_mapped act"
  obtain re rt1 d1 where e: "ensure_waiting_mode be (ma_mode ?m) (waiting_callback oc format) rt d = (re, rt1, d1)"
    by (rule prod_cases3)
  note W = ensure_waiting_pre [OF ok [unfolded st] e]
  note pre = pre_ok_dev [OF W [THEN conjunct1]]
  have "\<exists>d2. st' = (slots, rt1, d2) \<and> gained d1 d2 {} {} 0"
  proof (cases "is_ok re \<and> is_ok (waiting_framebuffer rt1)")
    case False
    then have "st' = (slots, rt1, d1)"
      using op st e by (auto simp: present_waiting_surface_def Let_def split: sum.splits)
    then show ?thesis using gained_refl by blast
  next
    case True
    then obtain u fb where fb: "re = Ok u" "waiting_framebuffer rt1 = Ok fb" by (auto simp: is_ok_iff)
    obtain v b where cr: "be_set_crtc be fb (ma_mode ?m) (fst d1) = (v, b)" by (meson surj_pair)
    note g = crtc_gained [OF cr] and g2 = gained_trans [OF crtc_gained [OF cr] dirty_gained]
    show ?thesis using op st e fb cr g g2 by (cases v) (auto simp: present_waiting_surface_def Let_def)
  qed
  then obtain d2 where d2: "st' = (slots, rt1, d2)" "gained d1 d2 {} {} 0" by blast
  show ?thesis using pre [OF d2(2)] d2(1) st W by simp
qed

text \<open>The switch itself: on success the target is the active slot and only it and the baseline are left.\<close>

lemma switch_succeeds:
  assumes ok: "core_ok base c (active_index (di_active di)) (di_slots di, di_runtime di, d) dr"
    and t: "target < 3" "target \<noteq> active_index (di_active di)" "di_slots di ! target = Some a" "mapped_ok a m"
    and g: "gained d d1 {} {} 0"
    and ac: "activate_slot target (di_runtime di) = (Ok old_slot, rt)" "old_slot = active_index (di_active di)"
    and op: "(if active_index (di_active di) = 0 then (Ok True, di\<lparr> di_runtime := rt, di_active := mapped_in target m \<rparr>, d1)
       else case on_pool (at_slot (release_inactive be) (active_index (di_active di))) (di\<lparr> di_runtime := rt \<rparr>) d1 of
         (Inl e, di2, d2) \<Rightarrow> (Inl e, di2, d2)
       | (Inr _, di2, d2) \<Rightarrow> (Ok True, di2\<lparr> di_active := mapped_in target m \<rparr>, d2)) = (Ok sw, di', d')"
  shows "sw \<and> active_index (di_active di') = target \<and> active_mapped (di_active di') = m
    \<and> pre_ok base c target (di_slots di', di_runtime di', d') dr
    \<and> di_slots di' ! target = Some a \<and> di_slots di' ! 0 = di_slots di ! 0
    \<and> di_shadow di' = di_shadow di \<and> di_surface di' = di_surface di"
proof -
  let ?i = "active_index (di_active di)" and ?slots = "di_slots di" and ?ro = "rt_roles (di_runtime di)"
  have D: "pool_ok base c ?slots (di_runtime di) d" "roles_ok ?slots ?ro ?i" "rt_waiting (di_runtime di) \<noteq> None"
      "rt_dynamic_routes (di_runtime di) = Some dr" using ok by (simp_all add: core_ok_def pre_ok_def)
  have len: "length ?slots = 3" by (rule pool_okD(1) [OF D(1)])
  have cand: "target = 0 \<or> ro_candidate ?ro = Some target" using D(2) t by (auto simp: roles_ok_def)
  then have rt: "rt = (di_runtime di)\<lparr> rt_roles := ?ro\<lparr> ro_active := target,
      ro_candidate := (if target = 0 then ro_candidate ?ro else None) \<rparr> \<rparr>"
    using ac(1) D(2) by (auto simp: activate_slot_def Let_def roles_ok_def split: if_splits)
  have P1: "pool_ok base c ?slots rt d1"
    by (rule pool_ok_roles [OF pool_ok_dev [OF D(1) g]]) (simp_all add: rt)
  show ?thesis
  proof (cases "?i = 0")
    case True
    then have eq: "sw" "d' = d1" "di' = di\<lparr> di_runtime := rt, di_active := mapped_in target m \<rparr>" using op by simp_all
    have "roles_ok ?slots (rt_roles rt) target" using D(2) t cand True by (auto simp: roles_ok_def rt)
    then have "pre_ok base c target (?slots, rt, d1) dr" using P1 D(3,4) by (simp add: pre_ok_def rt)
    then show ?thesis using eq t by simp
  next
    case False
    obtain ri slot rt2 d2 where ri: "release_inactive be ?i (?slots ! ?i) rt d1 = (ri, slot, rt2, d2)" by (rule prod_cases4)
    have eq: "sw" "d' = d2" "di' = di\<lparr> di_runtime := rt2, di_slots := ?slots[?i := slot], di_active := mapped_in target m \<rparr>"
      using op False ri by (auto simp: on_pool_def at_slot_def split: sum.splits)
    have ne: "?i \<noteq> ro_active (rt_roles rt)" "?i \<noteq> ro_baseline (rt_roles rt)" using t False D(2) by (simp_all add: rt roles_ok_def)
    note R = release_inactive_spec [OF P1 _ ne ri]
    have "roles_ok (?slots[?i := None]) (rt_roles rt) target"
      using D(2) t cand False len by (auto simp: roles_ok_def rt nth_list_update)
    then have "pre_ok base c target (?slots[?i := None], rt2, d2) dr"
      using R D(3,4) by (simp add: pre_ok_def rt)
    then show ?thesis using eq t R False by simp
  qed
qed

lemma switch_slot_spec:
  assumes ok: "core_ok base c (active_index (di_active di)) (di_slots di, di_runtime di, d) dr"
    and t: "target < 3" "target \<noteq> active_index (di_active di)"
    and op: "switch_slot be target (target \<noteq> 0) di d = (Ok sw, di', d')"
  shows "di_shadow di' = di_shadow di \<and> di_surface di' = di_surface di \<and> di_slots di' ! 0 = di_slots di ! 0
    \<and> (if sw then active_index (di_active di') = target \<and> pre_ok base c target (di_slots di', di_runtime di', d') dr
         \<and> (\<exists>a. di_slots di ! target = Some a \<and> di_slots di' ! target = Some a \<and> mapped_ok a (active_mapped (di_active di')))
       else di_active di' = di_active di
         \<and> di_slots di' ! active_index (di_active di) = di_slots di ! active_index (di_active di)
         \<and> (\<exists>dr'. core_ok base c (active_index (di_active di)) (di_slots di', di_runtime di', d') dr'
              \<and> (dr' = dr \<or> dr' = dr\<lparr> dr_candidate_key := None \<rparr>)))"
proof -
  let ?i = "active_index (di_active di)" and ?slots = "di_slots di"
  have D: "pool_ok base c ?slots (di_runtime di) d" "roles_ok ?slots (rt_roles (di_runtime di)) ?i"
      "rt_waiting (di_runtime di) \<noteq> None" "rt_dynamic_routes (di_runtime di) = Some dr"
      "keys_ok ?slots (rt_roles (di_runtime di)) dr" using ok by (simp_all add: core_ok_def pre_ok_def)
  obtain a where a: "?slots ! target = Some a" using op by (cases "?slots ! target") (auto simp: switch_slot_def)
  have rd: "ready a" using pool_okD(2) [OF D(1) t(1) a] .
  obtain ra d1 where at: "attempt_mapped_switch be (active_mapped (di_active di)) a d = (ra, d1)" by (meson surj_pair)
  obtain s where s: "gained d d1 {} {} 0" "ra = Ok s"
      "case s of Switched m \<Rightarrow> mapped_ok a m | Retained old' _ \<Rightarrow> old' = active_mapped (di_active di)"
    using attempt_switch_spec [OF at rd] by blast
  show ?thesis
  proof (cases s)
    case (Switched m)
    obtain x rt where ac: "activate_slot target (di_runtime di) = (x, rt)" by (meson surj_pair)
    then obtain old where old: "x = Ok old" "old = ?i"
      using op a at s(2) Switched by (cases x) (simp_all add: switch_slot_def Let_def split: if_splits)
    have mo: "mapped_ok a m" using s(3) Switched by simp
    have op': "(if ?i = 0 then (Ok True, di\<lparr> di_runtime := rt, di_active := mapped_in target m \<rparr>, d1)
       else case on_pool (at_slot (release_inactive be) ?i) (di\<lparr> di_runtime := rt \<rparr>) d1 of
         (Inl e, di2, d2) \<Rightarrow> (Inl e, di2, d2)
       | (Inr _, di2, d2) \<Rightarrow> (Ok True, di2\<lparr> di_active := mapped_in target m \<rparr>, d2)) = (Ok sw, di', d')"
      using op a at s(2) Switched ac old unfolding switch_slot_def Let_def by (simp cong: if_cong)
    note S = switch_succeeds [OF ok t a mo s(1) ac [unfolded old(1)] old(2) op']
    then show ?thesis using a mo by simp
  next
    case (Retained m e)
    then have m: "m = active_mapped (di_active di)" using s(3) by simp
    have P1: "pool_ok base c ?slots (di_runtime di) d1" by (rule pool_ok_dev [OF D(1) s(1)])
    then have ok1: "core_ok base c ?i (?slots, di_runtime di, d1) dr" using D by (simp add: core_ok_def pre_ok_def)
    show ?thesis
    proof (cases "target = 0")
      case True
      then have "\<not> sw" "di' = di" "d' = d1" using op a at s(2) Retained m by (simp_all add: switch_slot_def Let_def)
      then show ?thesis using ok1 by auto
    next
      case False
      have cand: "ro_candidate (rt_roles (di_runtime di)) = Some target" using D(2) t a False by (auto simp: roles_ok_def)
      obtain p2 s2 where av: "available_slots (di_active di) = (p2, s2)" by (meson surj_pair)
      have sel: "target = p2 \<or> s2 = Some target" using av t False by (cases "di_active di") auto
      obtain rc st2 where rel: "at_slot (release_candidate be) target (?slots, di_runtime di, d1) = (rc, st2)" by (meson surj_pair)
      obtain slots2 rt2 d2 where st2: "st2 = (slots2, rt2, d2)" by (rule prod_cases3)
      have rel': "release_dynamic_candidate_in_available_slots be p2 s2 (?slots, di_runtime di, d1) = (rc, st2)"
        using rel cand sel by (auto simp: release_dynamic_candidate_in_available_slots_def)
      obtain dr' where R: "core_ok base c ?i st2 dr'" "dr' = dr \<or> dr' = dr\<lparr> dr_candidate_key := None \<rparr>"
          "\<forall>i \<in> {0, ?i}. fst st2 ! i = ?slots ! i"
        using release_dynamic_core [OF ok1 av rel'] by auto
      have "\<not> sw" "di' = di\<lparr> di_slots := slots2, di_runtime := rt2 \<rparr>" "d' = d2"
        using op a at s(2) Retained m False rel st2 by (cases rc; simp add: switch_slot_def Let_def on_pool_def)+
      then show ?thesis using R st2 by auto
    qed
  qed
qed

text \<open>Recording a route. \<open>recorded\<close> is the route state it leaves.\<close>

definition recorded :: "DisplayStateSnapshot \<Rightarrow> PresentationRoute \<Rightarrow> ModeKey option \<Rightarrow> 'm DynamicRouteState \<Rightarrow> 'm DynamicRouteState" where
  "recorded sn route new_key dr = dr\<lparr> dr_committed_snapshot := Some sn, dr_presentation_route := Some route,
     dr_current_physical_key := (case committed_physical_key route new_key (dr_baseline_physical_key dr) of
        None \<Rightarrow> dr_current_physical_key dr | Some key \<Rightarrow> key), dr_candidate_key := None \<rparr>"

lemma record_route_pre:
  assumes ok: "pre_ok base c idx st dr" and op: "record_committed_route sn route nk st = (r, st')"
  shows "r = Ok () \<and> pre_ok base c idx st' (recorded sn route nk dr) \<and> fst st' = fst st
    \<and> rt_roles (fst (snd st')) = rt_roles (fst (snd st))"
proof -
  let ?st = "if dr_presentation_route dr \<noteq> Some route then counting count_route_changed st else st"
  have dr: "dynamic_routes st = Ok dr" using ok by (auto simp: dynamic_routes_def pre_ok_def)
  have op': "update_routes (\<lambda>dr. recorded sn route nk dr) ?st = (r, st')"
    using op dr by (simp add: record_committed_route_def recorded_def Let_def)
  have "pre_ok base c idx ?st dr" using ok pre_ok_count [OF ok, of count_route_changed] by simp
  note U = update_routes_pre [OF this op']
  have "fst ?st = fst st" "fst (snd ?st) = fst (snd st)" by simp_all
  then show ?thesis using U by simp
qed

text \<open>A state in which a route can be recorded, and the state after it.\<close>

definition recordable :: "'buf set \<times> 'fb set \<Rightarrow> int \<Rightarrow> DisplayStateSnapshot \<Rightarrow> PresentationRoute \<Rightarrow> ModeKey option \<Rightarrow>
    ('buf, 'fb, 'm) Display \<Rightarrow> 'b dev \<Rightarrow> bool" where
  "recordable base c sn route nk di d \<longleftrightarrow>
     (\<exists>dr. pre_ok base c (active_index (di_active di)) (di_slots di, di_runtime di, d) dr
        \<and> (\<forall>p. dr_pending_plan dr = Some p \<longrightarrow> plan_ok (di_slots di) (rt_roles (di_runtime di)) (recorded sn route nk dr) p)
        \<and> shows_key (dr_current_physical_key (recorded sn route nk dr)) (di_slots di ! active_index (di_active di))
        \<and> shows_key (dr_baseline_physical_key dr) (di_slots di ! 0)
        \<and> route_ok (recorded sn route nk dr) (di_shadow di)
        \<and> (\<exists>a. di_slots di ! active_index (di_active di) = Some a \<and> mapped_ok a (active_mapped (di_active di))))"

lemma record_display:
  assumes "recordable base c sn route nk di d" and op: "on_pool (record_committed_route sn route nk) di d = (r, di', d')"
  shows "r = Ok () \<and> display_ok base c di' d' \<and> di_surface di' = di_surface di"
proof -
  obtain dr a where R: "pre_ok base c (active_index (di_active di)) (di_slots di, di_runtime di, d) dr"
      "\<forall>p. dr_pending_plan dr = Some p \<longrightarrow> plan_ok (di_slots di) (rt_roles (di_runtime di)) (recorded sn route nk dr) p"
      "shows_key (dr_current_physical_key (recorded sn route nk dr)) (di_slots di ! active_index (di_active di))"
      "shows_key (dr_baseline_physical_key dr) (di_slots di ! 0)" "route_ok (recorded sn route nk dr) (di_shadow di)"
      "di_slots di ! active_index (di_active di) = Some a" "mapped_ok a (active_mapped (di_active di))"
    using assms(1) unfolding recordable_def by blast
  obtain slots rt d1 where rec: "record_committed_route sn route nk (di_slots di, di_runtime di, d) = (r, slots, rt, d1)"
    using op by (auto simp: on_pool_def split: prod.splits)
  note P = record_route_pre [OF R(1) rec]
  have eq: "di' = di\<lparr> di_slots := slots, di_runtime := rt \<rparr>" "d' = d1" using op rec by (simp_all add: on_pool_def)
  have "roles_ok (di_slots di) (rt_roles (di_runtime di)) (active_index (di_active di))" using R(1) by (simp add: pre_ok_def)
  then have act: "ro_active (rt_roles rt) = active_index (di_active di)" using P by (simp add: roles_ok_def)
  have "core_ok base c (active_index (di_active di)) (slots, rt, d1) (recorded sn route nk dr)"
    using P R(3,4) act by (simp add: core_ok_def keys_ok_def, simp add: recorded_def)
  moreover have "\<forall>p. dr_pending_plan (recorded sn route nk dr) = Some p \<longrightarrow> plan_ok slots (rt_roles rt) (recorded sn route nk dr) p"
    using R(2) P by (simp add: recorded_def)
  ultimately have "display_ok base c di' d'"
    unfolding display_ok_def eq using R(5-7) P by (intro exI [of _ "recorded sn route nk dr"]) simp
  then show ?thesis using P eq by simp
qed

lemma activate_shadow_active:
  assumes "activate_shadow sn di = Ok di'"
  shows "\<exists>s. di' = di\<lparr> di_shadow := s \<rparr> \<and> shadow_is_active (shadow_identity sn) s"
proof -
  have "activate_scaled i s = Ok (act, s') \<Longrightarrow> shadow_is_active i s'" for i s act s'
    by (auto simp: activate_scaled_def and_then_def shadow_is_active_def Let_def split: sum.splits if_splits)
  then show ?thesis using assms by (auto simp: activate_shadow_def split: sum.splits prod.splits)
qed

lemma pre_ok_counts:
  "pre_ok base c idx (slots, rt, b, cs) dr \<Longrightarrow> counted_fbs cs' = counted_fbs cs \<Longrightarrow> pre_ok base c idx (slots, rt, b, cs') dr"
  by (auto simp: pre_ok_def elim: pool_ok_count)

text \<open>A scaled route on an unchanged or retained scanout.\<close>

definition is_baseline_route :: "PresentationRoute \<Rightarrow> bool" where
  "is_baseline_route route \<longleftrightarrow> (\<exists>l. route = RouteScaledBaseline l)"

lemma scaled_recordable:
  assumes core: "core_ok base c (active_index (di_active di)) (di_slots di, di_runtime di, b, cs) dr"
    and pend: "dr_pending_plan dr = None \<or> \<not> is_baseline_route route
      \<and> (\<forall>p. dr_pending_plan dr = Some p \<longrightarrow> plan_ok (di_slots di) (rt_roles (di_runtime di)) dr p)"
    and "di_slots di ! active_index (di_active di) = Some a" "mapped_ok a (active_mapped (di_active di))"
    and "activate_shadow sn di = Ok di'" and "counted_fbs cs' = counted_fbs cs"
    and route: "route = RouteScaledCurrentAfterFailure (key_from_snapshot sn) reason
      \<or> route = RouteScaledBaseline (key_from_snapshot sn) \<and> active_index (di_active di) = 0"
  shows "recordable base c sn route None di' (b, cs')"
proof -
  obtain s where s: "di' = di\<lparr> di_shadow := s \<rparr>" "shadow_is_active (shadow_identity sn) s"
    using activate_shadow_active [OF assms(5)] by blast
  have "pre_ok base c (active_index (di_active di)) (di_slots di, di_runtime di, b, cs') dr"
    using core assms(6) by (auto simp: core_ok_def intro: pre_ok_counts)
  moreover have "shows_key (dr_current_physical_key dr) (di_slots di ! active_index (di_active di))"
      "shows_key (dr_baseline_physical_key dr) (di_slots di ! 0)"
    using core by (auto simp: core_ok_def keys_ok_def pre_ok_def roles_ok_def)
  moreover have "plan_ok (di_slots di) (rt_roles (di_runtime di)) (recorded sn route None dr) p" if "dr_pending_plan dr = Some p" for p
    using pend route that by (auto simp: plan_ok_def recorded_def is_baseline_route_def split: PendingPlanKind.splits)
  ultimately show ?thesis
    using assms(3,4) s route unfolding recordable_def s(1)
    by (intro exI [of _ dr]) (auto simp: recorded_def route_ok_def)
qed

text \<open>The plans, one by one.\<close>

lemma noop_recordable:
  assumes core: "core_ok base c (active_index (di_active di)) (di_slots di, di_runtime di, b, cs) dr" and "dr_pending_plan dr = None"
    and "di_slots di ! active_index (di_active di) = Some a" "mapped_ok a (active_mapped (di_active di))"
    and "key_from_snapshot sn = dr_current_physical_key dr" and "counted_fbs cs' = counted_fbs cs"
  shows "recordable base c sn (DirectExact (key_from_snapshot sn) (dr_current_physical_key dr)) None
    (di\<lparr> di_shadow := invalidate_content (di_shadow di) \<rparr>) (b, cs')"
proof -
  have "pre_ok base c (active_index (di_active di)) (di_slots di, di_runtime di, b, cs') dr"
    using core assms(6) by (auto simp: core_ok_def intro: pre_ok_counts)
  moreover have "shows_key (dr_current_physical_key dr) (di_slots di ! active_index (di_active di))"
      "shows_key (dr_baseline_physical_key dr) (di_slots di ! 0)"
    using core by (auto simp: core_ok_def keys_ok_def pre_ok_def roles_ok_def)
  ultimately show ?thesis
    using assms(2-5) unfolding recordable_def by (intro exI [of _ dr]) (auto simp: recorded_def route_ok_def)
qed

lemma commit_exact_candidate_ok:
  assumes core: "core_ok base c (active_index (di_active di)) (di_slots di, di_runtime di, d) dr" and pend: "dr_pending_plan dr = None"
    and act: "di_slots di ! active_index (di_active di) = Some a" "mapped_ok a (active_mapped (di_active di))"
    and plan: "plan_ok (di_slots di) (rt_roles (di_runtime di)) dr plan" "pp_kind plan = ExactCandidate slot" "pp_snapshot plan = sn"
    and op: "commit_exact_candidate be plan slot sn di d = (Ok route, di', d')"
  shows "di_surface di' = di_surface di
    \<and> (if is_direct route then display_ok base c di' d' else recordable base c sn route None di' d')"
proof -
  let ?k = "key_from_snapshot sn" and ?i = "active_index (di_active di)"
  obtain requested where req: "pp_requested_physical_key plan = Some requested"
      and compat: "compatible_slots ?i slot"
    using op by (auto simp: commit_exact_candidate_def Let_def split: option.splits if_splits)
  have t: "slot < 3" "slot \<noteq> ?i" "slot \<noteq> 0" using compat by (auto simp: compatible_slots_def)
  obtain rs di1 d1 where sw0: "switch_slot be slot True di d = (rs, di1, d1)" by (rule prod_cases3)
  obtain sw where sw: "rs = Ok sw" using op req compat sw0 by (cases rs) (simp_all add: commit_exact_candidate_def Let_def)
  have sw': "switch_slot be slot (slot \<noteq> 0) di d = (Ok sw, di1, d1)" using sw0 sw t by simp
  note S = switch_slot_spec [OF core t(1,2) sw']
  have occ: "di_slots di ! slot \<noteq> None" using sw' by (cases "di_slots di ! slot") (simp_all add: switch_slot_def Let_def)
  then have cand: "ro_candidate (rt_roles (di_runtime di)) = Some slot"
    using core t by (auto simp: core_ok_def pre_ok_def roles_ok_def)
  then have k: "requested = ?k" "shows_key ?k (di_slots di ! slot)" using plan req by (simp_all add: plan_ok_def)
  have base: "shows_key (dr_baseline_physical_key dr) (di_slots di ! 0)" using core by (simp add: core_ok_def keys_ok_def)
  show ?thesis
  proof (cases sw)
    case True
    let ?di = "di1\<lparr> di_shadow := invalidate_content (di_shadow di1) \<rparr>" and ?d = "(fst d1, count_switched (snd d1))"
    have "pre_ok base c slot (di_slots di1, di_runtime di1, ?d) dr"
      using S True pre_ok_counts [of base c slot _ _ "fst d1" "snd d1"] by simp
    then have "recordable base c sn (DirectExact ?k ?k) (Some ?k) ?di ?d"
      using S True base k pend unfolding recordable_def
      by (intro exI [of _ dr]) (auto simp: recorded_def route_ok_def)
    moreover obtain rr di2 d2 where rec: "on_pool (record_committed_route sn (DirectExact ?k ?k) (Some ?k)) ?di ?d = (rr, di2, d2)"
      by (rule prod_cases3)
    ultimately have "rr = Ok ()" "display_ok base c di2 d2" "di_surface di2 = di_surface di1"
      using record_display [of base c sn "DirectExact ?k ?k" "Some ?k" ?di ?d rr di2 d2] by simp_all
    then show ?thesis
      using op req compat sw0 sw True k rec S by (auto simp: commit_exact_candidate_def Let_def)
  next
    case False
    then have S': "di_active di1 = di_active di" "di_slots di1 ! ?i = di_slots di ! ?i" "di_surface di1 = di_surface di"
      using S by simp_all
    obtain dr' where dr': "core_ok base c ?i (di_slots di1, di_runtime di1, d1) dr'" "dr_pending_plan dr' = None"
      using S False pend by fastforce
    let ?f = "\<lambda>dr. dr\<lparr> dr_failed_routes := insert (failed_key ?k dr) (dr_failed_routes dr) \<rparr>"
    obtain ru slots2 rt2 d2 where up: "update_routes ?f (di_slots di1, di_runtime di1, d1) = (ru, slots2, rt2, d2)" by (rule prod_cases4)
    have pre1: "pre_ok base c ?i (di_slots di1, di_runtime di1, d1) dr'" using dr'(1) by (simp add: core_ok_def)
    have U: "ru = Ok ()" "pre_ok base c ?i (slots2, rt2, d2) (?f dr')" "slots2 = di_slots di1" "rt_roles rt2 = rt_roles (di_runtime di1)"
      using update_routes_pre [OF pre1 up] unfolding fst_conv snd_conv by blast+
    let ?di2 = "di1\<lparr> di_slots := slots2, di_runtime := rt2 \<rparr>"
    have core2: "core_ok base c (active_index (di_active ?di2)) (di_slots ?di2, di_runtime ?di2, fst d2, snd d2) (?f dr')"
      using U dr'(1) S' by (simp add: core_ok_def keys_ok_def)
    obtain di3 where sh: "activate_shadow sn ?di2 = Ok di3" "di' = di3" "d' = (fst d2, count_fallback (snd d2))"
        "route = RouteScaledCurrentAfterFailure ?k SwitchFailed"
      using op req compat sw0 sw False up U by (auto simp: commit_exact_candidate_def Let_def on_pool_def split: sum.splits)
    have "recordable base c sn route None di3 (fst d2, count_fallback (snd d2))"
      by (rule scaled_recordable [OF core2 _ _ _ sh(1)]) (use dr'(2) act S' U sh in auto)
    then show ?thesis using sh S' activate_shadow_active [OF sh(1)] by auto
  qed
qed

lemma commit_scaled_baseline_ok:
  assumes core: "core_ok base c (active_index (di_active di)) (di_slots di, di_runtime di, d) dr" and pend: "dr_pending_plan dr = None"
    and act: "di_slots di ! active_index (di_active di) = Some a" "mapped_ok a (active_mapped (di_active di))"
    and op: "commit_scaled_baseline be required sn di d = (Ok route, di', d')"
  shows "di_surface di' = di_surface di \<and> recordable base c sn route None di' d' \<and> \<not> is_direct route"
proof -
  let ?k = "key_from_snapshot sn" and ?i = "active_index (di_active di)"
  have core': "core_ok base c ?i (di_slots di, di_runtime di, fst d, snd d) dr" using core by simp
  show ?thesis
  proof (cases required)
    case False
    then obtain sh: "activate_shadow sn di = Ok di'" "d' = d" "route = RouteScaledBaseline ?k"
        "?i = ro_baseline (rt_roles (di_runtime di))"
      using op by (auto simp: commit_scaled_baseline_def Let_def split: if_splits sum.splits)
    have "?i = 0" using sh(4) core by (auto simp: core_ok_def pre_ok_def roles_ok_def)
    then have "recordable base c sn route None di' (fst d, snd d)"
      by (intro scaled_recordable [OF core' disjI1 [OF pend] act sh(1)]) (simp_all add: sh)
    then show ?thesis using sh activate_shadow_active [OF sh(1)] by auto
  next
    case True
    have i: "?i \<noteq> 0" using op True by (auto simp: commit_scaled_baseline_def Let_def split: if_splits)
    obtain rs di1 d1 where sw0: "switch_slot be 0 False di d = (rs, di1, d1)" by (rule prod_cases3)
    obtain sw where sw: "rs = Ok sw" using op True i sw0 by (cases rs) (simp_all add: commit_scaled_baseline_def Let_def)
    have S': "switch_slot be 0 (0 \<noteq> (0 :: usize)) di d = (Ok sw, di1, d1)" using sw0 sw by simp
    note S = switch_slot_spec [OF core _ _ S']
    obtain di2 where sh: "activate_shadow sn di1 = Ok di2" "di' = di2"
        "(route, d') = (if sw then (RouteScaledBaseline ?k, fst d1, count_switched (snd d1))
           else (RouteScaledCurrentAfterFailure ?k BaselineSwitchFailed, fst d1, count_fallback (snd d1)))"
      using op True i sw0 sw by (cases sw) (auto simp: commit_scaled_baseline_def Let_def split: sum.splits)
    show ?thesis
    proof (cases sw)
      case True
      have a: "pre_ok base c 0 (di_slots di1, di_runtime di1, d1) dr" "active_index (di_active di1) = 0"
          "di_slots di1 ! 0 = di_slots di ! 0" "di_surface di1 = di_surface di"
          "\<exists>a. di_slots di1 ! 0 = Some a \<and> mapped_ok a (active_mapped (di_active di1))"
        using S i True by auto
      obtain s where s: "di2 = di1\<lparr> di_shadow := s \<rparr>" "shadow_is_active (shadow_identity sn) s"
        using activate_shadow_active [OF sh(1)] by blast
      have b: "shows_key (dr_baseline_physical_key dr) (di_slots di ! 0)" using core by (simp add: core_ok_def keys_ok_def)
      have p: "pre_ok base c 0 (di_slots di1, di_runtime di1, fst d1, count_switched (snd d1)) dr"
        using a(1) pre_ok_counts [of base c 0 _ _ "fst d1" "snd d1"] by simp
      have "recordable base c sn (RouteScaledBaseline ?k) None di2 (fst d1, count_switched (snd d1))"
        unfolding recordable_def s(1) using a(2,3,5) b p s(2) pend
        by (intro exI [of _ dr]) (auto simp: recorded_def route_ok_def)
      then show ?thesis using sh True a(4) s(1) by simp
    next
      case False
      obtain dr' where dr': "core_ok base c (active_index (di_active di1)) (di_slots di1, di_runtime di1, fst d1, snd d1) dr'"
          "dr_pending_plan dr' = None" "di_active di1 = di_active di"
          "di_slots di1 ! ?i = di_slots di ! ?i" "di_surface di1 = di_surface di"
        using S i False pend by fastforce
      have "recordable base c sn (RouteScaledCurrentAfterFailure ?k BaselineSwitchFailed) None di2 (fst d1, count_fallback (snd d1))"
        by (rule scaled_recordable [OF dr'(1) disjI1 [OF dr'(2)] _ _ sh(1)]) (use dr' act in simp_all)
      then show ?thesis using sh False dr'(5) activate_shadow_active [OF sh(1)] by auto
    qed
  qed
qed

lemma present_waiting_ok:
  assumes ok: "display_ok base c di d" and op: "on_pool (present_waiting_surface be oc format (di_active di)) di d = (r, di', d')"
  shows "display_ok base c di' d' \<and> (\<forall>s. display_ok base c (di'\<lparr> di_surface := s \<rparr>) d') \<and> di_surface di' = di_surface di"
proof -
  obtain dr a where D: "core_ok base c (active_index (di_active di)) (di_slots di, di_runtime di, d) dr"
    "\<forall>p. dr_pending_plan dr = Some p \<longrightarrow> plan_ok (di_slots di) (rt_roles (di_runtime di)) dr p"
    "route_ok dr (di_shadow di)" "di_slots di ! active_index (di_active di) = Some a"
    "mapped_ok a (active_mapped (di_active di))" using ok by (rule display_okD)
  obtain slots rt d1 where pw: "present_waiting_surface be oc format (di_active di) (di_slots di, di_runtime di, d) = (r, slots, rt, d1)"
    using op by (auto simp: on_pool_def split: prod.splits)
  have pre: "pre_ok base c (active_index (di_active di)) (di_slots di, di_runtime di, d) dr" using D(1) by (simp add: core_ok_def)
  have P: "pre_ok base c (active_index (di_active di)) (slots, rt, d1) dr" "slots = di_slots di" "rt_roles rt = rt_roles (di_runtime di)"
    using present_waiting_pre [OF pre pw] unfolding fst_conv snd_conv by blast+
  have eq: "di' = di\<lparr> di_slots := slots, di_runtime := rt \<rparr>" "d' = d1" using op pw by (simp_all add: on_pool_def)
  have "core_ok base c (active_index (di_active di)) (slots, rt, d1) dr" using P D(1) by (simp add: core_ok_def)
  then show ?thesis using D P eq unfolding display_ok_def by auto
qed

lemma commit_plan_ok:
  assumes core: "core_ok base c (active_index (di_active di)) (di_slots di, di_runtime di, d) dr" and pend: "dr_pending_plan dr = None"
    and act: "di_slots di ! active_index (di_active di) = Some a" "mapped_ok a (active_mapped (di_active di))"
    and plan: "plan_ok (di_slots di) (rt_roles (di_runtime di)) dr plan" "pp_snapshot plan = sn"
    and op: "commit_plan be plan sn (dr_current_physical_key dr) di d = (Ok route, di', d')"
  shows "di_surface di' = di_surface di
    \<and> (if \<not> is_exact_candidate (pp_kind plan) \<or> \<not> is_direct route then recordable base c sn route None di' d'
       else display_ok base c di' d')"
proof (cases "pp_kind plan")
  case ExactActiveNoOp
  have eq: "d = (fst d, snd d)" by simp
  have core': "core_ok base c (active_index (di_active di)) (di_slots di, di_runtime di, fst d, snd d) dr" using core by simp
  have k: "key_from_snapshot sn = dr_current_physical_key dr" using plan ExactActiveNoOp by (simp add: plan_ok_def)
  show ?thesis
    using noop_recordable [OF core' pend act k, of "count_same_mode_noop (count_no_op (snd d))"] op ExactActiveNoOp
    by (auto simp: commit_plan_def)
next
  case (ExactCandidate slot)
  then have "commit_exact_candidate be plan slot sn di d = (Ok route, di', d')" using op by (simp add: commit_plan_def)
  from commit_exact_candidate_ok [OF core pend act plan(1) ExactCandidate plan(2) this] show ?thesis
    using ExactCandidate by simp
next
  case (ScaledBaseline required)
  then have "commit_scaled_baseline be required sn di d = (Ok route, di', d')" using op by (simp add: commit_plan_def)
  from commit_scaled_baseline_ok [OF core pend act this] show ?thesis using ScaledBaseline by simp
next
  case (ScaledCurrentAfterFailure reason)
  then obtain sh: "activate_shadow sn di = Ok di'" "d' = d" "route = RouteScaledCurrentAfterFailure (key_from_snapshot sn) reason"
    using op by (auto simp: commit_plan_def split: sum.splits)
  have core': "core_ok base c (active_index (di_active di)) (di_slots di, di_runtime di, fst d, snd d) dr" using core by simp
  have "recordable base c sn route None di' (fst d, snd d)"
    by (rule scaled_recordable [OF core' disjI1 [OF pend] act sh(1)]) (use sh in simp_all)
  then show ?thesis using ScaledCurrentAfterFailure sh activate_shadow_active [OF sh(1)] by auto
qed

lemma commit_mismatch_ok:
  assumes ok: "display_ok base c di d" and op: "commit_mismatch be sn di d = (Ok (), di', d')"
  shows "display_ok base c di' d' \<and> di_surface di' = di_surface di"
proof -
  obtain di1 d1 where dp: "drop_pending be di d = (di1, d1)" by (meson surj_pair)
  note P = drop_pending_ok [OF ok dp]
  obtain dr a where D: "core_ok base c (active_index (di_active di1)) (di_slots di1, di_runtime di1, fst d1, snd d1) dr"
    "\<forall>p. dr_pending_plan dr = Some p \<longrightarrow> plan_ok (di_slots di1) (rt_roles (di_runtime di1)) dr p"
    "di_slots di1 ! active_index (di_active di1) = Some a"
    "mapped_ok a (active_mapped (di_active di1))" using P by (auto elim: display_okD)
  let ?route = "RouteScaledCurrentAfterFailure (key_from_snapshot sn) PlanMismatch"
  obtain di2 where sh: "activate_shadow sn di1 = Ok di2"
    using op dp by (auto simp: commit_mismatch_def split: sum.splits)
  have rec: "recordable base c sn ?route None di2 (fst d1, snd d1)"
    by (rule scaled_recordable [OF D(1) _ D(3,4) sh]) (use D(2) in \<open>simp_all add: is_baseline_route_def\<close>)
  obtain r di3 d3 where op3: "on_pool (record_committed_route sn ?route None) di2 d1 = (r, di3, d3)" by (rule prod_cases3)
  have R: "display_ok base c di3 d3" "r = Ok ()" "di_surface di3 = di_surface di2" using record_display [OF rec] op3 by auto
  have eq: "di' = di3" "d' = (fst d3, count_fallback (snd d3))" using op dp sh op3 R by (auto simp: commit_mismatch_def)
  have "display_ok base c di3 (fst d3, count_fallback (snd d3))"
    using R(1) unfolding display_ok_def core_ok_def
    by (metis (no_types, lifting) counted_fbs_simps(10) fst_conv pre_ok_counts prod.collapse snd_conv)
  then show ?thesis using eq R(3) P activate_shadow_active [OF sh] by auto
qed

lemma state_committed_ok:
  assumes ok: "display_ok base c di d" and op: "state_committed be oc format pattern sn di d = (Ok (), di', d')"
  shows "display_ok base c di' d' \<and> di_surface di' = di_surface di"
proof -
  obtain dr a where D: "core_ok base c (active_index (di_active di)) (di_slots di, di_runtime di, d) dr"
    "\<forall>p. dr_pending_plan dr = Some p \<longrightarrow> plan_ok (di_slots di) (rt_roles (di_runtime di)) dr p"
    "route_ok dr (di_shadow di)" "di_slots di ! active_index (di_active di) = Some a"
    "mapped_ok a (active_mapped (di_active di))" using ok by (rule display_okD)
  have rt: "rt_dynamic_routes (di_runtime di) = Some dr" using D(1) by (simp add: core_ok_def pre_ok_def)
  let ?dr = "dr\<lparr> dr_pending_plan := None \<rparr>"
  let ?di = "di\<lparr> di_runtime := (di_runtime di)\<lparr> rt_dynamic_routes := Some ?dr \<rparr> \<rparr>"
  have "pool_ok base c (di_slots di) (di_runtime ?di) d"
    by (rule pool_ok_roles [of _ _ _ "di_runtime di"]) (use D(1) in \<open>simp_all add: core_ok_def pre_ok_def\<close>)
  then have core: "core_ok base c (active_index (di_active ?di)) (di_slots ?di, di_runtime ?di, d) ?dr"
    using D(1) by (simp add: core_ok_def pre_ok_def keys_ok_def)
  have "route_ok ?dr (di_shadow ?di)" using same_route_ok [OF _ D(3), of ?dr] by (simp add: same_route_def)
  then have ok0: "display_ok base c ?di d" unfolding display_ok_def using core D(4,5) by (intro exI [of _ ?dr]) simp
  note unf = state_committed_def [of be oc format pattern sn di d] physical_mode_routing_enabled_def rt
  show ?thesis
  proof (cases "take_matching_pending_plan (dr_pending_plan dr) sn")
    case (Inl x)
    then have "commit_mismatch be sn ?di d = (Ok (), di', d')" using op unfolding unf by simp
    from commit_mismatch_ok [OF ok0 this] show ?thesis by simp
  next
    case (Inr plan)
    then have pl: "dr_pending_plan dr = Some plan" "pp_snapshot plan = sn"
      by (auto simp: take_matching_pending_plan_def split: option.splits if_splits)
    have po: "plan_ok (di_slots ?di) (rt_roles (di_runtime ?di)) ?dr plan"
      using D(2) pl(1) by (simp add: plan_ok_def cong: PendingPlanKind.case_cong)
    obtain rp di1 d1 where cp: "commit_plan be plan sn (dr_current_physical_key ?dr) ?di d = (rp, di1, d1)" by (rule prod_cases3)
    obtain route where route: "rp = Ok route" using op Inr cp unfolding unf by (cases rp) simp_all
    note C = commit_plan_ok [OF core _ _ _ po pl(2) cp [unfolded route], of a] D(4,5)
    define fin where "fin = (if \<not> is_exact_candidate (pp_kind plan) \<or> \<not> is_direct route
            then on_pool (record_committed_route sn route None) di1 d1 else (Ok (), di1, d1))"
    obtain r2 di2 d2 where fin: "fin = (r2, di2, d2)" by (rule prod_cases3)
    have F: "r2 = Ok ()" "display_ok base c di2 d2" "di_surface di2 = di_surface di"
      using C fin record_display [of base c sn route None di1 d1 r2 di2 d2] unfolding fin_def by (simp_all split: if_splits)
    have "(if pattern = POff \<and> is_waiting (di_surface di2)
          then on_pool (present_waiting_surface be oc format (di_active di2)) di2 d2
          else (Ok (), di2, d2)) = (Ok (), di', d')"
      using op Inr cp route fin F(1) unfolding unf fin_def by (simp split: if_splits)
    then show ?thesis using F present_waiting_ok [OF F(2)] by (auto split: if_splits)
  qed
qed

lemma display_ok_dev:
  assumes "display_ok base c di d" and "gained d d' {} {} k"
  shows "display_ok base c di d'"
proof -
  have "core_ok base c i (slots, rt, d) dr \<Longrightarrow> core_ok base c i (slots, rt, d') dr" for i slots rt dr
    using pool_ok_dev [OF _ assms(2)] by (simp add: core_ok_def pre_ok_def)
  then show ?thesis using assms(1) unfolding display_ok_def by blast
qed

lemma lifecycle_surface_ok:
  assumes ok: "display_ok base c di d" and op: "lifecycle_surface be oc format pattern reason di d = (r, di', d')"
  shows "display_ok base c di' d'"
proof (cases "pattern = POff")
  case False
  then show ?thesis using op ok by (simp add: lifecycle_surface_def)
next
  case on: True
  show ?thesis
  proof (cases "waiting_surface_for reason (di_surface di)")
    case (Some s)
    obtain rp di1 d1 where pw: "on_pool (present_waiting_surface be oc format (di_active di)) di d = (rp, di1, d1)" by (rule prod_cases3)
    show ?thesis using present_waiting_ok [OF ok pw] op on Some pw
      by (cases rp) (auto simp: lifecycle_surface_def)
  next
    case None
    obtain b cs where d: "d = (b, cs)" by fastforce
    have surf: "display_ok base c (di\<lparr> di_surface := s \<rparr>) d''" if "display_ok base c di d''" for s d''
      using that by (simp add: display_ok_def)
    have crtc: "display_ok base c di (b', cs)" if "be_set_crtc be fb m b = (u, b')" for fb m u b'
      using display_ok_dev [OF ok] crtc_gained [of fb m d u b'] that d by simp
    let ?m = "active_mapped (di_active di)"
    show ?thesis
    proof (cases "reason = ReasonResume \<and> surface_after_resume (di_surface di) \<noteq> di_surface di \<and> is_ok (front_framebuffer ?m)")
      case False
      then have "di' = di" "d' = d" using op on None
        by (auto simp: lifecycle_surface_def Let_def split: if_splits sum.splits)
      then show ?thesis using ok by simp
    next
      case True
      then obtain fb where fb: "front_framebuffer ?m = Ok fb" by (auto simp: is_ok_iff)
      obtain u b' where cr: "be_set_crtc be fb (ma_mode ?m) b = (u, b')" by (meson surj_pair)
      have "d' = (b', cs) \<and> (di' = di \<or> (\<exists>s. di' = di\<lparr> di_surface := s \<rparr>))"
        using op on None True fb cr d by (cases u) (auto simp: lifecycle_surface_def Let_def)
      then show ?thesis using crtc [OF cr] surf [OF crtc [OF cr]] by blast
    qed
  qed
qed

text \<open>Startup establishes the invariant.\<close>

lemma set_crtc_retry_gained: "set_crtc_retry be fb mode n b = (r, b') \<Longrightarrow> gained (b, cs) (b', cs) {} {} 0"
proof (induction n arbitrary: b)
  case (Suc n)
  obtain u b1 where cr: "be_set_crtc be fb mode b = (u, b1)" by (meson surj_pair)
  have g: "gained (b, cs) (b1, cs) {} {} 0" using crtc_gained [of fb mode "(b, cs)"] cr by simp
  show ?case using Suc.prems Suc.IH [of b1] cr g gained_trans [OF g, of "(b', cs)" "{}" "{}" 0]
    by (cases u) (auto split: if_splits)
qed (simp add: gained_refl)

lemma fill_startup_pattern_gained:
  assumes "fill_startup_pattern be format pattern m b = (r, b')"
  shows "gained (b, cs) (b', cs) {} {} 0"
proof -
  have one: "gained (b, cs) (b', cs) {} {} 0" if "pattern_buffer be format m buf b = (r, b')" for buf b r b'
    using that store_law by (auto simp: pattern_buffer_def gained_def split: sum.splits)
  obtain u b1 where p: "pattern_buffer be format m (fst (ma_buffers m)) b = (u, b1)" by (meson surj_pair)
  show ?thesis
    using assms p one [OF p] gained_trans [OF one [OF p], of "(b', cs)" "{}" "{}" 0] one
    by (cases u) (auto simp: fill_startup_pattern_def gained_refl split: if_splits)
qed

lemma start_scanouts_spec:
  assumes op: "start_scanouts be oc format timing modes mode b = (Ok sm, d)" and sp: "split_runtime sm = (slots, rt)"
  shows "pool_ok (bufs b, fbs b) (int (card (fbs b))) slots rt d
    \<and> (\<exists>a. slots = [Some a, None, None] \<and> sa_mode a = mode)
    \<and> rt_roles rt = \<lparr> ro_active = 0, ro_baseline = 0, ro_candidate = None \<rparr> \<and> rt_waiting rt \<noteq> None
    \<and> rt_dynamic_routes rt = Some (new_dynamic_routes (mode_key 0 (timing mode)))"
proof -
  obtain r1 d1 where nb: "new_baseline be mode b = (r1, d1)" by (meson surj_pair)
  obtain sm1 where sm1: "r1 = Ok sm1" using op nb by (cases r1) (simp_all add: start_scanouts_def)
  obtain r2 sm2 d2 where cw: "create_waiting be mode sm1 d1 = (r2, sm2, d2)" by (rule prod_cases3)
  have r2: "r2 = Ok ()" using op nb sm1 cw by (cases r2) (simp_all add: start_scanouts_def)
  obtain r3 d3 where rw: "render_waiting be (waiting_callback oc format) sm2 d2 = (r3, d3)" by (meson surj_pair)
  have find_mode: "find (\<lambda>m. m = mode) modes = Some x \<Longrightarrow> x = mode" for x by (auto simp: find_Some_iff)
  have fin: "d = d3" "find (\<lambda>m. m = mode) modes = Some mode"
      "initialize_dynamic_routes (mode_key 0 (timing mode)) sm2 = Ok sm"
    using op nb sm1 cw r2 rw find_mode
    by (auto simp: start_scanouts_def physical_mode_routing_enabled_def split: sum.splits option.splits)
  obtain slots1 rt1 where s1: "split_runtime sm1 = (slots1, rt1)" by (meson surj_pair)
  obtain slots2 rt2 where s2: "split_runtime sm2 = (slots2, rt2)" by (meson surj_pair)
  note N = new_baseline_spec [OF nb [unfolded sm1] s1]
  note W = create_waiting_manager_spec [OF N [THEN conjunct1] s1 cw [unfolded r2] s2]
  have "gained d2 d3 {} {} 0"
    using rw with_mapped_spec by (auto simp: render_waiting_def gained_refl split: option.splits)
  then have P: "pool_ok (bufs b, fbs b) (int (card (fbs b))) slots2 rt2 d3" using W pool_ok_dev by blast
  have "slots = slots2" "rt = rt2\<lparr> rt_dynamic_routes := Some (new_dynamic_routes (mode_key 0 (timing mode))) \<rparr>"
    using fin(3) s2 sp by (auto simp: initialize_dynamic_routes_def split_runtime_def ensure_def split: if_splits)
  then show ?thesis using N W fin(1) P pool_ok_roles [OF P, of rt] by auto
qed

lemma start_display_ok:
  assumes op: "start_display be oc format pattern timing modes mode shadow b = (Ok di, d)"
  shows "display_ok (bufs b, fbs b) (int (card (fbs b))) di d \<and> di_shadow di = shadow
    \<and> ro_candidate (rt_roles (di_runtime di)) = None
    \<and> di_surface di = (if pattern = POff then WaitingStartup else Content)
    \<and> rt_dynamic_routes (di_runtime di) = Some (new_dynamic_routes (mode_key 0 (timing mode)))"
proof -
  obtain r1 d1 where ss: "start_scanouts be oc format timing modes mode b = (r1, d1)" by (meson surj_pair)
  obtain sm where sm: "r1 = Ok sm" using op ss by (cases r1) (simp_all add: start_display_def)
  obtain slots rt where sp: "split_runtime sm = (slots, rt)" by (meson surj_pair)
  note S = start_scanouts_spec [OF ss [unfolded sm] sp]
  then obtain a where a: "slots = [Some a, None, None]" "sa_mode a = mode" by blast
  obtain rm d2 where m0: "map_allocation be a d1 = (rm, d2)" by (meson surj_pair)
  obtain m where m: "rm = Ok m" using op ss sm sp a m0 by (cases rm) (simp_all add: start_display_def)
  note M = map_allocation_mapped [OF m0 [unfolded m]]
  obtain fb where fb: "(if pattern = POff then waiting_framebuffer rt else front_framebuffer m) = Ok fb"
    using op ss sm sp a m0 m by (cases "if pattern = POff then waiting_framebuffer rt else front_framebuffer m")
      (simp_all add: start_display_def)
  obtain rc b2 where rc: "set_crtc_retry be fb mode CRTC_SET_RETRIES (fst d2) = (rc, b2)" by (meson surj_pair)
  obtain rf b3 where rf: "fill_startup_pattern be format pattern m b2 = (rf, b3)" by (meson surj_pair)
  have eq: "di = \<lparr> di_slots = slots, di_runtime = rt, di_active = Slot0 m, di_shadow = shadow,
        di_surface = (if pattern = POff then WaitingStartup else Content) \<rparr>"
      "d = (snd (be_dirty_framebuffer be fb 0 0 (ucast (ma_width m)) (ucast (ma_height m)) b3), snd d2)"
    using op ss sm sp a m0 m fb rc rf by (cases rc; cases rf; simp add: start_display_def)+
  have "gained d2 d {} {} 0"
    using gained_trans [OF set_crtc_retry_gained [OF rc, of "snd d2"]
        gained_trans [OF fill_startup_pattern_gained [OF rf, of "snd d2"] dirty_gained]] eq(2) by simp
  then have P: "pool_ok (bufs b, fbs b) (int (card (fbs b))) slots rt d"
    using S M pool_ok_dev by blast
  let ?dr = "new_dynamic_routes (mode_key 0 (timing mode)) :: 'm DynamicRouteState"
  have "core_ok (bufs b, fbs b) (int (card (fbs b))) 0 (slots, rt, d) ?dr"
    using P S a by (auto simp: core_ok_def pre_ok_def roles_ok_def keys_ok_def shows_key_def new_dynamic_routes_def
        less_Suc_eq numeral_3_eq_3)
  then show ?thesis
    using M S a eq by (auto simp: display_ok_def route_ok_def new_dynamic_routes_def intro!: exI [of _ ?dr])
qed

end

end
