(* ===== verification/Drm_Frame.thy ===== *)
theory Drm_Frame
  imports Drm_Routes
begin

text \<open>
  The processing of a received payload, event \<open>Buffer\<close> of \<open>main\<close> in \<^verbatim>\<open>drm/src/main.rs\<close> from the decompressed
  payload to the presented frame: the waiting scanout follows the physical mode, the payload is drawn directly
  into the front buffer or through the shadow framebuffer into the back buffer, the result is presented, and the
  first complete frame replaces the waiting screen. \<open>aio\<close> is \<^verbatim>\<open>aio_mode\<close>, in which a failure poisons the receive
  path. A failed copy or scale has written nothing (its checks come first), so it leaves the memory alone. Left
  out are the timing statistics and the row checksum trace, which only log.
\<close>

section \<open>Model\<close>

text \<open>How processing a frame ends; \<open>FrameDropped True\<close> is a \<open>continue\<close> with the receive path poisoned.\<close>

datatype frame_outcome = FrameDone | FrameDropped bool | FrameFailed err

definition fault :: "bool \<Rightarrow> err \<Rightarrow> frame_outcome" where
  "fault aio e = (if aio \<and> \<not> panics (Inl e :: unit result) then FrameDropped True else FrameFailed e)"

definition skip_frame :: "bool \<Rightarrow> err \<Rightarrow> frame_outcome" where
  "skip_frame aio e = (if panics (Inl e :: unit result) then FrameFailed e else FrameDropped aio)"

definition update_clip :: "bool \<Rightarrow> SetBuffer \<Rightarrow> (u16 \<times> u16 \<times> u16 \<times> u16) result" where
  "update_clip overflow_checks info =
     and_then (plain_add overflow_checks (sb_x info) (sb_width info)) (\<lambda>right.
     and_then (plain_add overflow_checks (sb_y info) (sb_height info)) (\<lambda>bottom.
       Ok (ucast (sb_x info), ucast (sb_y info), ucast right, ucast bottom)))"

definition front_buffer :: "('buf, 'fb, 'm) MappedActive \<Rightarrow> 'buf result" where
  "front_buffer m = pick (ma_buffers m) (ma_front_buffer_index m)"

text \<open>The front index is a reference into the mapped allocation, so setting it changes both.\<close>

definition set_active_front :: "usize \<Rightarrow> ('buf, 'fb, 'm) Display \<Rightarrow> ('buf, 'fb, 'm) Display result" where
  "set_active_front index di =
     (let i = active_index (di_active di) in
      case set_front_index index (active_mapped (di_active di)) of
        Inl e \<Rightarrow> Inl e
      | Inr m \<Rightarrow> Ok (di\<lparr> di_active := mapped_in i m,
          di_slots := (di_slots di)[i := map_option (\<lambda>a. a\<lparr> sa_front_buffer_index := index \<rparr>) (di_slots di ! i)] \<rparr>))"

definition prepare_waiting ::
  "('b, 'buf, 'fb, 'm) backend \<Rightarrow> bool \<Rightarrow> bool \<Rightarrow> TransferFormat \<Rightarrow> PatternMode \<Rightarrow> ('buf, 'fb, 'm) Display \<Rightarrow> 'b dev \<Rightarrow>
   (frame_outcome + unit) \<times> ('buf, 'fb, 'm) Display \<times> 'b dev" where
  "prepare_waiting be overflow_checks aio format pattern di d =
     (if pattern \<noteq> POff then (Inr (), di, d)
      else case ensure_waiting_mode be (ma_mode (active_mapped (di_active di))) (waiting_callback overflow_checks format)
             (di_runtime di) d of
        (Inl e, rt, d1) \<Rightarrow> (Inl (fault aio e), di\<lparr> di_runtime := rt \<rparr>, d1)
      | (Inr recreated, rt, d1) \<Rightarrow>
          if recreated \<and> is_waiting (di_surface di) then
            (case on_pool (present_waiting_surface be overflow_checks format (di_active di)) (di\<lparr> di_runtime := rt \<rparr>) d1 of
               (Inl e, di2, d2) \<Rightarrow> (Inl (fault aio e), di2, d2)
             | (Inr _, di2, d2) \<Rightarrow> (Inr (), di2, d2))
          else (Inr (), di\<lparr> di_runtime := rt \<rparr>, d1))"

definition source_size :: "ActiveScanoutState option \<Rightarrow> u32 \<times> u32 \<Rightarrow> u32 \<times> u32" where
  "source_size active_state panel = (case active_state of None \<Rightarrow> panel | Some st \<Rightarrow> (as_width st, as_height st))"

definition scaled_mode :: "u32 \<times> u32 \<Rightarrow> ('buf, 'fb, 'm) Display \<Rightarrow> bool result" where
  "scaled_mode source di =
     (if physical_mode_routing_enabled then
        (case rt_dynamic_routes (di_runtime di) of
           None \<Rightarrow> Err ''dynamic route state is not initialized''
         | Some dr \<Rightarrow> Ok (case dr_presentation_route dr of None \<Rightarrow> False | Some route \<Rightarrow> \<not> is_direct route))
      else Ok (source \<noteq> (ma_width (active_mapped (di_active di)), ma_height (active_mapped (di_active di)))))"

section \<open>Drawing\<close>

definition draw_scaled ::
  "('b, 'buf, 'fb, 'm) backend \<Rightarrow> bool \<Rightarrow> TransferFormat \<Rightarrow> SetBuffer \<Rightarrow> bytes \<Rightarrow> u32 \<times> u32 \<Rightarrow>
   ('buf, 'fb, 'm) Display \<Rightarrow> 'b dev \<Rightarrow> (frame_outcome + bool) \<times> ('buf, 'fb, 'm) Display \<times> 'b dev" where
  "draw_scaled be aio format info payload source di d =
     (let m = active_mapped (di_active di);
          identity = \<lparr> si_width = fst source, si_height = snd source, si_format = gud_pixel_format format \<rparr> in
      if physical_mode_routing_enabled \<and> \<not> shadow_is_active identity (di_shadow di)
      then (Inl (fault aio (Error ''dynamic scaled route shadow identity changed outside STATE_COMMIT'')), di, d)
      else case ensure_size identity (di_shadow di) of
        Inl e \<Rightarrow> (Inl (skip_frame aio e), di, d)
      | Inr shadow \<Rightarrow>
     (case copy_buffer_to_framebuffer info payload (sf_pixels shadow) (sf_pitch shadow) (format_bytes format) of
        Inl e \<Rightarrow> (Inl (skip_frame aio e), di\<lparr> di_shadow := shadow \<rparr>, d)
      | Inr pixels \<Rightarrow>
     (let di1 = di\<lparr> di_shadow := shadow\<lparr> sf_pixels := pixels \<rparr> \<rparr> in
      case back_buffer m of
        Inl e \<Rightarrow> (Inl (skip_frame aio e), di1, d)
      | Inr back \<Rightarrow>
     (case scale_to_fit pixels (sf_pitch shadow) (fst source) (snd source) (be_load be back (fst d))
             (unat (ma_pitch m)) (ma_width m) (ma_height m) format of
        Inl e \<Rightarrow> (Inl (skip_frame aio e), di1, d)
      | Inr (_, mem) \<Rightarrow> (Inr True, di1, be_store be back mem (fst d), snd d)))))"

definition draw_direct ::
  "('b, 'buf, 'fb, 'm) backend \<Rightarrow> bool \<Rightarrow> TransferFormat \<Rightarrow> SetBuffer \<Rightarrow> bytes \<Rightarrow>
   ('buf, 'fb, 'm) Display \<Rightarrow> 'b dev \<Rightarrow> (frame_outcome + bool) \<times> ('buf, 'fb, 'm) Display \<times> 'b dev" where
  "draw_direct be aio format info payload di d =
     (let m = active_mapped (di_active di) in
      case front_buffer m of
        Inl e \<Rightarrow> (Inl (skip_frame aio e), di, d)
      | Inr front \<Rightarrow>
     (case copy_buffer_to_framebuffer info payload (be_load be front (fst d)) (unat (ma_pitch m)) (format_bytes format) of
        Inl e \<Rightarrow> (Inl (skip_frame aio e), di, d)
      | Inr mem \<Rightarrow> (Inr True, di, be_store be front mem (fst d), snd d)))"

definition draw_pattern ::
  "('b, 'buf, 'fb, 'm) backend \<Rightarrow> bool \<Rightarrow> TransferFormat \<Rightarrow> SetBuffer \<Rightarrow>
   ('buf, 'fb, 'm) Display \<Rightarrow> 'b dev \<Rightarrow> (frame_outcome + bool) \<times> ('buf, 'fb, 'm) Display \<times> 'b dev" where
  "draw_pattern be aio format info di d =
     (let m = active_mapped (di_active di) in
      case front_buffer m of
        Inl e \<Rightarrow> (Inl (skip_frame aio e), di, d)
      | Inr front \<Rightarrow>
     (case fill_diagnostic_pattern_rect (be_load be front (fst d)) (unat (ma_pitch m)) (ma_width m) (ma_height m)
             (sb_x info) (sb_y info) (sb_width info) (sb_height info) format of
        Inl e \<Rightarrow> (Inl (skip_frame aio e), di, d)
      | Inr mem \<Rightarrow> (Inr True, di, be_store be front mem (fst d), snd d)))"

text \<open>The match on the pattern mode; the result says whether a framebuffer changed.\<close>

definition shows_payload :: "PatternMode \<Rightarrow> bool" where
  "shows_payload pattern \<longleftrightarrow> pattern = POff \<or> pattern = PStartup"

definition draw_frame ::
  "('b, 'buf, 'fb, 'm) backend \<Rightarrow> bool \<Rightarrow> TransferFormat \<Rightarrow> PatternMode \<Rightarrow> SetBuffer \<Rightarrow> bytes \<Rightarrow> u32 \<times> u32 \<Rightarrow> bool \<Rightarrow>
   ('buf, 'fb, 'm) Display \<Rightarrow> 'b dev \<Rightarrow> (frame_outcome + bool) \<times> ('buf, 'fb, 'm) Display \<times> 'b dev" where
  "draw_frame be aio format pattern info payload source scaled di d =
     (if shows_payload pattern then
        (if scaled then draw_scaled be aio format info payload source di d else draw_direct be aio format info payload di d)
      else if pattern = PHold then (Inr False, di, d)
      else draw_pattern be aio format info di d)"

section \<open>Presenting\<close>

definition flip_or_set :: "('b, 'buf, 'fb, 'm) backend \<Rightarrow> 'fb \<Rightarrow> 'm \<Rightarrow> 'b \<Rightarrow> unit result \<times> 'b" where
  "flip_or_set be fb mode b =
     (case be_page_flip be fb b of
        (Inr _, b1) \<Rightarrow> (Ok (), b1)
      | (Inl _, b1) \<Rightarrow> be_set_crtc be fb mode b1)"

definition present_back ::
  "('b, 'buf, 'fb, 'm) backend \<Rightarrow> bool \<Rightarrow> ('buf, 'fb, 'm) Display \<Rightarrow> 'b dev \<Rightarrow>
   (frame_outcome + unit) \<times> ('buf, 'fb, 'm) Display \<times> 'b dev" where
  "present_back be aio di d =
     (let m = active_mapped (di_active di) in
      case back_framebuffer m of
        Inl e \<Rightarrow> (Inl (skip_frame aio e), di, d)
      | Inr fb \<Rightarrow>
     (case flip_or_set be fb (ma_mode m)
             (snd (be_dirty_framebuffer be fb 0 0 (ucast (ma_width m)) (ucast (ma_height m)) (fst d))) of
        (Inl e, b) \<Rightarrow> (Inl (skip_frame aio e), di, b, snd d)
      | (Inr _, b) \<Rightarrow>
          (case set_active_front (back_index m) di of
             Inl e \<Rightarrow> (Inl (skip_frame aio e), di, b, snd d)
           | Inr di1 \<Rightarrow> (Inr (), di1, b, snd d))))"

definition present_frame ::
  "('b, 'buf, 'fb, 'm) backend \<Rightarrow> bool \<Rightarrow> bool \<Rightarrow> u16 \<times> u16 \<times> u16 \<times> u16 \<Rightarrow> bool \<Rightarrow>
   ('buf, 'fb, 'm) Display \<Rightarrow> 'b dev \<Rightarrow> (frame_outcome + unit) \<times> ('buf, 'fb, 'm) Display \<times> 'b dev" where
  "present_frame be aio swap clip changed di d =
     (if \<not> changed then (Inr (), di, d)
      else if swap then present_back be aio di d
      else case front_framebuffer (active_mapped (di_active di)) of
        Inl e \<Rightarrow> (Inl (skip_frame aio e), di, d)
      | Inr fb \<Rightarrow>
          (case clip of (x1, y1, x2, y2) \<Rightarrow>
             (Inr (), di, snd (be_dirty_framebuffer be fb x1 y1 x2 y2 (fst d)), snd d)))"

text \<open>A waiting screen gives way to a complete frame only.\<close>

definition reveal_content ::
  "('b, 'buf, 'fb, 'm) backend \<Rightarrow> bool \<Rightarrow> PatternMode \<Rightarrow> SetBuffer \<Rightarrow> u32 \<times> u32 \<Rightarrow>
   ('buf, 'fb, 'm) Display \<Rightarrow> 'b dev \<Rightarrow> frame_outcome \<times> ('buf, 'fb, 'm) Display \<times> 'b dev" where
  "reveal_content be aio pattern info source di d =
     (if \<not> (pattern = POff \<and> is_waiting (di_surface di)) then (FrameDone, di, d)
      else if \<not> is_full_frame_update info (fst source) (snd source) then (FrameDone, di, d)
      else let m = active_mapped (di_active di) in
        case front_framebuffer m of
          Inl e \<Rightarrow> (FrameFailed e, di, d)
        | Inr fb \<Rightarrow>
            (case flip_or_set be fb (ma_mode m) (fst d) of
               (Inl e, b) \<Rightarrow> (fault aio e, di, b, snd d)
             | (Inr _, b) \<Rightarrow> (FrameDone, di\<lparr> di_surface := Content \<rparr>, b, snd d)))"

definition show_frame ::
  "('b, 'buf, 'fb, 'm) backend \<Rightarrow> bool \<Rightarrow> TransferFormat \<Rightarrow> PatternMode \<Rightarrow> SetBuffer \<Rightarrow> bytes \<Rightarrow> u32 \<times> u32 \<Rightarrow>
   u16 \<times> u16 \<times> u16 \<times> u16 \<Rightarrow> ('buf, 'fb, 'm) Display \<Rightarrow> 'b dev \<Rightarrow> frame_outcome \<times> ('buf, 'fb, 'm) Display \<times> 'b dev" where
  "show_frame be aio format pattern info payload source clip di d =
     (case scaled_mode source di of
        Inl e \<Rightarrow> (fault aio e, di, d)
      | Inr scaled \<Rightarrow>
     (case draw_frame be aio format pattern info payload source scaled di d of
        (Inl out, di1, d1) \<Rightarrow> (out, di1, d1)
      | (Inr changed, di1, d1) \<Rightarrow>
     (case present_frame be aio (scaled \<and> shows_payload pattern) clip changed di1 d1 of
        (Inl out, di2, d2) \<Rightarrow> (out, di2, d2)
      | (Inr _, di2, d2) \<Rightarrow> reveal_content be aio pattern info source di2 d2)))"

definition process_frame ::
  "('b, 'buf, 'fb, 'm) backend \<Rightarrow> bool \<Rightarrow> bool \<Rightarrow> TransferFormat \<Rightarrow> PatternMode \<Rightarrow> u32 \<times> u32 \<Rightarrow>
   ActiveScanoutState option \<Rightarrow> SetBuffer \<Rightarrow> bytes \<Rightarrow> ('buf, 'fb, 'm) Display \<Rightarrow> 'b dev \<Rightarrow>
   frame_outcome \<times> ('buf, 'fb, 'm) Display \<times> 'b dev" where
  "process_frame be overflow_checks aio format pattern panel active_state info payload di d =
     (case update_clip overflow_checks info of
        Inl e \<Rightarrow> (FrameFailed e, di, d)
      | Inr clip \<Rightarrow>
     (case prepare_waiting be overflow_checks aio format pattern di d of
        (Inl out, di1, d1) \<Rightarrow> (out, di1, d1)
      | (Inr _, di1, d1) \<Rightarrow>
          show_frame be aio format pattern info payload (source_size active_state panel) clip di1 d1))"

section \<open>The invariant of the display\<close>

lemma owned_front [simp]:
  "owned_bufs (a\<lparr> sa_front_buffer_index := j \<rparr>) = owned_bufs a"
  "owned_fbs (a\<lparr> sa_front_buffer_index := j \<rparr>) = owned_fbs a"
  by (simp_all add: owned_bufs_def owned_fbs_def)

lemma allocation_ok_front [simp]: "allocation_ok (a\<lparr> sa_front_buffer_index := j \<rparr>) = allocation_ok a"
  by (simp add: allocation_ok_def)

context routed_display
begin

lemma pool_ok_front:
  assumes ok: "pool_ok base c slots rt d" and i: "i < 3" "slots ! i = Some a" and j: "j < 2"
  shows "pool_ok base c (slots[i := Some (a\<lparr> sa_front_buffer_index := j \<rparr>)]) rt d"
proof -
  note D = pool_okD [OF ok]
  let ?a = "a\<lparr> sa_front_buffer_index := j \<rparr>"
  have "ready a" using D(2) i by blast
  then have r: "ready ?a" using j by (simp add: ready_def)
  have own: "owners (slots[i := Some ?a]) w = owners slots w" for w
    using owners_slot [of i slots "Some ?a" w] D(1) i by (simp add: owners_at fun_upd_idem)
  have "live_bytes (slots[i := Some ?a]) w = live_bytes slots w" for w
    using live_bytes_slot(1) [of i slots "Some ?a" w] D(1) i by simp
  moreover have "ready b" if "Some b \<in> set (slots[i := Some ?a])" for b
  proof -
    from that obtain k where "k < 3" "slots[i := Some ?a] ! k = Some b" using D(1) by (auto simp: in_set_conv_nth)
    then show ?thesis using r D(1,2) by (cases "k = i") auto
  qed
  ultimately show ?thesis using D ok own unfolding pool_ok_def by simp
qed

lemma set_active_front_ok:
  assumes ok: "display_ok base c di d" and op: "set_active_front j di = Ok di'"
  shows "display_ok base c di' d \<and> di_shadow di' = di_shadow di \<and> di_surface di' = di_surface di
    \<and> di_runtime di' = di_runtime di
    \<and> active_mapped (di_active di') = (active_mapped (di_active di))\<lparr> ma_front_buffer_index := j \<rparr>"
proof -
  obtain dr a where D: "core_ok base c (active_index (di_active di)) (di_slots di, di_runtime di, d) dr"
    "\<forall>p. dr_pending_plan dr = Some p \<longrightarrow> plan_ok (di_slots di) (rt_roles (di_runtime di)) dr p"
    "route_ok dr (di_shadow di)" "di_slots di ! active_index (di_active di) = Some a"
    "mapped_ok a (active_mapped (di_active di))" using ok by (rule display_okD)
  let ?i = "active_index (di_active di)" and ?a = "a\<lparr> sa_front_buffer_index := j \<rparr>"
  let ?m = "(active_mapped (di_active di))\<lparr> ma_front_buffer_index := j \<rparr>"
  have eq: "di' = di\<lparr> di_active := mapped_in ?i ?m, di_slots := (di_slots di)[?i := Some ?a] \<rparr>" "j < 2"
    using op D(4) by (auto simp: set_active_front_def set_front_index_def Let_def split: if_splits)
  have P: "pool_ok base c (di_slots di) (di_runtime di) d" "roles_ok (di_slots di) (rt_roles (di_runtime di)) ?i"
    using D(1) by (simp_all add: core_ok_def pre_ok_def)
  have len: "length (di_slots di) = 3" by (rule pool_okD(1) [OF P(1)])
  have key: "shows_key k ((di_slots di)[?i := Some ?a] ! n) = shows_key k (di_slots di ! n)" for k n
    using D(4) len by (cases "n = ?i") (simp_all add: shows_key_def)
  have none: "((di_slots di)[?i := Some ?a] ! n = None) = (di_slots di ! n = None)" for n
    using D(4) len by (cases "n = ?i") simp_all
  have "core_ok base c ?i ((di_slots di)[?i := Some ?a], di_runtime di, d) dr"
    using D(1) pool_ok_front [OF P(1) _ D(4) eq(2)]
    by (auto simp: core_ok_def pre_ok_def keys_ok_def key roles_ok_def none simp del: not_None_eq)
  moreover have "\<forall>p. dr_pending_plan dr = Some p \<longrightarrow> plan_ok ((di_slots di)[?i := Some ?a]) (rt_roles (di_runtime di)) dr p"
    using D(2) by (simp add: plan_ok_def key cong: PendingPlanKind.case_cong)
  moreover have "mapped_ok ?a ?m" using D(5) by (simp add: mapped_ok_def)
  ultimately show ?thesis
    unfolding display_ok_def eq(1) using D(3) len by (auto intro!: exI [of _ dr])
qed

lemma ensure_waiting_display:
  assumes ok: "display_ok base c di d" and op: "ensure_waiting_mode be mode render (di_runtime di) d = (r, rt, d')"
  shows "display_ok base c (di\<lparr> di_runtime := rt \<rparr>) d'"
proof -
  obtain dr a where D: "core_ok base c (active_index (di_active di)) (di_slots di, di_runtime di, d) dr"
    "\<forall>p. dr_pending_plan dr = Some p \<longrightarrow> plan_ok (di_slots di) (rt_roles (di_runtime di)) dr p"
    "route_ok dr (di_shadow di)" "di_slots di ! active_index (di_active di) = Some a"
    "mapped_ok a (active_mapped (di_active di))" using ok by (rule display_okD)
  have P: "pre_ok base c (active_index (di_active di)) (di_slots di, di_runtime di, d) dr" using D(1) by (simp add: core_ok_def)
  note E = ensure_waiting_pre [OF P op]
  then have "core_ok base c (active_index (di_active di)) (di_slots di, rt, d') dr" using D(1) by (simp add: core_ok_def)
  then show ?thesis using D E unfolding display_ok_def by auto
qed

lemma display_ok_surface: "display_ok base c di d \<Longrightarrow> display_ok base c (di\<lparr> di_surface := s \<rparr>) d"
  by (simp add: display_ok_def)

lemma display_ok_stored:
  assumes "display_ok base c di d" and "d' = d \<or> (\<exists>buf mem. d' = (be_store be buf mem (fst d), snd d))"
  shows "display_ok base c di d'"
proof -
  have "gained d (be_store be buf mem (fst d), snd d) {} {} 0" for buf mem using store_law by (simp add: gained_def)
  then show ?thesis using assms display_ok_dev [OF assms(1)] by blast
qed

text \<open>Drawing through the shadow keeps the identity that the committed route relies on.\<close>

lemma ensure_size_active:
  assumes "ensure_size identity s = Ok s'"
  shows "sf_identity s' = Some identity \<and> sf_content_valid s'
    \<and> (shadow_is_active identity s \<longrightarrow> sf_pixels s' = sf_pixels s \<or> sf_preallocated_capacity s = None)"
  using assms
  by (auto simp: ensure_size_def activate_scaled_def and_then_def shadow_is_active_def Let_def ensure_def
      split: sum.splits if_splits option.splits)

lemma route_ok_shadow:
  assumes "route_ok dr s" and "\<And>i. shadow_is_active i s \<Longrightarrow> shadow_is_active i s'"
  shows "route_ok dr s'"
  using assms by (auto simp: route_ok_def split: option.splits PresentationRoute.splits)

lemma display_ok_shadow:
  assumes ok: "display_ok base c di d" and "\<And>i. shadow_is_active i (di_shadow di) \<Longrightarrow> shadow_is_active i s"
  shows "display_ok base c (di\<lparr> di_shadow := s \<rparr>) d"
proof -
  obtain dr a where D: "core_ok base c (active_index (di_active di)) (di_slots di, di_runtime di, d) dr"
    "\<forall>p. dr_pending_plan dr = Some p \<longrightarrow> plan_ok (di_slots di) (rt_roles (di_runtime di)) dr p"
    "route_ok dr (di_shadow di)" "di_slots di ! active_index (di_active di) = Some a"
    "mapped_ok a (active_mapped (di_active di))" using ok by (rule display_okD)
  then show ?thesis using route_ok_shadow [OF D(3) assms(2)] unfolding display_ok_def by auto
qed

lemma draw_scaled_ok:
  assumes ok: "display_ok base c di d" and op: "draw_scaled be aio format info payload source di d = (r, di', d')"
  shows "display_ok base c di' d' \<and> di_surface di' = di_surface di \<and> di_active di' = di_active di
    \<and> di_slots di' = di_slots di \<and> di_runtime di' = di_runtime di"
proof -
  let ?id = "\<lparr> si_width = fst source, si_height = snd source, si_format = gud_pixel_format format \<rparr>"
  show ?thesis
  proof (cases "shadow_is_active ?id (di_shadow di) \<and> is_ok (ensure_size ?id (di_shadow di))")
    case False
    then have "di' = di" "d' = d" using op
      by (auto simp: draw_scaled_def physical_mode_routing_enabled_def Let_def split: if_splits sum.splits)
    then show ?thesis using ok by simp
  next
    case True
    then obtain s where s: "ensure_size ?id (di_shadow di) = Ok s" by (auto simp: is_ok_iff)
    have keep: "shadow_is_active i (s\<lparr> sf_pixels := px \<rparr>)" if "shadow_is_active i (di_shadow di)" for i px
      using that True ensure_size_active [OF s] by (simp add: shadow_is_active_def)
    have "shadow_is_active i s" if "shadow_is_active i (di_shadow di)" for i
      using keep [OF that, of "sf_pixels s"] by simp
    note K = display_ok_shadow [OF ok this] display_ok_shadow [OF ok keep]
    have E: "\<exists>x. di' = di\<lparr> di_shadow := x \<rparr> \<and> (x = s \<or> (\<exists>px. x = s\<lparr> sf_pixels := px \<rparr>))"
        "d' = d \<or> (\<exists>buf mem. d' = (be_store be buf mem (fst d), snd d))"
      using op True s by (auto simp: draw_scaled_def physical_mode_routing_enabled_def Let_def split: sum.splits prod.splits)
    then have "display_ok base c di' d" using K by auto
    from display_ok_stored [OF this E(2)] show ?thesis using E(1) by auto
  qed
qed

lemma draw_frame_ok:
  assumes ok: "display_ok base c di d" and op: "draw_frame be aio format pattern info payload source scaled di d = (r, di', d')"
  shows "display_ok base c di' d' \<and> di_surface di' = di_surface di"
proof (cases "shows_payload pattern \<and> scaled")
  case True
  then show ?thesis using draw_scaled_ok [OF ok] op by (auto simp: draw_frame_def)
next
  case False
  then have E: "di' = di" "d' = d \<or> (\<exists>buf mem. d' = (be_store be buf mem (fst d), snd d))"
    using op by (auto simp: draw_frame_def draw_direct_def draw_pattern_def Let_def split: if_splits sum.splits)
  show ?thesis using display_ok_stored [OF ok E(2)] E(1) by simp
qed

lemma flip_or_set_gained:
  assumes "flip_or_set be fb mode b = (r, b')"
  shows "gained (b, cs) (b', cs) {} {} 0"
proof -
  obtain u b1 where f: "be_page_flip be fb b = (u, b1)" by (meson surj_pair)
  have g: "gained (b, cs) (b1, cs) {} {} 0" using flip_law [OF f] by (simp add: gained_def)
  show ?thesis
  proof (cases u)
    case (Inr v)
    then show ?thesis using assms f g by (simp add: flip_or_set_def)
  next
    case (Inl e)
    then have "be_set_crtc be fb mode b1 = (r, b')" using assms f by (simp add: flip_or_set_def)
    from gained_trans [OF g crtc_gained [of fb mode "(b1, cs)", simplified, OF this]] show ?thesis by simp
  qed
qed

lemma present_frame_ok:
  assumes ok: "display_ok base c di d" and op: "present_frame be aio swap clip changed di d = (r, di', d')"
  shows "display_ok base c di' d' \<and> di_surface di' = di_surface di"
proof (cases "changed \<and> swap \<and> is_ok (back_framebuffer (active_mapped (di_active di)))")
  case False
  have dirty: "display_ok base c di (snd (be_dirty_framebuffer be fb x1 y1 x2 y2 (fst d)), snd d)" for fb x1 y1 x2 y2
    using display_ok_dev [OF ok dirty_gained [of "fst d" "snd d", simplified]] .
  show ?thesis using False op ok dirty
    by (auto simp: present_frame_def present_back_def Let_def split: if_splits sum.splits prod.splits)
next
  case True
  let ?m = "active_mapped (di_active di)"
  obtain fb where fb: "back_framebuffer ?m = Ok fb" using True by (auto simp: is_ok_iff)
  let ?b = "snd (be_dirty_framebuffer be fb 0 0 (ucast (ma_width ?m)) (ucast (ma_height ?m)) (fst d))"
  obtain u b where f: "flip_or_set be fb (ma_mode ?m) ?b = (u, b)" by (meson surj_pair)
  have "gained d (b, snd d) {} {} 0"
    using gained_trans [OF dirty_gained flip_or_set_gained [OF f, of "snd d"]] by simp
  then have ok1: "display_ok base c di (b, snd d)" by (rule display_ok_dev [OF ok])
  show ?thesis
  proof (cases "is_ok u \<and> is_ok (set_active_front (back_index ?m) di)")
    case False
    then show ?thesis using op True fb f ok1
      by (cases u) (auto simp: present_frame_def present_back_def Let_def is_ok_iff split: sum.splits)
  next
    case sw: True
    then obtain di1 where di1: "set_active_front (back_index ?m) di = Ok di1" by (auto simp: is_ok_iff)
    have "di' = di1" "d' = (b, snd d)" using op True fb f sw di1
      by (cases u; simp add: present_frame_def present_back_def Let_def)+
    then show ?thesis using set_active_front_ok [OF ok1 di1] by simp
  qed
qed

lemma reveal_content_ok:
  assumes ok: "display_ok base c di d" and op: "reveal_content be aio pattern info source di d = (out, di', d')"
  shows "display_ok base c di' d'"
proof -
  have "display_ok base c di (b, snd d)" if "flip_or_set be fb mode (fst d) = (u, b)" for fb mode u b
    using display_ok_dev [OF ok] flip_or_set_gained [OF that, of "snd d"] by simp
  then show ?thesis using op ok
    by (auto simp: reveal_content_def Let_def split: if_splits sum.splits prod.splits intro: display_ok_surface)
qed

lemma prepare_waiting_ok:
  assumes ok: "display_ok base c di d" and op: "prepare_waiting be oc aio format pattern di d = (r, di', d')"
  shows "display_ok base c di' d' \<and> di_surface di' = di_surface di"
proof (cases "pattern = POff")
  case True
  obtain q rt d1 where e: "ensure_waiting_mode be (ma_mode (active_mapped (di_active di))) (waiting_callback oc format)
      (di_runtime di) d = (q, rt, d1)" by (rule prod_cases3)
  note E = ensure_waiting_display [OF ok e]
  let ?di = "di\<lparr> di_runtime := rt \<rparr>"
  obtain p di2 d2 where w: "on_pool (present_waiting_surface be oc format (di_active ?di)) ?di d1 = (p, di2, d2)"
    by (rule prod_cases3)
  note W = present_waiting_ok [OF E w]
  show ?thesis using op True e E w W
    by (auto simp: prepare_waiting_def Let_def split: if_splits sum.splits)
qed (use op ok in \<open>simp add: prepare_waiting_def\<close>)

lemma process_frame_ok:
  assumes ok: "display_ok base c di d"
    and op: "process_frame be oc aio format pattern panel active_state info payload di d = (out, di', d')"
  shows "display_ok base c di' d'"
proof -
  obtain q di1 d1 where w: "prepare_waiting be oc aio format pattern di d = (q, di1, d1)" by (rule prod_cases3)
  note W = prepare_waiting_ok [OF ok w]
  let ?src = "source_size active_state panel"
  show ?thesis
  proof (cases "is_ok (update_clip oc info) \<and> (\<exists>u. q = Inr u) \<and> is_ok (scaled_mode ?src di1)")
    case False
    then show ?thesis using op w W ok
      by (auto simp: process_frame_def show_frame_def is_ok_iff split: sum.splits)
  next
    case True
    then obtain clip u scaled where S: "update_clip oc info = Ok clip" "q = Inr u" "scaled_mode ?src di1 = Ok scaled"
      by (auto simp: is_ok_iff)
    obtain r2 di2 d2 where dr: "draw_frame be aio format pattern info payload ?src scaled di1 d1 = (r2, di2, d2)" by (rule prod_cases3)
    note D = draw_frame_ok [OF W [THEN conjunct1] dr]
    show ?thesis
    proof (cases r2)
      case (Inl x)
      then show ?thesis using op w S dr D by (simp add: process_frame_def show_frame_def)
    next
      case (Inr changed)
      obtain r3 di3 d3 where pr: "present_frame be aio (scaled \<and> shows_payload pattern) clip changed di2 d2 = (r3, di3, d3)"
        by (rule prod_cases3)
      note P = present_frame_ok [OF D [THEN conjunct1] pr]
      show ?thesis using op w S dr Inr pr P reveal_content_ok [OF P [THEN conjunct1]]
        by (cases r3) (auto simp: process_frame_def show_frame_def)
    qed
  qed
qed

end

section \<open>What a frame leaves in memory\<close>

lemma copy_buffer_length:
  assumes "copy_buffer_to_framebuffer info buf fb pitch n = Ok fb'"
  shows "length fb' = length fb"
proof -
  obtain i j ls ll st where run: "for_range i j (copy_row_body info buf pitch ls ll) (fb, 0) = Inr (fb', st)"
    using assms by (auto simp: copy_buffer_to_framebuffer_def split: if_splits option.splits sum.splits)
  have "length (fst (fb', st)) = length fb"
    by (rule for_range_keeps [OF run, of "\<lambda>s. length (fst s) = length fb"])
      (auto simp: copy_row_body_def split: option.splits sum.splits prod.splits)
  then show ?thesis by simp
qed

lemma write_pixel_length: "write_pixel fb pitch x y format color = Ok fb' \<Longrightarrow> length fb' = length fb"
  by (auto simp: write_pixel_def split: sum.splits)

lemma scale_to_fit_length:
  assumes "scale_to_fit src sp sw sh dst dp dw dh format = Ok (l, dst')"
  shows "length dst' = length dst"
proof -
  obtain mid where mid: "fill_solid dst dp (unat dw) (unat dh) format COLOR_BLACK = Ok mid"
      and run: "for_range 0 (sl_height l) (\<lambda>y. for_range 0 (sl_width l)
        (scale_pixel src sp sw sh dp l (format_bytes format) y)) mid = Inr dst'"
    using assms by (auto simp: scale_to_fit_def split: sum.splits)
  have row: "length t' = length t" if "for_range i n (\<lambda>x fb. write_pixel fb dp x y format c) t = Inr t'" for i n y c t t'
    by (rule for_range_keeps [OF that]) (auto dest: write_pixel_length)
  have clear: "for_range 0 (unat dh) (\<lambda>y. for_range 0 (unat dw) (\<lambda>x fb. write_pixel fb dp x y format COLOR_BLACK)) dst = Inr mid"
    using mid by (auto simp: fill_solid_def split: sum.splits)
  have "length mid = length dst"
    by (rule for_range_keeps [OF clear]) (auto dest: row)
  moreover have line: "length t' = length t" if "for_range i n (scale_pixel src sp sw sh dp l k y) t = Inr t'" for i n k y t t'
    by (rule for_range_keeps [OF that]) (auto simp: scale_pixel_def Let_def split: sum.splits)
  have "length dst' = length mid"
    by (rule for_range_keeps [OF run]) (auto dest: line)
  ultimately show ?thesis by simp
qed

lemma pick_cases:
  assumes "i < 2"
  shows "\<exists>a b. pick p i = Ok a \<and> pick p (i XOR 1) = Ok b \<and> (fst p \<noteq> snd p \<longrightarrow> a \<noteq> b) \<and> {a, b} = {fst p, snd p}"
proof -
  have "i = 0 \<or> i = 1" using assms by linarith
  then show ?thesis by (auto simp: pick_def)
qed

context routed_display
begin

lemma active_buffers:
  assumes "display_ok base c di d"
  shows "\<exists>front back. front_buffer (active_mapped (di_active di)) = Ok front \<and> back_buffer (active_mapped (di_active di)) = Ok back
    \<and> front \<noteq> back \<and> ma_front_buffer_index (active_mapped (di_active di)) < 2
    \<and> is_ok (front_framebuffer (active_mapped (di_active di))) \<and> is_ok (back_framebuffer (active_mapped (di_active di)))"
proof -
  let ?m = "active_mapped (di_active di)"
  obtain dr a where D: "core_ok base c (active_index (di_active di)) (di_slots di, di_runtime di, d) dr"
    "di_slots di ! active_index (di_active di) = Some a" "mapped_ok a ?m" using assms by (rule display_okD)
  have "pool_ok base c (di_slots di) (di_runtime di) d" using D(1) by (simp add: core_ok_def pre_ok_def)
  then have "ready a" using pool_okD(2) [OF _ _ D(2)] by simp
  then have "fst (ma_buffers ?m) \<noteq> snd (ma_buffers ?m)" "ma_front_buffer_index ?m < 2"
    using D(3) by (auto simp: ready_def mapped_ok_def allocation_ok_def)
  then show ?thesis
    using pick_cases [of "ma_front_buffer_index ?m" "ma_buffers ?m"] pick_cases [of "ma_front_buffer_index ?m" "ma_framebuffers ?m"]
    by (auto simp: front_buffer_def back_buffer_def front_framebuffer_def back_framebuffer_def back_index_def)
qed

text \<open>Presenting writes nothing.\<close>

lemma flip_or_set_keeps:
  assumes "flip_or_set be fb mode b = (r, b')"
  shows "be_load be buf b' = be_load be buf b"
  using assms flip_keeps crtc_keeps by (auto simp: flip_or_set_def split: prod.splits sum.splits)

lemma dirty_keeps_load: "be_load be buf (snd (be_dirty_framebuffer be fb x1 y1 x2 y2 b)) = be_load be buf b"
  using dirty_keeps [of fb x1 y1 x2 y2 b] by (cases "be_dirty_framebuffer be fb x1 y1 x2 y2 b") simp

lemma reveal_content_spec:
  assumes "reveal_content be aio pattern info source di d = (out, di', d')"
  shows "be_load be buf (fst d') = be_load be buf (fst d) \<and> snd d' = snd d
    \<and> (di' = di \<or> out = FrameDone \<and> is_full_frame_update info (fst source) (snd source) \<and> di' = di\<lparr> di_surface := Content \<rparr>)"
  using assms flip_or_set_keeps
  by (auto simp: reveal_content_def Let_def split: if_splits sum.splits prod.splits)

text \<open>A frame on a direct route.\<close>

lemma show_frame_direct:
  assumes ok: "display_ok base c di d" and pat: "shows_payload pattern" and direct: "scaled_mode source di = Ok False"
    and op: "show_frame be aio format pattern info payload source clip di d = (out, di', d')"
    and front: "front_buffer (active_mapped (di_active di)) = Ok front"
  shows "case copy_buffer_to_framebuffer info payload (be_load be front (fst d))
           (unat (ma_pitch (active_mapped (di_active di)))) (format_bytes format) of
      Inl e \<Rightarrow> out = skip_frame aio e \<and> di' = di \<and> d' = d
    | Inr mem \<Rightarrow> be_load be front (fst d') = mem \<and> (\<forall>buf. buf \<noteq> front \<longrightarrow> be_load be buf (fst d') = be_load be buf (fst d))
        \<and> (di' = di \<or> out = FrameDone \<and> is_full_frame_update info (fst source) (snd source) \<and> di' = di\<lparr> di_surface := Content \<rparr>)"
proof (cases "copy_buffer_to_framebuffer info payload (be_load be front (fst d))
           (unat (ma_pitch (active_mapped (di_active di)))) (format_bytes format)")
  case (Inl e)
  then show ?thesis using op pat direct front by (simp add: show_frame_def draw_frame_def draw_direct_def)
next
  case (Inr mem)
  let ?m = "active_mapped (di_active di)"
  obtain fb where fb: "front_framebuffer ?m = Ok fb" using active_buffers [OF ok] by (auto simp: is_ok_iff)
  obtain x1 y1 x2 y2 where clip: "clip = (x1, y1, x2, y2)" by (rule prod_cases4)
  let ?b = "be_store be front mem (fst d)"
  let ?d = "(snd (be_dirty_framebuffer be fb x1 y1 x2 y2 ?b), snd d)"
  have rev: "reveal_content be aio pattern info source di ?d = (out, di', d')"
    using op pat direct front Inr fb clip
    by (simp add: show_frame_def draw_frame_def draw_direct_def present_frame_def)
  have "length mem = length (be_load be front (fst d))" by (rule copy_buffer_length [OF Inr])
  note mem = load_store [OF this] load_store_other [of _ front mem "fst d"]
  show ?thesis using reveal_content_spec [OF rev] mem Inr by (simp add: dirty_keeps_load)
qed

text \<open>A frame on a scaled route.\<close>

lemma show_frame_scaled:
  assumes ok: "display_ok base c di d" and pat: "shows_payload pattern" and scaled: "scaled_mode source di = Ok True"
    and op: "show_frame be aio format pattern info payload source clip di d = (out, di', d')"
    and front: "front_buffer (active_mapped (di_active di)) = Ok front" and bk: "back_buffer (active_mapped (di_active di)) = Ok back"
  shows "(\<forall>buf. buf \<noteq> back \<longrightarrow> be_load be buf (fst d') = be_load be buf (fst d))
    \<and> (out = FrameDone \<longrightarrow> (\<exists>s px l mem.
          ensure_size \<lparr> si_width = fst source, si_height = snd source, si_format = gud_pixel_format format \<rparr> (di_shadow di) = Ok s
        \<and> copy_buffer_to_framebuffer info payload (sf_pixels s) (sf_pitch s) (format_bytes format) = Ok px
        \<and> scale_to_fit px (sf_pitch s) (fst source) (snd source) (be_load be back (fst d))
            (unat (ma_pitch (active_mapped (di_active di)))) (ma_width (active_mapped (di_active di)))
            (ma_height (active_mapped (di_active di))) format = Ok (l, mem)
        \<and> di_shadow di' = s\<lparr> sf_pixels := px \<rparr> \<and> be_load be back (fst d') = mem
        \<and> front_buffer (active_mapped (di_active di')) = Ok back))
    \<and> (di_surface di' = di_surface di \<or> out = FrameDone \<and> is_full_frame_update info (fst source) (snd source) \<and> di_surface di' = Content)"
proof -
  let ?m = "active_mapped (di_active di)"
  let ?id = "\<lparr> si_width = fst source, si_height = snd source, si_format = gud_pixel_format format \<rparr>"
  obtain r1 di1 d1 where dr: "draw_scaled be aio format info payload source di d = (r1, di1, d1)" by (rule prod_cases3)
  note K = draw_scaled_ok [OF ok dr]
  show ?thesis
  proof (cases r1)
    case (Inl x)
    have "x \<noteq> FrameDone" "d1 = d"
      using dr Inl by (auto simp: draw_scaled_def Let_def fault_def skip_frame_def split: if_splits sum.splits prod.splits)
    then show ?thesis using op pat scaled dr Inl K by (simp add: show_frame_def draw_frame_def)
  next
    case (Inr changed)
    obtain s px l mem where S: "ensure_size ?id (di_shadow di) = Ok s"
        "copy_buffer_to_framebuffer info payload (sf_pixels s) (sf_pitch s) (format_bytes format) = Ok px"
        "scale_to_fit px (sf_pitch s) (fst source) (snd source) (be_load be back (fst d)) (unat (ma_pitch ?m)) (ma_width ?m)
           (ma_height ?m) format = Ok (l, mem)" "changed"
        "di1 = di\<lparr> di_shadow := s\<lparr> sf_pixels := px \<rparr> \<rparr>" "d1 = (be_store be back mem (fst d), snd d)"
      using dr Inr bk by (auto simp: draw_scaled_def Let_def split: if_splits sum.splits prod.splits)
    have len: "length mem = length (be_load be back (fst d))" by (rule scale_to_fit_length [OF S(3)])
    have mem: "be_load be back (fst d1) = mem" "\<And>buf. buf \<noteq> back \<Longrightarrow> be_load be buf (fst d1) = be_load be buf (fst d)"
      using load_store [OF len] load_store_other S(6) by simp_all
    obtain r2 di2 d2 where pr: "present_back be aio di1 d1 = (r2, di2, d2)" by (rule prod_cases3)
    have keep: "be_load be buf (fst d2) = be_load be buf (fst d1)" for buf
      using pr flip_or_set_keeps dirty_keeps_load
      by (fastforce simp: present_back_def Let_def split: sum.splits prod.splits)
    have same: "di_shadow di2 = di_shadow di1 \<and> di_surface di2 = di_surface di1"
      using pr by (auto simp: present_back_def set_active_front_def Let_def split: sum.splits prod.splits)
    have step: "(out, di', d') = (case r2 of Inl out \<Rightarrow> (out, di2, d2)
        | Inr _ \<Rightarrow> reveal_content be aio pattern info source di2 d2)"
      using op pat scaled dr Inr pr S(4) by (cases r2) (simp_all add: show_frame_def draw_frame_def present_frame_def)
    show ?thesis
    proof (cases r2)
      case (Inl x)
      have "x \<noteq> FrameDone"
        using pr Inl by (auto simp: present_back_def Let_def skip_frame_def split: if_splits sum.splits prod.splits)
      then show ?thesis using step Inl keep mem same S(5) by simp
    next
      case (Inr u)
      then have rev: "reveal_content be aio pattern info source di2 d2 = (out, di', d')" using step by simp
      have R: "be_load be buf (fst d') = be_load be buf (fst d2)"
          "di' = di2 \<or> out = FrameDone \<and> is_full_frame_update info (fst source) (snd source) \<and> di' = di2\<lparr> di_surface := Content \<rparr>" for buf
        using reveal_content_spec [OF rev, of buf] by simp_all
      have eq: "active_mapped (di_active di1) = ?m" using S(5) by simp
      have "set_active_front (back_index ?m) di1 = Ok di2"
        using pr Inr eq by (auto simp: present_back_def Let_def split: sum.splits prod.splits)
      from set_active_front_ok [OF K [THEN conjunct1] this]
      have "front_buffer (active_mapped (di_active di2)) = Ok back"
        using bk eq by (simp add: front_buffer_def back_buffer_def back_index_def)
      then have "front_buffer (active_mapped (di_active di')) = Ok back"
          "di_shadow di' = di_shadow di1" using R(2) same by auto
      then show ?thesis using S R keep mem same by auto
    qed
  qed
qed

end

text \<open>
  On a scaled route the hidden buffer is flipped to the screen before the check for a complete frame: a
  partial update ends the waiting screen on the panel while the surface is still recorded as waiting.
\<close>

lemma scaled_partial_update_flips:
  assumes "is_waiting (di_surface di)" and "\<not> is_full_frame_update info (fst source) (snd source)"
    and "scaled_mode source di = Ok True" and m: "m = active_mapped (di_active di)"
    and dr: "draw_scaled be aio format info payload source di d = (Inr True, di1, d1)"
    and fb: "back_framebuffer m = Ok fb" and front: "ma_front_buffer_index m < 2"
    and flip: "be_page_flip be fb (snd (be_dirty_framebuffer be fb 0 0 (ucast (ma_width m)) (ucast (ma_height m)) (fst d1))) = (Ok (), b)"
  shows "\<exists>di2. show_frame be aio format POff info payload source clip di d = (FrameDone, di2, b, snd d1)
    \<and> is_waiting (di_surface di2) \<and> front_framebuffer (active_mapped (di_active di2)) = Ok fb"
proof -
  have d1: "di_active di1 = di_active di" "di_surface di1 = di_surface di"
    using dr by (auto simp: draw_scaled_def Let_def split: if_splits sum.splits prod.splits)
  have "back_index m < 2" using front by (auto simp: back_index_def less_Suc_eq numeral_2_eq_2)
  then obtain di2 where di2: "set_active_front (back_index m) di1 = Ok di2"
      "di2 = di1\<lparr> di_active := mapped_in (active_index (di_active di)) (m\<lparr> ma_front_buffer_index := back_index m \<rparr>),
         di_slots := (di_slots di1)[active_index (di_active di) :=
           map_option (\<lambda>a. a\<lparr> sa_front_buffer_index := back_index m \<rparr>) (di_slots di1 ! active_index (di_active di))] \<rparr>"
    by (simp add: set_active_front_def set_front_index_def d1 m Let_def)
  have "present_back be aio di1 d1 = (Inr (), di2, b, snd d1)"
    using fb flip di2(1) by (simp add: present_back_def d1 m flip_or_set_def)
  moreover have "is_waiting (di_surface di2)" using di2(2) d1 assms(1) by simp
  moreover from this have "reveal_content be aio POff info source di2 (b, snd d1) = (FrameDone, di2, b, snd d1)"
    using assms(2) by (simp add: reveal_content_def)
  moreover have "front_framebuffer (active_mapped (di_active di2)) = Ok fb"
    using di2(2) fb by (simp add: front_framebuffer_def back_framebuffer_def)
  ultimately show ?thesis
    using assms(3) dr by (simp add: show_frame_def draw_frame_def shows_payload_def present_frame_def)
qed

end
