(* ===== verification/Drm_Display.thy ===== *)
theory Drm_Display
  imports Drm_Frame
begin

text \<open>
  The composition of catalog, scanouts and routes on the DRM backend: the outcome of a checked and committed
  state, the whole display started on the kernel's card, a simulated kernel that carries it, and the
  properties of every run of display events.
\<close>

section \<open>Runs of the display\<close>

datatype display_event =
    Checked DisplayStateSnapshot nat
  | Committed DisplayStateSnapshot
  | Invalidated
  | Lifecycle ProtocolInvalidationReason
  | Frame bool "u32 \<times> u32" "ActiveScanoutState option" SetBuffer bytes

fun display_step ::
  "('b, 'buf, 'fb, 'm) backend \<Rightarrow> bool \<Rightarrow> TransferFormat \<Rightarrow> PatternMode \<Rightarrow> 'm RouteCatalog \<Rightarrow> display_event \<Rightarrow>
   ('buf, 'fb, 'm) Display \<Rightarrow> 'b dev \<Rightarrow> unit result \<times> ('buf, 'fb, 'm) Display \<times> 'b dev" where
  "display_step be oc format pattern catalog (Checked sn ms) di d = (Ok (), state_checked be catalog sn ms di d)"
| "display_step be oc format pattern catalog (Committed sn) di d = state_committed be oc format pattern sn di d"
| "display_step be oc format pattern catalog Invalidated di d = (Ok (), protocol_invalidated be di d)"
| "display_step be oc format pattern catalog (Lifecycle reason) di d = lifecycle_surface be oc format pattern reason di d"
| "display_step be oc format pattern catalog (Frame aio panel active_state info payload) di d =
     (case process_frame be oc aio format pattern panel active_state info payload di d of
        (FrameFailed e, di1, d1) \<Rightarrow> (Inl e, di1, d1)
      | (_, di1, d1) \<Rightarrow> (Ok (), di1, d1))"

text \<open>An error or a panic ends the event loop.\<close>

fun display_run ::
  "('b, 'buf, 'fb, 'm) backend \<Rightarrow> bool \<Rightarrow> TransferFormat \<Rightarrow> PatternMode \<Rightarrow> 'm RouteCatalog \<Rightarrow> display_event list \<Rightarrow>
   ('buf, 'fb, 'm) Display \<Rightarrow> 'b dev \<Rightarrow> unit result \<times> ('buf, 'fb, 'm) Display \<times> 'b dev" where
  "display_run be oc format pattern catalog [] di d = (Ok (), di, d)"
| "display_run be oc format pattern catalog (ev # evs) di d =
     (case display_step be oc format pattern catalog ev di d of
        (Inl e, di1, d1) \<Rightarrow> (Inl e, di1, d1)
      | (Inr _, di1, d1) \<Rightarrow> display_run be oc format pattern catalog evs di1 d1)"

context routed_display
begin

lemma display_step_ok:
  assumes "display_ok base c di d" and "display_step be oc format pattern catalog ev di d = (Ok (), di', d')"
  shows "display_ok base c di' d'"
proof (cases ev)
  case (Checked sn ms)
  then have "state_checked be catalog sn ms di d = (di', d')" using assms(2) by simp
  from state_checked_ok [OF assms(1) this] show ?thesis by simp
next
  case (Committed sn)
  then show ?thesis using state_committed_ok [OF assms(1)] assms(2) by simp
next
  case Invalidated
  then have "drop_pending be di d = (di', d')"
    using assms(2) by (simp add: protocol_invalidated_def physical_mode_routing_enabled_def)
  from drop_pending_ok [OF assms(1) this] show ?thesis by simp
next
  case (Lifecycle reason)
  then have "lifecycle_surface be oc format pattern reason di d = (Ok (), di', d')" using assms(2) by simp
  from lifecycle_surface_ok [OF assms(1) this] show ?thesis .
next
  case (Frame aio panel active_state info payload)
  obtain out di1 d1 where f: "process_frame be oc aio format pattern panel active_state info payload di d = (out, di1, d1)"
    by (rule prod_cases3)
  then show ?thesis using assms(2) Frame process_frame_ok [OF assms(1) f] by (cases out) simp_all
qed

lemma display_run_ok:
  assumes "display_ok base c di d" and "display_run be oc format pattern catalog evs di d = (Ok (), di', d')"
  shows "display_ok base c di' d'"
  using assms
proof (induction evs arbitrary: di d)
  case (Cons ev evs)
  obtain r di1 d1 where st: "display_step be oc format pattern catalog ev di d = (r, di1, d1)" by (rule prod_cases3)
  then have "r = Ok ()" using Cons.prems(2) by (cases r) simp_all
  with st have "display_ok base c di1 d1" using display_step_ok [OF Cons.prems(1)] by blast
  then show ?case using Cons.IH Cons.prems(2) st \<open>r = Ok ()\<close> by simp
qed simp

end

section \<open>The outcome of a commit\<close>

lemma recorded_route:
  assumes "on_pool (record_committed_route sn route nk) di d = (Ok u, di', d')"
  shows "\<exists>dr. rt_dynamic_routes (di_runtime di') = Some dr \<and> dr_committed_snapshot dr = Some sn \<and> dr_presentation_route dr = Some route"
  using assms by (auto simp: on_pool_def record_committed_route_def update_routes_def counting_def Let_def split: sum.splits prod.splits option.splits if_splits)

lemma exact_candidate_route:
  assumes "commit_exact_candidate be plan slot sn di d = (Ok route, di', d')" and "pp_requested_physical_key plan = Some k"
  shows "(route = DirectExact (key_from_snapshot sn) k \<and>
      (\<exists>dr. rt_dynamic_routes (di_runtime di') = Some dr \<and> dr_committed_snapshot dr = Some sn \<and> dr_presentation_route dr = Some route))
    \<or> route = RouteScaledCurrentAfterFailure (key_from_snapshot sn) SwitchFailed"
  using assms recorded_route [of sn "DirectExact (key_from_snapshot sn) k" "Some k"]
  by (auto simp: commit_exact_candidate_def Let_def split: sum.splits prod.splits option.splits if_splits bool.splits)

lemma scaled_baseline_route:
  assumes "commit_scaled_baseline be required sn di d = (Ok route, di', d')"
  shows "route = RouteScaledBaseline (key_from_snapshot sn)
    \<or> route = RouteScaledCurrentAfterFailure (key_from_snapshot sn) BaselineSwitchFailed"
  using assms
  by (auto simp: commit_scaled_baseline_def Let_def split: sum.splits prod.splits option.splits if_splits)

lemma ensure_waiting_routes:
  assumes "ensure_waiting_mode be mode f rt d = (r, rt', d')"
  shows "rt_dynamic_routes rt' = rt_dynamic_routes rt"
  using assms
  by (auto simp: ensure_waiting_mode_def Let_def split: sum.splits prod.splits option.splits if_splits)

lemma present_waiting_routes:
  assumes "on_pool (present_waiting_surface be oc format act) di d = (r, di', d')"
  shows "rt_dynamic_routes (di_runtime di') = rt_dynamic_routes (di_runtime di)"
  using assms
  by (auto simp: on_pool_def present_waiting_surface_def Let_def dest!: ensure_waiting_routes split: sum.splits prod.splits option.splits if_splits)


text \<open>Every commit of a taken plan records a route of the plan's kind.\<close>

definition route_of_kind :: "PendingPlanKind \<Rightarrow> ModeKey \<Rightarrow> PresentationRoute \<Rightarrow> bool" where
  "route_of_kind kind k route \<longleftrightarrow>
     (case kind of
        ExactActiveNoOp \<Rightarrow> is_direct route
      | ExactCandidate _ \<Rightarrow> is_direct route \<or> route = RouteScaledCurrentAfterFailure k SwitchFailed
      | ScaledBaseline _ \<Rightarrow> route = RouteScaledBaseline k \<or> route = RouteScaledCurrentAfterFailure k BaselineSwitchFailed
      | ScaledCurrentAfterFailure reason \<Rightarrow> route = RouteScaledCurrentAfterFailure k reason)"

definition shows_route :: "('buf, 'fb, 'm) Display \<Rightarrow> DisplayStateSnapshot \<Rightarrow> PresentationRoute \<Rightarrow> bool" where
  "shows_route di sn route \<longleftrightarrow> (\<exists>dr. rt_dynamic_routes (di_runtime di) = Some dr \<and> dr_committed_snapshot dr = Some sn
     \<and> dr_presentation_route dr = Some route)"

lemma plan_route:
  assumes "commit_plan be plan sn old di d = (Ok route, di', d')"
  shows "route_of_kind (pp_kind plan) (key_from_snapshot sn) route
    \<and> (is_exact_candidate (pp_kind plan) \<longrightarrow> is_direct route \<longrightarrow> shows_route di' sn route)"
proof (cases "pp_kind plan")
  case (ExactCandidate slot)
  then have op: "commit_exact_candidate be plan slot sn di d = (Ok route, di', d')" using assms by (simp add: commit_plan_def)
  then obtain k where "pp_requested_physical_key plan = Some k"
    by (auto simp: commit_exact_candidate_def Let_def split: option.splits)
  from exact_candidate_route [OF op this] show ?thesis using ExactCandidate by (auto simp: route_of_kind_def shows_route_def)
next
  case (ScaledBaseline required)
  then have "commit_scaled_baseline be required sn di d = (Ok route, di', d')" using assms by (simp add: commit_plan_def)
  from scaled_baseline_route [OF this] show ?thesis using ScaledBaseline by (simp add: route_of_kind_def)
qed (use assms in \<open>auto simp: commit_plan_def route_of_kind_def split: sum.splits\<close>)

lemma committed_plan_route:
  assumes op: "state_committed be oc format pattern sn di d = (Ok (), di', d')"
    and rt: "rt_dynamic_routes (di_runtime di) = Some dr" and plan: "dr_pending_plan dr = Some plan" "pp_snapshot plan = sn"
  shows "\<exists>route. shows_route di' sn route \<and> route_of_kind (pp_kind plan) (key_from_snapshot sn) route"
proof -
  let ?di = "di\<lparr> di_runtime := (di_runtime di)\<lparr> rt_dynamic_routes := Some (dr\<lparr> dr_pending_plan := None \<rparr>) \<rparr> \<rparr>"
  have take: "take_matching_pending_plan (dr_pending_plan dr) sn = Inr plan" using plan by (simp add: take_matching_pending_plan_def)
  note unf = state_committed_def [of be oc format pattern sn di d] physical_mode_routing_enabled_def rt
  obtain rp di1 d1 where cp: "commit_plan be plan sn (dr_current_physical_key dr) ?di d = (rp, di1, d1)" by (rule prod_cases3)
  obtain route where route: "rp = Ok route" using op take cp unfolding unf by (cases rp) simp_all
  note C = plan_route [OF cp [unfolded route]]
  define fin where "fin = (if \<not> is_exact_candidate (pp_kind plan) \<or> \<not> is_direct route
            then on_pool (record_committed_route sn route None) di1 d1 else (Ok (), di1, d1))"
  obtain r2 di2 d2 where fin: "fin = (r2, di2, d2)" by (rule prod_cases3)
  have r2: "r2 = Ok ()" using op take cp route fin unfolding unf fin_def by (cases r2) simp_all
  have S: "shows_route di2 sn route"
    using C fin r2 recorded_route [of sn route None di1 d1] unfolding fin_def
    by (auto simp: shows_route_def split: if_splits)
  have "(if pattern = POff \<and> is_waiting (di_surface di2)
          then on_pool (present_waiting_surface be oc format (di_active di2)) di2 d2
          else (Ok (), di2, d2)) = (Ok (), di', d')"
    using op take cp route fin r2 unfolding unf fin_def by (simp split: if_splits)
  then have "rt_dynamic_routes (di_runtime di') = rt_dynamic_routes (di_runtime di2)"
    using present_waiting_routes [of be oc format "di_active di2" di2 d2 "Ok ()" di' d'] by (simp split: if_splits)
  then show ?thesis using S C by (auto simp: shows_route_def)
qed

definition kind_of_route :: "'m CatalogRoute \<Rightarrow> PendingPlanKind \<Rightarrow> bool" where
  "kind_of_route route kind \<longleftrightarrow>
     (case route of
        ExactRoute _ \<Rightarrow> kind \<in> {ExactActiveNoOp, ScaledCurrentAfterFailure FailedCacheHit, ScaledCurrentAfterFailure PrepareFailed}
          \<or> is_exact_candidate kind
      | ScaledFallback \<Rightarrow> \<exists>required. kind = ScaledBaseline required)"

context routed_display
begin

lemma store_plan_pending:
  assumes "rt_dynamic_routes (fst (snd st)) = Some dr" and "store_plan plan key st = (r, st')"
  shows "\<exists>dr'. rt_dynamic_routes (fst (snd st')) = Some dr' \<and> dr_pending_plan dr' = Some plan"
  using assms by (auto simp: store_plan_def update_routes_def split: prod.splits)

lemma prepared_kind:
  assumes ok: "core_ok base c (active_index act) st dr" and av: "available_slots act = (p, s)"
    and total: "cleanup_total be" and entry: "entry_for_snapshot sn catalog = Some e"
    and op: "prepare_dynamic_check_in_available_slots be p s catalog sn ms st = (r, st')"
  shows "\<exists>dr' plan. rt_dynamic_routes (fst (snd st')) = Some dr' \<and> dr_pending_plan dr' = Some plan
    \<and> pp_snapshot plan = sn \<and> kind_of_route (ce_route e) (pp_kind plan)"
proof -
  have rt: "rt_dynamic_routes (fst (snd st)) = Some dr" using ok by (auto simp: core_ok_def pre_ok_def)
  then have routes: "dynamic_routes st = Ok dr" by (simp add: dynamic_routes_def)
  obtain r1 st1 where rel: "release_dynamic_candidate_in_available_slots be p s st = (r1, st1)" by (meson surj_pair)
  obtain dr1 where R: "core_ok base c (active_index act) st1 dr1"
      "rt_roles (fst (snd st1)) = (rt_roles (fst (snd st)))\<lparr> ro_candidate := None \<rparr>" "r1 = Ok ()"
    using release_dynamic_core [OF ok av rel] total by blast
  have rt1: "rt_dynamic_routes (fst (snd st1)) = Some dr1" using R(1) by (auto simp: core_ok_def pre_ok_def)
  have pre: "pre_ok base c (active_index act) st1 dr1" using R(1) by (simp add: core_ok_def)
  have stored: ?thesis if "store_plan plan key st'' = (r, st')" "rt_dynamic_routes (fst (snd st'')) = Some dr''"
      "pp_snapshot plan = sn" "kind_of_route (ce_route e) (pp_kind plan)" for plan key st'' dr''
    using store_plan_pending [OF that(2,1)] that(3,4) by blast
  let ?k = "key_from_snapshot sn"
  let ?plan = "\<lambda>kind key mode hit. \<lparr> pp_snapshot = sn, pp_logical_key = ?k, pp_requested_physical_key = key,
    pp_requested_mode = mode, pp_kind = kind, pp_failed_cache_hit = hit, pp_mode_prepare_ms = ms \<rparr>"
  have direct: ?thesis if "store_plan plan key (counting f st1) = (r, st')" "pp_snapshot plan = sn"
      "kind_of_route (ce_route e) (pp_kind plan)" for plan key f
    by (rule stored [OF that(1) _ that(2,3)]) (simp add: rt1)
  show ?thesis
  proof (cases "ce_route e")
    case ScaledFallback
    then have "store_plan (?plan (ScaledBaseline (ro_active (rt_roles (fst (snd st1))) \<noteq> ro_baseline (rt_roles (fst (snd st1)))))
        None None False) None (counting count_fallback st1) = (r, st')"
      using op rel R(3) by (simp add: prepare_dynamic_check_in_available_slots_def entry routes Let_def)
    from direct [OF this] show ?thesis by (simp add: kind_of_route_def ScaledFallback)
  next
    case (ExactRoute mode)
    note unfs = prepare_dynamic_check_in_available_slots_def entry routes ExactRoute Let_def
    let ?exact = "\<lambda>kind. ?plan kind (Some (ce_key e)) (Some mode)"
    let ?staged = "dr_candidate_key dr = Some (ce_key e) \<and> ro_candidate (rt_roles (fst (snd st))) \<noteq> None"
    consider "ce_key e = dr_current_physical_key dr"
      | i where "ce_key e \<noteq> dr_current_physical_key dr" "dr_candidate_key dr = Some (ce_key e)" "ro_candidate (rt_roles (fst (snd st))) = Some i"
      | "ce_key e \<noteq> dr_current_physical_key dr" "\<not> ?staged" "failed_key ?k dr \<in> dr_failed_routes dr"
      | "ce_key e \<noteq> dr_current_physical_key dr" "\<not> ?staged" "failed_key ?k dr \<notin> dr_failed_routes dr" by blast
    then show ?thesis
    proof cases
      case 1
      then have "store_plan (?exact ExactActiveNoOp False) None (counting count_no_op st1) = (r, st')"
        using op rel R(3) by (simp add: unfs)
      from direct [OF this] show ?thesis by (simp add: kind_of_route_def ExactRoute)
    next
      case 2
      then have "store_plan (?exact (ExactCandidate i) False) (dr_candidate_key dr) st = (r, st')"
        using op by (simp add: unfs)
      from stored [OF this rt] show ?thesis by (simp add: kind_of_route_def ExactRoute)
    next
      case 3
      then have "store_plan (?exact (ScaledCurrentAfterFailure FailedCacheHit) True) None (counting count_fallback st1) = (r, st')"
        using op rel R(3) by (auto simp: unfs)
      from direct [OF this] show ?thesis by (simp add: kind_of_route_def ExactRoute)
    next
      case 4
      obtain r2 st2 where ps: "prepare_slot be mode p s st1 = (r2, st2)" by (meson surj_pair)
      have "ro_candidate (rt_roles (fst (snd st1))) = None" using R(2) by simp
      note P = prepare_slot_pre [OF pre av this ps]
      then have rt2: "rt_dynamic_routes (fst (snd st2)) = Some dr1" by (auto simp: pre_ok_def)
      show ?thesis
      proof (cases r2)
        case (Inr i)
        then have "store_plan (?exact (ExactCandidate i) False) (Some (ce_key e)) st2 = (r, st')"
          using op rel R(3) 4 ps by (auto simp: unfs)
        from stored [OF this rt2] show ?thesis by (simp add: kind_of_route_def ExactRoute)
      next
        case (Inl err)
        obtain r3 st3 where u: "update_routes (\<lambda>dr'. dr'\<lparr> dr_failed_routes := insert (failed_key ?k dr) (dr_failed_routes dr') \<rparr>) st2
            = (r3, st3)" by (meson surj_pair)
        have U: "r3 = Ok ()" "rt_dynamic_routes (fst (snd st3)) \<noteq> None"
          using u rt2 by (auto simp: update_routes_def split: prod.splits)
        then have "store_plan (?exact (ScaledCurrentAfterFailure PrepareFailed) False) None (counting count_fallback st3) = (r, st')"
          using op rel R(3) 4 ps Inl u by (auto simp: unfs)
        from stored [OF this] U(2) show ?thesis by (auto simp: kind_of_route_def ExactRoute)
      qed
    qed
  qed
qed

lemma checked_commit_route:
  assumes ok: "display_ok base c di d" and total: "cleanup_total be" and entry: "entry_for_snapshot sn catalog = Some e"
    and op: "display_run be oc format pattern catalog [Checked sn ms, Committed sn] di d = (Ok (), di', d')"
  shows "\<exists>route kind. shows_route di' sn route \<and> kind_of_route (ce_route e) kind \<and> route_of_kind kind (key_from_snapshot sn) route"
proof -
  obtain di1 d1 where ch: "state_checked be catalog sn ms di d = (di1, d1)" by (meson surj_pair)
  obtain dr where D: "core_ok base c (active_index (di_active di)) (di_slots di, di_runtime di, d) dr"
    using ok by (rule display_okD)
  obtain p s where av: "available_slots (di_active di) = (p, s)" by (meson surj_pair)
  obtain r slots rt d2 where pr: "prepare_dynamic_check_in_available_slots be p s catalog sn ms (di_slots di, di_runtime di, d)
      = (r, slots, rt, d2)" by (rule prod_cases4)
  have eq: "di1 = di\<lparr> di_slots := slots, di_runtime := rt \<rparr>" "d1 = d2"
    using ch av pr by (auto simp: state_checked_def physical_mode_routing_enabled_def on_pool_def)
  obtain dr' plan where K: "rt_dynamic_routes (di_runtime di1) = Some dr'" "dr_pending_plan dr' = Some plan"
      "pp_snapshot plan = sn" "kind_of_route (ce_route e) (pp_kind plan)"
    using prepared_kind [OF D av total entry pr] eq by auto
  have "state_committed be oc format pattern sn di1 d1 = (Ok (), di', d')"
    using op ch by (auto split: sum.splits prod.splits)
  from committed_plan_route [OF this K(1-3)] K(4) show ?thesis by blast
qed

lemma committed_is_route_ok:
  assumes "display_ok base c di d" and "shows_route di sn route"
  shows "\<exists>dr. rt_dynamic_routes (di_runtime di) = Some dr \<and> dr_committed_snapshot dr = Some sn
    \<and> dr_presentation_route dr = Some route \<and> route_ok dr (di_shadow di)"
  using assms by (auto simp: shows_route_def display_ok_def core_ok_def pre_ok_def)

end

section \<open>The display on the DRM backend\<close>

text \<open>Every exact route of a built catalog leads to a physical mode of the entry's timing.\<close>

definition exact_sound :: "u8 \<Rightarrow> 'm PhysicalCatalogMode list \<Rightarrow> 'm CatalogEntry \<Rightarrow> bool" where
  "exact_sound c physical e \<longleftrightarrow> (\<forall>m. ce_route e = ExactRoute m \<longrightarrow> exact_routed c physical e)"

lemma add_synthetic_sound:
  "\<forall>e \<in> set (fst st). exact_sound c ps e \<Longrightarrow> \<forall>e \<in> set (fst (add_synthetic c ms st)). exact_sound c ps e"
proof (induction ms arbitrary: st)
  case (Cons m ms)
  have "\<forall>e \<in> set (fst (catalog_add c m ScaledFallback st)). exact_sound c ps e"
    using catalog_add_entries [of c m ScaledFallback st] Cons.prems by (auto simp: exact_sound_def)
  then show ?case using Cons.IH by simp
qed simp

lemma build_catalog_sound:
  assumes "build_catalog c physical pi synthetic = Ok rc" and "e \<in> set (rc_entries rc)"
  shows "exact_sound c physical e"
proof -
  obtain es1 bk1 where p: "add_physical c physical ([], Map.empty) = (es1, bk1)" by (meson surj_pair)
  obtain es2 bk2 where s: "add_synthetic c synthetic (es1, bk1) = (es2, bk2)" by (meson surj_pair)
  have pi: "pi < length physical" using assms(1) by (auto simp: build_catalog_def split: if_splits)
  note st = build_catalog_stages [OF pi p s]
  then have "\<forall>e \<in> set es2. exact_sound c physical e"
    using add_synthetic_sound [of "(es1, bk1)" c physical synthetic] s by (auto simp: exact_sound_def)
  moreover obtain i where "rc_entries rc = mark_preferred i es2"
    using assms(1) p s by (auto simp: build_catalog_def Let_def split: if_splits option.splits)
  moreover from this assms(2) obtain j where "j < length es2" "e = mark_preferred i es2 ! j"
    by (auto simp: in_set_conv_nth)
  moreover from this have "ce_route e = ce_route (es2 ! j)" "ce_key e = ce_key (es2 ! j)" by (simp_all add: mark_preferred_nth)
  ultimately show ?thesis by (auto simp: exact_sound_def exact_routed_def)
qed

lemma build_catalog_ok_of:
  assumes "build_catalog c physical pi synthetic = Ok rc"
  shows "catalog_ok c (catalog_of rc)"
proof -
  have "pi < length physical" using assms by (auto simp: build_catalog_def split: if_splits)
  from build_catalog_Ok [OF this, of c synthetic] show ?thesis using assms by auto
qed

lemma startup_catalog_exact:
  assumes "startup_catalog timing preferred modes = Ok rc" and "entry_for_key k rc = Some e"
  shows "ce_key e = k \<and> (\<forall>m. ce_route e = ExactRoute m \<longrightarrow> mode_key 0 (timing m) = k)"
proof -
  obtain pi synthetic where b:
      "build_catalog 0 (map (\<lambda>m. \<lparr> pc_mode = m, pc_timing = timing m \<rparr>) modes) pi synthetic = Ok rc"
    using assms(1) by (auto simp: startup_catalog_def Let_def and_then_def split: if_splits sum.splits)
  note e = entry_for_key_Some [OF build_catalog_ok_of [OF b] assms(2)]
  then show ?thesis using build_catalog_sound [OF b, of e] by (auto simp: exact_sound_def exact_routed_def)
qed

locale drm_display = drm_kernel dri bufs fbs crtc connector format
  for dri :: "('k, 'buf, 'fb, 'm, 'crtc, 'conn) drm_card" and bufs :: "'k \<Rightarrow> 'buf set" and fbs :: "'k \<Rightarrow> 'fb set"
    and crtc :: 'crtc and connector :: 'conn and format :: TransferFormat +
  fixes timing :: "'m \<Rightarrow> DisplayMode"
    and preferred :: "'m \<Rightarrow> bool"
    and modes :: "'m list"
    and catalog :: "'m RouteCatalog"
  assumes card_size: "card_mode_size dri m = mode_size (timing m)"
    and catalog_built: "startup_catalog timing preferred modes = Ok catalog"

sublocale drm_display \<subseteq> routed: routed_display "drm_backend dri crtc connector format" bufs fbs timing catalog
proof (unfold_locales, goal_cases)
  case (1 m)
  show ?case using card_size [of m] by (simp add: drm_backend_def mode_size_def)
next
  case (2 k e)
  then show ?case using startup_catalog_exact [OF catalog_built] by blast
next
  case (3 k e m)
  then show ?case using startup_catalog_exact [OF catalog_built] by blast
qed

text \<open>The simulated kernel with one mode of 640 by 480.\<close>

definition sim_timing :: "u16 \<times> u16 \<Rightarrow> DisplayMode" where
  "sim_timing m = mode_640x480\<lparr> dm_hdisplay := fst m, dm_vdisplay := snd m \<rparr>"

lemmas sim_simps = start_display_def start_scanouts_def new_baseline_def create_waiting_def render_waiting_def
  initialize_dynamic_routes_def create_waiting_scanout_def build_waiting_def with_mapped_def waiting_callback_def
  render_waiting_screen_def fill_solid_def validate_raster_def write_pixel_def pixel_offset_def copy_into_def
  checked_add_live_bytes_def checked_add_usize_def checked_mul_usize_def ensure_def find_Some_iff
  physical_mode_routing_enabled_def create_allocation_def drm_backend_def sim_card_def build_allocation_def
  create_scanout_buffer_def probe_mappings_def map_allocation_def map_tracked_def fill_zero_def drop_mapped_def
  drop_mapping_def Let_def sim_start_def fresh_handle_def default_scanout_buffer_def checked_sum usize_bound_def
  split_runtime_def with_baseline_def front_framebuffer_def pick_def set_crtc_retry.simps fill_startup_pattern_def
  uses_startup_pattern_def

lemma sim_crtc [simp]:
  "set_crtc_retry (drm_backend sim_card () () f) fb mode CRTC_SET_RETRIES k = (Ok (), k)"
  by (simp add: numeral_eq_Suc drm_backend_def sim_card_def)

lemma color_1x1: "diagnostic_pattern_color 0 0 1 1 = COLOR_LIGHT_GRAY"
  by (simp add: diagnostic_pattern_color_def Let_def)

lemma pattern_1x1:
  assumes "length mem = 4"
  shows "is_ok (fill_diagnostic_pattern_rect mem 4 1 1 0 0 1 1 Xrgb8888)"
  using assms by (simp add: fill_diagnostic_pattern_rect_def checked_add_def validate_raster_def write_pixel_def color_1x1 pixel_offset_def copy_into_def
     checked_add_usize_def checked_mul_usize_def ensure_def for_range.simps checked_sum usize_bound_def Let_def)

lemma pattern_ok:
  assumes "length (be_load be buf b) = 4" "ma_pitch m = 4" "ma_width m = 1" "ma_height m = 1"
  shows "fst (pattern_buffer be Xrgb8888 m buf b) = Ok ()"
  using pattern_1x1 [OF assms(1)] assms(2-4) by (auto simp: pattern_buffer_def is_ok_iff)


lemma sim_pattern:
  "fst (pattern_buffer (drm_backend sim_card () () Xrgb8888) Xrgb8888 m buf b) = Ok ()"
  if "length (sim_mem b buf) = 4" "ma_pitch m = 4" "ma_width m = 1" "ma_height m = 1"
  by (rule pattern_ok) (use that in \<open>simp_all add: drm_backend_def sim_card_def\<close>)

lemma sim_fill:
  assumes "length (sim_mem b (fst (ma_buffers m))) = 4" "length (sim_mem b (snd (ma_buffers m))) = 4" "ma_pitch m = 4" "ma_width m = 1" "ma_height m = 1"
    "fst (ma_buffers m) \<noteq> snd (ma_buffers m)"
  shows "is_ok (fst (fill_startup_pattern (drm_backend sim_card () () Xrgb8888) Xrgb8888 PStartup m b))"
proof -
  obtain b1 where p: "pattern_buffer (drm_backend sim_card () () Xrgb8888) Xrgb8888 m (fst (ma_buffers m)) b = (Ok (), b1)"
    using sim_pattern [OF assms(1,3-5)] by (metis prod.collapse)
  have "sim_mem b1 (snd (ma_buffers m)) = sim_mem b (snd (ma_buffers m))"
    using p assms(6) by (auto simp: pattern_buffer_def drm_backend_def sim_card_def split: sum.splits)
  then show ?thesis using sim_pattern [of b1 "snd (ma_buffers m)" m] assms p
    by (simp add: fill_startup_pattern_def uses_startup_pattern_def)
qed

lemma is_ok_start:
  assumes "start_scanouts be oc format timing modes mode b = (Ok sm, d)" "split_runtime sm = (slots, rt)"
    "map_allocation be (the (slots ! 0)) d = (Ok m, d1)" "slots ! 0 \<noteq> None" "front_framebuffer m = Ok fb"
    "set_crtc_retry be fb mode CRTC_SET_RETRIES (fst d1) = (Ok (), b2)"
    "is_ok (fst (fill_startup_pattern be format PStartup m b2))"
  shows "is_ok (fst (start_display be oc format PStartup timing modes mode shadow b))"
  using assms by (auto simp: start_display_def is_ok_iff split: prod.splits)

lemma sim_startup:
  "is_ok (fst (start_display (drm_backend sim_card () () Xrgb8888) False Xrgb8888 PStartup sim_timing [(1, 1)] (1, 1) shadow (fst sim_start)))"
  apply (rule is_ok_start)
        apply (simp add: sim_simps for_range.simps; fail)+
   apply (rule sim_crtc)
  apply (rule sim_fill; simp)
  done

text \<open>The catalog of the simulated display, and the display as an instance of the contracts.\<close>

definition sim_mode :: DisplayMode where
  "sim_mode = sim_timing (1, 1)"

definition sim_catalog :: "(u16 \<times> u16) RouteCatalog" where
  "sim_catalog = (case startup_catalog sim_timing (\<lambda>_. True) [(1, 1)] of
     Inr rc \<Rightarrow> rc | Inl _ \<Rightarrow> \<lparr> rc_connector = 0, rc_entries = [], rc_by_key = Map.empty, rc_preferred_index = 0 \<rparr>)"

lemma sim_catalog_built:
  "startup_catalog sim_timing (\<lambda>_. True) [(1, 1)] = Ok sim_catalog"
  "\<exists>e m. entry_for_key (mode_key 0 sim_mode) sim_catalog = Some e \<and> ce_key e = mode_key 0 sim_mode \<and> ce_route e = ExactRoute m"
proof -
  have "is_ok (synthetic_modes [sim_timing (1, 1)] (sim_timing (1, 1)))"
    by (simp add: synthetic_modes_def SYNTHETIC_PORTRAIT_SIZES_def derive_mode_from_native_def scale_dimension_def
        sim_timing_def mode_640x480_def Let_def)
  then obtain synthetic where "synthetic_modes [sim_timing (1, 1)] (sim_timing (1, 1)) = Ok synthetic"
    by (auto simp: is_ok_iff)
  then obtain rc where rc: "startup_catalog sim_timing (\<lambda>_. True) [(1, 1)] = Ok rc"
      and b: "\<exists>e. entry_for_key (mode_key 0 sim_mode) rc = Some e \<and> exact_routed 0 [\<lparr> pc_mode = (1, 1), pc_timing = sim_mode \<rparr>] e"
      and ok: "catalog_ok 0 (catalog_of rc)"
    using build_catalog_Ok [of 0 "[\<lparr> pc_mode = (1, 1), pc_timing = sim_timing (1, 1) \<rparr>]" 0 synthetic]
    by (auto simp: startup_catalog_def advertised_preferred_mode_index_def sim_mode_def)
  then have "rc = sim_catalog" by (simp add: sim_catalog_def)
  then show "startup_catalog sim_timing (\<lambda>_. True) [(1, 1)] = Ok sim_catalog" using rc by simp
  from b obtain e where e: "entry_for_key (mode_key 0 sim_mode) rc = Some e"
      "exact_routed 0 [\<lparr> pc_mode = (1, 1), pc_timing = sim_mode \<rparr>] e" by blast
  then show "\<exists>e m. entry_for_key (mode_key 0 sim_mode) sim_catalog = Some e \<and> ce_key e = mode_key 0 sim_mode \<and> ce_route e = ExactRoute m"
    using entry_for_key_Some [OF ok e(1)] \<open>rc = sim_catalog\<close> by (auto simp: exact_routed_def)
qed

interpretation sim_display: drm_display sim_card "set \<circ> sim_bufs" "set \<circ> sim_fbs" "()" "()" Xrgb8888 sim_timing "\<lambda>_. True"
  "[(1, 1)]" sim_catalog
proof (unfold_locales, goal_cases)
  case (1 m)
  show ?case by (cases m) (simp add: sim_card_def mode_size_def sim_timing_def)
qed (rule sim_catalog_built(1))

section \<open>Runs\<close>

lemma display_run_append:
  "display_run be oc format pattern catalog (evs @ evs') di d =
     (case display_run be oc format pattern catalog evs di d of
        (Inl e, di1, d1) \<Rightarrow> (Inl e, di1, d1)
      | (Inr _, di1, d1) \<Rightarrow> display_run be oc format pattern catalog evs' di1 d1)"
  by (induction evs arbitrary: di d) (auto split: sum.splits prod.splits)

text \<open>A checked and committed state that is already shown: the run the witnesses use.\<close>

lemma noop_run:
  assumes "rt_dynamic_routes (di_runtime di) = Some dr" and "ro_candidate (rt_roles (di_runtime di)) = None"
    and "entry_for_snapshot sn catalog = Some e" and "ce_route e = ExactRoute m" and "ce_key e = dr_current_physical_key dr"
    and "pattern \<noteq> POff"
  shows "fst (display_run be oc format pattern catalog [Checked sn ms, Committed sn] di d) = Ok ()"
proof -
  obtain p s where av: "available_slots (di_active di) = (p, s)" by (meson surj_pair)
  obtain slots rt b cs where st: "(di_slots di, di_runtime di, d) = (slots, rt, b, cs)" by (metis prod_cases4)
  show ?thesis
    using assms st av
    by (auto simp: state_checked_def physical_mode_routing_enabled_def on_pool_def prepare_dynamic_check_in_available_slots_def
        dynamic_routes_def release_dynamic_candidate_in_available_slots_def store_plan_def update_routes_def counting_def Let_def
        state_committed_def take_matching_pending_plan_def commit_plan_def record_committed_route_def)
qed

context drm_display
begin

abbreviation (input) be where "be \<equiv> drm_backend dri crtc connector format"

lemma run_ok:
  assumes "start_display be oc format pattern timing ms mode shadow k = (Ok di, d)"
    and "display_run be oc format pattern catalog evs di d = (Ok (), di', d')"
  shows "routed.display_ok (bufs k, fbs k) (int (card (fbs k))) di' d'"
  using routed.start_display_ok [OF assms(1)] routed.display_run_ok [OF _ assms(2)] by blast

lemma run_shown:
  assumes "routed.display_ok base c di d"
  shows "\<exists>dr a. rt_dynamic_routes (di_runtime di) = Some dr \<and> di_slots di ! active_index (di_active di) = Some a
    \<and> mapped_ok a (active_mapped (di_active di)) \<and> route_ok dr (di_shadow di)
    \<and> mode_key 0 (timing (ma_mode (active_mapped (di_active di)))) = dr_current_physical_key dr
    \<and> ma_width (active_mapped (di_active di)) = ucast (mk_hdisplay (dr_current_physical_key dr))
    \<and> ma_height (active_mapped (di_active di)) = ucast (mk_vdisplay (dr_current_physical_key dr))"
proof -
  obtain dr a where D: "routed.core_ok base c (active_index (di_active di)) (di_slots di, di_runtime di, d) dr"
      "route_ok dr (di_shadow di)" "di_slots di ! active_index (di_active di) = Some a"
      "mapped_ok a (active_mapped (di_active di))"
    using assms by (rule routed.display_okD)
  have P: "drm.pool_ok base c (di_slots di) (di_runtime di) d" "rt_dynamic_routes (di_runtime di) = Some dr"
      "roles_ok (di_slots di) (rt_roles (di_runtime di)) (active_index (di_active di))"
    using D(1) by (simp_all add: routed.core_ok_def routed.pre_ok_def)
  have key: "mode_key 0 (timing (sa_mode a)) = dr_current_physical_key dr"
    using D(1,3) P(3) by (simp add: routed.core_ok_def routed.keys_ok_def routed.shows_key_def roles_ok_def)
  have "drm.ready a" using drm.pool_okD(2) [OF P(1) _ D(3)] by simp
  then have "(sa_width a, sa_height a) = (ucast (dm_hdisplay (timing (sa_mode a))), ucast (dm_vdisplay (timing (sa_mode a))))"
    using routed.size_law by (simp add: drm.ready_def)
  then show ?thesis using D(2-4) P(2) by (auto simp: mapped_ok_def mode_key_def key [symmetric])
qed

lemma run_pool:
  assumes "start_display be oc format pattern timing ms mode shadow k = (Ok di, d)"
    and "display_run be oc format pattern catalog evs di d = (Ok (), di', d')"
  shows "drm.pool_ok (bufs k, fbs k) (int (card (fbs k))) (di_slots di') (di_runtime di') d'
    \<and> roles_ok (di_slots di') (rt_roles (di_runtime di')) (active_index (di_active di'))"
  using run_ok [OF assms] by (auto simp: routed.display_ok_def routed.core_ok_def routed.pre_ok_def)

lemma pool_returned:
  assumes "drm.pool_ok base c slots rt d" and "release_all be (join_runtime slots rt) d = (r, sm, d')"
  shows "rt_current_live_bytes rt = live_bytes slots (rt_waiting rt) \<and> rt_current_live_bytes rt \<le> rt_observed_peak_live_bytes rt
    \<and> fst base \<subseteq> bufs (fst d') \<and> snd base \<subseteq> fbs (fst d') \<and> sm_current_live_bytes sm = 0
    \<and> (cleanup_total be \<longrightarrow> r = Ok () \<and> bufs (fst d') = fst base \<and> fbs (fst d') = snd base)"
proof -
  note R = drm.release_all_spec [OF assms]
  show ?thesis using R drm.holdsD(1,2) [OF R [THEN conjunct1]] assms(1) by (simp add: drm.pool_ok_def)
qed

lemma frame_shown:
  assumes ok: "routed.display_ok base c di0 d0" and prep: "prepare_waiting be oc aio format pattern di0 d0 = (Inr (), di, d)"
    and pat: "shows_payload pattern" and scaled: "scaled_mode source di = Ok scaled"
    and op: "show_frame be aio format pattern info payload source clip di d = (out, di', d')"
  shows "\<exists>front back. front_buffer (active_mapped (di_active di)) = Ok front
    \<and> back_buffer (active_mapped (di_active di)) = Ok back \<and> front \<noteq> back
    \<and> (if scaled then
          (\<forall>buf. buf \<noteq> back \<longrightarrow> be_load be buf (fst d') = be_load be buf (fst d))
          \<and> (out = FrameDone \<longrightarrow> (\<exists>s px l mem.
                ensure_size \<lparr> si_width = fst source, si_height = snd source, si_format = gud_pixel_format format \<rparr> (di_shadow di) = Ok s
              \<and> copy_buffer_to_framebuffer info payload (sf_pixels s) (sf_pitch s) (format_bytes format) = Ok px
              \<and> scale_to_fit px (sf_pitch s) (fst source) (snd source) (be_load be back (fst d))
                  (unat (ma_pitch (active_mapped (di_active di)))) (ma_width (active_mapped (di_active di)))
                  (ma_height (active_mapped (di_active di))) format = Ok (l, mem)
              \<and> di_shadow di' = s\<lparr> sf_pixels := px \<rparr> \<and> be_load be back (fst d') = mem
              \<and> front_buffer (active_mapped (di_active di')) = Ok back))
        else (case copy_buffer_to_framebuffer info payload (be_load be front (fst d))
                 (unat (ma_pitch (active_mapped (di_active di)))) (format_bytes format) of
          Inl e \<Rightarrow> out = skip_frame aio e \<and> di' = di \<and> d' = d
        | Inr mem \<Rightarrow> be_load be front (fst d') = mem
            \<and> (\<forall>buf. buf \<noteq> front \<longrightarrow> be_load be buf (fst d') = be_load be buf (fst d))
            \<and> front_buffer (active_mapped (di_active di')) = Ok front))
    \<and> (di_surface di' \<noteq> di_surface di \<longrightarrow>
         out = FrameDone \<and> is_full_frame_update info (fst source) (snd source) \<and> di_surface di' = Content)"
proof -
  have ok1: "routed.display_ok base c di d" using routed.prepare_waiting_ok [OF ok prep] by simp
  obtain front bk where b: "front_buffer (active_mapped (di_active di)) = Ok front"
      "back_buffer (active_mapped (di_active di)) = Ok bk" "front \<noteq> bk"
    using routed.active_buffers [OF ok1] by blast
  show ?thesis
  proof (cases scaled)
    case True
    from routed.show_frame_scaled [OF ok1 pat _ op b(1,2)] show ?thesis
      using b scaled True by (intro exI [of _ front] exI [of _ bk]) auto
  next
    case False
    from routed.show_frame_direct [OF ok1 pat _ op b(1)] show ?thesis
      using b scaled False by (intro exI [of _ front] exI [of _ bk]) (auto split: sum.splits)
  qed
qed

lemma checked_commit:
  assumes "routed.display_ok base c di d" and "cleanup_total be" and "entry_for_snapshot sn catalog = Some e"
    and "display_run be oc format pattern catalog [Checked sn prepare_ms, Committed sn] di d = (Ok (), di', d')"
  shows "\<exists>route dr kind. rt_dynamic_routes (di_runtime di') = Some dr \<and> dr_committed_snapshot dr = Some sn
    \<and> dr_presentation_route dr = Some route \<and> route_ok dr (di_shadow di')
    \<and> kind_of_route (ce_route e) kind \<and> route_of_kind kind (key_from_snapshot sn) route"
proof -
  obtain route kind where "shows_route di' sn route" "kind_of_route (ce_route e) kind" "route_of_kind kind (key_from_snapshot sn) route"
    using routed.checked_commit_route [OF assms] by blast
  then show ?thesis
    using routed.committed_is_route_ok [OF routed.display_run_ok [OF assms(1,4)]] by blast
qed

end

definition sim_snapshot :: DisplayStateSnapshot where
  "sim_snapshot = \<lparr> sn_mode = sim_mode, sn_format = 128, sn_connector = 0, sn_generation = 1 \<rparr>"

lemma sim_run:
  "\<exists>shadow di d di' d'. start_display (drm_backend sim_card () () Xrgb8888) False Xrgb8888 PStartup sim_timing [(1, 1)] (1, 1) shadow
       (fst sim_start) = (Ok di, d) \<and> preallocated True 4 = Ok shadow
     \<and> display_run (drm_backend sim_card () () Xrgb8888) False Xrgb8888 PStartup sim_catalog
         [Checked sim_snapshot 0, Committed sim_snapshot] di d = (Ok (), di', d')"
proof -
  obtain shadow where shadow: "preallocated True 4 = Ok shadow" by (simp add: preallocated_def ensure_def)
  obtain r d where st: "start_display (drm_backend sim_card () () Xrgb8888) False Xrgb8888 PStartup sim_timing [(1, 1)] (1, 1) shadow
      (fst sim_start) = (r, d)" by (meson surj_pair)
  then obtain di where di: "r = Ok di" using sim_startup [of shadow] by (auto simp: is_ok_iff)
  note S = sim_display.routed.start_display_ok [OF st [unfolded di]]
  obtain e m where e: "entry_for_key (mode_key 0 sim_mode) sim_catalog = Some e" "ce_key e = mode_key 0 sim_mode" "ce_route e = ExactRoute m"
    using sim_catalog_built(2) by blast
  let ?dr = "new_dynamic_routes (mode_key 0 sim_mode) :: (u16 \<times> u16) DynamicRouteState"
  have "fst (display_run (drm_backend sim_card () () Xrgb8888) False Xrgb8888 PStartup sim_catalog
      [Checked sim_snapshot 0, Committed sim_snapshot] di d) = Ok ()"
  proof (rule noop_run [where dr = ?dr and e = e and m = m])
    show "rt_dynamic_routes (di_runtime di) = Some ?dr" using S by (simp add: sim_mode_def)
  qed (use S e in \<open>simp_all add: entry_for_snapshot_def key_from_snapshot_def new_dynamic_routes_def sim_snapshot_def\<close>)
  then show ?thesis using st di shadow by (metis prod.collapse)
qed

lemma sim_cleanup_total: "cleanup_total (drm_backend sim_card () () Xrgb8888)"
  by (simp add: cleanup_total_def drm_backend_def sim_card_def)

lemma sim_catalogued: "\<exists>e. entry_for_snapshot sim_snapshot sim_catalog = Some e"
  using sim_catalog_built(2) by (auto simp: entry_for_snapshot_def key_from_snapshot_def sim_snapshot_def)

section \<open>Properties\<close>

text \<open>C34. What the display shows is what was committed. After every run of checked and committed states,
  invalidations and lifecycle events, the mapped scanout is the one in the active slot, its physical mode has
  the recorded current key and its size; a direct route has the committed state's own key, so the raster
  on screen is exactly the committed one; every scaled route has the committed state's raster active in
  the shadow framebuffer, and the baseline route shows the baseline mode.\<close>

theorem committed_route_shown:
  assumes "drm_display dri bufs fbs timing preferred modes catalog"
    and "start_display (drm_backend dri crtc connector format) oc format pattern timing ms mode shadow k = (Ok di, d)"
    and "display_run (drm_backend dri crtc connector format) oc format pattern catalog evs di d = (Ok (), di', d')"
  shows "\<exists>dr a. let m = active_mapped (di_active di') in
    rt_dynamic_routes (di_runtime di') = Some dr \<and> di_slots di' ! active_index (di_active di') = Some a \<and> mapped_ok a m
    \<and> mode_key 0 (timing (ma_mode m)) = dr_current_physical_key dr
    \<and> (case (dr_presentation_route dr, dr_committed_snapshot dr) of
         (Some (DirectExact l p), Some sn) \<Rightarrow> l = key_from_snapshot sn \<and> p = l \<and> dr_current_physical_key dr = l
           \<and> ma_width m = ucast (dm_hdisplay (sn_mode sn)) \<and> ma_height m = ucast (dm_vdisplay (sn_mode sn))
       | (Some (RouteScaledBaseline l), Some sn) \<Rightarrow> l = key_from_snapshot sn
           \<and> dr_current_physical_key dr = dr_baseline_physical_key dr \<and> shadow_is_active (shadow_identity sn) (di_shadow di')
       | (Some (RouteScaledCurrentAfterFailure l _), Some sn) \<Rightarrow> l = key_from_snapshot sn
           \<and> shadow_is_active (shadow_identity sn) (di_shadow di')
       | (None, None) \<Rightarrow> True
       | _ \<Rightarrow> False)"
proof -
  note ok = drm_display.run_ok [OF assms]
  obtain dr a where R: "rt_dynamic_routes (di_runtime di') = Some dr"
      "di_slots di' ! active_index (di_active di') = Some a" "mapped_ok a (active_mapped (di_active di'))"
      "route_ok dr (di_shadow di')" "mode_key 0 (timing (ma_mode (active_mapped (di_active di')))) = dr_current_physical_key dr"
      "ma_width (active_mapped (di_active di')) = ucast (mk_hdisplay (dr_current_physical_key dr))"
      "ma_height (active_mapped (di_active di')) = ucast (mk_vdisplay (dr_current_physical_key dr))"
    using drm_display.run_shown [OF assms(1) ok] by blast
  show ?thesis
    using R by (intro exI [of _ dr] exI [of _ a])
      (auto simp: Let_def route_ok_def key_from_snapshot_def mode_key_def split: option.splits PresentationRoute.splits)
qed

theorem committed_route_shown_witness:
  "\<exists>(di' :: (nat \<times> u32, nat, u16 \<times> u16) Display) dr a. rt_dynamic_routes (di_runtime di') = Some dr
     \<and> di_slots di' ! active_index (di_active di') = Some a \<and> mapped_ok a (active_mapped (di_active di'))"
proof -
  obtain shadow di d di' d' where run:
      "start_display (drm_backend sim_card () () Xrgb8888) False Xrgb8888 PStartup sim_timing [(1, 1)] (1, 1) shadow
         (fst sim_start) = (Ok di, d)"
      "display_run (drm_backend sim_card () () Xrgb8888) False Xrgb8888 PStartup sim_catalog
         [Checked sim_snapshot 0, Committed sim_snapshot] di d = (Ok (), di', d')"
    using sim_run by blast
  from committed_route_shown [OF sim_display.drm_display_axioms run] show ?thesis
    unfolding Let_def by blast
qed







end
