(* ===== verification/Drm_Loop.thy ===== *)
theory Drm_Loop
  imports Drm_Lifecycle Drm_Display
begin

text \<open>
  The event loop of \<open>main\<close> in \<^verbatim>\<open>drm/src/main.rs\<close>: one turn of the loop composes the retirement of a
  destroyed USB epoch, the STATUS_ON_SET drain, the shutdown gate, the completion of the exact receive, the
  control endpoint and the processing of a payload, on the receive path (\<open>Drm_Lifecycle\<close>) and the display
  (\<open>Drm_Routes\<close>, \<open>Drm_Frame\<close>). The flag \<^verbatim>\<open>running\<close> of the loop is cleared only before its first turn. \<open>Turn\<close> holds what one turn reads from outside: the clock, the flags of other
  threads, the event of the control endpoint and the answers of the kernel. Left out are the log, its
  counters (but those of the lifecycle observation), the row checksum trace and the frame dumps.
\<close>

section \<open>State and inputs\<close>

record ('b, 'buf, 'fb, 'm) EventLoop =
  lp_path :: ReceivePath
  lp_prearmed :: "instant option"
  lp_boundary :: "(ProtocolInvalidationReason \<times> u64 option) option"
  lp_host_session :: bool
  lp_display :: "('buf, 'fb, 'm) Display"
  lp_dev :: "'b dev"

record Turn =
  tu_shutdown :: bool
  tu_running :: bool
  tu_drain_now :: instant
  tu_stats_now :: instant
  tu_finish_now :: instant
  tu_deadline_now :: instant
  tu_poll :: "FfsEvent option result"
  tu_control_ms :: nat
  tu_begin_now :: instant
  tu_arm_now :: instant
  tu_capacity :: "usize \<Rightarrow> usize"
  tu_submit :: KernelSubmit
  tu_spawned :: "unit result"
  tu_worker :: "read_outcome option"
  tu_reads :: "read_outcome list"
  tu_read_ms :: nat
  tu_read_done :: instant
  tu_barrier :: "bool result option"
  tu_processed_now :: instant

text \<open>The serialization functions of \<open>ssmarshal\<close> and the LZ4 decoder, and what startup computed for the replies.\<close>

record Codec =
  co_connector :: "ConnectorDescriptor serializer"
  co_header :: "StateCheckHeader deserializer"
  co_buffer :: "SetBuffer deserializer"
  co_display :: "DisplayDescriptor serializer"
  co_mode :: "DisplayMode serializer"
  co_lz4 :: "bytes \<Rightarrow> 32 word \<Rightarrow> bytes \<Rightarrow> (bytes \<times> usize) result"

record 'm Service =
  sv_cfg :: StartupConfig
  sv_codec :: Codec
  sv_limits :: SizeLimits
  sv_catalog :: "'m RouteCatalog"
  sv_panel :: "u32 \<times> u32"
  sv_overflow_checks :: bool

text \<open>
  How a turn ends: with the next turn, by leaving the loop (with the recorded lifecycle error), by returning
  an error of the receive path or of the display from \<open>main\<close> (a \<^verbatim>\<open>?\<close>, a failed \<^verbatim>\<open>ensure!\<close> or a panic), or
  never, in a blocking read.
\<close>

datatype turn_exit = Again | Leave "err option" | Fail err | DisplayFail err | Blocked

section \<open>USB epochs\<close>

definition begin_both_epochs :: "u64 \<Rightarrow> ReceivePath \<Rightarrow> unit result \<times> ReceivePath" where
  "begin_both_epochs epoch_id p =
     (case begin_exact_aio_usb_epoch epoch_id (lc_endpoint p) of
        (Inl e, ep) \<Rightarrow> (Inl e, p\<lparr> lc_endpoint := ep \<rparr>)
      | (Inr _, ep) \<Rightarrow>
          (case session_begin_usb_epoch epoch_id (lc_session p) of
             (r, s) \<Rightarrow> (r, p\<lparr> lc_endpoint := ep, lc_session := s \<rparr>)))"

definition retire_both :: "ReceivePath \<Rightarrow> unit result \<times> ReceivePath" where
  "retire_both p =
     (case retire_exact_aio_after_session_destruction (lc_endpoint p) of
        (Inl e, ep) \<Rightarrow> (Inl e, p\<lparr> lc_endpoint := ep \<rparr>)
      | (Inr _, ep) \<Rightarrow>
          (case session_retire [] (lc_session p) of
             (Inl _, s) \<Rightarrow> (Err ''cannot retire aggregate receiver from destroyed epoch'',
                           p\<lparr> lc_endpoint := ep, lc_session := s \<rparr>)
           | (Inr _, s) \<Rightarrow>
               (Ok (), p\<lparr> lc_endpoint := ep, lc_session := s, lc_drain := None, lc_ready := None,
                          lc_globals := retire_status_on_set_transaction_after_session_destruction (lc_globals p) \<rparr>)))"

definition epoch_can_retire :: "('b, 'buf, 'fb, 'm) EventLoop \<Rightarrow> bool" where
  "epoch_can_retire lp \<longleftrightarrow> lp_boundary lp \<noteq> None \<and> lc_pending (lp_path lp) = None
     \<and> receiver_is_empty (pe_ep_rx (lc_endpoint (lp_path lp)))"

definition retire_epoch :: "('b, 'buf, 'fb, 'm) EventLoop \<Rightarrow> turn_exit \<times> ('b, 'buf, 'fb, 'm) EventLoop" where
  "retire_epoch lp =
     (case retire_both (lp_path lp) of
        (Inl e, p) \<Rightarrow> (Fail e, lp\<lparr> lp_path := p \<rparr>)
      | (Inr _, p) \<Rightarrow>
          (case lp_boundary lp of
             Some (_, Some epoch_id) \<Rightarrow>
               (case begin_both_epochs epoch_id p of
                  (Inl e, p1) \<Rightarrow> (Fail e, lp\<lparr> lp_path := p1 \<rparr>)
                | (Inr _, p1) \<Rightarrow>
                    (Again, lp\<lparr> lp_path := p1\<lparr> lc_usb_session := ActiveSession \<rparr>, lp_boundary := None \<rparr>))
           | _ \<Rightarrow> (Again, lp\<lparr> lp_path := p, lp_boundary := None \<rparr>)))"

section \<open>Drain, shutdown and completion\<close>

definition poison_counted :: "ReceivePath \<Rightarrow> ReceivePath" where
  "poison_counted p = (let p' = poison_receive_path p in p'\<lparr> lc_poisoned := lc_poisoned p' + 1 \<rparr>)"

definition drain_expired :: "instant \<Rightarrow> ReceivePath \<Rightarrow> bool \<times> ReceivePath" where
  "drain_expired now p =
     (case lc_drain p of
        None \<Rightarrow> (False, p)
      | Some dr \<Rightarrow> (let (late, dr') = timed_out now dr in (late, p\<lparr> lc_drain := Some dr' \<rparr>)))"

text \<open>The boolean says that the turn ends here (\<^verbatim>\<open>continue\<close>).\<close>

definition poll_completion :: "Turn \<Rightarrow> ReceivePath \<Rightarrow> bool \<times> ReceivePath" where
  "poll_completion tu p =
     (case lc_pending p of
        None \<Rightarrow> (False, p)
      | Some (info, started, seq) \<Rightarrow>
     (case try_complete_exact_payload_aio (tu_stats_now tu) (usb_activation_generation (lc_globals p))
             (unat (sb_length info)) (lc_endpoint p) of
        (Inl _, ep) \<Rightarrow> (True, poison_counted (p\<lparr> lc_endpoint := ep, lc_pending := None \<rparr>))
      | (Inr None, ep) \<Rightarrow>
          if br_state (lc_session p) = BrPoisoned \<or> tu_deadline_now tu - started \<le> br_deadline (lc_session p)
          then (False, p\<lparr> lc_endpoint := ep \<rparr>)
          else (True, poison_counted (p\<lparr> lc_endpoint := ep \<rparr>))
      | (Inr (Some stats), ep) \<Rightarrow>
          (let p1 = p\<lparr> lc_endpoint := ep, lc_pending := None \<rparr> in
           case finish_receive (tu_finish_now tu) started (Ok stats) (lc_session p) of
             (Inr stats', s) \<Rightarrow> (False, p1\<lparr> lc_session := s, lc_ready := Some (info, stats') \<rparr>)
           | (Inl _, s) \<Rightarrow> (True, poison_receive_path (p1\<lparr> lc_session := s \<rparr>)))))"

text \<open>The event could not be read.\<close>

definition control_failure :: "Turn \<Rightarrow> ReceivePath \<Rightarrow> turn_exit \<times> ReceivePath" where
  "control_failure tu p =
     (if lc_pending p \<noteq> None then (Again, poison_receive_path p)
      else if \<not> tu_running tu then (Leave None, p)
      else (Again, p))"

text \<open>A poisoned session answers nothing but lifecycle events.\<close>

definition ep0_suppressed :: "FfsEvent \<Rightarrow> ReceivePath \<Rightarrow> bool" where
  "ep0_suppressed ev p \<longleftrightarrow> br_state (lc_session p) = BrPoisoned \<and> \<not> is_lifecycle ev"

section \<open>Lifecycle\<close>

definition enter_epoch :: "ReceivePath \<Rightarrow> unit result \<times> ReceivePath" where
  "enter_epoch p =
     (let epoch_id = usb_activation_generation (lc_globals p) in
      if epoch_id > br_epoch_id (lc_session p) then begin_both_epochs epoch_id p else (Ok (), p))"

text \<open>The receive side of a lifecycle event; \<open>Inr ()\<close> goes on with the handler of the event.\<close>

definition lifecycle_result ::
  "ProtocolInvalidationReason \<Rightarrow> UsbLifecycleResult \<Rightarrow> ('b, 'buf, 'fb, 'm) EventLoop \<Rightarrow>
   (turn_exit + unit) \<times> ('b, 'buf, 'fb, 'm) EventLoop" where
  "lifecycle_result reason result lp =
     (case result of
        Continue _ \<Rightarrow>
          if reason = ReasonEnable then
            (case enter_epoch (lp_path lp) of
               (Inl e, p) \<Rightarrow> (Inl (Fail e), lp\<lparr> lp_path := p \<rparr>)
             | (Inr _, p) \<Rightarrow> (Inr (), lp\<lparr> lp_path := p \<rparr>))
          else (Inr (), lp)
      | PreserveOwned _ \<Rightarrow> (Inl Again, lp)
      | SessionBoundary _ \<Rightarrow>
          (Inl Again, lp\<lparr> lp_boundary := Some (reason,
             if reason = ReasonEnable then Some (usb_activation_generation (lc_globals (lp_path lp))) else None) \<rparr>)
      | Contained \<Rightarrow> (Inl Again, lp)
      | FatalUnbind \<Rightarrow> (Inl (Leave (Some (Error ''FunctionFS UNBIND observed from proven Idle''))), lp))"

definition lifecycle_event ::
  "('b, 'buf, 'fb, 'm) backend \<Rightarrow> 'm Service \<Rightarrow> ProtocolInvalidationReason \<Rightarrow> ('b, 'buf, 'fb, 'm) EventLoop \<Rightarrow>
   (turn_exit + unit) \<times> ('b, 'buf, 'fb, 'm) EventLoop" where
  "lifecycle_event be sv reason lp =
     (let (result, p) = observe_aio_lifecycle (usb_lifecycle_input reason) (lp_path lp) in
      case lifecycle_surface be (sv_overflow_checks sv) (cfg_format (sv_cfg sv)) (cfg_pattern (sv_cfg sv)) reason
             (lp_display lp) (lp_dev lp) of
        (Inl e, di, d) \<Rightarrow> (Inl (DisplayFail e), lp\<lparr> lp_path := p, lp_display := di, lp_dev := d \<rparr>)
      | (Inr _, di, d) \<Rightarrow> lifecycle_result reason result (lp\<lparr> lp_path := p, lp_display := di, lp_dev := d \<rparr>))"

definition prearm_receive :: "Turn \<Rightarrow> usize \<Rightarrow> ('b, 'buf, 'fb, 'm) EventLoop \<Rightarrow>
    (turn_exit + unit) \<times> ('b, 'buf, 'fb, 'm) EventLoop" where
  "prearm_receive tu prearm_bytes lp =
     (let p = lp_path lp in
      if lp_prearmed lp \<noteq> None then (Inl (Fail (Error ''received a second FunctionFS Enable'')), lp)
      else case begin_receive (tu_begin_now tu) (lc_session p) of
        (Inl e, s) \<Rightarrow> (Inl (Fail e), lp\<lparr> lp_path := p\<lparr> lc_session := s \<rparr> \<rparr>)
      | (Inr started, s) \<Rightarrow>
     (case prearm_payload_read (tu_spawned tu) (functionfs_lifecycle_generation (lc_globals p)) prearm_bytes
             (lc_endpoint p) of
        (Inl e, ep) \<Rightarrow>
          (case cancel_receive_before_io s of
             (Inl e', s') \<Rightarrow> (Inl (Leave (Some e')), lp\<lparr> lp_path := p\<lparr> lc_session := s', lc_endpoint := ep \<rparr> \<rparr>)
           | (Inr _, s') \<Rightarrow> (Inl (Leave (Some e)), lp\<lparr> lp_path := p\<lparr> lc_session := s', lc_endpoint := ep \<rparr> \<rparr>))
      | (Inr _, ep) \<Rightarrow>
          (Inr (), lp\<lparr> lp_path := p\<lparr> lc_session := s, lc_endpoint := ep \<rparr>, lp_prearmed := Some started \<rparr>)))"

definition invalidated_event ::
  "('b, 'buf, 'fb, 'm) backend \<Rightarrow> 'm Service \<Rightarrow> Turn \<Rightarrow> ProtocolInvalidationReason \<Rightarrow> ('b, 'buf, 'fb, 'm) EventLoop \<Rightarrow>
   turn_exit \<times> ('b, 'buf, 'fb, 'm) EventLoop" where
  "invalidated_event be sv tu reason lp =
     (if diagnostic_lifecycle_containment (lp_path lp) then (Again, lp)
      else case (case cfg_prearm_bytes (sv_cfg sv) of
             Some n \<Rightarrow> if reason = ReasonEnable then prearm_receive tu n lp else (Inr (), lp)
           | None \<Rightarrow> (Inr (), lp)) of
        (Inl ex, lp1) \<Rightarrow> (ex, lp1)
      | (Inr _, lp1) \<Rightarrow>
          (let (di, d) = protocol_invalidated be (lp_display lp1) (lp_dev lp1) in
           (Again, lp1\<lparr> lp_display := di, lp_dev := d \<rparr>)))"

section \<open>Control events\<close>

text \<open>The three replies; a failure is only logged.\<close>

definition reply_exit :: "unit result \<times> Globals \<times> bytes option \<Rightarrow> ('b, 'buf, 'fb, 'm) EventLoop \<Rightarrow>
    turn_exit \<times> ('b, 'buf, 'fb, 'm) EventLoop" where
  "reply_exit out lp =
     (case out of (r, g, _) \<Rightarrow>
        (case r of Inl (Panic m) \<Rightarrow> Fail (Panic m) | _ \<Rightarrow> Again,
         lp\<lparr> lp_path := (lp_path lp)\<lparr> lc_globals := g \<rparr> \<rparr>))"

definition descriptor_reply :: "'m Service \<Rightarrow> CtrlSender \<Rightarrow> Globals \<Rightarrow> unit result \<times> Globals \<times> bytes option" where
  "descriptor_reply sv req g =
     send_descriptor_with_options (co_display (sv_codec sv)) req (lim_min_width (sv_limits sv)) (lim_min_height (sv_limits sv))
       (lim_max_width (sv_limits sv)) (lim_max_height (sv_limits sv)) (cfg_compression (sv_cfg sv))
       (cfg_max_buffer_size (sv_cfg sv)) (if cfg_aio_mode (sv_cfg sv) then GUD_DISPLAY_FLAG_STATUS_ON_SET else 0) g"

text \<open>The end of a drained diagnostic transaction. On the last one the drain stays in place.\<close>

definition release_drained :: "u8 \<Rightarrow> u8 \<Rightarrow> ReceivePath \<Rightarrow> turn_exit \<times> ReceivePath" where
  "release_drained limit transaction p =
     (if \<not> (xa_state (pe_exact_aio (lc_endpoint p)) = Idle \<and> br_state (lc_session p) = BrIdle)
      then (Fail (Error ''STATUS_ON_SET cleanup drained before both receive guards returned to Idle''), p)
      else case finish_status_on_set_diagnostic_transaction (lc_globals p) of
        (Inl e, g) \<Rightarrow> (Fail e, p\<lparr> lc_globals := g \<rparr>)
      | (Inr _, g) \<Rightarrow>
          if transaction = limit then (Leave None, p\<lparr> lc_globals := g \<rparr>)
          else (Again, p\<lparr> lc_globals := g, lc_drain := None \<rparr>))"

definition observe_drain :: "u8 \<Rightarrow> StatusOnSetCleanupDrain option \<Rightarrow>
    StatusOnSetCleanupObservation option result \<times> StatusOnSetCleanupDrain option" where
  "observe_drain status drain =
     (case drain of
        None \<Rightarrow> (Ok None, None)
      | Some dr \<Rightarrow>
          (case note_status status dr of
             (Inl e, dr') \<Rightarrow> (Inl e, Some dr')
           | (Inr ob, dr') \<Rightarrow> (Ok (Some ob), Some dr')))"

text \<open>A pending receive is given up as poisoned.\<close>

definition contain_pending :: "ReceivePath \<Rightarrow> ReceivePath" where
  "contain_pending p = poison_receive_path (p\<lparr> lc_pending := None \<rparr>)"

definition status_sent_event :: "u8 \<Rightarrow> u8 \<Rightarrow> ReceivePath \<Rightarrow> turn_exit \<times> ReceivePath" where
  "status_sent_event limit status p =
     (case observe_drain status (lc_drain p) of
        (Inl e, dr) \<Rightarrow>
          (let p1 = p\<lparr> lc_drain := dr \<rparr> in
           if lc_pending p1 \<noteq> None then (Again, contain_pending p1) else (Leave (Some e), p1))
      | (Inr observation, dr) \<Rightarrow>
     (let (r, ep) = note_status_sent status (lc_endpoint p);
          p1 = p\<lparr> lc_drain := dr, lc_endpoint := ep \<rparr>;
          p2 = (if \<not> is_ok r \<and> lc_pending p1 \<noteq> None then contain_pending p1 else p1) in
      case (observation, lc_drain p2) of
        (Some _, Some d) \<Rightarrow> if is_drained d then release_drained limit (cd_transaction d) p2 else (Again, p2)
      | _ \<Rightarrow> (Again, p2)))"

section \<open>A frame buffer event\<close>

text \<open>Arming the exact receive for an admitted SET_BUFFER.\<close>

definition track_receive ::
  "StartupConfig \<Rightarrow> SetBuffer \<Rightarrow> instant \<Rightarrow> u64 \<Rightarrow> ReceivePath \<Rightarrow> turn_exit \<times> ReceivePath" where
  "track_receive cfg info started seq p =
     (case begin_status_on_set_diagnostic_transaction (lc_globals p) of
        (Inl _, g) \<Rightarrow> (Again, poison_receive_path (p\<lparr> lc_globals := g \<rparr>))
      | (Inr transaction, g) \<Rightarrow>
          if cfg_transaction_limit cfg > 0 \<and> (ucast transaction :: u64) \<noteq> seq
          then (Fail (Error ''STATUS_ON_SET transaction number does not match AIO sequence''), p\<lparr> lc_globals := g \<rparr>)
          else (Again, p\<lparr> lc_globals := g, lc_pending := Some (info, started, seq),
                  lc_drain := (if cfg_transaction_limit cfg > 0 then Some (new_drain transaction) else lc_drain p) \<rparr>))"

definition arm_receive :: "StartupConfig \<Rightarrow> Turn \<Rightarrow> SetBuffer \<Rightarrow> ReceivePath \<Rightarrow> turn_exit \<times> ReceivePath" where
  "arm_receive cfg tu info p =
     (case begin_receive (tu_begin_now tu) (lc_session p) of
        (Inl e, s) \<Rightarrow> (Fail e, p\<lparr> lc_session := s \<rparr>)
      | (Inr started, s) \<Rightarrow>
     (case arm_exact_payload_aio (tu_capacity tu) (tu_submit tu) (tu_arm_now tu) info (lc_endpoint p, lc_globals p) of
        (Inl _, ep, g) \<Rightarrow>
          (case cancel_receive_before_io s of
             (Inl e, s') \<Rightarrow> (Fail e, p\<lparr> lc_session := s', lc_endpoint := ep, lc_globals := g \<rparr>)
           | (Inr _, s') \<Rightarrow> (Again, p\<lparr> lc_session := s', lc_endpoint := ep, lc_globals := g \<rparr>))
      | (Inr seq, ep, g) \<Rightarrow>
          (let p1 = p\<lparr> lc_endpoint := ep, lc_globals := g \<rparr> in
           case session_submission_accepted s of
             (Inl e, s') \<Rightarrow> (Fail e, p1\<lparr> lc_session := s' \<rparr>)
           | (Inr _, s') \<Rightarrow> track_receive cfg info started seq (p1\<lparr> lc_session := s' \<rparr>))))"

text \<open>The blocking receive, of a prearmed read or of the endpoint; \<open>None\<close> is a read that never returns.\<close>

definition blocking_receive ::
  "Turn \<Rightarrow> SetBuffer \<Rightarrow> ('b, 'buf, 'fb, 'm) EventLoop \<Rightarrow> (PayloadStats result \<times> ('b, 'buf, 'fb, 'm) EventLoop) option" where
  "blocking_receive tu info lp =
     (let p = lp_path lp;
          read = recv_payload_bytes (tu_worker tu) (tu_reads tu) (functionfs_lifecycle_generation (lc_globals p))
                   (tu_read_ms tu) info (lc_endpoint p) in
      if lp_prearmed lp \<noteq> None then
        (case read of
           None \<Rightarrow> None
         | Some (r, ep, _) \<Rightarrow>
             (case finish_receive (tu_read_done tu) (tu_begin_now tu) r (lc_session p) of
                (r', s) \<Rightarrow> Some (r', lp\<lparr> lp_path := p\<lparr> lc_endpoint := ep, lc_session := s \<rparr>, lp_prearmed := None \<rparr>)))
      else case begin_receive (tu_begin_now tu) (lc_session p) of
        (Inl e, s) \<Rightarrow> Some (Inl e, lp\<lparr> lp_path := p\<lparr> lc_session := s \<rparr> \<rparr>)
      | (Inr started, s) \<Rightarrow>
     (case session_submission_accepted s of
        (Inl e, s1) \<Rightarrow> Some (Inl e, lp\<lparr> lp_path := p\<lparr> lc_session := s1 \<rparr> \<rparr>)
      | (Inr _, s1) \<Rightarrow>
          (case read of
             None \<Rightarrow> None
           | Some (r, ep, _) \<Rightarrow>
               (case finish_receive (tu_read_done tu) started r s1 of
                  (r', s2) \<Rightarrow> Some (r', lp\<lparr> lp_path := p\<lparr> lc_endpoint := ep, lc_session := s2 \<rparr> \<rparr>)))))"

text \<open>After the frame: the receive path returns to Idle; in the diagnostic modes the drain goes on.\<close>

definition finish_both :: "ReceivePath \<Rightarrow> unit result \<times> ReceivePath" where
  "finish_both p =
     (case finish_exact_payload_processing (lc_endpoint p) of
        (Inl e, ep) \<Rightarrow> (Inl e, p\<lparr> lc_endpoint := ep \<rparr>)
      | (Inr _, ep) \<Rightarrow>
          (case session_finish_processing (lc_session p) of
             (r, s) \<Rightarrow> (r, p\<lparr> lc_endpoint := ep, lc_session := s \<rparr>)))"

definition finish_diagnostic :: "StartupConfig \<Rightarrow> Turn \<Rightarrow> ReceivePath \<Rightarrow> turn_exit \<times> ReceivePath" where
  "finish_diagnostic cfg tu p =
     (case finish_both p of
        (Inl e, p1) \<Rightarrow> (Fail e, p1)
      | (Inr _, p1) \<Rightarrow>
     (case lc_drain p1 of
        None \<Rightarrow> (Fail (Panic ''STATUS_ON_SET diagnostic payload completed without a status drain''), p1)
      | Some dr \<Rightarrow>
     (case payload_processed (tu_processed_now tu) dr of
        (Inl e, dr') \<Rightarrow> (Fail e, p1\<lparr> lc_drain := Some dr' \<rparr>)
      | (Inr early, dr') \<Rightarrow>
          (let p2 = p1\<lparr> lc_drain := Some dr' \<rparr> in
           if early then release_drained (cfg_transaction_limit cfg) (cd_transaction dr) p2 else (Again, p2)))))"

definition finish_production :: "ReceivePath \<Rightarrow> turn_exit \<times> ReceivePath" where
  "finish_production p =
     (case finish_both p of
        (Inl e, p1) \<Rightarrow> (Fail e, p1)
      | (Inr _, p1) \<Rightarrow>
          (case finish_status_on_set_diagnostic_transaction (lc_globals p1) of
             (Inl e, g) \<Rightarrow> (Fail e, p1\<lparr> lc_globals := g \<rparr>)
           | (Inr _, g) \<Rightarrow> (Again, p1\<lparr> lc_globals := g \<rparr>)))"

definition finish_frame :: "StartupConfig \<Rightarrow> Turn \<Rightarrow> ReceivePath \<Rightarrow> turn_exit \<times> ReceivePath" where
  "finish_frame cfg tu p =
     (if cfg_status_on_set_bytes cfg \<noteq> None then finish_diagnostic cfg tu p
      else if \<not> cfg_aio_mode cfg then (Again, p)
      else case (if cfg_barrier cfg = None then None else tu_barrier tu) of
        Some (Inr True) \<Rightarrow> (Again, snd (observe_aio_lifecycle LcDisable p))
      | Some (Inl _) \<Rightarrow> (Again, poison_counted p)
      | _ \<Rightarrow> finish_production p)"

definition process_payload ::
  "('b, 'buf, 'fb, 'm) backend \<Rightarrow> 'm Service \<Rightarrow> Turn \<Rightarrow> SetBuffer \<Rightarrow> ('b, 'buf, 'fb, 'm) EventLoop \<Rightarrow>
   turn_exit \<times> ('b, 'buf, 'fb, 'm) EventLoop" where
  "process_payload be sv tu info lp =
     (let cfg = sv_cfg sv; p = lp_path lp; ep = lc_endpoint p in
      case finish_payload (co_lz4 (sv_codec sv)) info (pe_buf ep) (pe_compress_buf ep) of
        (Inl e, dest) \<Rightarrow>
          (let p1 = p\<lparr> lc_endpoint := ep\<lparr> pe_compress_buf := dest \<rparr> \<rparr> in
           (Again, lp\<lparr> lp_path := (if cfg_aio_mode cfg then poison_counted p1 else p1) \<rparr>))
      | (Inr payload, dest) \<Rightarrow>
     (let lp1 = lp\<lparr> lp_path := p\<lparr> lc_endpoint := ep\<lparr> pe_compress_buf := dest \<rparr> \<rparr> \<rparr> in
      if cfg_prearm_bytes cfg \<noteq> None then (Leave None, lp1)
      else case process_frame be (sv_overflow_checks sv) (cfg_aio_mode cfg) (cfg_format cfg) (cfg_pattern cfg) (sv_panel sv)
             (active_scanout_state (lc_globals p)) info payload (lp_display lp1) (lp_dev lp1) of
        (FrameFailed e, di, d) \<Rightarrow> (DisplayFail e, lp1\<lparr> lp_display := di, lp_dev := d \<rparr>)
      | (FrameDropped poisoned, di, d) \<Rightarrow>
          (Again, lp1\<lparr> lp_display := di, lp_dev := d,
             lp_path := (if poisoned then poison_counted (lp_path lp1) else lp_path lp1) \<rparr>)
      | (FrameDone, di, d) \<Rightarrow>
          (let (ex, p2) = finish_frame cfg tu (lp_path lp1) in
           (ex, lp1\<lparr> lp_display := di, lp_dev := d, lp_path := p2 \<rparr>))))"

definition buffer_event ::
  "('b, 'buf, 'fb, 'm) backend \<Rightarrow> 'm Service \<Rightarrow> Turn \<Rightarrow> SetBuffer \<Rightarrow> PayloadStats option \<Rightarrow>
   ('b, 'buf, 'fb, 'm) EventLoop \<Rightarrow> turn_exit \<times> ('b, 'buf, 'fb, 'm) EventLoop" where
  "buffer_event be sv tu info ready lp =
     (case update_clip (sv_overflow_checks sv) info of
        Inl e \<Rightarrow> (Fail e, lp)
      | Inr _ \<Rightarrow>
          if cfg_aio_mode (sv_cfg sv) then
            (if ready \<noteq> None then process_payload be sv tu info lp
             else let (ex, p) = arm_receive (sv_cfg sv) tu info (lp_path lp) in (ex, lp\<lparr> lp_path := p \<rparr>))
          else case blocking_receive tu info lp of
            None \<Rightarrow> (Blocked, lp)
          | Some (Inl _, lp1) \<Rightarrow> (if \<not> tu_running tu then Leave None else Again, lp1)
          | Some (Inr _, lp1) \<Rightarrow> process_payload be sv tu info lp1)"

section \<open>One turn\<close>

text \<open>\<open>ready\<close> are the statistics of a completed payload, which is dispatched as a \<open>Buffer\<close> event.\<close>

definition dispatch ::
  "('b, 'buf, 'fb, 'm) backend \<Rightarrow> 'm Service \<Rightarrow> Turn \<Rightarrow> Event \<Rightarrow> PayloadStats option \<Rightarrow>
   ('b, 'buf, 'fb, 'm) EventLoop \<Rightarrow> turn_exit \<times> ('b, 'buf, 'fb, 'm) EventLoop" where
  "dispatch be sv tu ev ready lp =
     (let cfg = sv_cfg sv; p = lp_path lp; g = lc_globals p in
      case ev of
        GetDescriptor req \<Rightarrow> reply_exit (descriptor_reply sv req g) lp
      | GetPixelFormats req \<Rightarrow> reply_exit (send_pixel_formats req [gud_pixel_format (cfg_format cfg)] g) lp
      | GetDisplayModes req \<Rightarrow>
          reply_exit (send_modes (co_mode (sv_codec sv)) req (advertised_modes (sv_catalog sv)) g) lp
      | StatusSent status \<Rightarrow>
          (let (ex, p1) = status_sent_event (cfg_transaction_limit cfg) status p in (ex, lp\<lparr> lp_path := p1 \<rparr>))
      | StateChecked sn \<Rightarrow>
          (let (di, d) = state_checked be (sv_catalog sv) sn (tu_control_ms tu) (lp_display lp) (lp_dev lp) in
           (Again, lp\<lparr> lp_display := di, lp_dev := d \<rparr>))
      | StateCommitted sn \<Rightarrow>
          (case state_committed be (sv_overflow_checks sv) (cfg_format cfg) (cfg_pattern cfg) sn (lp_display lp) (lp_dev lp) of
             (r, di, d) \<Rightarrow>
               (case r of Inl e \<Rightarrow> DisplayFail e | Inr _ \<Rightarrow> Again, lp\<lparr> lp_display := di, lp_dev := d \<rparr>))
      | ProtocolStateInvalidated _ reason \<Rightarrow> invalidated_event be sv tu reason lp
      | Event.Buffer info \<Rightarrow> buffer_event be sv tu info ready lp)"

definition service_event ::
  "('b, 'buf, 'fb, 'm) backend \<Rightarrow> 'm Service \<Rightarrow> Turn \<Rightarrow> Event \<Rightarrow> PayloadStats option \<Rightarrow>
   ('b, 'buf, 'fb, 'm) EventLoop \<Rightarrow> turn_exit \<times> ('b, 'buf, 'fb, 'm) EventLoop" where
  "service_event be sv tu ev ready lp =
     (let lp0 = lp\<lparr> lp_host_session := lp_host_session lp \<or> event_is_host_activity ev \<rparr> in
      case (case ev of ProtocolStateInvalidated _ reason \<Rightarrow> lifecycle_event be sv reason lp0 | _ \<Rightarrow> (Inr (), lp0)) of
        (Inl ex, lp1) \<Rightarrow> (ex, lp1)
      | (Inr _, lp1) \<Rightarrow>
          if lc_pending (lp_path lp1) \<noteq> None \<and> conflicts_with_owned_exact_receive ev (ready \<noteq> None)
          then (Again, lp1\<lparr> lp_path := contain_pending (lp_path lp1) \<rparr>)
          else dispatch be sv tu ev ready lp1)"

definition receive_event ::
  "('b, 'buf, 'fb, 'm) backend \<Rightarrow> 'm Service \<Rightarrow> Turn \<Rightarrow> ('b, 'buf, 'fb, 'm) EventLoop \<Rightarrow>
   turn_exit \<times> ('b, 'buf, 'fb, 'm) EventLoop" where
  "receive_event be sv tu lp =
     (let p = lp_path lp in
      case tu_poll tu of
        Inl _ \<Rightarrow> (let (ex, p1) = control_failure tu p in (ex, lp\<lparr> lp_path := p1 \<rparr>))
      | Inr None \<Rightarrow>
          (case lc_ready p of
             None \<Rightarrow> (Again, lp)
           | Some (info, stats) \<Rightarrow>
               service_event be sv tu (Event.Buffer info) (Some stats) (lp\<lparr> lp_path := p\<lparr> lc_ready := None \<rparr> \<rparr>))
      | Inr (Some ev) \<Rightarrow>
          if ep0_suppressed ev p then (Again, lp)
          else case event (sv_overflow_checks sv) (co_connector (sv_codec sv)) (co_header (sv_codec sv))
                 (co_buffer (sv_codec sv)) ev (lc_globals p) of
            (Inl e, g, _) \<Rightarrow>
              (let p1 = p\<lparr> lc_globals := g \<rparr> in
               if panics (Inl e :: unit result) then (Fail e, lp\<lparr> lp_path := p1 \<rparr>)
               else (Again, lp\<lparr> lp_path := (if lc_pending p \<noteq> None then poison_receive_path p1 else p1) \<rparr>))
          | (Inr None, g, _) \<Rightarrow> (Again, lp\<lparr> lp_path := p\<lparr> lc_globals := g \<rparr> \<rparr>)
          | (Inr (Some gud_event), g, _) \<Rightarrow>
              service_event be sv tu gud_event None (lp\<lparr> lp_path := p\<lparr> lc_globals := g \<rparr> \<rparr>))"

definition loop_turn ::
  "('b, 'buf, 'fb, 'm) backend \<Rightarrow> 'm Service \<Rightarrow> Turn \<Rightarrow> ('b, 'buf, 'fb, 'm) EventLoop \<Rightarrow>
   turn_exit \<times> ('b, 'buf, 'fb, 'm) EventLoop" where
  "loop_turn be sv tu lp =
     (if epoch_can_retire lp then retire_epoch lp
      else let (late, p1) = drain_expired (tu_drain_now tu) (lp_path lp) in
      if late then (Leave (Some (Error ''STATUS_ON_SET diagnostic trailing GET_STATUS did not arrive'')), lp\<lparr> lp_path := p1 \<rparr>)
      else if tu_shutdown tu \<and> is_proven_idle (proven_idle_gate p1) then (Leave None, lp\<lparr> lp_path := p1 \<rparr>)
      else let (stop, p2) = poll_completion tu p1; lp2 = lp\<lparr> lp_path := p2 \<rparr> in
      if stop \<or> lp_boundary lp \<noteq> None then (Again, lp2)
      else receive_event be sv tu lp2)"

section \<open>Start and teardown\<close>

definition start_path :: "StartupConfig \<Rightarrow> Globals \<Rightarrow> ReceivePath" where
  "start_path cfg g =
     \<lparr> lc_usb_session = WaitingForHost, lc_session = with_deadline (cfg_deadline cfg), lc_endpoint = cfg_endpoint cfg,
       lc_pending = None, lc_ready = None, lc_drain = None,
       lc_globals = configure_status_on_set_diagnostic (cfg_transaction_limit cfg) g,
       lc_lifecycle_events = 0, lc_poisoned = 0, lc_unsafe_teardown_suppressed = 0 \<rparr>"

definition start_loop ::
  "StartupConfig \<Rightarrow> Globals \<Rightarrow> ('buf, 'fb, 'm) Display \<Rightarrow> 'b dev \<Rightarrow> ('b, 'buf, 'fb, 'm) EventLoop" where
  "start_loop cfg g di d =
     \<lparr> lp_path = start_path cfg g, lp_prearmed = None, lp_boundary = None, lp_host_session = False,
       lp_display = di, lp_dev = d \<rparr>"

text \<open>
  After the loop. \<open>alive\<close> and \<open>unbind\<close> are the gadget's weak target and the outcome of its unbind, \<open>remove\<close> the
  outcome of removing the gadget (an error when it has another owner). A suppressed teardown sleeps forever.
\<close>

datatype main_end = TeardownSuppressed | MainReturns "unit result"

definition first_error :: "err option \<Rightarrow> 'a result \<Rightarrow> err option" where
  "first_error err r = (case err of Some e \<Rightarrow> Some e | None \<Rightarrow> (case r of Inl e \<Rightarrow> Some e | Inr _ \<Rightarrow> None))"

definition teardown ::
  "('b, 'buf, 'fb, 'm) backend \<Rightarrow> (BulkReceiveState option \<times> BulkReceiveState option) list \<Rightarrow> bool \<Rightarrow> unit result \<Rightarrow>
   unit result \<Rightarrow> err option \<Rightarrow> GadgetShutdownState \<Rightarrow> ('b, 'buf, 'fb, 'm) EventLoop \<Rightarrow>
   main_end \<times> ('b, 'buf, 'fb, 'm) EventLoop \<times> GadgetShutdownState" where
  "teardown be env alive unbind remove err gs lp =
     (let p = lp_path lp in
      if \<not> is_proven_idle (proven_idle_gate p) then (TeardownSuppressed, lp, gs)
      else case begin_shutdown env (lc_session p) of
        (r, s) \<Rightarrow>
     (let lp1 = lp\<lparr> lp_path := p\<lparr> lc_session := s \<rparr> \<rparr> in
      if r \<noteq> Inr () \<and> r \<noteq> Inl BrShuttingDown then (TeardownSuppressed, lp1, gs)
      else case request_unbind alive unbind gs of
        (u, gs1, _) \<Rightarrow>
          if u = Ok DeferredUntilPublish \<or> u = Ok Armed then (MainReturns (panic ''unreachable''), lp1, gs1)
          else case release_all be (join_runtime (di_slots (lp_display lp1)) (di_runtime (lp_display lp1))) (lp_dev lp1) of
            (rel, _, d) \<Rightarrow>
              (MainReturns (case first_error (first_error (first_error err u) remove) rel of
                              None \<Rightarrow> Ok () | Some e \<Rightarrow> Inl e),
               lp1\<lparr> lp_dev := d \<rparr>, clear_target gs1)))"

section \<open>Runs\<close>

text \<open>
  Between two turns the kernel and the driver's thread work on, the driver connects its queue when the
  function is bound, and the descriptor of the endpoint file is given up. \<open>loop_reachable\<close>: the states at
  the head of the loop.
\<close>

inductive loop_env :: "('b, 'buf, 'fb, 'm) EventLoop \<Rightarrow> ('b, 'buf, 'fb, 'm) EventLoop \<Rightarrow> bool" where
  connect: "er_io (pe_ep_rx (lc_endpoint (lp_path lp))) = None \<Longrightarrow>
    loop_env lp (lp\<lparr> lp_path := (lp_path lp)\<lparr> lc_endpoint := (lc_endpoint (lp_path lp))
      \<lparr> pe_ep_rx := \<lparr> er_io = Some (new_driver 1), er_file = True \<rparr> \<rparr> \<rparr> \<rparr>)"
| close: "loop_env lp (lp\<lparr> lp_path := (lp_path lp)\<lparr> lc_endpoint := (lc_endpoint (lp_path lp))
      \<lparr> pe_ep_rx := (pe_ep_rx (lc_endpoint (lp_path lp)))\<lparr> er_file := False \<rparr> \<rparr> \<rparr> \<rparr>)"
| background: "er_io (pe_ep_rx (lc_endpoint (lp_path lp))) = Some a \<Longrightarrow> aio_background a a' \<Longrightarrow>
    loop_env lp (lp\<lparr> lp_path := (lp_path lp)\<lparr> lc_endpoint := (lc_endpoint (lp_path lp))
      \<lparr> pe_ep_rx := (pe_ep_rx (lc_endpoint (lp_path lp)))\<lparr> er_io := Some a' \<rparr> \<rparr> \<rparr> \<rparr>)"

inductive loop_reachable ::
  "('b, 'buf, 'fb, 'm) backend \<Rightarrow> 'm Service \<Rightarrow> ('b, 'buf, 'fb, 'm) EventLoop \<Rightarrow> ('b, 'buf, 'fb, 'm) EventLoop \<Rightarrow> bool"
  for be sv lp0 where
  start: "loop_reachable be sv lp0 lp0"
| turn: "loop_reachable be sv lp0 lp \<Longrightarrow> loop_turn be sv tu lp = (Again, lp') \<Longrightarrow> loop_reachable be sv lp0 lp'"
| env: "loop_reachable be sv lp0 lp \<Longrightarrow> loop_env lp lp' \<Longrightarrow> loop_reachable be sv lp0 lp'"

end
