(* ===== verification/Drm_Loop_Safety.thy ===== *)
theory Drm_Loop_Safety
  imports Drm_Loop
begin

text \<open>
  Properties of the event loop: every turn is a run of endpoint operations, the parts of the receive path
  agree between turns, and nothing leaves the loop while the kernel owns a receive.
\<close>

section \<open>A turn is a run of endpoint operations\<close>

definition ep_run :: "ReceivePath \<Rightarrow> ReceivePath \<Rightarrow> bool" where
  "ep_run p p' \<longleftrightarrow> endpoint_step\<^sup>*\<^sup>* (lc_endpoint p, lc_globals p) (lc_endpoint p', lc_globals p')"

lemma ep_run_same: "lc_endpoint p' = lc_endpoint p \<Longrightarrow> ep_run p p'"
  unfolding ep_run_def by (metis endpoint_step.control r_into_rtranclp)

lemma ep_run_trans: "ep_run p q \<Longrightarrow> ep_run q r \<Longrightarrow> ep_run p r"
  by (simp add: ep_run_def)

lemma ep_run_cong:
  "ep_run p q \<Longrightarrow> lc_endpoint p' = lc_endpoint p \<Longrightarrow> lc_endpoint q' = lc_endpoint q \<Longrightarrow> ep_run p' q'"
proof -
  assume a: "ep_run p q" "lc_endpoint p' = lc_endpoint p" "lc_endpoint q' = lc_endpoint q"
  have "ep_run p' p" by (rule ep_run_same) (simp add: a)
  moreover have "ep_run q q'" by (rule ep_run_same) (simp add: a)
  ultimately show ?thesis using a(1) by (blast intro: ep_run_trans)
qed

lemma ep_run_step:
  "endpoint_step (lc_endpoint p, lc_globals p) (lc_endpoint p', lc_globals p') \<Longrightarrow> ep_run p p'"
  by (simp add: ep_run_def r_into_rtranclp)

lemma ep_run_step':
  assumes "endpoint_step (lc_endpoint p, g) (ep, g')" and "lc_endpoint p' = ep"
  shows "ep_run p p'"
proof -
  have "ep_run p (p\<lparr> lc_globals := g \<rparr>)" by (simp add: ep_run_same)
  moreover have "ep_run (p\<lparr> lc_globals := g \<rparr>) (p\<lparr> lc_endpoint := ep, lc_globals := g' \<rparr>)"
    using assms(1) by (intro ep_run_step) simp
  moreover have "ep_run (p\<lparr> lc_endpoint := ep, lc_globals := g' \<rparr>) p'" using assms(2) by (simp add: ep_run_same)
  ultimately show ?thesis by (blast intro: ep_run_trans)
qed

lemma ep_run_poison: "ep_run p (poison_receive_path p)"
  by (rule ep_run_step' [OF endpoint_step.poison [of "(lc_endpoint p, lc_globals p)", unfolded poison_exact_payload_aio_def prod.case]])
     (simp add: poison_receive_path_def poison_exact_payload_aio_def)

lemma ep_run_retire:
  "retire_exact_aio_after_session_destruction (lc_endpoint p) = (r, ep) \<Longrightarrow> lc_endpoint p' = ep \<Longrightarrow> ep_run p p'"
  by (rule ep_run_step' [OF endpoint_step.retire]) simp

lemma ep_run_epoch:
  "begin_exact_aio_usb_epoch e (lc_endpoint p) = (r, ep) \<Longrightarrow> lc_endpoint p' = ep \<Longrightarrow> ep_run p p'"
  by (rule ep_run_step' [OF endpoint_step.epoch [where e = e]]) simp

lemma ep_run_finish:
  "finish_exact_payload_processing (lc_endpoint p) = (r, ep) \<Longrightarrow> lc_endpoint p' = ep \<Longrightarrow> ep_run p p'"
  by (rule ep_run_step' [OF endpoint_step.finish]) simp

lemma ep_run_status:
  "note_status_sent st (lc_endpoint p) = (r, ep) \<Longrightarrow> lc_endpoint p' = ep \<Longrightarrow> ep_run p p'"
  by (rule ep_run_step' [OF endpoint_step.status [where st = st]]) simp

lemma ep_run_complete:
  "try_complete_exact_payload_aio now (usb_activation_generation (lc_globals p)) n (lc_endpoint p) = (r, ep) \<Longrightarrow>
   lc_endpoint p' = ep \<Longrightarrow> ep_run p p'"
  by (rule ep_run_step' [OF endpoint_step.complete [where now = now and n = n and g = "lc_globals p"]]) simp

lemma ep_run_arm:
  "arm_exact_payload_aio capacity ksub now info (lc_endpoint p, lc_globals p) = (r, ep, g) \<Longrightarrow>
   lc_endpoint p' = ep \<Longrightarrow> ep_run p p'"
proof -
  assume a: "arm_exact_payload_aio capacity ksub now info (lc_endpoint p, lc_globals p) = (r, ep, g)" "lc_endpoint p' = ep"
  have "endpoint_step (lc_endpoint p, lc_globals p) (ep, g)"
    using endpoint_step.arm [of "(lc_endpoint p, lc_globals p)" capacity ksub now info] a(1) by simp
  from ep_run_step' [OF this a(2)] show ?thesis .
qed

lemma ep_run_prearm:
  "prearm_payload_read sp gen req (lc_endpoint p) = (r, ep) \<Longrightarrow> lc_endpoint p' = ep \<Longrightarrow> ep_run p p'"
  by (rule ep_run_step' [OF endpoint_step.prearm [where sp = sp and gen = gen and req = req]]) simp

lemma ep_run_blocking:
  "recv_payload_bytes worker reads gen elapsed info (lc_endpoint p) = Some (r, ep, rest) \<Longrightarrow>
   lc_endpoint p' = ep \<Longrightarrow> ep_run p p'"
  by (rule ep_run_step' [OF endpoint_step.blocking])

lemma ep_run_process:
  "finish_payload lz4 info (pe_buf (lc_endpoint p)) (pe_compress_buf (lc_endpoint p)) = (r, dest) \<Longrightarrow>
   lc_endpoint p' = (lc_endpoint p)\<lparr> pe_compress_buf := dest \<rparr> \<Longrightarrow> ep_run p p'"
  by (metis endpoint_step.process ep_run_step' snd_conv)

lemmas ep_run_ops = ep_run_retire ep_run_epoch ep_run_finish ep_run_status ep_run_complete ep_run_arm ep_run_prearm
  ep_run_blocking ep_run_process

lemma ep_run_observe: "observe_aio_lifecycle input p = (r, p') \<Longrightarrow> ep_run p p'"
proof -
  assume op: "observe_aio_lifecycle input p = (r, p')"
  have "lc_endpoint p' = lc_endpoint p \<or> lc_endpoint p' = (lc_endpoint p)\<lparr> pe_exact_aio := poison (pe_exact_aio (lc_endpoint p)) \<rparr>"
    using op by (auto simp: observe_aio_lifecycle_def Let_def poison_receive_path_def poison_exact_payload_aio_def
      split: UsbLifecycleResult.splits if_splits)
  then show ?thesis
  proof
    assume "lc_endpoint p' = lc_endpoint p"
    then show ?thesis by (rule ep_run_same)
  next
    assume e: "lc_endpoint p' = (lc_endpoint p)\<lparr> pe_exact_aio := poison (pe_exact_aio (lc_endpoint p)) \<rparr>"
    have "lc_endpoint (poison_receive_path p) = lc_endpoint p'"
      by (simp add: e poison_receive_path_def poison_exact_payload_aio_def)
    then show ?thesis using ep_run_cong [OF ep_run_poison [of p] refl] by metis
  qed
qed

lemma ep_run_begin_both: "begin_both_epochs e p = (r, p') \<Longrightarrow> ep_run p p'"
  by (auto simp: begin_both_epochs_def split: prod.splits sum.splits intro: ep_run_epoch)

lemma ep_run_retire_both: "retire_both p = (r, p') \<Longrightarrow> ep_run p p'"
  by (auto simp: retire_both_def split: prod.splits sum.splits intro: ep_run_retire)

lemma ep_run_poison_counted: "ep_run p (poison_counted p)"
  by (rule ep_run_cong [OF ep_run_poison [of p] refl]) (simp add: poison_counted_def Let_def)

lemma ep_run_poison': "ep_run p q \<Longrightarrow> ep_run p (poison_receive_path q)"
  by (rule ep_run_trans [OF _ ep_run_poison])

lemma ep_run_poison_counted': "ep_run p q \<Longrightarrow> ep_run p (poison_counted q)"
  by (rule ep_run_trans [OF _ ep_run_poison_counted])

lemma ep_run_poll: "poll_completion tu p = (stop, p') \<Longrightarrow> ep_run p p'"
  by (auto simp: poll_completion_def Let_def split: option.splits prod.splits sum.splits if_splits
      intro!: ep_run_poison' ep_run_poison_counted' intro: ep_run_complete ep_run_same)

lemma ep_run_finish_both: "finish_both p = (r, p') \<Longrightarrow> ep_run p p'"
  by (auto simp: finish_both_def split: prod.splits sum.splits intro: ep_run_finish)

lemma release_drained_endpoint: "release_drained limit tr p = (ex, p') \<Longrightarrow> lc_endpoint p' = lc_endpoint p"
  by (auto simp: release_drained_def split: if_splits prod.splits sum.splits)

lemma ep_run_finish_frame: "finish_frame cfg tu p = (ex, p') \<Longrightarrow> ep_run p p'"
proof -
  assume op: "finish_frame cfg tu p = (ex, p')"
  have diag: "ep_run p p'" if "finish_diagnostic cfg tu p = (ex, p')"
  proof -
    obtain r p1 where f: "finish_both p = (r, p1)" by fastforce
    have "lc_endpoint p' = lc_endpoint p1"
      using that f by (auto simp: finish_diagnostic_def Let_def split: sum.splits option.splits prod.splits if_splits
          dest!: release_drained_endpoint)
    then show ?thesis using ep_run_cong [OF ep_run_finish_both [OF f] refl] by metis
  qed
  have prod: "ep_run p p'" if "finish_production p = (ex, p')"
  proof -
    obtain r p1 where f: "finish_both p = (r, p1)" by fastforce
    have "lc_endpoint p' = lc_endpoint p1"
      using that f by (auto simp: finish_production_def split: sum.splits prod.splits)
    then show ?thesis using ep_run_cong [OF ep_run_finish_both [OF f] refl] by metis
  qed
  have obs: "ep_run p (snd (observe_aio_lifecycle LcDisable p))"
    by (rule ep_run_observe [of LcDisable p "fst (observe_aio_lifecycle LcDisable p)"]) simp
  show ?thesis
    using op diag prod obs ep_run_poison_counted [of p]
    by (auto simp: finish_frame_def ep_run_same split: if_splits option.splits sum.splits bool.splits)
qed

abbreviation path_run :: "('b, 'buf, 'fb, 'm) EventLoop \<Rightarrow> ('b, 'buf, 'fb, 'm) EventLoop \<Rightarrow> bool" where
  "path_run lp lp' \<equiv> ep_run (lp_path lp) (lp_path lp')"

lemma path_run_retire: "retire_epoch lp = (ex, lp') \<Longrightarrow> path_run lp lp'"
proof -
  assume op: "retire_epoch lp = (ex, lp')"
  obtain r p1 where ret: "retire_both (lp_path lp) = (r, p1)" by fastforce
  have run: "ep_run (lp_path lp) p1" by (rule ep_run_retire_both [OF ret])
  have next_epoch: "ep_run (lp_path lp) q" if "begin_both_epochs e p1 = (r', p2)" "lc_endpoint q = lc_endpoint p2" for e r' p2 q
    using ep_run_trans [OF run ep_run_cong [OF ep_run_begin_both [OF that(1)] refl that(2)]] .
  show ?thesis
    using op ret run next_epoch
    by (auto simp: retire_epoch_def split: sum.splits option.splits prod.splits)
qed

lemma path_run_lifecycle: "lifecycle_event be sv reason lp = (r, lp') \<Longrightarrow> path_run lp lp'"
proof -
  assume op: "lifecycle_event be sv reason lp = (r, lp')"
  obtain res p where ob: "observe_aio_lifecycle (usb_lifecycle_input reason) (lp_path lp) = (res, p)" by fastforce
  have run: "ep_run (lp_path lp) p" by (rule ep_run_observe [OF ob])
  have epoch: "ep_run (lp_path lp) p'" if "enter_epoch p = (r', p')" for r' p'
    using that ep_run_trans [OF run] ep_run_begin_both [of _ p r' p'] run
    by (auto simp: enter_epoch_def Let_def split: if_splits)
  show ?thesis
    using op ob run epoch
    by (auto simp: lifecycle_event_def lifecycle_result_def split: sum.splits prod.splits UsbLifecycleResult.splits if_splits)
qed

lemma path_run_invalidated: "invalidated_event be sv tu reason lp = (ex, lp') \<Longrightarrow> path_run lp lp'"
proof -
  assume op: "invalidated_event be sv tu reason lp = (ex, lp')"
  have pre: "path_run lp lq" if "prearm_receive tu n lp = (r, lq)" for n r lq
    using that by (auto simp: prearm_receive_def Let_def split: if_splits prod.splits sum.splits
        intro: ep_run_prearm ep_run_same)
  show ?thesis
    using op pre
    by (auto simp: invalidated_event_def ep_run_same split: if_splits option.splits sum.splits prod.splits)
qed

lemma path_run_process: "process_payload be sv tu info lp = (ex, lp') \<Longrightarrow> path_run lp lp'"
proof -
  assume op: "process_payload be sv tu info lp = (ex, lp')"
  let ?p = "lp_path lp"
  obtain r dest where fin: "finish_payload (co_lz4 (sv_codec sv)) info (pe_buf (lc_endpoint ?p)) (pe_compress_buf (lc_endpoint ?p)) = (r, dest)"
    by fastforce
  let ?q = "?p\<lparr> lc_endpoint := (lc_endpoint ?p)\<lparr> pe_compress_buf := dest \<rparr> \<rparr>"
  have run: "ep_run ?p ?q" by (rule ep_run_process [OF fin]) simp
  have fr: "ep_run ?p p2" if "finish_frame (sv_cfg sv) tu ?q = (ex', p2)" for ex' p2
    by (rule ep_run_trans [OF run ep_run_finish_frame [OF that]])
  show ?thesis
    using op fin run fr ep_run_poison_counted' [OF run]
    by (auto simp: process_payload_def Let_def split: sum.splits prod.splits if_splits frame_outcome.splits)
qed

lemma path_run_arm: "arm_receive cfg tu info p = (ex, p') \<Longrightarrow> ep_run p p'"
proof -
  assume op: "arm_receive cfg tu info p = (ex, p')"
  obtain r ep g where arm: "arm_exact_payload_aio (tu_capacity tu) (tu_submit tu) (tu_arm_now tu) info (lc_endpoint p, lc_globals p) = (r, ep, g)"
    by (rule prod_cases3)
  have track: "ep_run p p'" if "track_receive cfg info st seq q = (ex, p')" "lc_endpoint q = ep" for q st seq
  proof -
    have q: "ep_run p q'" if "lc_endpoint q' = ep" for q' using ep_run_arm [OF arm that] .
    show ?thesis
      using that q by (auto simp: track_receive_def split: prod.splits sum.splits if_splits intro!: ep_run_poison')
  qed
  show ?thesis
    using op arm track
    by (auto simp: arm_receive_def Let_def split: prod.splits sum.splits intro: ep_run_arm ep_run_same)
qed

lemma path_run_blocking: "blocking_receive tu info lp = Some (r, lp') \<Longrightarrow> path_run lp lp'"
  by (auto simp: blocking_receive_def Let_def split: if_splits option.splits prod.splits sum.splits
      intro: ep_run_blocking ep_run_same)

lemma path_run_buffer: "buffer_event be sv tu info ready lp = (ex, lp') \<Longrightarrow> path_run lp lp'"
proof -
  assume op: "buffer_event be sv tu info ready lp = (ex, lp')"
  have two: "path_run lp lp'" if "blocking_receive tu info lp = Some (r, lq)" "process_payload be sv tu info lq = (ex, lp')" for r lq
    using ep_run_trans [OF path_run_blocking [OF that(1)] path_run_process [OF that(2)]] .
  show ?thesis
    using op two
    by (auto simp: buffer_event_def ep_run_same split: sum.splits if_splits option.splits prod.splits
        dest: path_run_process path_run_arm path_run_blocking)
qed

lemma path_run_status: "status_sent_event limit st p = (ex, p') \<Longrightarrow> ep_run p p'"
proof -
  assume op: "status_sent_event limit st p = (ex, p')"
  obtain r ep where ns: "note_status_sent st (lc_endpoint p) = (r, ep)" by fastforce
  have s: "ep_run p q" if "lc_endpoint q = ep" for q using ep_run_status [OF ns that] .
  have c: "ep_run p (contain_pending q)" if "lc_endpoint q = ep \<or> lc_endpoint q = lc_endpoint p" for q
    unfolding contain_pending_def using that by (intro ep_run_poison') (auto intro: s ep_run_same)
  have rd: "ep_run p p'" if "release_drained limit tr q = (ex, p')" "ep_run p q" for tr q
    using ep_run_cong [OF that(2) refl release_drained_endpoint [OF that(1)]] .
  show ?thesis
    using op ns s c rd
    by (auto simp: status_sent_event_def Let_def ep_run_same split: prod.splits sum.splits if_splits option.splits)
qed

lemma path_run_dispatch: "dispatch be sv tu ev ready lp = (ex, lp') \<Longrightarrow> path_run lp lp'"
  by (cases ev)
     (auto simp: dispatch_def reply_exit_def Let_def ep_run_same split: prod.splits
        dest: path_run_status path_run_invalidated path_run_buffer)

lemma path_run_gud_event: "service_event be sv tu ev ready lp = (ex, lp') \<Longrightarrow> path_run lp lp'"
proof -
  assume op: "service_event be sv tu ev ready lp = (ex, lp')"
  let ?lp = "lp\<lparr> lp_host_session := lp_host_session lp \<or> event_is_host_activity ev \<rparr>"
  obtain r lp1 where lc: "(case ev of ProtocolStateInvalidated _ reason \<Rightarrow> lifecycle_event be sv reason ?lp | _ \<Rightarrow> (Inr (), ?lp)) = (r, lp1)"
    by fastforce
  then have run: "path_run lp lp1"
    using path_run_lifecycle [of be sv _ ?lp r lp1] by (cases ev) (auto simp: ep_run_same)
  show ?thesis
  proof (cases r)
    case (Inl ex')
    then show ?thesis using op lc run by (simp add: service_event_def Let_def)
  next
    case (Inr u)
    show ?thesis
    proof (cases "lc_pending (lp_path lp1) \<noteq> None \<and> conflicts_with_owned_exact_receive ev (ready \<noteq> None)")
      case True
      then have "lp' = lp1\<lparr> lp_path := contain_pending (lp_path lp1) \<rparr>"
        using op lc Inr by (simp add: service_event_def Let_def)
      moreover have "ep_run (lp_path lp1) (contain_pending (lp_path lp1))"
        unfolding contain_pending_def by (intro ep_run_poison' ep_run_same) simp
      ultimately show ?thesis using ep_run_trans [OF run] by simp
    next
      case False
      then have "dispatch be sv tu ev ready lp1 = (ex, lp')" using op lc Inr by (auto simp: service_event_def Let_def)
      then show ?thesis using ep_run_trans [OF run path_run_dispatch] by blast
    qed
  qed
qed

lemma path_run_receive: "receive_event be sv tu lp = (ex, lp') \<Longrightarrow> path_run lp lp'"
proof -
  assume op: "receive_event be sv tu lp = (ex, lp')"
  have h: "path_run lp lp'" if "service_event be sv tu ev ready lq = (ex, lp')"
      "lc_endpoint (lp_path lq) = lc_endpoint (lp_path lp)" for ev ready lq
    using ep_run_trans [OF ep_run_same [OF that(2)] path_run_gud_event [OF that(1)]] .
  show ?thesis
    using op h
    by (auto simp: receive_event_def control_failure_def Let_def ep_run_same split: sum.splits option.splits prod.splits if_splits
        intro!: ep_run_poison')
qed

lemma path_run_turn: "loop_turn be sv tu lp = (ex, lp') \<Longrightarrow> path_run lp lp'"
proof -
  assume op: "loop_turn be sv tu lp = (ex, lp')"
  obtain late p1 where dr: "drain_expired (tu_drain_now tu) (lp_path lp) = (late, p1)" by fastforce
  then have e1: "lc_endpoint p1 = lc_endpoint (lp_path lp)"
    by (auto simp: drain_expired_def Let_def split: option.splits prod.splits)
  obtain stop p2 where po: "poll_completion tu p1 = (stop, p2)" by fastforce
  have run: "ep_run (lp_path lp) p2" by (rule ep_run_trans [OF ep_run_same [OF e1] ep_run_poll [OF po]])
  have rec: "path_run lp lp'" if "receive_event be sv tu (lp\<lparr> lp_path := p2 \<rparr>) = (ex, lp')"
    using ep_run_trans [OF run] path_run_receive [OF that] by simp
  show ?thesis
    using op dr po run rec ep_run_same [OF e1]
    by (auto simp: loop_turn_def Let_def split: if_splits dest: path_run_retire)
qed

lemma loop_env_step:
  "loop_env lp lp' \<Longrightarrow> endpoint_step (lc_endpoint (lp_path lp), lc_globals (lp_path lp)) (lc_endpoint (lp_path lp'), lc_globals (lp_path lp'))"
  by (cases rule: loop_env.cases) (auto intro: endpoint_step.connect endpoint_step.close endpoint_step.background)

lemma endpoint_reachable_steps:
  "endpoint_step\<^sup>*\<^sup>* s s' \<Longrightarrow> endpoint_reachable rs legacy s \<Longrightarrow> endpoint_reachable rs legacy s'"
  by (induction rule: rtranclp_induct) (auto intro: endpoint_reachable.step)

text \<open>Every state of the loop has a reachable endpoint.\<close>

lemma loop_endpoint_reachable:
  assumes "cfg_endpoint (sv_cfg sv) = build_endpoint rs legacy"
    and "loop_reachable be sv (start_loop (sv_cfg sv) g di d) lp"
  shows "endpoint_reachable rs legacy (lc_endpoint (lp_path lp), lc_globals (lp_path lp))"
  using assms(2)
proof (induction rule: loop_reachable.induct)
  case start
  then show ?case using assms(1) by (simp add: start_loop_def start_path_def endpoint_reachable.start)
next
  case (turn lp tu lp')
  from path_run_turn [OF turn.hyps(2)] endpoint_reachable_steps turn.IH show ?case unfolding ep_run_def by blast
next
  case (env lp lp')
  from loop_env_step [OF env.hyps(2)] endpoint_reachable.step env.IH show ?case by blast
qed

lemma ep_run_reachable:
  "ep_run p p' \<Longrightarrow> endpoint_reachable rs legacy (lc_endpoint p, lc_globals p) \<Longrightarrow>
   endpoint_reachable rs legacy (lc_endpoint p', lc_globals p')"
  unfolding ep_run_def by (rule endpoint_reachable_steps)

lemma ep_run_ok: "ep_run p p' \<Longrightarrow> endpoint_ok (lc_endpoint p) \<Longrightarrow> endpoint_ok (lc_endpoint p')"
proof -
  have "endpoint_step\<^sup>*\<^sup>* s s' \<Longrightarrow> endpoint_ok (fst s) \<Longrightarrow> endpoint_ok (fst s')" for s s'
    by (induction rule: rtranclp_induct) (auto dest: endpoint_ok_step)
  then show "ep_run p p' \<Longrightarrow> endpoint_ok (lc_endpoint p) \<Longrightarrow> endpoint_ok (lc_endpoint p')"
    unfolding ep_run_def by fastforce
qed

section \<open>The receive path in production\<close>

text \<open>
  The configuration of the service without test options: the exact receive, no diagnostic transactions and no
  prearmed read. \<open>receive_ok\<close> says in which combinations the parts of the receive path meet at the head of
  the loop.
\<close>

definition production :: "StartupConfig \<Rightarrow> bool" where
  "production cfg \<longleftrightarrow> cfg_aio_mode cfg \<and> cfg_status_on_set_bytes cfg = None \<and> cfg_transaction_limit cfg = 0
     \<and> cfg_prearm_bytes cfg = None"

abbreviation path_xa :: "ReceivePath \<Rightarrow> ExactAioTransaction" where
  "path_xa p \<equiv> pe_exact_aio (lc_endpoint p)"

abbreviation path_owned :: "ReceivePath \<Rightarrow> u64 set" where
  "path_owned p \<equiv> receiver_owned (pe_ep_rx (lc_endpoint p))"

abbreviation path_active :: "ReceivePath \<Rightarrow> bool" where
  "path_active p \<equiv> sg_active (diagnostic_guard (lc_globals p))"

definition receive_base :: "ReceivePath \<Rightarrow> bool" where
  "receive_base p \<longleftrightarrow> endpoint_ok (lc_endpoint p) \<and> lc_drain p = None \<and> pe_prearmed_read (lc_endpoint p) = None
     \<and> sg_transaction_limit (diagnostic_guard (lc_globals p)) = 0"

definition receive_phase :: "ReceivePath \<Rightarrow> bool" where
  "receive_phase p \<longleftrightarrow>
     (case br_state (lc_session p) of
        BrIdle \<Rightarrow> xa_state (path_xa p) = Idle \<and> lc_pending p = None \<and> lc_ready p = None \<and> \<not> path_active p
      | BrAborted \<Rightarrow> xa_state (path_xa p) = AbortedBySessionDestruction \<and> lc_pending p = None \<and> lc_ready p = None
          \<and> \<not> path_active p
      | BrInFlight \<Rightarrow> xa_state (path_xa p) = InFlight \<and> lc_ready p = None \<and> path_active p
          \<and> (\<exists>info started seq. lc_pending p = Some (info, started, seq) \<and> xa_metadata (path_xa p) = Some info)
      | BrProcessing \<Rightarrow> xa_state (path_xa p) = Processing \<and> lc_pending p = None \<and> path_active p
          \<and> (\<exists>info stats. lc_ready p = Some (info, stats) \<and> xa_metadata (path_xa p) = Some info
               \<and> length (pe_buf (lc_endpoint p)) = payload_bytes info)
      | BrPoisoned \<Rightarrow> xa_state (path_xa p) = Poisoned
          \<and> (lc_ready p \<noteq> None \<longrightarrow> lc_pending p = None \<and> path_owned p = {})
      | _ \<Rightarrow> False)"

definition receive_ok :: "ReceivePath \<Rightarrow> bool" where
  "receive_ok p \<longleftrightarrow> receive_base p \<and> receive_phase p"

definition loop_ok :: "('b, 'buf, 'fb, 'm) EventLoop \<Rightarrow> bool" where
  "loop_ok lp \<longleftrightarrow> receive_ok (lp_path lp) \<and> lp_prearmed lp = None
     \<and> (lc_usb_session (lp_path lp) = ContainedSession \<longrightarrow> br_state (lc_session (lp_path lp)) = BrPoisoned)
     \<and> (lp_boundary lp \<noteq> None \<longrightarrow> br_state (lc_session (lp_path lp)) = BrPoisoned
          \<and> lc_usb_session (lp_path lp) \<noteq> ContainedSession)"

lemma owned_outside_flight:
  "endpoint_ok ep \<Longrightarrow> xa_state (pe_exact_aio ep) \<notin> {InFlight, Poisoned} \<Longrightarrow> receiver_owned (pe_ep_rx ep) = {}"
  by (cases "xa_state (pe_exact_aio ep)") (auto simp: endpoint_ok_def Let_def)

text \<open>Without an owned session, every part of the idle gate holds.\<close>

lemma idle_gate_of_phase:
  assumes "receive_ok p" and "br_state (lc_session p) = BrIdle \<or> br_state (lc_session p) = BrAborted"
  shows "is_proven_idle (proven_idle_gate p)"
proof -
  have st: "xa_state (path_xa p) = Idle \<or> xa_state (path_xa p) = AbortedBySessionDestruction"
    using assms by (auto simp: receive_ok_def receive_phase_def)
  have ok: "endpoint_ok (lc_endpoint p)" using assms(1) by (simp add: receive_ok_def receive_base_def)
  have "path_owned p = {}" using owned_outside_flight [OF ok] st by auto
  then have "receiver_is_empty (pe_ep_rx (lc_endpoint p))"
    using ok endpoint_rx.empty_owned [of "pe_ep_rx (lc_endpoint p)"] by (simp add: endpoint_ok_def Let_def)
  moreover have "xa_operation (path_xa p) = None" using endpoint_ok_xa [OF ok] st by (auto simp: xa_ok_def)
  ultimately show ?thesis
    using assms st by (auto simp: is_proven_idle_def proven_idle_gate_def receive_ok_def receive_base_def receive_phase_def)
qed

lemma poison_path_simps [simp]:
  "lc_session (poison_receive_path p) = session_poison (lc_session p)"
  "lc_endpoint (poison_receive_path p) = (lc_endpoint p)\<lparr> pe_exact_aio := poison (path_xa p) \<rparr>"
  "lc_pending (poison_receive_path p) = lc_pending p" "lc_ready (poison_receive_path p) = lc_ready p"
  "lc_drain (poison_receive_path p) = lc_drain p" "lc_usb_session (poison_receive_path p) = lc_usb_session p"
  "diagnostic_guard (lc_globals (poison_receive_path p)) = diagnostic_guard (lc_globals p)"
  by (simp_all add: poison_receive_path_def poison_exact_payload_aio_def status_ops)

lemma poisoned_state [simp]: "br_state (session_poison s) = BrPoisoned" "xa_state (poison t) = Poisoned"
  by (simp_all add: session_poison_def poison_def)

text \<open>Poisoning from anywhere gives a contained path, as long as a ready payload leaves the kernel nothing.\<close>

lemma receive_ok_poisoned:
  assumes "receive_base p" and "lc_ready p \<noteq> None \<longrightarrow> lc_pending p = None \<and> path_owned p = {}"
  shows "receive_ok (poison_receive_path p)"
  using assms by (auto simp: receive_ok_def receive_base_def receive_phase_def endpoint_ok_poison)

lemma ready_owns_nothing:
  "receive_ok p \<Longrightarrow> lc_ready p \<noteq> None \<longrightarrow> lc_pending p = None \<and> path_owned p = {}"
  using owned_outside_flight [of "lc_endpoint p"]
  by (auto simp: receive_ok_def receive_base_def receive_phase_def split: BulkReceiveState.splits)

lemma receive_ok_poison: "receive_ok p \<Longrightarrow> receive_ok (poison_receive_path p)"
  by (rule receive_ok_poisoned [OF _ ready_owns_nothing]) (simp_all add: receive_ok_def)

lemma receive_ok_cong:
  "lc_session p' = lc_session p \<Longrightarrow> lc_endpoint p' = lc_endpoint p \<Longrightarrow> lc_pending p' = lc_pending p \<Longrightarrow>
   lc_ready p' = lc_ready p \<Longrightarrow> lc_drain p' = lc_drain p \<Longrightarrow>
   diagnostic_guard (lc_globals p') = diagnostic_guard (lc_globals p) \<Longrightarrow> receive_ok p' = receive_ok p"
  by (cases "br_state (lc_session p)") (simp_all add: receive_ok_def receive_base_def receive_phase_def)

lemma receive_ok_upd [simp]:
  "receive_ok (p\<lparr> lc_usb_session := u \<rparr>) = receive_ok p" "receive_ok (p\<lparr> lc_lifecycle_events := n \<rparr>) = receive_ok p"
  "receive_ok (p\<lparr> lc_poisoned := n \<rparr>) = receive_ok p" "receive_ok (p\<lparr> lc_unsafe_teardown_suppressed := n \<rparr>) = receive_ok p"
  by (rule receive_ok_cong; simp)+

lemma poison_counted_simps [simp]:
  "lc_session (poison_counted p) = session_poison (lc_session p)"
  "lc_usb_session (poison_counted p) = lc_usb_session p"
  "lc_endpoint (poison_counted p) = lc_endpoint (poison_receive_path p)"
  "receive_ok (poison_counted p) = receive_ok (poison_receive_path p)"
  by (simp_all add: poison_counted_def Let_def)

lemma pending_phase:
  assumes "receive_ok p" and "lc_pending p = Some (info, started, seq)"
  shows "lc_ready p = None \<and> (br_state (lc_session p) = BrInFlight \<and> xa_state (path_xa p) = InFlight
      \<and> xa_metadata (path_xa p) = Some info \<and> path_active p
    \<or> br_state (lc_session p) = BrPoisoned \<and> xa_state (path_xa p) = Poisoned)"
proof -
  have "lc_ready p = None" using ready_owns_nothing [OF assms(1)] assms(2) by (cases "lc_ready p") auto
  then show ?thesis
    using assms by (cases "br_state (lc_session p)") (simp_all add: receive_ok_def receive_phase_def)
qed

lemma try_complete_prearmed:
  "try_complete_exact_payload_aio now act n ep = (r, ep') \<Longrightarrow> pe_prearmed_read ep' = pe_prearmed_read ep"
  by (simp add: try_complete_exact_payload_aio_def Let_def split: if_splits sum.splits option.splits prod.splits)
     auto

lemma try_complete_None:
  "try_complete_exact_payload_aio now act n ep = (Ok None, ep') \<Longrightarrow> pe_exact_aio ep' = pe_exact_aio ep"
  by (simp add: try_complete_exact_payload_aio_def Let_def split: if_splits sum.splits option.splits prod.splits)
     auto

definition same_service :: "ReceivePath \<Rightarrow> ReceivePath \<Rightarrow> bool" where
  "same_service p p' \<longleftrightarrow> lc_usb_session p' = lc_usb_session p
     \<and> (br_state (lc_session p) = BrPoisoned \<longrightarrow> br_state (lc_session p') = BrPoisoned)"

lemma receive_ok_poll_hit:
  assumes ok: "receive_ok p" and pend: "lc_pending p = Some (info, started, seq)"
    and tc: "try_complete_exact_payload_aio (tu_stats_now tu) (usb_activation_generation (lc_globals p))
      (unat (sb_length info)) (lc_endpoint p) = (Ok (Some stats), ep)"
    and op: "poll_completion tu p = (stop, p')"
  shows "receive_ok p' \<and> same_service p p'"
proof -
  have epok: "endpoint_ok (lc_endpoint p)" using ok by (simp add: receive_ok_def receive_base_def)
  have new: "endpoint_ok ep" and D: "xa_state (pe_exact_aio ep) = Processing" "receiver_owned (pe_ep_rx ep) = {}"
      "length (pe_buf ep) = xa_expected_bytes (path_xa p)" "xa_metadata (pe_exact_aio ep) = xa_metadata (path_xa p)"
      "xa_state (path_xa p) = InFlight"
    using endpoint_ok_complete [OF epok tc] by simp_all
  have br: "br_state (lc_session p) = BrInFlight" and meta: "xa_metadata (path_xa p) = Some info" and act: "path_active p"
    and rd: "lc_ready p = None"
    using pending_phase [OF ok pend] D(5) by auto
  have len: "length (pe_buf ep) = payload_bytes info"
    using D(3,5) epok meta by (simp add: endpoint_ok_def Let_def)
  let ?p1 = "p\<lparr> lc_endpoint := ep, lc_pending := None \<rparr>"
  have b1: "receive_base ?p1"
    using ok new try_complete_prearmed [OF tc] by (simp add: receive_ok_def receive_base_def)
  obtain fr s where fin: "finish_receive (tu_finish_now tu) started (Ok stats) (lc_session p) = (fr, s)" by fastforce
  show ?thesis
  proof (cases fr)
    case (Inl e)
    then have p': "p' = poison_receive_path (?p1\<lparr> lc_session := s \<rparr>)"
      using op pend tc fin by (simp add: poll_completion_def Let_def)
    have "receive_ok p'" unfolding p'
      by (rule receive_ok_poisoned) (use b1 rd in \<open>simp_all add: receive_base_def\<close>)
    then show ?thesis unfolding p' by (simp add: same_service_def)
  next
    case (Inr stats')
    then have p': "p' = ?p1\<lparr> lc_session := s, lc_ready := Some (info, stats') \<rparr>"
      using op pend tc fin by (simp add: poll_completion_def Let_def)
    have "br_state s = BrProcessing"
      using fin Inr by (auto simp: finish_receive_def cas_def split: if_splits)
    then show ?thesis unfolding p'
      using b1 D len meta act br by (simp add: receive_ok_def receive_base_def receive_phase_def same_service_def)
  qed
qed

lemma receive_ok_poll:
  assumes ok: "receive_ok p" and op: "poll_completion tu p = (stop, p')"
  shows "receive_ok p' \<and> same_service p p'"
proof (cases "lc_pending p")
  case None
  then show ?thesis using op ok by (simp add: poll_completion_def same_service_def)
next
  case (Some x)
  obtain info started seq where x: "x = (info, started, seq)" by (rule prod_cases3)
  note pend = Some [unfolded x]
  obtain r ep where tc: "try_complete_exact_payload_aio (tu_stats_now tu) (usb_activation_generation (lc_globals p))
      (unat (sb_length info)) (lc_endpoint p) = (r, ep)" by fastforce
  have "endpoint_ok (lc_endpoint p)" using ok by (simp add: receive_ok_def receive_base_def)
  from endpoint_ok_complete [OF this tc] have new: "endpoint_ok ep" by simp
  have base: "receive_base (p\<lparr> lc_endpoint := ep \<rparr>)"
    using ok new try_complete_prearmed [OF tc] by (simp add: receive_ok_def receive_base_def)
  note ph = pending_phase [OF ok pend]
  show ?thesis
  proof (cases r)
    case (Inl e)
    then have p': "p' = poison_counted (p\<lparr> lc_endpoint := ep, lc_pending := None \<rparr>)"
      using op pend tc by (simp add: poll_completion_def)
    have "receive_ok p'" unfolding p' poison_counted_simps
      by (rule receive_ok_poisoned) (use base ph in \<open>simp_all add: receive_base_def\<close>)
    then show ?thesis unfolding p' by (simp add: same_service_def)
  next
    case (Inr c)
    show ?thesis
    proof (cases c)
      case (Some stats)
      then show ?thesis using receive_ok_poll_hit [OF ok pend _ op] tc Inr by simp
    next
      case None
      let ?p1 = "p\<lparr> lc_endpoint := ep \<rparr>"
      have "receive_ok ?p1"
        using ph base pend try_complete_None [OF tc [unfolded Inr None]] by (auto simp: receive_ok_def receive_phase_def)
      moreover have "p' = ?p1 \<or> p' = poison_counted ?p1"
        using op pend tc Inr None by (auto simp: poll_completion_def split: if_splits)
      ultimately show ?thesis using receive_ok_poison [of ?p1] by (auto simp: same_service_def)
    qed
  qed
qed

lemma receive_ok_base: "receive_ok p \<Longrightarrow> receive_base p"
  by (simp add: receive_ok_def)

lemma receive_ok_endpoint: "receive_ok p \<Longrightarrow> endpoint_ok (lc_endpoint p)"
  by (simp add: receive_ok_def receive_base_def)

lemma unowned_phase:
  assumes "receive_ok p" and "\<not> currently_owned (lc_session p)"
  shows "path_owned p = {} \<and> receiver_is_empty (pe_ep_rx (lc_endpoint p)) \<and> lc_pending p = None \<and> lc_ready p = None
    \<and> \<not> path_active p"
proof -
  have st: "br_state (lc_session p) = BrIdle \<or> br_state (lc_session p) = BrAborted"
    using assms(2) by (auto simp: currently_owned_def)
  have "is_proven_idle (proven_idle_gate p)" by (rule idle_gate_of_phase [OF assms(1) st])
  then have "receiver_is_empty (pe_ep_rx (lc_endpoint p))" "lc_pending p = None" "lc_ready p = None" "\<not> path_active p"
    by (simp_all add: is_proven_idle_def proven_idle_gate_def)
  then show ?thesis using endpoint_ok_empty [OF receive_ok_endpoint [OF assms(1)]] by simp
qed

lemma poisoned_phase:
  "receive_ok p \<Longrightarrow> br_state (lc_session p) = BrPoisoned \<Longrightarrow> xa_state (path_xa p) = Poisoned"
  by (simp add: receive_ok_def receive_phase_def)

subsection \<open>Epochs\<close>

lemma retire_both_ok:
  assumes ok: "receive_ok p" and br: "br_state (lc_session p) = BrPoisoned"
    and empty: "receiver_is_empty (pe_ep_rx (lc_endpoint p))" and pend: "lc_pending p = None"
  shows "\<exists>p'. retire_both p = (Ok (), p') \<and> receive_ok p' \<and> br_state (lc_session p') = BrAborted
    \<and> lc_usb_session p' = lc_usb_session p"
proof -
  obtain r ep where ret: "retire_exact_aio_after_session_destruction (lc_endpoint p) = (r, ep)" by fastforce
  have xa: "xa_state (path_xa p) = Poisoned" by (rule poisoned_phase [OF ok br])
  have r: "is_ok r" "xa_state (pe_exact_aio ep) = AbortedBySessionDestruction" "pe_prearmed_read ep = pe_prearmed_read (lc_endpoint p)"
    using ret empty xa
    by (auto simp: retire_exact_aio_after_session_destruction_def retire_after_session_destruction_def clear_transaction_def Let_def)
  have new: "endpoint_ok ep" using endpoint_ok_retire [OF receive_ok_endpoint [OF ok]] ret by simp
  have ses: "session_retire [] (lc_session p) = (Inr (br_epoch_id (lc_session p)), (lc_session p)\<lparr> br_state := BrAborted \<rparr>)"
    using br by (simp add: session_retire.simps)
  show ?thesis
    using ret r new ses receive_ok_base [OF ok] pend
    by (cases r) (auto simp: retire_both_def receive_ok_def receive_base_def receive_phase_def
        retire_status_on_set_transaction_after_session_destruction_def)
qed

lemma begin_both_ok:
  assumes ok: "receive_ok p" and un: "\<not> currently_owned (lc_session p)" and op: "begin_both_epochs e p = (r, p')"
  shows "path_owned p' = {} \<and> lc_usb_session p' = lc_usb_session p
    \<and> (is_ok r \<longrightarrow> receive_ok p' \<and> br_state (lc_session p') = BrIdle)"
proof -
  obtain re ep where ep: "begin_exact_aio_usb_epoch e (lc_endpoint p) = (re, ep)" by fastforce
  have new: "endpoint_ok ep" using endpoint_ok_epoch [OF receive_ok_endpoint [OF ok], of e] ep by simp
  have keep: "pe_ep_rx ep = pe_ep_rx (lc_endpoint p)" "pe_prearmed_read ep = pe_prearmed_read (lc_endpoint p)"
    "is_ok re \<longrightarrow> xa_state (pe_exact_aio ep) = Idle"
    using ep by (auto simp: begin_exact_aio_usb_epoch_def begin_usb_epoch_def split: if_splits)
  note U = unowned_phase [OF ok un]
  show ?thesis
  proof (cases re)
    case (Inl err)
    then show ?thesis using op ep keep U by (auto simp: begin_both_epochs_def)
  next
    case (Inr u)
    obtain rs s where ses: "session_begin_usb_epoch e (lc_session p) = (rs, s)" by fastforce
    then have p': "p' = p\<lparr> lc_endpoint := ep, lc_session := s \<rparr>" "r = rs" using op ep Inr by (simp_all add: begin_both_epochs_def)
    have "is_ok rs \<longrightarrow> br_state s = BrIdle" using ses by (auto simp: session_begin_usb_epoch_def split: if_splits)
    then show ?thesis
      using p' keep U new receive_ok_base [OF ok] Inr by (simp add: receive_ok_def receive_base_def receive_phase_def)
  qed
qed

lemma loop_ok_retire:
  assumes ok: "loop_ok lp" and can: "epoch_can_retire lp" and op: "retire_epoch lp = (ex, lp')"
  shows "path_owned (lp_path lp') = {} \<and> (ex = Again \<and> loop_ok lp' \<and> lp_boundary lp' = None \<or> (\<exists>e. ex = Fail e))"
proof -
  have br: "br_state (lc_session (lp_path lp)) = BrPoisoned" and usb: "lc_usb_session (lp_path lp) \<noteq> ContainedSession"
    and rok: "receive_ok (lp_path lp)" and pre: "lp_prearmed lp = None"
    using ok can by (auto simp: loop_ok_def epoch_can_retire_def)
  obtain p1 where ret: "retire_both (lp_path lp) = (Ok (), p1)" "receive_ok p1" "br_state (lc_session p1) = BrAborted"
      "lc_usb_session p1 = lc_usb_session (lp_path lp)"
    using retire_both_ok [OF rok br] can by (auto simp: epoch_can_retire_def)
  have un: "\<not> currently_owned (lc_session p1)" using ret(3) by (simp add: currently_owned_def)
  have own: "path_owned p1 = {}" using unowned_phase [OF ret(2) un] by simp
  have plain: "loop_ok (lp\<lparr> lp_path := p1, lp_boundary := None \<rparr>)" using ret usb pre by (simp add: loop_ok_def)
  have epoch: "path_owned p2 = {} \<and> (is_ok r \<longrightarrow> loop_ok (lp\<lparr> lp_path := p2\<lparr> lc_usb_session := ActiveSession \<rparr>, lp_boundary := None \<rparr>))"
    if "begin_both_epochs e p1 = (r, p2)" for e r p2
    using begin_both_ok [OF ret(2) un that] pre by (simp add: loop_ok_def)
  show ?thesis
  proof (cases "\<exists>b e. lp_boundary lp = Some (b, Some e)")
    case True
    then obtain b e where bd: "lp_boundary lp = Some (b, Some e)" by blast
    obtain r p2 where be: "begin_both_epochs e p1 = (r, p2)" by fastforce
    show ?thesis
      using op ret(1) bd be epoch [OF be] by (cases r) (auto simp: retire_epoch_def)
  next
    case False
    then have "ex = Again" "lp' = lp\<lparr> lp_path := p1, lp_boundary := None \<rparr>"
      using op ret(1) by (auto simp: retire_epoch_def split: option.splits)
    then show ?thesis using plain own by simp
  qed
qed

subsection \<open>Lifecycle events\<close>

definition observed_ok :: "UsbLifecycleResult \<Rightarrow> ReceivePath \<Rightarrow> bool" where
  "observed_ok res p \<longleftrightarrow> receive_ok p
     \<and> (lc_usb_session p = ContainedSession \<longrightarrow> br_state (lc_session p) = BrPoisoned)
     \<and> (case res of
          Continue _ \<Rightarrow> \<not> currently_owned (lc_session p)
        | SessionBoundary _ \<Rightarrow> br_state (lc_session p) = BrPoisoned \<and> lc_usb_session p \<noteq> ContainedSession
        | _ \<Rightarrow> True)"

lemma observe_ok:
  assumes ok: "receive_ok p" and usb: "lc_usb_session p = ContainedSession \<longrightarrow> br_state (lc_session p) = BrPoisoned"
  shows "case observe_aio_lifecycle input p of (res, p') \<Rightarrow> observed_ok res p'"
proof -
  have gate: "is_proven_idle (proven_idle_gate (p\<lparr> lc_lifecycle_events := n \<rparr>))
      \<longleftrightarrow> \<not> currently_owned (lc_session p)" for n
    using idle_gate_of_phase [OF ok]
    by (auto simp: is_proven_idle_def proven_idle_gate_def currently_owned_def)
  have cont: "\<not> diagnostic_lifecycle_containment (p\<lparr> lc_lifecycle_events := n \<rparr>)" for n
    using receive_ok_base [OF ok] by (simp add: diagnostic_lifecycle_containment_def receive_base_def)
  have pois: "receive_ok (poison_receive_path (q\<lparr> lc_session := t \<rparr>))" "receive_ok (poison_receive_path q)"
    if "q = p\<lparr> lc_lifecycle_events := n \<rparr>" for q n t
    using receive_ok_poisoned [of "q\<lparr> lc_session := t \<rparr>"] receive_ok_poison [of q] receive_ok_base [OF ok]
      ready_owns_nothing [OF ok] ok that
    by (simp_all add: receive_base_def)
  have free: "\<not> currently_owned (lc_session p) \<Longrightarrow> lc_usb_session p \<noteq> ContainedSession"
    using usb by (auto simp: currently_owned_def)
  show ?thesis
  proof (cases "currently_owned (lc_session p)")
    case True
    have st: "br_state (lc_session p) \<noteq> BrIdle" "br_state (lc_session p) \<noteq> BrAborted"
      using True by (simp_all add: currently_owned_def)
    show ?thesis
      by (cases input)
         (simp_all add: observe_aio_lifecycle_def classify_usb_lifecycle_def Let_def observed_ok_def gate cont pois True ok)
  next
    case False
    show ?thesis
      using False free [OF False]
      by (cases input)
         (simp_all add: observe_aio_lifecycle_def classify_usb_lifecycle_def Let_def observed_ok_def gate cont ok)
  qed
qed

text \<open>What a turn of the production loop may end with: the invariant, or an exit that owns nothing.\<close>

definition turn_ok :: "turn_exit \<Rightarrow> ('b, 'buf, 'fb, 'm) EventLoop \<Rightarrow> bool" where
  "turn_ok ex lp \<longleftrightarrow>
     (case ex of
        Again \<Rightarrow> loop_ok lp
      | Fail (Error _) \<Rightarrow> path_owned (lp_path lp) = {}
      | Blocked \<Rightarrow> False
      | _ \<Rightarrow> True)"

lemma turn_ok_simps [simp]:
  "turn_ok Again lp = loop_ok lp" "turn_ok (Leave e) lp" "turn_ok (DisplayFail e1) lp" "turn_ok (Fail (Panic m)) lp"
  "turn_ok (Fail (Error m)) lp = (path_owned (lp_path lp) = {})" "\<not> turn_ok Blocked lp"
  by (simp_all add: turn_ok_def)

lemma turn_ok_Fail: "path_owned (lp_path lp) = {} \<Longrightarrow> turn_ok (Fail e) lp"
  by (cases e) simp_all

lemma enter_epoch_ok:
  assumes "receive_ok p" and "\<not> currently_owned (lc_session p)" and "enter_epoch p = (r, p')"
  shows "path_owned p' = {} \<and> lc_usb_session p' = lc_usb_session p
    \<and> (is_ok r \<longrightarrow> receive_ok p' \<and> \<not> currently_owned (lc_session p'))"
  using assms unowned_phase [OF assms(1,2)] begin_both_ok [OF assms(1,2), of _ r p']
  by (auto simp: enter_epoch_def currently_owned_def Let_def split: if_splits)

lemma lifecycle_turn_ok:
  assumes ok: "loop_ok lp" and none: "lp_boundary lp = None" and op: "lifecycle_event be sv reason lp = (r, lp')"
  shows "case r of Inl ex \<Rightarrow> turn_ok ex lp' | Inr _ \<Rightarrow> loop_ok lp' \<and> lp_boundary lp' = None"
proof -
  obtain res p where ob: "observe_aio_lifecycle (usb_lifecycle_input reason) (lp_path lp) = (res, p)" by fastforce
  have obs: "observed_ok res p" using observe_ok [of "lp_path lp" "usb_lifecycle_input reason"] ok ob by (simp add: loop_ok_def)
  obtain rd di d where ls: "lifecycle_surface be (sv_overflow_checks sv) (cfg_format (sv_cfg sv)) (cfg_pattern (sv_cfg sv)) reason
      (lp_display lp) (lp_dev lp) = (rd, di, d)" by (rule prod_cases3)
  let ?lp = "lp\<lparr> lp_path := p, lp_display := di, lp_dev := d \<rparr>"
  have base: "loop_ok ?lp" using ok none obs by (simp add: loop_ok_def observed_ok_def)
  show ?thesis
  proof (cases rd)
    case (Inl e)
    then show ?thesis using op ob ls by (auto simp: lifecycle_event_def)
  next
    case (Inr u)
    then have lr: "lifecycle_result reason res ?lp = (r, lp')" using op ob ls by (simp add: lifecycle_event_def)
    show ?thesis
    proof (cases res)
      case (Continue st)
      then have un: "\<not> currently_owned (lc_session p)" and rok: "receive_ok p" using obs by (simp_all add: observed_ok_def)
      obtain re pe where ep: "enter_epoch p = (re, pe)" by fastforce
      note E = enter_epoch_ok [OF rok un ep]
      show ?thesis
      proof (cases "reason = ReasonEnable")
        case True
        show ?thesis
        proof (cases re)
          case (Inl e)
          then have "r = Inl (Fail e)" "lp' = ?lp\<lparr> lp_path := pe \<rparr>" using lr Continue True ep by (auto simp: lifecycle_result_def)
          then show ?thesis using E by (simp add: turn_ok_Fail)
        next
          case Inr2: (Inr v)
          then have "r = Inr ()" "lp' = ?lp\<lparr> lp_path := pe \<rparr>" using lr Continue True ep by (auto simp: lifecycle_result_def)
          moreover have "lc_usb_session p \<noteq> ContainedSession" using obs un by (auto simp: observed_ok_def currently_owned_def)
          ultimately show ?thesis using E Inr2 ok none by (simp add: loop_ok_def)
        qed
      next
        case False
        then show ?thesis using lr Continue base none by (simp add: lifecycle_result_def) auto
      qed
    next
      case (SessionBoundary st)
      then have "r = Inl Again" "lp' = ?lp\<lparr> lp_boundary := Some (reason,
          if reason = ReasonEnable then Some (usb_activation_generation (lc_globals p)) else None) \<rparr>"
        using lr by (auto simp: lifecycle_result_def)
      then show ?thesis using base obs SessionBoundary by (simp add: loop_ok_def observed_ok_def)
    qed (use lr base in \<open>auto simp: lifecycle_result_def\<close>)
  qed
qed

subsection \<open>Processing and arming\<close>

text \<open>The path while a completed payload is processed.\<close>

definition processing_ok :: "ReceivePath \<Rightarrow> bool" where
  "processing_ok p \<longleftrightarrow> receive_base p \<and> lc_pending p = None \<and> lc_ready p = None \<and> path_owned p = {}
     \<and> (br_state (lc_session p) = BrProcessing \<and> xa_state (path_xa p) = Processing \<and> path_active p
        \<or> br_state (lc_session p) = BrPoisoned \<and> xa_state (path_xa p) = Poisoned)"

lemma processing_of_ready:
  assumes ok: "receive_ok p" and ready: "lc_ready p = Some (info, stats)"
  shows "processing_ok (p\<lparr> lc_ready := None \<rparr>)"
proof -
  have "lc_pending p = None" "path_owned p = {}" using ready_owns_nothing [OF ok] ready by auto
  then show ?thesis
    using ok ready by (cases "br_state (lc_session p)") (simp_all add: processing_ok_def receive_ok_def receive_phase_def receive_base_def)
qed

lemma processing_poisoned: "processing_ok p \<Longrightarrow> receive_ok (poison_receive_path p)"
  by (rule receive_ok_poisoned) (simp_all add: processing_ok_def)

lemma finish_both_ok:
  assumes ok: "processing_ok p" and op: "finish_both p = (r, p')"
  shows "path_owned p' = {} \<and> (is_ok r \<longrightarrow> receive_base p' \<and> br_state (lc_session p') = BrIdle
    \<and> xa_state (path_xa p') = Idle \<and> lc_pending p' = None \<and> lc_ready p' = None \<and> path_active p'
    \<and> lc_usb_session p' = lc_usb_session p)"
proof -
  obtain re ep where ep: "finish_exact_payload_processing (lc_endpoint p) = (re, ep)" by fastforce
  have new: "endpoint_ok ep" using endpoint_ok_finish [of "lc_endpoint p"] ok ep by (simp add: processing_ok_def receive_base_def)
  have keep: "pe_ep_rx ep = pe_ep_rx (lc_endpoint p)" "pe_prearmed_read ep = pe_prearmed_read (lc_endpoint p)"
    "is_ok re \<longrightarrow> xa_state (pe_exact_aio ep) = Idle \<and> xa_state (path_xa p) = Processing"
    using ep by (auto simp: finish_exact_payload_processing_def finish_processing_def clear_transaction_def Let_def split: if_splits)
  have ses: "br_state (snd (session_finish_processing s)) = BrIdle" if "is_ok (fst (session_finish_processing s))" for s
    using that by (auto simp: session_finish_processing_def cas_def split: if_splits)
  show ?thesis
    using op ok ep new keep ses [of "lc_session p"]
    by (cases re) (auto simp: finish_both_def processing_ok_def receive_base_def split: prod.splits)
qed

lemma finish_production_ok:
  assumes ok: "processing_ok p" and op: "finish_production p = (ex, p')"
  shows "(ex = Again \<and> receive_ok p' \<and> br_state (lc_session p') = BrIdle \<and> lc_usb_session p' = lc_usb_session p)
    \<or> (\<exists>e. ex = Fail e \<and> path_owned p' = {})"
proof -
  obtain r p1 where fb: "finish_both p = (r, p1)" by fastforce
  note F = finish_both_ok [OF ok fb]
  show ?thesis
  proof (cases r)
    case (Inl e)
    then show ?thesis using op fb F by (auto simp: finish_production_def)
  next
    case (Inr u)
    then have "finish_status_on_set_diagnostic_transaction (lc_globals p1)
        = (Ok (), (lc_globals p1)\<lparr> diagnostic_guard := (diagnostic_guard (lc_globals p1))\<lparr> sg_active := False \<rparr> \<rparr>)"
      using F by (simp add: finish_status_on_set_diagnostic_transaction_def release_after_cleanup_def)
    then show ?thesis
      using op fb F Inr by (auto simp: finish_production_def receive_ok_def receive_base_def receive_phase_def)
  qed
qed

lemma observe_processing:
  assumes "processing_ok p"
  shows "receive_ok (snd (observe_aio_lifecycle LcDisable p))
    \<and> br_state (lc_session (snd (observe_aio_lifecycle LcDisable p))) = BrPoisoned
    \<and> lc_usb_session (snd (observe_aio_lifecycle LcDisable p)) = WaitingForHost"
proof -
  have own: "currently_owned (lc_session p)" and st: "br_state (lc_session p) \<noteq> BrIdle" "br_state (lc_session p) \<noteq> BrAborted"
    using assms by (auto simp: processing_ok_def currently_owned_def)
  have "receive_ok (poison_receive_path (p\<lparr> lc_lifecycle_events := n \<rparr>))" for n
    using processing_poisoned [of "p\<lparr> lc_lifecycle_events := n \<rparr>"] assms by (simp add: processing_ok_def receive_base_def)
  then show ?thesis
    using own st by (simp add: observe_aio_lifecycle_def classify_usb_lifecycle_def is_proven_idle_def proven_idle_gate_def Let_def)
qed

lemma finish_frame_ok:
  assumes prod: "production cfg" and ok: "processing_ok p" and op: "finish_frame cfg tu p = (ex, p')"
    and usb: "lc_usb_session p = ContainedSession \<longrightarrow> br_state (lc_session p) = BrPoisoned"
  shows "(ex = Again \<and> receive_ok p' \<and> (lc_usb_session p' = ContainedSession \<longrightarrow> br_state (lc_session p') = BrPoisoned))
    \<or> (\<exists>e. ex = Fail e \<and> path_owned p' = {})"
proof -
  have real: ?thesis if "finish_production p = (ex, p')"
  proof -
    have "xa_state (path_xa p) = Processing" if "ex = Again"
      using that \<open>finish_production p = (ex, p')\<close>
      by (auto simp: finish_production_def finish_both_def finish_exact_payload_processing_def finish_processing_def
          split: prod.splits sum.splits if_splits)
    then have "ex = Again \<longrightarrow> lc_usb_session p \<noteq> ContainedSession" using ok usb by (auto simp: processing_ok_def)
    then show ?thesis using finish_production_ok [OF ok that] by auto
  qed
  have barrier: "receive_ok (poison_counted p)" using processing_poisoned [OF ok] by simp
  show ?thesis
    using op prod real barrier observe_processing [OF ok]
    by (auto simp: finish_frame_def production_def split: if_splits option.splits sum.splits bool.splits)
qed

text \<open>A dropped frame poisons exactly in the exact receive mode.\<close>

lemma dropped_simps [simp]:
  "fault aio e = FrameDropped b \<longleftrightarrow> b \<and> aio \<and> \<not> panics (Inl e :: unit result)"
  "skip_frame aio e = FrameDropped b \<longleftrightarrow> b = aio \<and> \<not> panics (Inl e :: unit result)"
  by (auto simp: fault_def skip_frame_def split: if_splits)

lemma prepare_waiting_dropped:
  "prepare_waiting be oc aio format pattern di d = (Inl (FrameDropped b), di', d') \<Longrightarrow> b = aio"
  by (auto simp: prepare_waiting_def split: if_splits prod.splits sum.splits)

lemma draw_frame_dropped:
  "draw_frame be aio format pattern info payload source scaled di d = (Inl (FrameDropped b), di', d') \<Longrightarrow> b = aio"
  by (auto simp: draw_frame_def draw_scaled_def draw_direct_def draw_pattern_def Let_def split: if_splits prod.splits sum.splits)

lemma present_frame_dropped:
  "present_frame be aio swap clip changed di d = (Inl (FrameDropped b), di', d') \<Longrightarrow> b = aio"
  by (auto simp: present_frame_def present_back_def Let_def split: if_splits prod.splits sum.splits)

lemma reveal_content_dropped:
  "reveal_content be aio pattern info source di d = (FrameDropped b, di', d') \<Longrightarrow> b = aio"
  by (auto simp: reveal_content_def Let_def split: if_splits prod.splits sum.splits)

lemma process_frame_dropped:
  "process_frame be oc aio format pattern panel st info payload di d = (FrameDropped b, di', d') \<Longrightarrow> b = aio"
  by (auto simp: process_frame_def show_frame_def split: prod.splits sum.splits
      dest!: prepare_waiting_dropped draw_frame_dropped present_frame_dropped reveal_content_dropped)

lemma process_payload_ok:
  assumes prod: "production (sv_cfg sv)" and ok: "processing_ok (lp_path lp)" and pre: "lp_prearmed lp = None"
    and none: "lp_boundary lp = None"
    and usb: "lc_usb_session (lp_path lp) = ContainedSession \<longrightarrow> br_state (lc_session (lp_path lp)) = BrPoisoned"
    and op: "process_payload be sv tu info lp = (ex, lp')"
  shows "turn_ok ex lp'"
proof -
  let ?p = "lp_path lp" and ?cfg = "sv_cfg sv"
  obtain r dest where fin: "finish_payload (co_lz4 (sv_codec sv)) info (pe_buf (lc_endpoint ?p)) (pe_compress_buf (lc_endpoint ?p)) = (r, dest)"
    by fastforce
  let ?q = "?p\<lparr> lc_endpoint := (lc_endpoint ?p)\<lparr> pe_compress_buf := dest \<rparr> \<rparr>"
  have q: "processing_ok ?q" using ok by (auto simp: processing_ok_def receive_base_def endpoint_ok_def Let_def)
  have usbq: "lc_usb_session ?q = ContainedSession \<longrightarrow> br_state (lc_session ?q) = BrPoisoned" using usb by simp
  have pois: "receive_ok (poison_receive_path ?q)" by (rule processing_poisoned [OF q])
  have cfg: "cfg_aio_mode ?cfg" "cfg_prearm_bytes ?cfg = None" using prod by (simp_all add: production_def)
  show ?thesis
  proof (cases r)
    case (Inl e)
    then have "ex = Again" "lp' = lp\<lparr> lp_path := poison_counted ?q \<rparr>"
      using op fin cfg by (auto simp: process_payload_def Let_def)
    then show ?thesis using pois pre none by (simp add: loop_ok_def)
  next
    case (Inr payload)
    let ?lp = "lp\<lparr> lp_path := ?q \<rparr>"
    obtain out di d where fr: "process_frame be (sv_overflow_checks sv) True (cfg_format ?cfg) (cfg_pattern ?cfg) (sv_panel sv)
        (active_scanout_state (lc_globals ?p)) info payload (lp_display lp) (lp_dev lp) = (out, di, d)" by (rule prod_cases3)
    show ?thesis
    proof (cases out)
      case (FrameFailed e)
      then have "ex = DisplayFail e" using op fin Inr fr cfg by (auto simp: process_payload_def Let_def)
      then show ?thesis by simp
    next
      case (FrameDropped poisoned)
      then have p': "ex = Again" "lp' = ?lp\<lparr> lp_display := di, lp_dev := d, lp_path := (if poisoned then poison_counted ?q else ?q) \<rparr>"
        using op fin Inr fr cfg by (auto simp: process_payload_def Let_def)
      have "poisoned" using process_frame_dropped [OF fr [unfolded FrameDropped]] by simp
      then show ?thesis using p' pois pre none by (simp add: loop_ok_def)
    next
      case FrameDone
      obtain ex' p2 where ff: "finish_frame ?cfg tu ?q = (ex', p2)" by fastforce
      then have p': "ex = ex'" "lp' = ?lp\<lparr> lp_display := di, lp_dev := d, lp_path := p2 \<rparr>"
        using op fin Inr fr cfg FrameDone by (auto simp: process_payload_def Let_def)
      from finish_frame_ok [OF prod q ff usbq] show ?thesis
        using p' pre none by (auto simp: loop_ok_def turn_ok_Fail)
    qed
  qed
qed

lemma arm_receive_ok:
  assumes prod: "production cfg" and ok: "receive_ok p" and un: "\<not> currently_owned (lc_session p)"
    and op: "arm_receive cfg tu info p = (ex, p')"
  shows "lc_usb_session p' = lc_usb_session p \<and> ((ex = Again \<and> receive_ok p') \<or> (\<exists>e. ex = Fail e \<and> path_owned p' = {}))"
proof -
  note U = unowned_phase [OF ok un]
  show ?thesis
  proof (cases "br_state (lc_session p) = BrIdle")
    case False
    then show ?thesis using op U by (auto simp: arm_receive_def begin_receive_def cas_def)
  next
    case True
    have xa: "xa_state (path_xa p) = Idle" using ok True by (simp add: receive_ok_def receive_phase_def)
    let ?s = "(lc_session p)\<lparr> br_state := BrArming \<rparr>"
    have br: "begin_receive (tu_begin_now tu) (lc_session p) = (Ok (tu_begin_now tu), ?s)"
      using True by (simp add: begin_receive_def cas_def)
    obtain r ep g where arm: "arm_exact_payload_aio (tu_capacity tu) (tu_submit tu) (tu_arm_now tu) info
        (lc_endpoint p, lc_globals p) = (r, ep, g)" by (rule prod_cases3)
    note A = endpoint_ok_arm [OF receive_ok_endpoint [OF ok] arm]
    have keep: "diagnostic_guard g = diagnostic_guard (lc_globals p)" "pe_prearmed_read ep = pe_prearmed_read (lc_endpoint p)"
      using arm by (auto simp: arm_exact_payload_aio_def Let_def status_ops split: if_splits prod.splits sum.splits)
    show ?thesis
    proof (cases r)
      case (Inl e)
      then have "ex = Again" "p' = p\<lparr> lc_session := ?s\<lparr> br_state := BrIdle \<rparr>, lc_endpoint := ep, lc_globals := g \<rparr>"
        using op br arm by (auto simp: arm_receive_def cancel_receive_before_io_def cas_def)
      then show ?thesis
        using A Inl xa keep U receive_ok_base [OF ok] by (simp add: receive_ok_def receive_base_def receive_phase_def)
    next
      case (Inr seq)
      let ?p1 = "p\<lparr> lc_endpoint := ep, lc_globals := g, lc_session := ?s\<lparr> br_state := BrInFlight \<rparr> \<rparr>"
      have tr: "track_receive cfg info (tu_begin_now tu) seq ?p1 = (ex, p')"
        using op br arm Inr by (simp add: arm_receive_def session_submission_accepted_def cas_def Let_def)
      have lim: "sg_transaction_limit (diagnostic_guard (lc_globals p)) = 0" "lc_drain p = None" "pe_prearmed_read (lc_endpoint p) = None"
        using receive_ok_base [OF ok] by (simp_all add: receive_base_def)
      have "begin_status_on_set_diagnostic_transaction g
          = (Ok (sg_started_transactions (diagnostic_guard g)), g\<lparr> diagnostic_guard := (diagnostic_guard g)\<lparr> sg_active := True \<rparr> \<rparr>)"
        using U lim keep by (simp add: begin_status_on_set_diagnostic_transaction_def begin_after_aio_acceptance_def)
      then have "ex = Again" "p' = ?p1\<lparr> lc_globals := g\<lparr> diagnostic_guard := (diagnostic_guard g)\<lparr> sg_active := True \<rparr> \<rparr>,
            lc_pending := Some (info, tu_begin_now tu, seq) \<rparr>"
        using tr prod lim by (auto simp: track_receive_def production_def)
      then show ?thesis
        using A Inr keep U lim by (simp add: receive_ok_def receive_base_def receive_phase_def)
    qed
  qed
qed

lemma contain_pending_ok:
  assumes "receive_ok p"
  shows "receive_ok (contain_pending p) \<and> lc_usb_session (contain_pending p) = lc_usb_session p
    \<and> br_state (lc_session (contain_pending p)) = BrPoisoned"
proof -
  have "receive_ok (contain_pending p)" unfolding contain_pending_def
    using receive_ok_base [OF assms] ready_owns_nothing [OF assms]
    by (intro receive_ok_poisoned) (simp_all add: receive_base_def)
  then show ?thesis by (simp add: contain_pending_def)
qed

lemma status_sent_ok:
  assumes ok: "receive_ok p" and op: "status_sent_event limit st p = (ex, p')"
  shows "ex = Again \<and> receive_ok p' \<and> same_service p p'"
proof -
  obtain r ep where ns: "note_status_sent st (lc_endpoint p) = (r, ep)" by fastforce
  let ?p1 = "p\<lparr> lc_drain := None, lc_endpoint := ep \<rparr>"
  have dr: "lc_drain p = None" using receive_ok_base [OF ok] by (simp add: receive_base_def)
  have new: "endpoint_ok ep" using endpoint_ok_status [OF receive_ok_endpoint [OF ok], of st] ns by simp
  have keep: "pe_ep_rx ep = pe_ep_rx (lc_endpoint p)" "pe_prearmed_read ep = pe_prearmed_read (lc_endpoint p)" "pe_buf ep = pe_buf (lc_endpoint p)"
    "xa_state (pe_exact_aio ep) = xa_state (path_xa p)" "xa_metadata (pe_exact_aio ep) = xa_metadata (path_xa p)"
    using ns by (auto simp: note_status_sent_def status_sent_def split: if_splits)
  have p1: "receive_ok ?p1"
    using ok new keep dr by (cases "br_state (lc_session p)") (simp_all add: receive_ok_def receive_base_def receive_phase_def)
  have "ex = Again" "p' = (if \<not> is_ok r \<and> lc_pending ?p1 \<noteq> None then contain_pending ?p1 else ?p1)"
    using op ns dr by (simp_all add: status_sent_event_def observe_drain_def Let_def split: if_splits)
  then show ?thesis using p1 contain_pending_ok [OF p1] by (auto simp: same_service_def contain_pending_def)
qed

subsection \<open>Every turn\<close>

text \<open>An event of the control endpoint leaves the guard alone, and a \<open>Buffer\<close> comes only with the guard free.\<close>

lemma receive_ok_globals:
  "receive_ok p \<Longrightarrow> same_config (lc_globals p) g \<Longrightarrow> receive_ok (p\<lparr> lc_globals := g \<rparr>)"
  by (subst receive_ok_cong [of _ p]) (simp_all add: same_config_def)

lemma loop_ok_path:
  "loop_ok lp \<Longrightarrow> receive_ok p \<Longrightarrow> same_service (lp_path lp) p \<Longrightarrow> loop_ok (lp\<lparr> lp_path := p \<rparr>)"
  by (auto simp: loop_ok_def same_service_def)

lemma loop_ok_display [simp]: "loop_ok (lp\<lparr> lp_display := di, lp_dev := d \<rparr>) = loop_ok lp"
  "loop_ok (lp\<lparr> lp_host_session := h \<rparr>) = loop_ok lp"
  by (simp_all add: loop_ok_def)

lemma dispatch_ok:
  assumes prod: "production (sv_cfg sv)" and ok: "loop_ok lp" and none: "lp_boundary lp = None"
    and buf: "\<forall>info. ev = Event.Buffer info \<longrightarrow> \<not> currently_owned (lc_session (lp_path lp))"
    and op: "dispatch be sv tu ev None lp = (ex, lp')"
  shows "turn_ok ex lp'"
proof -
  have rok: "receive_ok (lp_path lp)" using ok by (simp add: loop_ok_def)
  have reply: "turn_ok ex lp'" if "reply_exit out lp = (ex, lp')" "same_config (lc_globals (lp_path lp)) (fst (snd out))" for out
  proof -
    have "lp' = lp\<lparr> lp_path := (lp_path lp)\<lparr> lc_globals := fst (snd out) \<rparr> \<rparr>" "ex = Again \<or> (\<exists>m. ex = Fail (Panic m))"
      using that(1) by (auto simp: reply_exit_def split: prod.splits sum.splits err.splits)
    moreover have "loop_ok (lp\<lparr> lp_path := (lp_path lp)\<lparr> lc_globals := fst (snd out) \<rparr> \<rparr>)"
      using receive_ok_globals [OF rok that(2)] ok by (intro loop_ok_path) (simp_all add: same_service_def)
    ultimately show ?thesis by auto
  qed
  show ?thesis
  proof (cases ev)
    case (StatusSent st)
    obtain ex' p1 where se: "status_sent_event (cfg_transaction_limit (sv_cfg sv)) st (lp_path lp) = (ex', p1)" by fastforce
    from status_sent_ok [OF rok se] show ?thesis
      using op StatusSent se loop_ok_path [OF ok] by (auto simp: dispatch_def Let_def)
  next
    case (ProtocolStateInvalidated g reason)
    have "cfg_prearm_bytes (sv_cfg sv) = None" using prod by (simp add: production_def)
    then show ?thesis using op ProtocolStateInvalidated ok
      by (auto simp: dispatch_def invalidated_event_def Let_def split: if_splits prod.splits)
  next
    case (Buffer info)
    have un: "\<not> currently_owned (lc_session (lp_path lp))" using buf Buffer by blast
    have aio: "cfg_aio_mode (sv_cfg sv)" using prod by (simp add: production_def)
    obtain ex' p1 where ar: "arm_receive (sv_cfg sv) tu info (lp_path lp) = (ex', p1)" by fastforce
    note A = arm_receive_ok [OF prod rok un ar]
    have "lc_usb_session (lp_path lp) \<noteq> ContainedSession" using ok un by (auto simp: loop_ok_def currently_owned_def)
    then have again: "loop_ok (lp\<lparr> lp_path := p1 \<rparr>)" if "receive_ok p1" using ok none that A by (simp add: loop_ok_def)
    show ?thesis
    proof (cases "update_clip (sv_overflow_checks sv) info")
      case (Inl e)
      then show ?thesis using op Buffer unowned_phase [OF rok un] by (auto simp: dispatch_def buffer_event_def turn_ok_Fail)
    next
      case (Inr c)
      then have "ex = ex'" "lp' = lp\<lparr> lp_path := p1 \<rparr>"
        using op Buffer aio ar by (auto simp: dispatch_def buffer_event_def)
      then show ?thesis using A again by (auto simp: turn_ok_Fail)
    qed
  qed (use op ok reply same_config_replies in
     \<open>auto simp: dispatch_def descriptor_reply_def Let_def split: prod.splits sum.splits\<close>)
qed

lemma control_event_ok:
  assumes prod: "production (sv_cfg sv)" and ok: "loop_ok lp" and none: "lp_boundary lp = None"
    and buf: "\<forall>info. ev = Event.Buffer info \<longrightarrow> \<not> currently_owned (lc_session (lp_path lp))"
    and op: "service_event be sv tu ev None lp = (ex, lp')"
  shows "turn_ok ex lp'"
proof -
  let ?lp = "lp\<lparr> lp_host_session := lp_host_session lp \<or> event_is_host_activity ev \<rparr>"
  obtain r lp1 where lc: "(case ev of ProtocolStateInvalidated _ reason \<Rightarrow> lifecycle_event be sv reason ?lp | _ \<Rightarrow> (Inr (), ?lp)) = (r, lp1)"
    by fastforce
  have L: "case r of Inl ex' \<Rightarrow> turn_ok ex' lp1 | Inr _ \<Rightarrow> loop_ok lp1 \<and> lp_boundary lp1 = None"
    using lc lifecycle_turn_ok [of ?lp be sv _ r lp1] ok none by (cases ev) auto
  have same: "lp1 = ?lp" if "ev = Event.Buffer info" for info using lc that by simp
  show ?thesis
  proof (cases r)
    case (Inl ex')
    then show ?thesis using op lc L by (simp add: service_event_def Let_def)
  next
    case (Inr u)
    have ok1: "loop_ok lp1" "lp_boundary lp1 = None" using L Inr by simp_all
    have buf1: "\<forall>info. ev = Event.Buffer info \<longrightarrow> \<not> currently_owned (lc_session (lp_path lp1))" using buf same by fastforce
    have "receive_ok (lp_path lp1)" using ok1 by (simp add: loop_ok_def)
    then have cont: "loop_ok (lp1\<lparr> lp_path := contain_pending (lp_path lp1) \<rparr>)"
      using contain_pending_ok ok1 by (auto simp: loop_ok_def)
    show ?thesis
      using op lc Inr cont dispatch_ok [OF prod ok1 buf1, of be tu ex lp']
      by (auto simp: service_event_def Let_def split: if_splits)
  qed
qed

lemma payload_event_ok:
  assumes prod: "production (sv_cfg sv)" and ok: "loop_ok lp" and none: "lp_boundary lp = None"
    and ready: "lc_ready (lp_path lp) = Some (info, stats)"
    and op: "service_event be sv tu (Event.Buffer info) (Some stats)
               (lp\<lparr> lp_path := (lp_path lp)\<lparr> lc_ready := None \<rparr> \<rparr>) = (ex, lp')"
  shows "turn_ok ex lp'"
proof -
  let ?lp = "lp\<lparr> lp_path := (lp_path lp)\<lparr> lc_ready := None \<rparr>, lp_host_session := True \<rparr>"
  have pok: "processing_ok ((lp_path lp)\<lparr> lc_ready := None \<rparr>)"
    by (rule processing_of_ready [OF _ ready]) (use ok in \<open>simp add: loop_ok_def\<close>)
  have aio: "cfg_aio_mode (sv_cfg sv)" using prod by (simp add: production_def)
  have be: "buffer_event be sv tu info (Some stats) ?lp = (ex, lp')"
    using op pok by (simp add: service_event_def dispatch_def conflicts_with_owned_exact_receive_def Let_def)
  show ?thesis
  proof (cases "update_clip (sv_overflow_checks sv) info")
    case (Inl e)
    then show ?thesis using be pok by (auto simp: buffer_event_def processing_ok_def turn_ok_Fail)
  next
    case (Inr c)
    then have pp: "process_payload be sv tu info ?lp = (ex, lp')" using be aio by (simp add: buffer_event_def)
    show ?thesis
      by (rule process_payload_ok [OF prod _ _ _ _ pp]) (use pok ok none in \<open>simp_all add: loop_ok_def\<close>)
  qed
qed

lemma receive_event_ok:
  assumes prod: "production (sv_cfg sv)" and ok: "loop_ok lp" and none: "lp_boundary lp = None"
    and op: "receive_event be sv tu lp = (ex, lp')"
  shows "turn_ok ex lp'"
proof -
  have rok: "receive_ok (lp_path lp)" using ok by (simp add: loop_ok_def)
  have pois: "loop_ok (lp\<lparr> lp_path := poison_receive_path p \<rparr>)" if "receive_ok p" "same_service (lp_path lp) p" for p
    using receive_ok_poison [OF that(1)] that ok by (intro loop_ok_path) (auto simp: same_service_def)
  show ?thesis
  proof (cases "tu_poll tu")
    case (Inl e)
    have "loop_ok (lp\<lparr> lp_path := lp_path lp \<rparr>)" using ok by simp
    then show ?thesis
      using op Inl pois [OF rok] by (auto simp: receive_event_def control_failure_def same_service_def Let_def split: if_splits)
  next
    case (Inr polled)
    show ?thesis
    proof (cases polled)
      case None
      show ?thesis
      proof (cases "lc_ready (lp_path lp)")
        case None2: None
        then show ?thesis using op Inr None ok by (auto simp: receive_event_def Let_def)
      next
        case (Some x)
        obtain info stats where x: "x = (info, stats)" by fastforce
        then show ?thesis
          using op Inr None Some payload_event_ok [OF prod ok none, of info stats be tu ex lp']
          by (simp add: receive_event_def Let_def)
      qed
    next
      case (Some ev)
      let ?g0 = "lc_globals (lp_path lp)"
      obtain r g out where e: "event (sv_overflow_checks sv) (co_connector (sv_codec sv)) (co_header (sv_codec sv))
          (co_buffer (sv_codec sv)) ev ?g0 = (r, g, out)" by (rule prod_cases3)
      have sc: "same_config ?g0 g"
        using same_config_event [of ?g0 "sv_overflow_checks sv" "co_connector (sv_codec sv)" "co_header (sv_codec sv)"
          "co_buffer (sv_codec sv)" ev] e by simp
      let ?p = "(lp_path lp)\<lparr> lc_globals := g \<rparr>"
      have p: "receive_ok ?p" "same_service (lp_path lp) ?p" using receive_ok_globals [OF rok sc] by (simp_all add: same_service_def)
      have lpg: "loop_ok (lp\<lparr> lp_path := ?p \<rparr>)" using loop_ok_path [OF ok p] .
      show ?thesis
      proof (cases "ep0_suppressed ev (lp_path lp)")
        case True
        then show ?thesis using op Inr Some ok by (auto simp: receive_event_def Let_def)
      next
        case False
        show ?thesis
        proof (cases r)
          case Inl2: (Inl err)
          show ?thesis
          proof (cases "panics (Inl err :: unit result)")
            case True
            then obtain m where "err = Panic m" by (cases err) simp_all
            then show ?thesis using op Inr Some False e Inl2 by (auto simp: receive_event_def Let_def)
          next
            case nopanic: False
            show ?thesis
              using op Inr Some False e Inl2 nopanic pois [OF p] lpg
              by (auto simp: receive_event_def Let_def split: if_splits)
          qed
        next
          case Inr2: (Inr parsed)
          show ?thesis
          proof (cases parsed)
            case None
            then show ?thesis using op Inr Some False e Inr2 lpg by (auto simp: receive_event_def Let_def)
          next
            case Some2: (Some gev)
            have buf: "\<forall>info. gev = Event.Buffer info \<longrightarrow> \<not> currently_owned (lc_session (lp_path (lp\<lparr> lp_path := ?p \<rparr>)))"
            proof (intro allI impI)
              fix info
              assume "gev = Event.Buffer info"
              then obtain req where ev: "ev = SetupHostToDevice req" and perm: "status_on_set_set_buffer_permitted ?g0"
                using event_Buffer_D e Inr2 Some2 by metis
              then have "br_state (lc_session (lp_path lp)) \<noteq> BrPoisoned" using False by (simp add: ep0_suppressed_def)
              moreover have "\<not> path_active (lp_path lp)"
                using perm by (simp add: status_on_set_set_buffer_permitted_def set_buffer_permitted_def)
              ultimately have "\<not> currently_owned (lc_session (lp_path lp))"
                using rok by (cases "br_state (lc_session (lp_path lp))")
                   (simp_all add: receive_ok_def receive_phase_def currently_owned_def)
              then show "\<not> currently_owned (lc_session (lp_path (lp\<lparr> lp_path := ?p \<rparr>)))" by simp
            qed
            have none': "lp_boundary (lp\<lparr> lp_path := ?p \<rparr>) = None" using none by simp
            show ?thesis
              using op Inr Some False e Inr2 Some2 control_event_ok [OF prod lpg none' buf, of be tu ex lp']
              by (simp add: receive_event_def Let_def)
          qed
        qed
      qed
    qed
  qed
qed

lemma loop_turn_ok:
  assumes prod: "production (sv_cfg sv)" and ok: "loop_ok lp" and op: "loop_turn be sv tu lp = (ex, lp')"
  shows "turn_ok ex lp'"
proof (cases "epoch_can_retire lp")
  case True
  then show ?thesis using op loop_ok_retire [OF ok True, of ex lp'] by (auto simp: loop_turn_def turn_ok_Fail)
next
  case False
  have rok: "receive_ok (lp_path lp)" using ok by (simp add: loop_ok_def)
  then have dr: "drain_expired (tu_drain_now tu) (lp_path lp) = (False, lp_path lp)"
    by (simp add: drain_expired_def receive_ok_def receive_base_def)
  obtain stop p2 where po: "poll_completion tu (lp_path lp) = (stop, p2)" by fastforce
  have ok2: "loop_ok (lp\<lparr> lp_path := p2 \<rparr>)" using receive_ok_poll [OF rok po] loop_ok_path [OF ok] by blast
  show ?thesis
  proof (cases "lp_boundary lp = None")
    case True
    then show ?thesis
      using op False dr po ok2 receive_event_ok [OF prod ok2, of be tu ex lp']
      by (auto simp: loop_turn_def Let_def split: if_splits)
  next
    case bd: False
    then show ?thesis using op False dr po ok2 by (auto simp: loop_turn_def Let_def split: if_splits)
  qed
qed

lemma loop_env_ok: "loop_env lp lp' \<Longrightarrow> loop_ok lp \<Longrightarrow> loop_ok lp'"
proof -
  assume env: "loop_env lp lp'" and ok: "loop_ok lp"
  have new: "endpoint_ok (lc_endpoint (lp_path lp'))"
    using endpoint_ok_step [OF loop_env_step [OF env]] ok by (simp add: loop_ok_def receive_ok_endpoint)
  have own: "path_owned (lp_path lp') = path_owned (lp_path lp)"
    using env
  proof cases
    case connect
    then show ?thesis by (simp add: receiver_owned_def new_driver_def ids_defs)
  next
    case close
    then show ?thesis by (simp add: receiver_owned_def)
  next
    case (background a a')
    have "aio_ok a" using background receive_ok_endpoint [of "lp_path lp"] ok
      by (simp add: loop_ok_def endpoint_ok_def Let_def receiver_ok_def)
    from background_owned [OF background(3) this] show ?thesis using background by (simp add: receiver_owned_def)
  qed
  have rest: "lc_session (lp_path lp') = lc_session (lp_path lp)" "lc_pending (lp_path lp') = lc_pending (lp_path lp)"
    "lc_ready (lp_path lp') = lc_ready (lp_path lp)" "lc_drain (lp_path lp') = lc_drain (lp_path lp)"
    "lc_globals (lp_path lp') = lc_globals (lp_path lp)" "path_xa (lp_path lp') = path_xa (lp_path lp)"
    "pe_prearmed_read (lc_endpoint (lp_path lp')) = pe_prearmed_read (lc_endpoint (lp_path lp))"
    "pe_buf (lc_endpoint (lp_path lp')) = pe_buf (lc_endpoint (lp_path lp))" "lc_usb_session (lp_path lp') = lc_usb_session (lp_path lp)"
    "lp_boundary lp' = lp_boundary lp" "lp_prearmed lp' = lp_prearmed lp"
    using env by (auto elim!: loop_env.cases)
  have "receive_ok (lp_path lp')"
    using ok new own rest by (cases "br_state (lc_session (lp_path lp))")
       (simp_all add: loop_ok_def receive_ok_def receive_base_def receive_phase_def)
  then show ?thesis using ok rest by (simp add: loop_ok_def)
qed

lemma start_loop_ok:
  assumes "production cfg" and "cfg_endpoint cfg = build_endpoint rs legacy"
  shows "loop_ok (start_loop cfg g di d)"
  using assms
  by (simp add: loop_ok_def start_loop_def start_path_def receive_ok_def receive_base_def receive_phase_def
      with_deadline_def configure_status_on_set_diagnostic_def production_def build_endpoint_def endpoint_ok_def Let_def
      receiver_ok_def receiver_owned_def xa_ok_def default_exact_aio_def)

lemma loop_reachable_ok:
  assumes "production (sv_cfg sv)" and "cfg_endpoint (sv_cfg sv) = build_endpoint rs legacy"
    and "loop_reachable be sv (start_loop (sv_cfg sv) g di d) lp"
  shows "loop_ok lp"
  using assms(3)
proof (induction rule: loop_reachable.induct)
  case start
  then show ?case by (rule start_loop_ok [OF assms(1,2)])
next
  case (turn lp tu lp')
  from loop_turn_ok [OF assms(1) turn.IH turn.hyps(2)] show ?case by simp
next
  case (env lp lp')
  from loop_env_ok [OF env.hyps(2) env.IH] show ?case .
qed

end
