(* ===== verification/Drm_Loop_Runs.thy ===== *)
theory Drm_Loop_Runs
  imports Drm_Loop_Safety
begin

text \<open>
  Whole turns of the event loop: what becomes of a received payload, what the end of the loop means for the
  kernel, and the situations in which the loop does not do what its messages say. A concrete run stands
  for the hypotheses.
\<close>

section \<open>A completed receive\<close>

text \<open>A completed receive is polled and processed in the same turn.\<close>

definition quiet_path :: "ReceivePath \<Rightarrow> bool" where
  "quiet_path p \<longleftrightarrow> br_state (lc_session p) = BrIdle \<and> xa_state (path_xa p) = Idle \<and> lc_pending p = None \<and> lc_ready p = None
     \<and> \<not> path_active p \<and> path_owned p = {}"

definition contained_path :: "ReceivePath \<Rightarrow> bool" where
  "contained_path p \<longleftrightarrow> br_state (lc_session p) = BrPoisoned \<and> xa_state (path_xa p) = Poisoned"

lemma finish_production_quiet:
  assumes ok: "processing_ok p" and br: "br_state (lc_session p) = BrProcessing"
  shows "\<exists>p'. finish_production p = (Again, p') \<and> quiet_path p'"
proof -
  obtain ex p' where op: "finish_production p = (ex, p')" by fastforce
  have xa: "xa_state (path_xa p) = Processing" "path_active p" using ok br by (auto simp: processing_ok_def)
  have "ex = Again"
    using op xa br
    by (auto simp: finish_production_def finish_both_def finish_exact_payload_processing_def finish_processing_def
        session_finish_processing_def cas_def finish_status_on_set_diagnostic_transaction_def release_after_cleanup_def
        split: prod.splits sum.splits if_splits)
  with finish_production_ok [OF ok op] have R: "receive_ok p'" "br_state (lc_session p') = BrIdle" by auto
  then have "\<not> currently_owned (lc_session p')" by (simp add: currently_owned_def)
  from unowned_phase [OF R(1) this] R have "quiet_path p'"
    by (simp add: quiet_path_def receive_ok_def receive_phase_def)
  then show ?thesis using op \<open>ex = Again\<close> by blast
qed

text \<open>The turn that completes the receive of \<open>info\<close>, up to the processing of its payload.\<close>

lemma completing_turn:
  assumes ok: "loop_ok lp" and none: "lp_boundary lp = None" and aio: "cfg_aio_mode (sv_cfg sv)"
    and pend: "lc_pending (lp_path lp) = Some (info, started, seq)"
    and tc: "try_complete_exact_payload_aio (tu_stats_now tu) (usb_activation_generation (lc_globals (lp_path lp)))
        (unat (sb_length info)) (lc_endpoint (lp_path lp)) = (Ok (Some stats), ep)"
    and dl: "tu_finish_now tu - started \<le> br_deadline (lc_session (lp_path lp))"
    and poll: "tu_poll tu = Ok None" and clip: "update_clip (sv_overflow_checks sv) info = Ok clip"
  shows "\<exists>p. loop_turn be sv tu lp = process_payload be sv tu info (lp\<lparr> lp_path := p, lp_host_session := True \<rparr>)
    \<and> processing_ok p \<and> br_state (lc_session p) = BrProcessing \<and> lc_endpoint p = ep \<and> lc_globals p = lc_globals (lp_path lp)
    \<and> length (pe_buf ep) = payload_bytes info"
proof -
  let ?p = "lp_path lp"
  have rok: "receive_ok ?p" using ok by (simp add: loop_ok_def)
  have epok: "endpoint_ok (lc_endpoint ?p)" by (rule receive_ok_endpoint [OF rok])
  have xa: "xa_state (path_xa ?p) = InFlight" using endpoint_ok_complete [OF epok tc] by simp
  have br: "br_state (lc_session ?p) = BrInFlight" using pending_phase [OF rok pend] xa by auto
  let ?s = "(lc_session ?p)\<lparr> br_state := BrProcessing \<rparr>"
  let ?q = "?p\<lparr> lc_endpoint := ep, lc_pending := None, lc_session := ?s, lc_ready := Some (info, stats) \<rparr>"
  have fin: "finish_receive (tu_finish_now tu) started (Ok stats) (lc_session ?p) = (Ok stats, ?s)"
    using dl br by (simp add: finish_receive_def cas_def)
  have po: "poll_completion tu ?p = (False, ?q)" using pend tc fin by (simp add: poll_completion_def Let_def)
  have rq: "receive_ok ?q" using receive_ok_poll [OF rok po] by simp
  have dr: "drain_expired (tu_drain_now tu) ?p = (False, ?p)"
    using rok by (simp add: drain_expired_def receive_ok_def receive_base_def)
  have ni: "\<not> is_proven_idle (proven_idle_gate ?p)" using pend by (simp add: is_proven_idle_def proven_idle_gate_def)
  let ?r = "?q\<lparr> lc_ready := None \<rparr>"
  have "loop_turn be sv tu lp = receive_event be sv tu (lp\<lparr> lp_path := ?q \<rparr>)"
    using none pend dr ni po by (simp add: loop_turn_def epoch_can_retire_def Let_def)
  also have "\<dots> = process_payload be sv tu info (lp\<lparr> lp_path := ?r, lp_host_session := True \<rparr>)"
    using poll clip aio
    by (simp add: receive_event_def service_event_def dispatch_def buffer_event_def conflicts_with_owned_exact_receive_def Let_def)
  finally have turn: "loop_turn be sv tu lp = process_payload be sv tu info (lp\<lparr> lp_path := ?r, lp_host_session := True \<rparr>)" .
  have "processing_ok ?r" by (rule processing_of_ready [OF rq]) simp
  moreover have "length (pe_buf ep) = payload_bytes info" using rq by (simp add: receive_ok_def receive_phase_def)
  ultimately show ?thesis using turn by (intro exI [of _ ?r]) simp
qed

section \<open>Where the loop goes astray\<close>

text \<open>
  A contained session that still has a completed payload: the next quiet turn processes the payload as if
  nothing had happened, and finishing the poisoned transaction ends \<open>main\<close> with an error, past the gate that is to keep
  a contained session up.
\<close>

lemma contained_payload_ends_service:
  assumes "production (sv_cfg sv)" and "cfg_barrier (sv_cfg sv) = None" and "loop_ok lp" and "lp_boundary lp = None"
    and "br_state (lc_session (lp_path lp)) = BrPoisoned" and "lc_ready (lp_path lp) = Some (info, stats)"
    and "tu_poll tu = Ok None" and "update_clip (sv_overflow_checks sv) info = Ok clip"
    and "finish_payload (co_lz4 (sv_codec sv)) info (pe_buf (lc_endpoint (lp_path lp))) (pe_compress_buf (lc_endpoint (lp_path lp)))
           = (Ok payload, dest)"
    and "process_frame be (sv_overflow_checks sv) True (cfg_format (sv_cfg sv)) (cfg_pattern (sv_cfg sv)) (sv_panel sv)
           (active_scanout_state (lc_globals (lp_path lp))) info payload (lp_display lp) (lp_dev lp) = (FrameDone, di, d)"
  shows "fst (loop_turn be sv tu lp) = Fail (Error ''return to Idle without successful processing'')"
proof -
  let ?p = "lp_path lp" and ?r = "(lp_path lp)\<lparr> lc_ready := None \<rparr>"
  have rok: "receive_ok ?p" using assms(3) by (simp add: loop_ok_def)
  have pend: "lc_pending ?p = None" using ready_owns_nothing [OF rok] assms(6) by simp
  have xa: "xa_state (path_xa ?p) = Poisoned" by (rule poisoned_phase [OF rok assms(5)])
  have dr: "drain_expired (tu_drain_now tu) ?p = (False, ?p)"
    using rok by (simp add: drain_expired_def receive_ok_def receive_base_def)
  have ni: "\<not> is_proven_idle (proven_idle_gate ?p)" using assms(6) by (simp add: is_proven_idle_def proven_idle_gate_def)
  have aio: "cfg_aio_mode (sv_cfg sv)" "cfg_status_on_set_bytes (sv_cfg sv) = None" "cfg_prearm_bytes (sv_cfg sv) = None"
    using assms(1) by (simp_all add: production_def)
  have "loop_turn be sv tu lp = receive_event be sv tu lp"
    using assms(4) pend dr ni by (simp add: loop_turn_def epoch_can_retire_def poll_completion_def Let_def)
  also have "\<dots> = process_payload be sv tu info (lp\<lparr> lp_path := ?r, lp_host_session := True \<rparr>)"
    using assms(6-8) aio pend
    by (simp add: receive_event_def service_event_def dispatch_def buffer_event_def conflicts_with_owned_exact_receive_def Let_def)
  finally show ?thesis
    using assms(2,9,10) aio xa
    by (simp add: process_payload_def finish_frame_def finish_production_def finish_both_def
        finish_exact_payload_processing_def finish_processing_def Let_def split: prod.splits)
qed

text \<open>
  A host that asks for an unadvertised state while a completed payload waits gets there: the lifecycle
  observation contains the session and the payload stays ready.
\<close>

lemma rejected_check_contains_payload:
  assumes "loop_ok lp" and "lc_ready (lp_path lp) = Some (info, stats)"
    and "observe_aio_lifecycle ProtocolInvalidation (lp_path lp) = (res, p)"
  shows "res = Contained \<and> br_state (lc_session p) = BrPoisoned \<and> lc_ready p = Some (info, stats) \<and> receive_ok p"
proof -
  have "receive_ok p"
    using observe_ok [of "lp_path lp" ProtocolInvalidation] assms(1,3) by (simp add: observed_ok_def loop_ok_def)
  then show ?thesis
    using assms(2,3)
    by (auto simp: observe_aio_lifecycle_def classify_usb_lifecycle_def is_proven_idle_def proven_idle_gate_def Let_def)
qed

text \<open>
  A GET_STATUS that reports an error before the receive was acknowledged gives up the pending receive,
  although the kernel still owns it. Its completion is then never fetched, so that after a disconnect the
  epoch never retires: the loop spins on the boundary for ever, whatever the kernel does.
\<close>

lemma status_error_orphans_receive:
  assumes "receive_ok p" and "lc_pending p = Some (info, started, seq)" and "xa_state (path_xa p) = InFlight"
    and "\<not> xa_status_ready (path_xa p)" and "st \<noteq> GUD_STATUS_OK"
  shows "\<exists>p'. status_sent_event 0 st p = (Again, p') \<and> lc_pending p' = None \<and> contained_path p' \<and> path_owned p' = path_owned p"
  using assms receive_ok_base [OF assms(1)]
  by (simp add: status_sent_event_def observe_drain_def note_status_sent_def status_sent_def receive_base_def
      contain_pending_def contained_path_def Let_def)

lemma orphaned_receive_blocks_epoch:
  assumes "(\<lambda>a b. (\<exists>tu ex. loop_turn be sv tu a = (ex, b)) \<or> loop_env a b)\<^sup>*\<^sup>* lp lp'"
    and "loop_ok lp" and "lp_boundary lp \<noteq> None" and "lc_pending (lp_path lp) = None" and "path_owned (lp_path lp) \<noteq> {}"
  shows "loop_ok lp' \<and> lp_boundary lp' = lp_boundary lp \<and> lc_pending (lp_path lp') = None \<and> path_owned (lp_path lp') \<noteq> {}"
  using assms(1)
proof (induction rule: rtranclp_induct)
  case base
  then show ?case using assms(2-5) by simp
next
  case (step a b)
  have epok: "endpoint_ok (lc_endpoint (lp_path a))" using step.IH by (simp add: loop_ok_def receive_ok_endpoint)
  show ?case
  proof (cases "loop_env a b")
    case True
    have "path_owned (lp_path b) = path_owned (lp_path a)"
      using True
    proof cases
      case connect
      then show ?thesis by (simp add: receiver_owned_def new_driver_def ids_defs)
    next
      case close
      then show ?thesis by (simp add: receiver_owned_def)
    next
      case (background q q')
      have "aio_ok q" using background epok by (simp add: endpoint_ok_def Let_def receiver_ok_def)
      from background_owned [OF background(3) this] show ?thesis using background by (simp add: receiver_owned_def)
    qed
    moreover have "lp_boundary b = lp_boundary a" "lc_pending (lp_path b) = lc_pending (lp_path a)"
      using True by (auto elim!: loop_env.cases)
    ultimately show ?thesis using loop_env_ok [OF True] step.IH by simp
  next
    case False
    then obtain tu ex where turn: "loop_turn be sv tu a = (ex, b)" using step.hyps(2) by blast
    have full: "\<not> receiver_is_empty (pe_ep_rx (lc_endpoint (lp_path a)))"
      using step.IH endpoint_ok_empty [OF epok] by blast
    have "lc_drain (lp_path a) = None" using step.IH by (simp add: loop_ok_def receive_ok_def receive_base_def)
    then have "b = a"
      using turn full step.IH assms(3)
      by (simp add: loop_turn_def epoch_can_retire_def drain_expired_def poll_completion_def is_proven_idle_def
          proven_idle_gate_def Let_def split: if_splits)
    then show ?thesis using step.IH by simp
  qed
qed

text \<open>
  In blocking mode nothing takes the session back from Processing: after one payload every further SET_BUFFER
  is refused without a read, and the shutdown gate never opens.
\<close>

lemma blocking_mode_single_payload:
  assumes "\<not> cfg_aio_mode (sv_cfg sv)" and "cfg_status_on_set_bytes (sv_cfg sv) = None" and "lp_prearmed lp = None"
    and "blocking_receive tu info lp = Some (Ok stats, lp1)" and "process_payload be sv tu info lp1 = (ex, lp2)"
  shows "br_state (lc_session (lp_path lp2)) = BrProcessing \<and> \<not> is_proven_idle (proven_idle_gate (lp_path lp2))
    \<and> (\<forall>tu' info'. \<exists>e. blocking_receive tu' info' lp2 = Some (Inl e, lp2))"
proof -
  have one: "br_state (lc_session (lp_path lp1)) = BrProcessing \<and> lp_prearmed lp1 = None"
    using assms(3,4)
    by (auto simp: blocking_receive_def begin_receive_def session_submission_accepted_def finish_receive_def cas_def Let_def
        split: if_splits option.splits prod.splits sum.splits)
  have "lc_session (lp_path lp2) = lc_session (lp_path lp1) \<and> lp_prearmed lp2 = None"
    using assms(1,2,5) one
    by (auto simp: process_payload_def finish_frame_def Let_def split: sum.splits prod.splits if_splits frame_outcome.splits
        dest: process_frame_dropped)
  then have two: "br_state (lc_session (lp_path lp2)) = BrProcessing" "lp_prearmed lp2 = None" using one by simp_all
  have same: "lp2\<lparr> lp_path := (lp_path lp2)\<lparr> lc_session := lc_session (lp_path lp2) \<rparr> \<rparr> = lp2" by simp
  show ?thesis
    using two same
    by (auto simp: is_proven_idle_def proven_idle_gate_def blocking_receive_def begin_receive_def cas_def Let_def)
qed

text \<open>The prearmed read of the old diagnostic is never accepted, so its receive always poisons the session.\<close>

lemma prearmed_receive_poisons:
  assumes "lp_prearmed lp = None" and "prearm_receive tu n lp = (Inr (), lp1)"
    and "blocking_receive tu' info lp1 = Some (r, lp2)"
  shows "\<not> is_ok r \<and> br_state (lc_session (lp_path lp2)) = BrPoisoned"
proof -
  have "br_state (lc_session (lp_path lp1)) = BrArming \<and> lp_prearmed lp1 \<noteq> None"
    using assms(1,2)
    by (auto simp: prearm_receive_def begin_receive_def cas_def Let_def split: if_splits prod.splits sum.splits)
  then show ?thesis
    using assms(3)
    by (auto simp: blocking_receive_def finish_receive_def cas_def session_poison_def Let_def
        split: if_splits option.splits prod.splits sum.splits)
qed

text \<open>
  The last diagnostic transaction leaves the loop with its drain in place, so the teardown after it is
  suppressed.
\<close>

lemma diagnostic_completion_never_detaches:
  assumes "release_drained limit transaction (lp_path lp) = (Leave err, p)" and "lc_drain (lp_path lp) \<noteq> None"
  shows "teardown be env alive unbind remove err gs (lp\<lparr> lp_path := p \<rparr>) = (TeardownSuppressed, lp\<lparr> lp_path := p \<rparr>, gs)"
proof -
  have "lc_drain p \<noteq> None" using assms by (auto simp: release_drained_def split: if_splits prod.splits sum.splits)
  then show ?thesis by (simp add: teardown_def is_proven_idle_def proven_idle_gate_def)
qed

text \<open>
  A disconnect between two diagnostic transactions asks for the retirement of an idle transaction, which
  fails and ends \<open>main\<close> with an error.
\<close>

lemma diagnostic_disconnect_fails:
  assumes "diagnostic_lifecycle_containment p" and "br_state (lc_session p) = BrIdle" and "xa_state (path_xa p) = Idle"
    and "lc_pending p = None" and "receiver_is_empty (pe_ep_rx (lc_endpoint p))"
    and "observe_aio_lifecycle LcDisable p = (res, p')"
  shows "res = SessionBoundary WaitingForHost \<and> fst (retire_both p') = Err ''cannot retire exact AIO transaction''"
proof -
  have "diagnostic_lifecycle_containment (p\<lparr> lc_lifecycle_events := n \<rparr>)" for n
    using assms(1) by (simp add: diagnostic_lifecycle_containment_def)
  then have r: "res = SessionBoundary WaitingForHost" "lc_endpoint p' = lc_endpoint p"
    using assms(2,6) by (auto simp: observe_aio_lifecycle_def classify_usb_lifecycle_def currently_owned_def Let_def)
  then show ?thesis
    using assms(3,5) by (simp add: retire_both_def retire_exact_aio_after_session_destruction_def
        retire_after_session_destruction_def Let_def split: prod.splits)
qed

section \<open>A concrete service\<close>

text \<open>The default configuration on the simulated card.\<close>

definition sample_cfg :: StartupConfig where
  "sample_cfg = \<lparr> cfg_read_size = 16384, cfg_aio_mode = True, cfg_deadline = 1000, cfg_barrier = None, cfg_compression = 0,
     cfg_max_buffer_size = None, cfg_prearm_bytes = None, cfg_status_on_set_bytes = None, cfg_transaction_limit = 0,
     cfg_output_mode = None, cfg_endpoint = build_endpoint 16384 False, cfg_frame_dump = Disabled, cfg_pattern = PStartup,
     cfg_format = Xrgb8888, cfg_row_crc = False \<rparr>"

definition sample_service :: "(u16 \<times> u16) Service" where
  "sample_service = \<lparr> sv_cfg = sample_cfg,
     sv_codec = \<lparr> co_connector = ser_ConnectorDescriptor, co_header = de_StateCheckHeader, co_buffer = de_SetBuffer,
       co_display = ser_DisplayDescriptor, co_mode = ser_DisplayMode, co_lz4 = (\<lambda>_ _ _. Err ''lz4'') \<rparr>,
     sv_limits = size_limits [(1, 1)], sv_catalog = sim_catalog, sv_panel = (1, 1), sv_overflow_checks = False \<rparr>"

definition sample_turn :: "FfsEvent option \<Rightarrow> Turn" where
  "sample_turn ev = \<lparr> tu_shutdown = False, tu_running = True, tu_drain_now = 9, tu_stats_now = 9, tu_finish_now = 9,
     tu_deadline_now = 9, tu_poll = Ok ev, tu_control_ms = 0, tu_begin_now = 5, tu_arm_now = 5, tu_capacity = (\<lambda>n. n),
     tu_submit = Accepted, tu_spawned = Ok (), tu_worker = None, tu_reads = [], tu_read_ms = 0, tu_read_done = 9,
     tu_barrier = None, tu_processed_now = 9 \<rparr>"

lemma sample_production: "production sample_cfg" "cfg_endpoint sample_cfg = build_endpoint 16384 False"
  by (simp_all add: production_def sample_cfg_def)

lemma sample_service_cfg [simp]: "sv_cfg sample_service = sample_cfg" "sv_overflow_checks sample_service = False"
  by (simp_all add: sample_service_def)

text \<open>The first ENABLE begins the first epoch.\<close>

lemma sample_enable:
  "\<exists>lp. loop_turn be sample_service (sample_turn (Some FfsEnable)) (start_loop sample_cfg init_globals di d) = (Again, lp)
     \<and> br_state (lc_session (lp_path lp)) = BrIdle \<and> br_epoch_id (lc_session (lp_path lp)) = 1"
proof -
  show ?thesis
    by (simp add: start_loop_def start_path_def sample_cfg_def with_deadline_def build_endpoint_def default_exact_aio_def
        configure_status_on_set_diagnostic_def receiver_is_empty_def sample_turn_def loop_turn_def epoch_can_retire_def
        drain_expired_def poll_completion_def receive_event_def ep0_suppressed_def Let_def init_globals_def
        usb_activation_transition_def functionfs_lifecycle_transition_def reset_connector_status_changed_def
        reset_status_def reset_protocol_state_def invalidated_def service_event_def lifecycle_event_def
        observe_aio_lifecycle_def classify_usb_lifecycle_def is_proven_idle_def proven_idle_gate_def
        diagnostic_lifecycle_containment_def lifecycle_surface_def lifecycle_result_def enter_epoch_def begin_both_epochs_def
        begin_exact_aio_usb_epoch_def begin_usb_epoch_def session_begin_usb_epoch_def conflicts_with_owned_exact_receive_def
        dispatch_def invalidated_event_def split: prod.split)
qed

text \<open>The loop with the receive of \<open>sample_buffer\<close> pending and its completion delivered.\<close>

definition sample_pending :: "('buf, 'fb, 'm) Display \<Rightarrow> 'b dev \<Rightarrow> ('b, 'buf, 'fb, 'm) EventLoop" where
  "sample_pending di d = (start_loop sample_cfg init_globals di d)\<lparr> lp_path := (start_path sample_cfg init_globals)
     \<lparr> lc_session := (with_deadline 1000)\<lparr> br_state := BrInFlight \<rparr>, lc_endpoint := sample_ready,
       lc_pending := Some (sample_buffer, 5, 1),
       lc_globals := (sample_active 0)\<lparr> diagnostic_guard :=
         \<lparr> sg_transaction_limit = 0, sg_started_transactions = 0, sg_active = True \<rparr> \<rparr> \<rparr> \<rparr>"

lemma sample_ready_xa:
  "xa_state (pe_exact_aio sample_ready) = InFlight" "xa_metadata (pe_exact_aio sample_ready) = Some sample_buffer"
  "pe_prearmed_read sample_ready = None"
  by (simp_all add: sample_ready_def sample_endpoint_defs)

lemma sample_pending_ok: "loop_ok (sample_pending di d)"
  using endpoint_reachable_ok [OF sample_ready_reachable]
  by (simp add: sample_pending_def start_loop_def start_path_def loop_ok_def receive_ok_def receive_base_def receive_phase_def
      sample_ready_xa with_deadline_def)

lemma sample_completes:
  "\<exists>stats. try_complete_exact_payload_aio 9 0 2560 sample_ready
     = (Ok (Some stats), snd (try_complete_exact_payload_aio 9 0 2560 sample_ready))"
  by (simp add: sample_ready_def sample_endpoint_defs sample_filled_def sample_io_def
      try_complete_exact_payload_aio_def try_fetch_identified_def try_completed_def buffer_into_read_def
      completion_for_operation_def usb_packet_estimate_def sample_defs)

section \<open>Main properties\<close>

text \<open>C18. The parts of the receive path agree whenever the production loop is at its head, in every interleaving
  with the kernel and the driver's thread: an idle session means that the whole idle gate holds; a session in
  flight has exactly its announced buffer pending, and the kernel owns at most the operation it recorded; a
  session in processing has a payload of the announced length ready and nothing left in the kernel; a poisoned
  session has a poisoned transaction, and a destroyed epoch is only waited for in a poisoned session.\<close>

theorem receive_loop_agrees:
  assumes "production (sv_cfg sv)" and "cfg_endpoint (sv_cfg sv) = build_endpoint rs legacy"
    and "loop_reachable be sv (start_loop (sv_cfg sv) g di d) lp"
  shows "let p = lp_path lp; t = path_xa p in
    (case br_state (lc_session p) of
       BrIdle \<Rightarrow> xa_state t = Idle \<and> is_proven_idle (proven_idle_gate p) \<and> path_owned p = {}
     | BrAborted \<Rightarrow> xa_state t = AbortedBySessionDestruction \<and> is_proven_idle (proven_idle_gate p) \<and> path_owned p = {}
     | BrInFlight \<Rightarrow> xa_state t = InFlight \<and> lc_ready p = None \<and> path_owned p \<subseteq> set_option (xa_operation t)
         \<and> (\<exists>info started seq. lc_pending p = Some (info, started, seq) \<and> xa_metadata t = Some info
              \<and> xa_expected_bytes t = payload_bytes info)
     | BrProcessing \<Rightarrow> xa_state t = Processing \<and> lc_pending p = None \<and> path_owned p = {}
         \<and> (\<exists>info stats. lc_ready p = Some (info, stats) \<and> length (pe_buf (lc_endpoint p)) = payload_bytes info)
     | BrPoisoned \<Rightarrow> xa_state t = Poisoned \<and> path_owned p \<subseteq> set_option (xa_operation t)
         \<and> (lc_ready p \<noteq> None \<longrightarrow> path_owned p = {})
     | _ \<Rightarrow> False)
    \<and> (lp_boundary lp \<noteq> None \<longrightarrow> br_state (lc_session p) = BrPoisoned)"
proof -
  let ?p = "lp_path lp"
  have ok: "loop_ok lp" by (rule loop_reachable_ok [OF assms])
  then have rok: "receive_ok ?p" and ph: "receive_phase ?p" and epok: "endpoint_ok (lc_endpoint ?p)"
    and bd: "lp_boundary lp \<noteq> None \<longrightarrow> br_state (lc_session ?p) = BrPoisoned"
    by (simp_all add: loop_ok_def receive_ok_def receive_base_def)
  have gate: "br_state (lc_session ?p) = BrIdle \<or> br_state (lc_session ?p) = BrAborted \<Longrightarrow> is_proven_idle (proven_idle_gate ?p)"
    by (rule idle_gate_of_phase [OF rok])
  have ep: "case xa_state (path_xa ?p) of InFlight \<Rightarrow> path_owned ?p \<subseteq> set_option (xa_operation (path_xa ?p))
      | Poisoned \<Rightarrow> path_owned ?p \<subseteq> set_option (xa_operation (path_xa ?p)) | _ \<Rightarrow> path_owned ?p = {}"
    "xa_state (path_xa ?p) = InFlight \<Longrightarrow>
       map_option payload_bytes (xa_metadata (path_xa ?p)) = Some (xa_expected_bytes (path_xa ?p))"
    using epok by (simp_all add: endpoint_ok_def Let_def)
  show ?thesis
    using ph gate ep bd by (cases "br_state (lc_session ?p)") (auto simp: receive_phase_def Let_def)
qed

theorem receive_loop_agrees_witness:
  "\<exists>(di :: (nat \<times> u32, nat, u16 \<times> u16) Display) (d :: sim_kernel dev) lp.
     loop_turn (drm_backend sim_card () () Xrgb8888) sample_service (sample_turn (Some FfsEnable))
       (start_loop sample_cfg init_globals di d) = (Again, lp)
     \<and> is_proven_idle (proven_idle_gate (lp_path lp)) \<and> path_owned (lp_path lp) = {}"
proof -
  obtain shadow di d where "start_display (drm_backend sim_card () () Xrgb8888) False Xrgb8888 PStartup sim_timing [(1, 1)] (1, 1)
      shadow (fst sim_start) = (Ok di, d)" using sim_run by blast
  obtain lp where lp: "loop_turn (drm_backend sim_card () () Xrgb8888) sample_service (sample_turn (Some FfsEnable))
      (start_loop sample_cfg init_globals di d) = (Again, lp)" "br_state (lc_session (lp_path lp)) = BrIdle"
    using sample_enable by blast
  have reach: "loop_reachable (drm_backend sim_card () () Xrgb8888) sample_service (start_loop (sv_cfg sample_service) init_globals di d) lp"
    using loop_reachable.turn [OF loop_reachable.start] lp(1) by simp
  have cfg: "production (sv_cfg sample_service)" "cfg_endpoint (sv_cfg sample_service) = build_endpoint 16384 False"
    using sample_production by simp_all
  have "is_proven_idle (proven_idle_gate (lp_path lp)) \<and> path_owned (lp_path lp) = {}"
    using receive_loop_agrees [OF cfg reach] lp(2) by (simp add: Let_def)
  then show ?thesis using lp(1) by blast
qed

text \<open>C19. Nothing ends the service while the kernel owns a receive. From every reachable state of the loop, in every
  mode, a teardown that goes through (and is not suppressed) finds a proven idle receive path whose endpoint
  owns no operation; and in production an error of the receive path that makes \<open>main\<close> return leaves none behind
  either.\<close>

theorem loop_end_owns_nothing:
  assumes "cfg_endpoint (sv_cfg sv) = build_endpoint rs legacy"
    and "loop_reachable be sv (start_loop (sv_cfg sv) g di d) lp" and "loop_turn be sv tu lp = (ex, lp1)"
  shows "(\<forall>err env alive unbind remove gs r lp2 gs2. ex = Leave err \<longrightarrow>
        teardown be env alive unbind remove err gs lp1 = (MainReturns r, lp2, gs2) \<longrightarrow>
        is_proven_idle (proven_idle_gate (lp_path lp1)) \<and> path_owned (lp_path lp2) = {})
    \<and> (\<forall>m. production (sv_cfg sv) \<longrightarrow> ex = Fail (Error m) \<longrightarrow> path_owned (lp_path lp1) = {})"
proof (intro conjI allI impI)
  fix err env alive unbind remove gs r lp2 gs2
  assume t: "teardown be env alive unbind remove err gs lp1 = (MainReturns r, lp2, gs2)"
  show gate: "is_proven_idle (proven_idle_gate (lp_path lp1))" using t by (simp add: teardown_def Let_def split: if_splits)
  have "endpoint_reachable rs legacy (lc_endpoint (lp_path lp1), lc_globals (lp_path lp1))"
    by (rule ep_run_reachable [OF path_run_turn [OF assms(3)] loop_endpoint_reachable [OF assms(1,2)]])
  from endpoint_reachable_ok [OF this] have epok: "endpoint_ok (lc_endpoint (lp_path lp1))" by simp
  have "xa_state (path_xa (lp_path lp1)) \<notin> {InFlight, Poisoned}" using gate by (auto simp: is_proven_idle_def proven_idle_gate_def)
  from owned_outside_flight [OF epok this] have own: "path_owned (lp_path lp1) = {}" .
  have "lc_endpoint (lp_path lp2) = lc_endpoint (lp_path lp1)"
    using t by (auto simp: teardown_def Let_def split: if_splits prod.splits)
  then show "path_owned (lp_path lp2) = {}" using own by simp
next
  fix m
  assume "production (sv_cfg sv)" and f: "ex = Fail (Error m)"
  from loop_turn_ok [OF this(1) loop_reachable_ok [OF this(1) assms(1,2)] assms(3)] f
  show "path_owned (lp_path lp1) = {}" by simp
qed

theorem loop_end_owns_nothing_witness:
  "\<exists>(di :: (nat \<times> u32, nat, u16 \<times> u16) Display) (d :: sim_kernel dev) lp1 r lp2 gs.
     loop_turn (drm_backend sim_card () () Xrgb8888) sample_service ((sample_turn None)\<lparr> tu_shutdown := True \<rparr>)
       (start_loop sample_cfg init_globals di d) = (Leave None, lp1)
     \<and> teardown (drm_backend sim_card () () Xrgb8888) [] True (Ok ()) (Ok ()) None
         \<lparr> gs_requested = False, gs_unbound = False, gs_target = True \<rparr> lp1 = (MainReturns r, lp2, gs)
     \<and> path_owned (lp_path lp2) = {}"
proof -
  let ?be = "drm_backend sim_card () () Xrgb8888" and ?gs = "\<lparr> gs_requested = False, gs_unbound = False, gs_target = True \<rparr>"
  obtain shadow di d where "start_display ?be False Xrgb8888 PStartup sim_timing [(1, 1)] (1, 1) shadow (fst sim_start) = (Ok di, d)"
    using sim_run by blast
  let ?lp = "start_loop sample_cfg init_globals di d"
  have "receive_ok (lp_path ?lp)" using start_loop_ok [OF sample_production, of init_globals di d] by (simp add: loop_ok_def)
  then have gate: "is_proven_idle (proven_idle_gate (lp_path ?lp))"
    by (rule idle_gate_of_phase) (simp add: start_loop_def start_path_def with_deadline_def)
  have turn: "loop_turn ?be sample_service ((sample_turn None)\<lparr> tu_shutdown := True \<rparr>) ?lp = (Leave None, ?lp)"
    using gate by (simp add: loop_turn_def epoch_can_retire_def drain_expired_def sample_turn_def start_loop_def start_path_def)
  have idle: "br_state (lc_session (lp_path ?lp)) = BrIdle" by (simp add: start_loop_def start_path_def with_deadline_def)
  then have "begin_shutdown [] (lc_session (lp_path ?lp)) = (Inr (), (lc_session (lp_path ?lp))\<lparr> br_state := BrShuttingDown \<rparr>)"
    by (simp add: begin_shutdown_alone currently_owned_def)
  note down = this
  obtain rel sm dd where rel: "release_all ?be (join_runtime (di_slots di) (di_runtime di)) d = (rel, sm, dd)" by (rule prod_cases3)
  have fields: "lp_display ?lp = di" "lp_dev ?lp = d" by (simp_all add: start_loop_def)
  have "\<exists>r lp2 gs2. teardown ?be [] True (Ok ()) (Ok ()) None ?gs ?lp = (MainReturns r, lp2, gs2)"
    using gate by (simp add: teardown_def request_unbind_def unbind_locked_def down fields rel Let_def)
  then obtain r lp2 gs2 where t: "teardown ?be [] True (Ok ()) (Ok ()) None ?gs ?lp = (MainReturns r, lp2, gs2)" by blast
  have reach: "loop_reachable ?be sample_service (start_loop (sv_cfg sample_service) init_globals di d) ?lp"
    by (simp add: loop_reachable.start)
  have cfg: "cfg_endpoint (sv_cfg sample_service) = build_endpoint 16384 False" using sample_production by simp
  from loop_end_owns_nothing [OF cfg reach turn] t have "path_owned (lp_path lp2) = {}" by blast
  then show ?thesis using turn t by blast
qed

text \<open>C20. A received payload is processed once and the path is free again. When the pending receive of a
  production loop has completed in time, the next quiet turn of the loop decompresses exactly the announced
  number of bytes and hands the payload to the display: a finished frame leaves the display as the frame
  processing did, the receive path idle on both sides and the admission guard free; a payload that cannot be
  decompressed or displayed contains the session.\<close>

theorem received_payload_processed:
  assumes "production (sv_cfg sv)" and "cfg_barrier (sv_cfg sv) = None" and "loop_ok lp" and "lp_boundary lp = None"
    and "lc_pending (lp_path lp) = Some (info, started, seq)"
    and "try_complete_exact_payload_aio (tu_stats_now tu) (usb_activation_generation (lc_globals (lp_path lp)))
           (unat (sb_length info)) (lc_endpoint (lp_path lp)) = (Ok (Some stats), ep)"
    and "tu_finish_now tu - started \<le> br_deadline (lc_session (lp_path lp))"
    and "tu_poll tu = Ok None" and "update_clip (sv_overflow_checks sv) info = Ok clip"
    and "loop_turn be sv tu lp = (ex, lp')"
  shows "length (pe_buf ep) = payload_bytes info \<and>
    (case finish_payload (co_lz4 (sv_codec sv)) info (pe_buf ep) (pe_compress_buf ep) of
       (Inl _, _) \<Rightarrow> ex = Again \<and> contained_path (lp_path lp') \<and> lp_display lp' = lp_display lp \<and> lp_dev lp' = lp_dev lp
     | (Inr payload, _) \<Rightarrow>
         (case process_frame be (sv_overflow_checks sv) True (cfg_format (sv_cfg sv)) (cfg_pattern (sv_cfg sv)) (sv_panel sv)
                 (active_scanout_state (lc_globals (lp_path lp))) info payload (lp_display lp) (lp_dev lp) of
            (FrameDone, di, d) \<Rightarrow> ex = Again \<and> quiet_path (lp_path lp') \<and> lp_display lp' = di \<and> lp_dev lp' = d
          | (FrameDropped _, di, d) \<Rightarrow> ex = Again \<and> contained_path (lp_path lp') \<and> lp_display lp' = di \<and> lp_dev lp' = d
          | (FrameFailed e, di, d) \<Rightarrow> ex = DisplayFail e \<and> lp_display lp' = di \<and> lp_dev lp' = d))"
proof -
  have cfg: "cfg_aio_mode (sv_cfg sv)" "cfg_status_on_set_bytes (sv_cfg sv) = None" "cfg_prearm_bytes (sv_cfg sv) = None"
    using assms(1) by (simp_all add: production_def)
  obtain p where P: "loop_turn be sv tu lp = process_payload be sv tu info (lp\<lparr> lp_path := p, lp_host_session := True \<rparr>)"
      "processing_ok p" "br_state (lc_session p) = BrProcessing" "lc_endpoint p = ep" "lc_globals p = lc_globals (lp_path lp)"
      "length (pe_buf ep) = payload_bytes info"
    using completing_turn [OF assms(3,4) cfg(1) assms(5-9)] by blast
  obtain r dest where fin: "finish_payload (co_lz4 (sv_codec sv)) info (pe_buf ep) (pe_compress_buf ep) = (r, dest)" by fastforce
  let ?q = "p\<lparr> lc_endpoint := ep\<lparr> pe_compress_buf := dest \<rparr> \<rparr>"
  have "processing_ok ?q" using P(2,4) by (auto simp: processing_ok_def receive_base_def endpoint_ok_def Let_def)
  from finish_production_quiet [OF this] P(3) obtain p2 where quiet: "finish_production ?q = (Again, p2)" "quiet_path p2" by auto
  have cont: "contained_path (poison_counted ?q)" by (simp add: contained_path_def)
  have turn: "process_payload be sv tu info (lp\<lparr> lp_path := p, lp_host_session := True \<rparr>) = (ex, lp')" using P(1) assms(10) by simp
  show ?thesis
  proof (cases r)
    case (Inl e)
    then show ?thesis using turn fin P cfg cont by (auto simp: process_payload_def Let_def)
  next
    case (Inr payload)
    obtain out di d where fr: "process_frame be (sv_overflow_checks sv) True (cfg_format (sv_cfg sv)) (cfg_pattern (sv_cfg sv))
        (sv_panel sv) (active_scanout_state (lc_globals (lp_path lp))) info payload (lp_display lp) (lp_dev lp) = (out, di, d)"
      by (rule prod_cases3)
    show ?thesis
    proof (cases out)
      case FrameDone
      then show ?thesis
        using turn fin P(4-6) cfg quiet fr Inr assms(2) by (auto simp: process_payload_def finish_frame_def Let_def)
    next
      case (FrameDropped b)
      have "b" using process_frame_dropped [OF fr [unfolded FrameDropped]] by simp
      then show ?thesis
        using turn fin P(4-6) cfg cont fr Inr FrameDropped by (auto simp: process_payload_def Let_def)
    next
      case (FrameFailed e)
      then show ?thesis using turn fin P(4-6) cfg fr Inr by (auto simp: process_payload_def Let_def)
    qed
  qed
qed

theorem received_payload_processed_witness:
  "length (pe_buf (snd (try_complete_exact_payload_aio 9 0 2560 sample_ready))) = 2560"
proof -
  let ?be = "drm_backend sim_card () () Xrgb8888" and ?tu = "sample_turn None"
  obtain stats where tc: "try_complete_exact_payload_aio 9 0 2560 sample_ready
      = (Ok (Some stats), snd (try_complete_exact_payload_aio 9 0 2560 sample_ready))" using sample_completes by blast
  obtain shadow di d where "start_display ?be False Xrgb8888 PStartup sim_timing [(1, 1)] (1, 1) shadow (fst sim_start) = (Ok di, d)"
    using sim_run by blast
  let ?lp = "sample_pending di d"
  obtain ex lp' where turn: "loop_turn ?be sample_service ?tu ?lp = (ex, lp')" by fastforce
  have "production (sv_cfg sample_service)" "cfg_barrier (sv_cfg sample_service) = None" "lp_boundary ?lp = None"
    "lc_pending (lp_path ?lp) = Some (sample_buffer, 5, 1)" "tu_finish_now ?tu - 5 \<le> br_deadline (lc_session (lp_path ?lp))"
    "tu_poll ?tu = Ok None"
    by (simp_all add: sample_production(1)) (simp_all add: sample_cfg_def sample_pending_def start_loop_def sample_turn_def with_deadline_def)
  moreover have "try_complete_exact_payload_aio (tu_stats_now ?tu) (usb_activation_generation (lc_globals (lp_path ?lp)))
      (unat (sb_length sample_buffer)) (lc_endpoint (lp_path ?lp)) = (Ok (Some stats), snd (try_complete_exact_payload_aio 9 0 2560 sample_ready))"
    using tc by (simp add: sample_pending_def start_path_def sample_turn_def sample_defs)
  moreover have "\<exists>clip. update_clip (sv_overflow_checks sample_service) sample_buffer = Ok clip"
    by (simp add: update_clip_def plain_add_def sample_buffer_def)
  ultimately show ?thesis
    using received_payload_processed [where be = ?be and sv = sample_service and tu = ?tu and lp = ?lp and lp' = lp' and ex = ex]
      sample_pending_ok [of di d] turn by (fastforce simp: payload_bytes_def sample_buffer_def)
qed

end
