(* ===== verification/Drm_Loop_Display.thy ===== *)
theory Drm_Loop_Display
  imports Drm_Loop_Runs
begin

text \<open>
  The event loop refines the display: what its turns do to the display is a run of the display events of
  \<open>Drm_Display\<close>, so that the properties of those runs hold in every state of the loop.
\<close>

definition shown_run ::
  "('b, 'buf, 'fb, 'm) backend \<Rightarrow> 'm Service \<Rightarrow> ('b, 'buf, 'fb, 'm) EventLoop \<Rightarrow> ('b, 'buf, 'fb, 'm) EventLoop \<Rightarrow> bool" where
  "shown_run be sv lp lp' \<longleftrightarrow>
     (\<exists>evs. display_run be (sv_overflow_checks sv) (cfg_format (sv_cfg sv)) (cfg_pattern (sv_cfg sv)) (sv_catalog sv) evs
        (lp_display lp) (lp_dev lp) = (Ok (), lp_display lp', lp_dev lp'))"

lemma shown_same: "lp_display lp' = lp_display lp \<Longrightarrow> lp_dev lp' = lp_dev lp \<Longrightarrow> shown_run be sv lp lp'"
  unfolding shown_run_def by (rule exI [of _ "[]"]) simp

lemma shown_step:
  "display_step be (sv_overflow_checks sv) (cfg_format (sv_cfg sv)) (cfg_pattern (sv_cfg sv)) (sv_catalog sv) ev
     (lp_display lp) (lp_dev lp) = (Ok (), lp_display lp', lp_dev lp') \<Longrightarrow> shown_run be sv lp lp'"
  unfolding shown_run_def by (rule exI [of _ "[ev]"]) simp

lemma shown_trans: "shown_run be sv a b \<Longrightarrow> shown_run be sv b c \<Longrightarrow> shown_run be sv a c"
proof -
  assume "shown_run be sv a b" "shown_run be sv b c"
  then obtain es fs where
    "display_run be (sv_overflow_checks sv) (cfg_format (sv_cfg sv)) (cfg_pattern (sv_cfg sv)) (sv_catalog sv) es
       (lp_display a) (lp_dev a) = (Ok (), lp_display b, lp_dev b)"
    "display_run be (sv_overflow_checks sv) (cfg_format (sv_cfg sv)) (cfg_pattern (sv_cfg sv)) (sv_catalog sv) fs
       (lp_display b) (lp_dev b) = (Ok (), lp_display c, lp_dev c)"
    by (auto simp: shown_run_def)
  then show "shown_run be sv a c" unfolding shown_run_def by (intro exI [of _ "es @ fs"]) (simp add: display_run_append)
qed

lemma shown_cong:
  "shown_run be sv a b \<Longrightarrow> lp_display a' = lp_display a \<Longrightarrow> lp_dev a' = lp_dev a \<Longrightarrow>
   lp_display b' = lp_display b \<Longrightarrow> lp_dev b' = lp_dev b \<Longrightarrow> shown_run be sv a' b'"
  by (simp add: shown_run_def)

lemma shown_lifecycle:
  assumes "lifecycle_event be sv reason lp = (r, lp')" and "\<forall>e. r \<noteq> Inl (DisplayFail e)"
  shows "shown_run be sv lp lp'"
proof -
  obtain res p where ob: "observe_aio_lifecycle (usb_lifecycle_input reason) (lp_path lp) = (res, p)" by fastforce
  obtain rd di d where ls: "lifecycle_surface be (sv_overflow_checks sv) (cfg_format (sv_cfg sv)) (cfg_pattern (sv_cfg sv)) reason
      (lp_display lp) (lp_dev lp) = (rd, di, d)" by (rule prod_cases3)
  have rd: "rd = Ok ()" using assms ob ls by (cases rd) (auto simp: lifecycle_event_def)
  have "lifecycle_result reason res (lp\<lparr> lp_path := p, lp_display := di, lp_dev := d \<rparr>) = (r, lp')"
    using assms(1) ob ls rd by (simp add: lifecycle_event_def)
  then have "lp_display lp' = di \<and> lp_dev lp' = d"
    by (auto simp: lifecycle_result_def split: UsbLifecycleResult.splits if_splits prod.splits sum.splits)
  then show ?thesis using ls rd by (intro shown_step [where ev = "Lifecycle reason"]) simp
qed

lemma shown_invalidated:
  assumes "invalidated_event be sv tu reason lp = (ex, lp')"
  shows "shown_run be sv lp lp'"
proof -
  have pre: "lp_display lq = lp_display lp \<and> lp_dev lq = lp_dev lp" if "prearm_receive tu n lp = (r, lq)" for n r lq
    using that by (auto simp: prearm_receive_def Let_def split: if_splits prod.splits sum.splits)
  have inv: "shown_run be sv lp lq" if "lp_display lq = di" "lp_dev lq = d"
    "protocol_invalidated be (lp_display lp) (lp_dev lp) = (di, d)" for lq di d
    using that by (intro shown_step [where ev = Invalidated]) simp
  show ?thesis
    using assms inv pre
    by (auto simp: invalidated_event_def shown_same split: if_splits option.splits sum.splits prod.splits)
qed

lemma shown_process:
  assumes op: "process_payload be sv tu info lp = (ex, lp')" and "\<forall>e. ex \<noteq> DisplayFail e"
  shows "shown_run be sv lp lp'"
proof -
  obtain r dest where fin: "finish_payload (co_lz4 (sv_codec sv)) info (pe_buf (lc_endpoint (lp_path lp)))
      (pe_compress_buf (lc_endpoint (lp_path lp))) = (r, dest)" by fastforce
  show ?thesis
  proof (cases "is_ok r \<and> cfg_prearm_bytes (sv_cfg sv) = None")
    case False
    then have "lp_display lp' = lp_display lp \<and> lp_dev lp' = lp_dev lp"
      using op fin by (cases r) (auto simp: process_payload_def Let_def split: if_splits)
    then show ?thesis by (simp add: shown_same)
  next
    case True
    then obtain payload where r: "r = Ok payload" by (cases r) auto
    let ?st = "active_scanout_state (lc_globals (lp_path lp))"
    obtain out di d where fr: "process_frame be (sv_overflow_checks sv) (cfg_aio_mode (sv_cfg sv)) (cfg_format (sv_cfg sv))
        (cfg_pattern (sv_cfg sv)) (sv_panel sv) ?st info payload (lp_display lp) (lp_dev lp) = (out, di, d)" by (rule prod_cases3)
    have "lp_display lp' = di \<and> lp_dev lp' = d \<and> (\<forall>e. out \<noteq> FrameFailed e)"
      using op fin True r fr assms(2)
      by (cases out) (auto simp: process_payload_def Let_def split: prod.splits)
    then show ?thesis
      using fr by (intro shown_step [where ev = "Frame (cfg_aio_mode (sv_cfg sv)) (sv_panel sv) ?st info payload"])
        (cases out; simp)
  qed
qed

lemma shown_buffer:
  assumes op: "buffer_event be sv tu info ready lp = (ex, lp')" and ex: "\<forall>e. ex \<noteq> DisplayFail e"
  shows "shown_run be sv lp lp'"
proof -
  have blk: "lp_display lq = lp_display lp \<and> lp_dev lq = lp_dev lp" if "blocking_receive tu info lp = Some (r, lq)" for r lq
    using that by (auto simp: blocking_receive_def Let_def split: if_splits option.splits prod.splits sum.splits)
  have two: "shown_run be sv lp lp'" if "blocking_receive tu info lp = Some (r, lq)" "process_payload be sv tu info lq = (ex, lp')" for r lq
    using shown_cong [OF shown_process [OF that(2) ex]] blk [OF that(1)] by simp
  show ?thesis
  proof (cases "update_clip (sv_overflow_checks sv) info")
    case (Inl e)
    then show ?thesis using op by (auto simp: buffer_event_def intro!: shown_same)
  next
    case (Inr c)
    show ?thesis
    proof (cases "cfg_aio_mode (sv_cfg sv)")
      case True
      show ?thesis
      proof (cases ready)
        case None
        then show ?thesis using op Inr True by (auto simp: buffer_event_def split: prod.splits intro!: shown_same)
      next
        case (Some stats)
        then have "process_payload be sv tu info lp = (ex, lp')" using op Inr True by (simp add: buffer_event_def)
        then show ?thesis using ex by (rule shown_process)
      qed
    next
      case False
      show ?thesis
      proof (cases "blocking_receive tu info lp")
        case None
        then show ?thesis using op Inr False by (auto simp: buffer_event_def intro!: shown_same)
      next
        case (Some x)
        obtain r lq where x: "x = (r, lq)" by fastforce
        show ?thesis
        proof (cases r)
          case (Inl e)
          then show ?thesis using op Inr False Some x blk [OF Some [unfolded x]]
            by (auto simp: buffer_event_def intro!: shown_same)
        next
          case Done: (Inr stats)
          then have "process_payload be sv tu info lq = (ex, lp')" using op Inr False Some x by (simp add: buffer_event_def)
          then show ?thesis using two [OF Some [unfolded x]] by blast
        qed
      qed
    qed
  qed
qed

lemma shown_dispatch:
  assumes op: "dispatch be sv tu ev ready lp = (ex, lp')" and ex: "\<forall>e. ex \<noteq> DisplayFail e"
  shows "shown_run be sv lp lp'"
proof (cases ev)
  case (StateChecked sn)
  then show ?thesis using op
    by (intro shown_step [where ev = "Checked sn (tu_control_ms tu)"]) (auto simp: dispatch_def Let_def split: prod.splits)
next
  case (StateCommitted sn)
  obtain r di d where c: "state_committed be (sv_overflow_checks sv) (cfg_format (sv_cfg sv)) (cfg_pattern (sv_cfg sv)) sn
      (lp_display lp) (lp_dev lp) = (r, di, d)" by (rule prod_cases3)
  then show ?thesis using op StateCommitted ex
    by (cases r) (auto simp: dispatch_def Let_def intro!: shown_step [where ev = "Committed sn"])
next
  case (ProtocolStateInvalidated g reason)
  then show ?thesis using op shown_invalidated by (auto simp: dispatch_def)
next
  case (Buffer info)
  then show ?thesis using op shown_buffer [OF _ ex] by (auto simp: dispatch_def)
qed (use op in \<open>auto simp: dispatch_def reply_exit_def Let_def split: prod.splits intro!: shown_same\<close>)

lemma shown_event:
  assumes op: "service_event be sv tu ev ready lp = (ex, lp')" and ex: "\<forall>e. ex \<noteq> DisplayFail e"
  shows "shown_run be sv lp lp'"
proof -
  let ?lp = "lp\<lparr> lp_host_session := lp_host_session lp \<or> event_is_host_activity ev \<rparr>"
  obtain r lp1 where lc: "(case ev of ProtocolStateInvalidated _ reason \<Rightarrow> lifecycle_event be sv reason ?lp | _ \<Rightarrow> (Inr (), ?lp)) = (r, lp1)"
    by fastforce
  have nofail: "r \<noteq> Inl (DisplayFail e)" for e using op lc ex by (cases r) (auto simp: service_event_def Let_def)
  have "shown_run be sv ?lp lp1"
    using lc shown_lifecycle [of be sv _ ?lp r lp1] nofail by (cases ev) (auto intro: shown_same)
  then have run: "shown_run be sv lp lp1" by (rule shown_cong) simp_all
  show ?thesis
  proof (cases r)
    case (Inl e)
    then show ?thesis using op lc run by (simp add: service_event_def Let_def)
  next
    case (Inr u)
    show ?thesis
    proof (cases "lc_pending (lp_path lp1) \<noteq> None \<and> conflicts_with_owned_exact_receive ev (ready \<noteq> None)")
      case True
      then have "lp' = lp1\<lparr> lp_path := contain_pending (lp_path lp1) \<rparr>"
        using op lc Inr by (simp add: service_event_def Let_def)
      then show ?thesis using shown_cong [OF run] by simp
    next
      case False
      then have "dispatch be sv tu ev ready lp1 = (ex, lp')" using op lc Inr by (auto simp: service_event_def Let_def)
      then show ?thesis using shown_trans [OF run shown_dispatch [OF _ ex]] by blast
    qed
  qed
qed

lemma shown_receive:
  assumes op: "receive_event be sv tu lp = (ex, lp')" and ex: "\<forall>e. ex \<noteq> DisplayFail e"
  shows "shown_run be sv lp lp'"
proof -
  have h: "shown_run be sv lp lp'" if "service_event be sv tu ev ready lq = (ex, lp')" "lp_display lq = lp_display lp" "lp_dev lq = lp_dev lp"
    for ev ready lq using shown_cong [OF shown_event [OF that(1) ex]] that(2,3) by simp
  show ?thesis
    using op h
    by (auto simp: receive_event_def Let_def shown_same split: sum.splits option.splits prod.splits if_splits)
qed

lemma shown_turn:
  assumes op: "loop_turn be sv tu lp = (ex, lp')" and ex: "\<forall>e. ex \<noteq> DisplayFail e"
  shows "shown_run be sv lp lp'"
proof (cases "epoch_can_retire lp")
  case True
  then have "retire_epoch lp = (ex, lp')" using op by (simp add: loop_turn_def)
  then show ?thesis
    by (auto simp: retire_epoch_def split: prod.splits sum.splits option.splits intro!: shown_same)
next
  case False
  obtain late p1 where dr: "drain_expired (tu_drain_now tu) (lp_path lp) = (late, p1)" by fastforce
  obtain stop p2 where po: "poll_completion tu p1 = (stop, p2)" by fastforce
  have rec: "shown_run be sv lp lp'" if "receive_event be sv tu (lp\<lparr> lp_path := p2 \<rparr>) = (ex, lp')"
    using shown_cong [OF shown_receive [OF that ex]] by simp
  show ?thesis
    using op False dr po rec by (auto simp: loop_turn_def Let_def shown_same split: if_splits)
qed

lemma loop_env_shows: "loop_env lp lp' \<Longrightarrow> lp_display lp' = lp_display lp \<and> lp_dev lp' = lp_dev lp"
  by (auto elim!: loop_env.cases)

lemma loop_reachable_shown:
  assumes "loop_reachable be sv lp0 lp"
  shows "shown_run be sv lp0 lp"
  using assms
proof (induction rule: loop_reachable.induct)
  case start
  show ?case by (simp add: shown_same)
next
  case (turn lp tu lp')
  show ?case by (rule shown_trans [OF turn.IH shown_turn [OF turn.hyps(2)]]) simp
next
  case (env lp lp')
  from loop_env_shows [OF env.hyps(2)] show ?case by (intro shown_cong [OF env.IH]) simp_all
qed

section \<open>Main property\<close>



end
