(* ===== verification/Viewer_Ipc.thy ===== *)
theory Viewer_Ipc
  imports Drm_Config
begin

text \<open>
  The interface between the viewer daemon and the viewer: the messages and the well-known paths of
  \<^verbatim>\<open>viewer-ipc/src/lib.rs\<close>, the line protocol both sides put on the control socket
  (\<open>send_message\<close> of \<^verbatim>\<open>viewerd/src/main.rs\<close> and the \<open>read_line\<close> loop of
  \<^verbatim>\<open>viewer-gtk/src/main.rs\<close>), and what a reader of the stream knows after a list of messages.

  \<open>serde_json\<close> is a pair of parameters: \<open>to_json\<close> gives the text written for a message and
  \<open>from_json\<close> parses one. What the code relies on is named \<open>json_ok\<close>: a message is always
  serializable, its text is one non-empty line that \<open>trim_end\<close> leaves alone, and parsing it
  gives the message back.
\<close>

section \<open>Messages\<close>

datatype PixelFormat = PfRgb565

datatype ServerMessage =
    Hello (version: u32)
  | SessionStart (ss_width: u32) (ss_height: u32) (ss_stride: u32) (ss_format: PixelFormat) (ss_path: string)
  | FrameReady (fr_width: u32) (fr_height: u32) (fr_stride: u32) (fr_generation: u64) (fr_full: bool)
  | MsgDisconnected
  | MsgShutdown

abbreviation PROTOCOL_VERSION :: u32 where "PROTOCOL_VERSION \<equiv> 1"

section \<open>Paths\<close>

text \<open>A \<open>PathBuf\<close> is its text; \<open>path_join\<close> is \<open>Path::join\<close>, and \<open>decimal\<close> is \<open>{}\<close> of an unsigned integer.\<close>

fun decimal :: "nat \<Rightarrow> string" where
  "decimal n = (if n < 10 then [char_of (48 + n)] else decimal (n div 10) @ [char_of (48 + n mod 10)])"

declare decimal.simps [simp del]

definition path_join :: "string \<Rightarrow> string \<Rightarrow> string" where
  "path_join base name =
     (if name \<noteq> [] \<and> hd name = CHR ''/'' then name
      else if base = [] \<or> last base = CHR ''/'' then base @ name
      else base @ ''/'' @ name)"

definition default_runtime_dir :: "u32 \<Rightarrow> string" where
  "default_runtime_dir uid = ''/run/user/'' @ decimal (unat uid) @ ''/gud-viewer''"

definition default_socket_path :: "u32 \<Rightarrow> string" where
  "default_socket_path uid = path_join (default_runtime_dir uid) ''control.sock''"

definition default_framebuffer_path :: "u32 \<Rightarrow> string" where
  "default_framebuffer_path uid = path_join (default_runtime_dir uid) ''framebuffer.bin''"

lemma digit_value_char_of: "d < 10 \<Longrightarrow> digit_value (char_of (48 + d)) = Some d"
proof -
  assume d: "d < 10"
  then have "of_char (char_of (48 + d) :: char) = 48 + d" by (simp add: of_char_of)
  with d show ?thesis by (simp add: digit_value_def Let_def del: of_char_of)
qed

lemma parse_digits_append:
  "parse_digits acc (xs @ ys) = Option.bind (parse_digits acc xs) (\<lambda>v. parse_digits v ys)"
  by (induction acc xs rule: parse_digits.induct) (auto split: option.splits)

lemma parse_decimal: "parse_digits 0 (decimal n) = Some n"
proof (induction n rule: decimal.induct)
  case (1 n)
  show ?case
  proof (cases "n < 10")
    case True
    then have "decimal n = [char_of (48 + n)]" by (subst decimal.simps) simp
    then show ?thesis using digit_value_char_of [OF True] by simp
  next
    case False
    then have "decimal n = decimal (n div 10) @ [char_of (48 + n mod 10)]" by (subst decimal.simps) simp
    moreover have "digit_value (char_of (48 + n mod 10)) = Some (n mod 10)" by (rule digit_value_char_of) simp
    moreover have "n div 10 * 10 + n mod 10 = n" by simp
    ultimately show ?thesis by (simp only: parse_digits_append 1 [OF False] bind.simps parse_digits.simps option.case)
  qed
qed

lemma decimal_inject: "decimal m = decimal n \<Longrightarrow> m = n"
  by (metis option.inject parse_decimal)

lemma default_runtime_dir_inject: "default_runtime_dir a = default_runtime_dir b \<Longrightarrow> a = b"
  by (auto simp: default_runtime_dir_def word_unat_eq_iff dest: decimal_inject)

text \<open>The two files of a user lie in its own directory.\<close>

lemma default_paths:
  "default_socket_path uid = default_runtime_dir uid @ ''/control.sock''"
  "default_framebuffer_path uid = default_runtime_dir uid @ ''/framebuffer.bin''"
  by (simp_all add: default_socket_path_def default_framebuffer_path_def path_join_def default_runtime_dir_def)

section \<open>Lines on the control socket\<close>

definition trim_end :: "string \<Rightarrow> string" where
  "trim_end s = rev (dropWhile is_ws (rev s))"

definition json_ok :: "(ServerMessage \<Rightarrow> string result) \<Rightarrow> (string \<Rightarrow> ServerMessage result) \<Rightarrow> bool" where
  "json_ok to_json from_json \<longleftrightarrow>
     (\<forall>m. \<exists>text. to_json m = Ok text \<and> text \<noteq> [] \<and> CHR ''\<newline>'' \<notin> set text
        \<and> \<not> is_ws (last text) \<and> from_json text = Ok m)"

text \<open>
  A client's end of the socket: what has been written to it, and what its next writes do. A write
  stores all its bytes, or fails after \<open>k\<close> of them; writes past the script succeed.
\<close>

record ViewerClient =
  vc_out :: string
  vc_writes :: "nat option list"

definition write_all :: "ViewerClient \<Rightarrow> string \<Rightarrow> unit result \<times> ViewerClient" where
  "write_all c text =
     (case vc_writes c of
        Some k # ws \<Rightarrow> (Err ''write'', c\<lparr> vc_out := vc_out c @ take k text, vc_writes := ws \<rparr>)
      | ws \<Rightarrow> (Ok (), c\<lparr> vc_out := vc_out c @ text, vc_writes := tl ws \<rparr>))"

definition send_message ::
  "(ServerMessage \<Rightarrow> string result) \<Rightarrow> ViewerClient \<Rightarrow> ServerMessage \<Rightarrow> unit result \<times> ViewerClient" where
  "send_message to_json stream message =
     (case to_json message of
        Inl e \<Rightarrow> (Inl e, stream)
      | Inr text \<Rightarrow>
          (case write_all stream text of
             (Inl e, stream) \<Rightarrow> (Inl e, stream)
           | (Inr _, stream) \<Rightarrow> write_all stream ''\<newline>''))"

text \<open>\<open>encode_lines ms\<close> is the text of a stream on which exactly \<open>ms\<close> were sent.\<close>

definition encode_line :: "(ServerMessage \<Rightarrow> string result) \<Rightarrow> ServerMessage \<Rightarrow> string" where
  "encode_line to_json m = (case to_json m of Inl _ \<Rightarrow> [] | Inr text \<Rightarrow> text @ ''\<newline>'')"

definition encode_lines :: "(ServerMessage \<Rightarrow> string result) \<Rightarrow> ServerMessage list \<Rightarrow> string" where
  "encode_lines to_json ms = concat (map (encode_line to_json) ms)"

lemma encode_lines_simps [simp]:
  "encode_lines tj [] = []"
  "encode_lines tj (m # ms) = encode_line tj m @ encode_lines tj ms"
  "encode_lines tj (xs @ ys) = encode_lines tj xs @ encode_lines tj ys"
  by (simp_all add: encode_lines_def)

lemma write_all_Ok:
  "write_all c text = (Inr u, c') \<Longrightarrow> vc_out c' = vc_out c @ text"
  by (auto simp: write_all_def split: list.splits option.splits)

lemma send_message_Ok:
  assumes "send_message tj c m = (Inr u, c')"
  shows "vc_out c' = vc_out c @ encode_line tj m"
  using assms by (auto simp: send_message_def encode_line_def split: sum.splits prod.splits dest!: write_all_Ok)

text \<open>
  \<open>BufReader::read_line\<close> on the text that is left: a line with its newline, or the unfinished
  rest before the end of the stream.
\<close>

definition read_line :: "string \<Rightarrow> string \<times> string" where
  "read_line inp =
     (case dropWhile ((\<noteq>) (CHR ''\<newline>'')) inp of
        [] \<Rightarrow> (inp, [])
      | nl # rest \<Rightarrow> (takeWhile ((\<noteq>) (CHR ''\<newline>'')) inp @ [nl], rest))"

lemma read_line_shorter: "inp \<noteq> [] \<Longrightarrow> length (snd (read_line inp)) < length inp"
proof -
  assume "inp \<noteq> []"
  moreover have "length (dropWhile ((\<noteq>) (CHR ''\<newline>'')) inp) \<le> length inp" by (rule length_dropWhile_le)
  ultimately show ?thesis by (auto simp: read_line_def split: list.splits)
qed

lemma takeWhile_line: "c \<notin> set line \<Longrightarrow> takeWhile ((\<noteq>) c) (line @ c # rest) = line"
  by (induction line) auto

lemma dropWhile_line: "c \<notin> set line \<Longrightarrow> dropWhile ((\<noteq>) c) (line @ c # rest) = c # rest"
  by (induction line) auto

text \<open>A sent message is read back as itself, whatever follows it.\<close>

lemma read_encoded:
  assumes "json_ok tj fj"
  shows "\<exists>text. read_line (encode_line tj m @ rest) = (text @ ''\<newline>'', rest) \<and> encode_line tj m = text @ ''\<newline>''
     \<and> trim_end (text @ ''\<newline>'') = text \<and> text \<noteq> [] \<and> fj text = Ok m"
proof -
  obtain line where t: "tj m = Ok line" "line \<noteq> []" "CHR ''\<newline>'' \<notin> set line"
    "\<not> is_ws (last line)" "fj line = Ok m"
    using assms by (auto simp: json_ok_def)
  obtain ys y where y: "line = ys @ [y]" using t(2) by (cases line rule: rev_cases) auto
  have nl: "is_ws (CHR ''\<newline>'')" by (simp add: is_ws_def)
  have "trim_end (line @ ''\<newline>'') = line"
    using nl t(4) by (simp add: trim_end_def y)
  moreover have "read_line (encode_line tj m @ rest) = (line @ ''\<newline>'', rest)"
    using t(1,3) by (simp add: read_line_def encode_line_def takeWhile_line dropWhile_line)
  ultimately show ?thesis using t by (auto simp: encode_line_def)
qed

section \<open>The contract of a stream\<close>

text \<open>
  What a client may assume about the messages of its stream, as an automaton: the greeting comes
  first; a session announces 16-bit pixels in packed rows; frame notices belong to the session
  announced last and count up by one; \<open>Disconnected\<close> ends the session; nothing follows \<open>Shutdown\<close>.
\<close>

datatype StreamState =
    Opening
  | Greeted
  | Idling
  | InSession u32 u32 u32 string "u64 option"
  | Closed

definition session_shape :: "u32 \<Rightarrow> u32 \<Rightarrow> u32 \<Rightarrow> bool" where
  "session_shape w h stride \<longleftrightarrow> unat stride = unat w * 2 \<and> unat stride * unat h < 2 ^ 63"

fun stream_step :: "ServerMessage \<Rightarrow> StreamState \<Rightarrow> StreamState option" where
  "stream_step (Hello v) st = (if st = Opening \<and> v = PROTOCOL_VERSION then Some Greeted else None)"
| "stream_step (SessionStart w h stride format path) st =
     (if st = Opening \<or> st = Closed \<or> \<not> session_shape w h stride then None
      else Some (InSession w h stride path None))"
| "stream_step (FrameReady w h stride generation full) st =
     (case st of
        InSession w' h' stride' path latest \<Rightarrow>
          if w = w' \<and> h = h' \<and> stride = stride' \<and> full \<and> (\<forall>g \<in> set_option latest. generation = g + 1)
          then Some (InSession w h stride path (Some generation)) else None
      | _ \<Rightarrow> None)"
| "stream_step MsgDisconnected st = (if st = Opening \<or> st = Closed then None else Some Idling)"
| "stream_step MsgShutdown st = (if st = Opening \<or> st = Closed then None else Some Closed)"

fun stream_run :: "ServerMessage list \<Rightarrow> StreamState \<Rightarrow> StreamState option" where
  "stream_run [] st = Some st"
| "stream_run (m # ms) st = Option.bind (stream_step m st) (stream_run ms)"

lemma stream_run_append: "stream_run (xs @ ys) st = Option.bind (stream_run xs st) (stream_run ys)"
  by (induction xs arbitrary: st) (simp_all split: bind_splits)

text \<open>
  \<open>session_agrees\<close>: the state of a stream shows the session \<open>(w, h, stride, path, generation)\<close>. Before
  the first frame notice of a session the generation is zero.
\<close>

type_synonym session_view = "(u32 \<times> u32 \<times> u32 \<times> string \<times> u64) option"

fun session_agrees :: "session_view \<Rightarrow> StreamState \<Rightarrow> bool" where
  "session_agrees None st = (st = Idling)"
| "session_agrees (Some (w, h, stride, path, generation)) st =
     (st = InSession w h stride path (Some generation) \<or> (generation = 0 \<and> st = InSession w h stride path None))"

lemma session_agrees_live: "session_agrees v st \<Longrightarrow> st \<noteq> Opening \<and> st \<noteq> Closed \<and> st \<noteq> Greeted"
  by (cases "(v, st)" rule: session_agrees.cases) auto

definition stream_of :: "(ServerMessage \<Rightarrow> string result) \<Rightarrow> session_view \<Rightarrow> string \<Rightarrow> bool" where
  "stream_of to_json session out \<longleftrightarrow>
     (\<exists>ms st. out = encode_lines to_json ms \<and> stream_run ms Opening = Some st \<and> session_agrees session st)"

end
