(* ===== verification/Viewer_Gtk.thy ===== *)
theory Viewer_Gtk
  imports Viewer_Ipc
begin

text \<open>
  The viewer application: the conversion of \<^verbatim>\<open>viewer-gtk/src/lib.rs\<close>, and the socket thread with
  the event queue it feeds of \<^verbatim>\<open>viewer-gtk/src/main.rs\<close>.

  The file system as the thread sees it is a \<open>FileView\<close>: \<open>fv_open path\<close> is what opening and
  mapping the file gives (the length of the mapping), and \<open>fv_read path len\<close> what reading a
  mapping of that length gives now. The widgets of GTK are reduced to what an event does to them.
\<close>

section \<open>RGB565 to RGBA\<close>

definition rgba_of_rgb565 :: "u16 \<Rightarrow> bytes" where
  "rgba_of_rgb565 pixel =
     (let red = ucast (drop_bit 11 pixel AND 0x1f) :: u8;
          green = ucast (drop_bit 5 pixel AND 0x3f) :: u8;
          blue = ucast (pixel AND 0x1f) :: u8 in
      [push_bit 3 red OR drop_bit 2 red, push_bit 2 green OR drop_bit 4 green,
       push_bit 3 blue OR drop_bit 2 blue, 0xff])"

text \<open>One step of the inner loop: pixel \<open>x\<close> of a source row into a destination row.\<close>

definition rgba_pixel_body :: "bytes \<Rightarrow> nat \<Rightarrow> bytes \<Rightarrow> bytes result" where
  "rgba_pixel_body src_row x dst_row =
     (let src_idx = x * 2 in
      if \<not> src_idx + 1 < length src_row then panic ''index out of bounds''
      else copy_into dst_row (x * 4) (rgba_of_rgb565 (from_le_bytes [src_row ! src_idx, src_row ! (src_idx + 1)])))"

text \<open>
  One step of the outer loop. \<open>y * stride\<close> stays below the checked \<open>stride * height\<close>, and the sum
  with \<open>width * 2\<close> below \<open>2 ^ 64\<close> because a slice is at most \<open>2 ^ 63\<close> bytes long; the products
  with the row length of the destination wrap.
\<close>

definition rgba_row_body :: "bytes \<Rightarrow> usize \<Rightarrow> usize \<Rightarrow> nat \<Rightarrow> bytes \<Rightarrow> bytes result" where
  "rgba_row_body bytes width stride y rgba =
     and_then (slice bytes (y * stride) (y * stride + width * 2)) (\<lambda>src_row.
     let dst_start = wrap_usize (y * width * 4); dst_end = wrap_usize ((y + 1) * width * 4) in
     and_then (slice rgba dst_start dst_end) (\<lambda>dst_row.
     and_then (for_range 0 width (rgba_pixel_body src_row) dst_row) (\<lambda>dst_row.
     copy_into rgba dst_start dst_row)))"

definition rgb565_to_rgba :: "u32 \<Rightarrow> u32 \<Rightarrow> usize \<Rightarrow> bytes \<Rightarrow> bytes result" where
  "rgb565_to_rgba w h stride bytes =
     (let width = unat w; height = unat h in
      and_then (ctx (checked_mul_usize stride height) ''shared framebuffer length overflow'') (\<lambda>min_len.
      ensure (length bytes \<ge> min_len) ''shared framebuffer too short''
      (for_range 0 height (rgba_row_body bytes width stride)
         (replicate (wrap_usize (width * height * 4)) 0))))"

section \<open>The socket thread\<close>

datatype UiEvent =
    UiFrame (uf_width: u32) (uf_height: u32) (uf_rgba: bytes)
  | UiWaiting
  | UiShutdown

record SharedFramebuffer =
  sf_width :: u32
  sf_height :: u32
  sf_stride :: usize
  sf_path :: string
  sf_len :: usize

record FileView =
  fv_open :: "string \<Rightarrow> usize result"
  fv_read :: "string \<Rightarrow> usize \<Rightarrow> bytes result"

definition viewer_socket_path :: "string option \<Rightarrow> u32 \<Rightarrow> string" where
  "viewer_socket_path env_path euid = (case env_path of Some path \<Rightarrow> path | None \<Rightarrow> default_socket_path euid)"

definition open_shared_framebuffer ::
  "FileView \<Rightarrow> u32 \<Rightarrow> u32 \<Rightarrow> u32 \<Rightarrow> PixelFormat \<Rightarrow> string \<Rightarrow> SharedFramebuffer result" where
  "open_shared_framebuffer fv width height stride pixel_format shm_path =
     ensure (pixel_format = PfRgb565) ''unsupported shared pixel format''
     (and_then (fv_open fv shm_path) (\<lambda>len.
      Ok \<lparr> sf_width = width, sf_height = height, sf_stride = unat stride, sf_path = shm_path, sf_len = len \<rparr>))"

text \<open>
  What one message does: the mapping that is kept, whether \<open>Waiting\<close> was the last thing reported,
  and the events sent so far. A message leaves the loop running, returns from the thread, or
  unwinds it (an index out of range, or a fault on the mapping).
\<close>

record ReaderState =
  rs_shared :: "SharedFramebuffer option"
  rs_waiting_sent :: bool
  rs_events :: "UiEvent list"

datatype 'a flow = Continue 'a | Returned 'a | Unwound 'a

definition send_event :: "UiEvent \<Rightarrow> ReaderState \<Rightarrow> ReaderState" where
  "send_event e rs = rs\<lparr> rs_events := rs_events rs @ [e] \<rparr>"

fun handle_message :: "FileView \<Rightarrow> ServerMessage \<Rightarrow> ReaderState \<Rightarrow> ReaderState flow" where
  "handle_message fv (Hello _) rs = Continue rs"
| "handle_message fv (SessionStart width height stride pixel_format shm_path) rs =
     (case open_shared_framebuffer fv width height stride pixel_format shm_path of
        Inr mapping \<Rightarrow> Continue (rs\<lparr> rs_shared := Some mapping \<rparr>)
      | Inl e \<Rightarrow> Continue rs)"
| "handle_message fv (FrameReady _ _ _ _ _) rs =
     (case rs_shared rs of
        None \<Rightarrow> Continue rs
      | Some shared \<Rightarrow>
          (case and_then (fv_read fv (sf_path shared) (sf_len shared))
                  (rgb565_to_rgba (sf_width shared) (sf_height shared) (sf_stride shared)) of
             Inr rgba \<Rightarrow> Continue (send_event (UiFrame (sf_width shared) (sf_height shared) rgba) rs)
           | Inl (Error _) \<Rightarrow> Continue rs
           | Inl (Panic _) \<Rightarrow> Unwound rs))"
| "handle_message fv MsgDisconnected rs =
     Continue (send_event UiWaiting (rs\<lparr> rs_shared := None, rs_waiting_sent := True \<rparr>))"
| "handle_message fv MsgShutdown rs = Returned (send_event UiShutdown rs)"

text \<open>
  The read loop of one connection on the text \<open>inp\<close> that arrives before the stream ends or fails;
  \<open>view n\<close> is the file system when the \<open>n\<close>-th line is handled.
\<close>

function read_loop ::
  "(string \<Rightarrow> ServerMessage result) \<Rightarrow> (nat \<Rightarrow> FileView) \<Rightarrow> nat \<Rightarrow> string \<Rightarrow> ReaderState \<Rightarrow> ReaderState flow" where
  "read_loop from_json view n inp rs =
     (if inp = [] then Continue rs
      else
        let (line, rest) = read_line inp; line = trim_end line in
        if line = [] then read_loop from_json view (Suc n) rest rs
        else case from_json line of
          Inl e \<Rightarrow> read_loop from_json view (Suc n) rest rs
        | Inr message \<Rightarrow>
            (case handle_message (view n) message rs of
               Continue rs \<Rightarrow> read_loop from_json view (Suc n) rest rs
             | Returned rs \<Rightarrow> Returned rs
             | Unwound rs \<Rightarrow> Unwound rs))"
  by pat_completeness auto
termination
  by (relation "measure (\<lambda>(fj, view, n, inp, rs). length inp)")
    (use read_line_shorter in \<open>force simp: prod_eq_iff\<close>)+

declare read_loop.simps [simp del]

text \<open>
  The thread over its connection attempts: an attempt fails, or gives a stream with the text that
  arrives on it and the views of its lines. A stream whose loop ends is dropped with its mapping
  and the next attempt follows.
\<close>

datatype connection = ConnectFails | Connected string "nat \<Rightarrow> FileView"

fun socket_thread ::
  "(string \<Rightarrow> ServerMessage result) \<Rightarrow> connection list \<Rightarrow> ReaderState \<Rightarrow> ReaderState flow" where
  "socket_thread from_json [] rs = Continue rs"
| "socket_thread from_json (ConnectFails # attempts) rs =
     socket_thread from_json attempts
       (if rs_waiting_sent rs then rs else (send_event UiWaiting rs)\<lparr> rs_waiting_sent := True \<rparr>)"
| "socket_thread from_json (Connected inp view # attempts) rs =
     (case read_loop from_json view 0 inp (rs\<lparr> rs_waiting_sent := False, rs_shared := None \<rparr>) of
        Continue rs \<Rightarrow> socket_thread from_json attempts (rs\<lparr> rs_shared := None \<rparr>)
      | stopped \<Rightarrow> stopped)"

section \<open>The event queue\<close>

datatype UiPage = PageWaiting | PageViewer

record Ui =
  ui_page :: UiPage
  ui_texture :: "(u32 \<times> u32 \<times> usize \<times> bytes) option"
  ui_open :: bool

text \<open>One tick of the timer: every queued event is handled, and \<open>Shutdown\<close> stops the timer.\<close>

fun ui_tick :: "UiEvent list \<Rightarrow> Ui \<Rightarrow> Ui flow" where
  "ui_tick [] ui = Continue ui"
| "ui_tick (UiFrame width height rgba # events) ui =
     ui_tick events (ui\<lparr> ui_texture := Some (width, height, unat width * 4, rgba), ui_page := PageViewer \<rparr>)"
| "ui_tick (UiWaiting # events) ui = ui_tick events (ui\<lparr> ui_page := PageWaiting \<rparr>)"
| "ui_tick (UiShutdown # events) ui = Returned (ui\<lparr> ui_open := False \<rparr>)"

definition build_ui :: Ui where
  "build_ui = \<lparr> ui_page = PageWaiting, ui_texture = None, ui_open = True \<rparr>"

definition start_reader :: ReaderState where
  "start_reader = \<lparr> rs_shared = None, rs_waiting_sent = False, rs_events = [] \<rparr>"

section \<open>The conversion\<close>

definition pixel565_at :: "bytes \<Rightarrow> nat \<Rightarrow> u16" where
  "pixel565_at bs off = from_le_bytes [bs ! off, bs ! (off + 1)]"

definition rgba_byte :: "bytes \<Rightarrow> nat \<Rightarrow> nat \<Rightarrow> nat \<Rightarrow> u8" where
  "rgba_byte bs w stride i =
     rgba_of_rgb565 (pixel565_at bs (i div 4 div w * stride + i div 4 mod w * 2)) ! (i mod 4)"

lemma length_rgba_of_rgb565 [simp]: "length (rgba_of_rgb565 p) = 4"
  by (simp add: rgba_of_rgb565_def Let_def)

text \<open>A loop that writes chunk after chunk of a row.\<close>

lemma length_chunks: "\<forall>x < n. length (f x) = k \<Longrightarrow> length (concat (map f [0..<n])) = n * (k :: nat)"
  by (induction n) simp_all

lemma nth_chunks:
  "\<forall>x < n. length (f x) = k \<Longrightarrow> i < n * k \<Longrightarrow> concat (map f [0..<n]) ! i = f (i div k) ! (i mod k)"
proof (induction n)
  case (Suc n)
  show ?case
  proof (cases "i < n * k")
    case True
    with Suc show ?thesis by (simp add: nth_append length_chunks [where k = k])
  next
    case False
    then have "i div k = n" using Suc.prems(2) by (intro div_nat_eqI) (simp_all add: mult.commute)
    moreover from this have "i mod k = i - n * k" by (simp add: modulo_nat_def mult.commute)
    ultimately show ?thesis using False Suc.prems(1) by (simp add: nth_append length_chunks [where k = k])
  qed
qed simp

lemma for_range_chunks:
  assumes body: "\<And>x d. x < n \<Longrightarrow> body x d = copy_into d (x * k) (f x)"
    and f: "\<forall>x < n. length (f x) = k" and d: "length d = n * k"
  shows "for_range 0 n body d = Ok (concat (map f [0..<n]))"
proof -
  let ?I = "\<lambda>x r. r = concat (map f [0..<x]) @ drop (x * k) d"
  have "\<exists>r. for_range 0 n body d = Inr r \<and> ?I n r"
  proof (rule for_range_total [where I = ?I])
    fix x r assume x: "x < n" and I: "?I x r"
    have len: "length (concat (map f [0..<x])) = x * k" using f x by (intro length_chunks) simp
    have "Suc x * k \<le> n * k" using x by (intro mult_le_mono1) simp
    then have "body x r = Inr (concat (map f [0..<Suc x]) @ drop (Suc x * k) d)"
      using f x len d I by (simp add: body copy_into_def blit_def add.commute)
    then show "\<exists>r'. body x r = Inr r' \<and> ?I (Suc x) r'" by blast
  qed simp_all
  with d show ?thesis by simp
qed

lemma rgba_row_ok:
  assumes "length src = w * 2" and "length dst = w * 4"
  shows "\<exists>dst'. for_range 0 w (rgba_pixel_body src) dst = Inr dst' \<and> length dst' = w * 4
    \<and> (\<forall>i < w * 4. dst' ! i = rgba_of_rgb565 (pixel565_at src (i div 4 * 2)) ! (i mod 4))"
proof -
  let ?f = "\<lambda>x. rgba_of_rgb565 (pixel565_at src (x * 2))"
  have "for_range 0 w (rgba_pixel_body src) dst = Ok (concat (map ?f [0..<w]))"
    by (rule for_range_chunks [where k = 4]) (use assms in \<open>simp_all add: rgba_pixel_body_def pixel565_at_def Let_def\<close>)
  then show ?thesis by (simp add: length_chunks [where k = 4] nth_chunks [where k = 4])
qed

lemma rgba_size_bound:
  assumes "w * 2 \<le> stride" and "stride * h \<le> n" and "n < 2 ^ 63"
  shows "w * h * 4 < usize_bound"
proof -
  have "w * 2 * h \<le> stride * h" using assms(1) by (rule mult_le_mono1)
  moreover have "w * h * 4 = 2 * (w * 2 * h)" by simp
  moreover have "(2 :: nat) ^ 64 = 2 * 2 ^ 63" by simp
  ultimately show ?thesis using assms(2,3) unfolding usize_bound_def by linarith
qed

lemma rgba_rows_ok:
  assumes "w * 2 \<le> stride" and "stride * h \<le> length bs" and "length bs < 2 ^ 63"
  shows "\<exists>rgba. for_range 0 h (rgba_row_body bs w stride) (replicate (w * h * 4) 0) = Inr rgba
    \<and> length rgba = w * h * 4 \<and> (\<forall>i < w * h * 4. rgba ! i = rgba_byte bs w stride i)"
proof -
  let ?I = "\<lambda>y d. length d = w * h * 4 \<and> (\<forall>i < y * w * 4. d ! i = rgba_byte bs w stride i)"
  note bound = rgba_size_bound [OF assms]
  have "\<exists>d. for_range 0 h (rgba_row_body bs w stride) (replicate (w * h * 4) 0) = Inr d \<and> ?I h d"
  proof (rule for_range_total [where I = ?I])
    fix y d assume y: "y < h" and I: "?I y d"
    have sy: "Suc y * stride \<le> stride * h" using y mult_le_mono1 [of "Suc y" h stride] by (simp add: mult.commute)
    have wy: "Suc y * (w * 4) \<le> w * h * 4" using y mult_le_mono1 [of "Suc y" h "w * 4"] by (simp add: mult.commute mult.left_commute)
    let ?src = "take (w * 2) (drop (y * stride) bs)"
    let ?dst = "take (w * 4) (drop (y * w * 4) d)"
    have src: "y * stride + w * 2 \<le> length bs" using sy assms(1,2) by simp
    have dst: "y * w * 4 + w * 4 \<le> length d" using wy I by (simp add: algebra_simps)
    have wrap: "wrap_usize (y * w * 4) = y * w * 4" "wrap_usize ((y + 1) * w * 4) = y * w * 4 + w * 4"
      using dst I bound by (simp_all add: wrap_usize_def algebra_simps)
    obtain row where row: "for_range 0 w (rgba_pixel_body ?src) ?dst = Inr row" "length row = w * 4"
      "\<forall>i < w * 4. row ! i = rgba_of_rgb565 (pixel565_at ?src (i div 4 * 2)) ! (i mod 4)"
      using rgba_row_ok [of ?src w ?dst] src dst by auto
    have sl: "slice bs (y * stride) (y * stride + w * 2) = Inr ?src"
      "slice d (y * w * 4) (y * w * 4 + w * 4) = Inr ?dst" "copy_into d (y * w * 4) row = Inr (blit d (y * w * 4) row)"
      using src dst row(2) by simp_all
    have step: "rgba_row_body bs w stride y d = Inr (blit d (y * w * 4) row)"
      by (simp only: rgba_row_body_def and_then_def wrap Let_def sl row(1) sum.case)
    have "blit d (y * w * 4) row ! i = rgba_byte bs w stride i" if i: "i < Suc y * w * 4" for i
    proof (cases "i < y * w * 4")
      case True
      then show ?thesis using I row(2) dst by (simp add: nth_blit)
    next
      case False
      define j where "j = i - y * w * 4"
      have j: "i = (y * w + j div 4) * 4 + j mod 4" "j div 4 < w" "j < w * 4"
        using False i by (simp_all add: j_def algebra_simps less_mult_imp_div_less)
      have p: "i div 4 = y * w + j div 4" "i mod 4 = j mod 4" by (simp_all add: j(1))
      have r: "i div 4 div w = y" "i div 4 mod w = j div 4" using j(2) by (simp_all add: p)
      have "pixel565_at ?src (j div 4 * 2) = pixel565_at bs (y * stride + j div 4 * 2)"
        using j(2) src by (simp add: pixel565_at_def)
      then have "row ! j = rgba_byte bs w stride i"
        using row(3) j(3) by (simp add: rgba_byte_def r p(2))
      then show ?thesis using False i row(2) dst j(3) by (simp add: nth_blit j_def)
    qed
    then show "\<exists>d'. rgba_row_body bs w stride y d = Inr d' \<and> ?I (Suc y) d'"
      using step I row(2) dst by auto
  qed (use assms in simp_all)
  then show ?thesis by (simp add: mult.commute)
qed

lemma rgb565_to_rgba_ok:
  assumes "unat w * 2 \<le> stride" and "stride * unat h \<le> length bs" and "length bs < 2 ^ 63"
  shows "\<exists>rgba. rgb565_to_rgba w h stride bs = Ok rgba \<and> length rgba = unat w * unat h * 4
    \<and> (\<forall>i < unat w * unat h * 4. rgba ! i = rgba_byte bs (unat w) stride i)"
proof -
  have "stride * unat h < usize_bound" using assms(2,3) by (simp add: usize_bound_def)
  with rgba_size_bound [OF assms] show ?thesis
    using rgba_rows_ok [OF assms] assms(2)
    by (simp add: rgb565_to_rgba_def and_then_def ensure_def Let_def ctx_def checked_mul_usize_def wrap_usize_def)
qed

section \<open>Following a stream\<close>

text \<open>The loop over the messages of a stream instead of its text.\<close>

fun handle_all :: "(nat \<Rightarrow> FileView) \<Rightarrow> nat \<Rightarrow> ServerMessage list \<Rightarrow> ReaderState \<Rightarrow> ReaderState flow" where
  "handle_all view n [] rs = Continue rs"
| "handle_all view n (m # ms) rs =
     (case handle_message (view n) m rs of
        Continue rs \<Rightarrow> handle_all view (Suc n) ms rs
      | stopped \<Rightarrow> stopped)"

lemma handle_all_append:
  "handle_all view n (xs @ ys) rs =
     (case handle_all view n xs rs of Continue rs \<Rightarrow> handle_all view (n + length xs) ys rs | stopped \<Rightarrow> stopped)"
  by (induction view n xs rs rule: handle_all.induct) (simp_all split: flow.split)

lemma read_loop_encoded:
  assumes "json_ok tj fj"
  shows "read_loop fj view n (encode_lines tj ms) rs = handle_all view n ms rs"
proof (induction ms arbitrary: n rs)
  case Nil
  then show ?case by (simp add: read_loop.simps [of fj view n "[]"])
next
  case (Cons m ms)
  obtain line where l: "read_line (encode_line tj m @ encode_lines tj ms) = (line @ ''\<newline>'', encode_lines tj ms)"
    "encode_line tj m = line @ ''\<newline>''" "trim_end (line @ ''\<newline>'') = line" "line \<noteq> []" "fj line = Ok m"
    using read_encoded [OF assms] by metis
  have l1: "read_line (line @ CHR ''\<newline>'' # encode_lines tj ms) = (line @ ''\<newline>'', encode_lines tj ms)"
    using l(1,2) by simp
  have "read_loop fj view n (encode_lines tj (m # ms)) rs =
      (case handle_message (view n) m rs of
         Continue rs \<Rightarrow> read_loop fj view (Suc n) (encode_lines tj ms) rs
       | Returned rs \<Rightarrow> Returned rs | Unwound rs \<Rightarrow> Unwound rs)"
    by (subst read_loop.simps) (simp add: l1 l(2-5))
  then show ?case by (simp add: Cons.IH split: flow.split)
qed

text \<open>
  A reader keeps up when each announced file still has the announced size while it is opened, and
  no mapping has lost its file when a frame notice is handled.
\<close>

definition keeps_up :: "(nat \<Rightarrow> FileView) \<Rightarrow> nat \<Rightarrow> ServerMessage list \<Rightarrow> bool" where
  "keeps_up view n ms \<longleftrightarrow>
     (\<forall>k < length ms.
        (\<forall>w h stride format path. ms ! k = SessionStart w h stride format path \<longrightarrow>
           fv_open (view (n + k)) path = Ok (unat stride * unat h))
        \<and> (\<forall>w h stride g full. ms ! k = FrameReady w h stride g full \<longrightarrow>
             (\<forall>path len. \<exists>bs. fv_read (view (n + k)) path len = Ok bs \<and> length bs = len)))"

lemma keeps_up_Cons:
  "keeps_up view n (m # ms) \<Longrightarrow> keeps_up view (Suc n) ms"
  unfolding keeps_up_def by (metis Suc_less_eq add_Suc_right add_Suc length_Cons nth_Cons_Suc)

lemma keeps_up_open:
  "keeps_up view n (SessionStart w h stride format path # ms) \<Longrightarrow>
     fv_open (view n) path = Ok (unat stride * unat h)"
  by (force simp: keeps_up_def)

lemma keeps_up_read:
  "keeps_up view n (FrameReady w h stride g full # ms) \<Longrightarrow>
     \<exists>bs. fv_read (view n) path len = Ok bs \<and> length bs = len"
  by (force simp: keeps_up_def)

fun reader_sync :: "StreamState \<Rightarrow> ReaderState \<Rightarrow> bool" where
  "reader_sync (InSession w h stride path _) rs =
     (session_shape w h stride \<and> rs_shared rs = Some \<lparr> sf_width = w, sf_height = h, sf_stride = unat stride,
        sf_path = path, sf_len = unat stride * unat h \<rparr>)"
| "reader_sync st rs = (rs_shared rs = None)"

text \<open>One frame notice that is handled in a session: the file is converted and shown.\<close>

definition frame_of :: "u32 \<Rightarrow> u32 \<Rightarrow> u32 \<Rightarrow> bytes \<Rightarrow> UiEvent" where
  "frame_of w h stride bs =
     UiFrame w h (map (rgba_byte bs (unat w) (unat stride)) [0..<unat w * unat h * 4])"

lemma frame_handled:
  assumes "reader_sync (InSession w h stride path latest) rs"
    and "fv_read fv path (unat stride * unat h) = Ok bs" and "length bs = unat stride * unat h"
  shows "handle_message fv (FrameReady a b c g full) rs = Continue (send_event (frame_of w h stride bs) rs)"
proof -
  have shape: "session_shape w h stride" and sh: "rs_shared rs = Some \<lparr> sf_width = w, sf_height = h,
      sf_stride = unat stride, sf_path = path, sf_len = unat stride * unat h \<rparr>"
    using assms(1) by simp_all
  obtain rgba where r: "rgb565_to_rgba w h (unat stride) bs = Ok rgba" "length rgba = unat w * unat h * 4"
    "\<forall>i < unat w * unat h * 4. rgba ! i = rgba_byte bs (unat w) (unat stride) i"
    using rgb565_to_rgba_ok [of w "unat stride" h bs] shape assms(3) by (auto simp: session_shape_def)
  then have "rgba = map (rgba_byte bs (unat w) (unat stride)) [0..<unat w * unat h * 4]"
    by (intro nth_equalityI) simp_all
  then show ?thesis using r(1) sh assms(2) by (simp add: and_then_def frame_of_def)
qed

lemma reader_step:
  assumes step: "stream_step m st = Some st'" and sync: "reader_sync st rs" and up: "keeps_up view n (m # ms)"
    and live: "m \<noteq> MsgShutdown"
  shows "\<exists>rs'. handle_message (view n) m rs = Continue rs' \<and> reader_sync st' rs'"
proof (cases m)
  case (SessionStart w h stride format path)
  have "format = PfRgb565" by (cases format)
  with SessionStart show ?thesis
    using step keeps_up_open [of view n w h stride format path ms] up
    by (auto simp: open_shared_framebuffer_def ensure_def and_then_def split: if_splits)
next
  case (FrameReady w h stride g full)
  then obtain path latest where st: "st = InSession w h stride path latest"
    "st' = InSession w h stride path (Some g)"
    using step by (auto split: StreamState.splits if_splits)
  obtain bs where "fv_read (view n) path (unat stride * unat h) = Ok bs" "length bs = unat stride * unat h"
    using keeps_up_read [OF up [unfolded FrameReady]] by blast
  then show ?thesis using frame_handled [OF sync [unfolded st(1)]] sync st FrameReady
    by (simp add: send_event_def)
qed (use step sync live in \<open>auto simp: send_event_def split: if_splits\<close>)

lemma reader_run:
  assumes "stream_run ms st = Some st'" and "reader_sync st rs" and "keeps_up view n ms" and "st' \<noteq> Closed"
  shows "\<exists>rs'. handle_all view n ms rs = Continue rs' \<and> reader_sync st' rs'"
  using assms
proof (induction ms arbitrary: n st rs)
  case Nil
  then show ?case by simp
next
  case (Cons m ms)
  obtain st1 where st1: "stream_step m st = Some st1" "stream_run ms st1 = Some st'"
    using Cons.prems(1) by (auto simp: bind_eq_Some_conv)
  have "stream_run ms Closed = Some st' \<Longrightarrow> ms = []"
    using Cons.prems(4) by (cases ms) (auto simp: bind_eq_Some_conv elim: stream_step.elims split: if_splits)
  then have "m \<noteq> MsgShutdown" using st1 Cons.prems(4) by (auto split: if_splits)
  then obtain rs1 where "handle_message (view n) m rs = Continue rs1" "reader_sync st1 rs1"
    using reader_step [OF st1(1) Cons.prems(2,3)] by blast
  then show ?case
    using Cons.IH [OF st1(2) _ keeps_up_Cons [OF Cons.prems(3)] Cons.prems(4)] by auto
qed

text \<open>A running reader has not queued \<open>Shutdown\<close>, so a tick reaches the last event.\<close>

lemma handle_message_no_shutdown:
  "handle_message fv m rs = Continue rs' \<Longrightarrow> UiShutdown \<notin> set (rs_events rs) \<Longrightarrow> UiShutdown \<notin> set (rs_events rs')"
  by (cases m) (auto simp: send_event_def split: option.splits sum.splits err.splits)

lemma read_loop_no_shutdown:
  "read_loop fj view n inp rs = Continue rs' \<Longrightarrow> UiShutdown \<notin> set (rs_events rs) \<Longrightarrow> UiShutdown \<notin> set (rs_events rs')"
proof (induction fj view n inp rs rule: read_loop.induct)
  case (1 fj view n inp rs)
  show ?case
  proof (cases "inp = []")
    case True
    with 1 show ?thesis by (simp add: read_loop.simps [of fj view n "[]"])
  next
    case False
    obtain line rest where rl: "read_line inp = (line, rest)" by fastforce
    have step: "read_loop fj view n inp rs =
        (if trim_end line = [] then read_loop fj view (Suc n) rest rs
         else case fj (trim_end line) of Inl e \<Rightarrow> read_loop fj view (Suc n) rest rs
         | Inr message \<Rightarrow> (case handle_message (view n) message rs of
               Continue rs \<Rightarrow> read_loop fj view (Suc n) rest rs
             | Returned rs \<Rightarrow> Returned rs | Unwound rs \<Rightarrow> Unwound rs))"
      by (subst read_loop.simps) (simp add: False rl Let_def)
    show ?thesis
    proof (cases "trim_end line = [] \<or> (\<exists>e. fj (trim_end line) = Inl e)")
      case True
      then have "read_loop fj view (Suc n) rest rs = Continue rs'" using 1(4) step by (auto split: if_splits)
      with True 1(5) show ?thesis using 1(1,2) [OF False refl rl [symmetric] refl] by blast
    next
      case f: False
      then obtain m where m: "fj (trim_end line) = Inr m" by (cases "fj (trim_end line)") auto
      with f 1(4) step obtain rs1 where rs1: "handle_message (view n) m rs = Continue rs1"
        "read_loop fj view (Suc n) rest rs1 = Continue rs'" by (auto split: flow.splits)
      show ?thesis
        using 1(3) [OF False refl rl [symmetric] refl _ m rs1(1) rs1(2)] f handle_message_no_shutdown [OF rs1(1) 1(5)] by blast
    qed
  qed
qed

lemma ui_tick_waiting:
  "UiShutdown \<notin> set events \<Longrightarrow> \<exists>ui'. ui_tick (events @ [UiWaiting]) ui = Continue ui' \<and> ui_page ui' = PageWaiting"
  by (induction events ui rule: ui_tick.induct) simp_all

section \<open>The interface to the publisher\<close>

text \<open>
  What the viewer relies on: every stream a publisher keeps open follows the contract and shows the
  publisher's present session.
\<close>

locale stream_publisher =
  fixes publisher_ok :: "(ServerMessage \<Rightarrow> string result) \<Rightarrow> 'p \<Rightarrow> bool"
    and streams :: "'p \<Rightarrow> string list"
    and session :: "'p \<Rightarrow> session_view"
  assumes follows: "publisher_ok tj p \<Longrightarrow> out \<in> set (streams p) \<Longrightarrow> stream_of tj (session p) out"
begin

lemma reader_follows:
  assumes "json_ok tj fj" and "publisher_ok tj p" and "out \<in> set (streams p)"
  shows "\<exists>ms st. out = encode_lines tj ms \<and> stream_run ms Opening = Some st \<and> session_agrees (session p) st \<and>
    (\<forall>view. keeps_up view 0 ms \<longrightarrow> (\<exists>rs. read_loop fj view 0 out start_reader = Continue rs \<and> reader_sync st rs))"
proof -
  obtain ms st where s: "out = encode_lines tj ms" "stream_run ms Opening = Some st" "session_agrees (session p) st"
    using follows [OF assms(2,3)] by (auto simp: stream_of_def)
  have "\<exists>rs. handle_all view 0 ms start_reader = Continue rs \<and> reader_sync st rs" if "keeps_up view 0 ms" for view
    using reader_run [OF s(2) _ that] session_agrees_live [OF s(3)] by (simp add: start_reader_def)
  with s show ?thesis by (auto simp: read_loop_encoded [OF assms(1)])
qed

text \<open>What the next message does to such a reader: a frame is shown, or the end is reported.\<close>

lemma reader_next:
  assumes j: "json_ok tj fj" and p: "publisher_ok tj p" and out: "out \<in> set (streams p)"
  shows "\<exists>ms. out = encode_lines tj ms \<and> (\<forall>view. keeps_up view 0 ms \<longrightarrow>
      (\<forall>w h stride path g g' bs. session p = Some (w, h, stride, path, g) \<and> length bs = unat stride * unat h
         \<and> fv_read (view (length ms)) path (unat stride * unat h) = Ok bs \<longrightarrow>
         (\<exists>rs. read_loop fj view 0 (out @ encode_line tj (FrameReady w h stride g' True)) start_reader
           = Continue (send_event (frame_of w h stride bs) rs)))
      \<and> (\<exists>rs. read_loop fj view 0 (out @ encode_line tj MsgDisconnected) start_reader
           = Continue (send_event UiWaiting rs) \<and> rs_shared rs = None)
      \<and> (\<exists>rs. read_loop fj view 0 (out @ encode_line tj MsgShutdown) start_reader
           = Returned (send_event UiShutdown rs)))"
proof -
  obtain ms st where ms: "out = encode_lines tj ms" "session_agrees (session p) st"
    "\<And>view. keeps_up view 0 ms \<Longrightarrow> \<exists>rs. read_loop fj view 0 out start_reader = Continue rs \<and> reader_sync st rs"
    using reader_follows [OF assms] by blast
  have step: "read_loop fj view 0 (out @ encode_line tj m) start_reader
      = (case read_loop fj view 0 out start_reader of
           Continue rs \<Rightarrow> handle_message (view (length ms)) m rs | stopped \<Rightarrow> stopped)" for view m
  proof -
    have "out @ encode_line tj m = encode_lines tj (ms @ [m])" by (simp add: ms(1))
    then show ?thesis
      by (simp only: read_loop_encoded [OF j] handle_all_append ms(1)) (simp split: flow.split)
  qed
  show ?thesis
  proof (intro exI [of _ ms] conjI allI impI)
    fix view assume "keeps_up view 0 ms"
    then obtain rs where rs: "read_loop fj view 0 out start_reader = Continue rs" "reader_sync st rs" using ms(3) by blast
    show "\<exists>rs. read_loop fj view 0 (out @ encode_line tj MsgDisconnected) start_reader
        = Continue (send_event UiWaiting rs) \<and> rs_shared rs = None"
      by (simp add: step rs(1)) (rule exI, rule conjI, rule refl, simp)
    show "\<exists>rs. read_loop fj view 0 (out @ encode_line tj MsgShutdown) start_reader = Returned (send_event UiShutdown rs)"
      by (simp add: step rs(1)) blast
    fix w h stride path g g' bs
    assume a: "session p = Some (w, h, stride, path, g) \<and> length bs = unat stride * unat h
      \<and> fv_read (view (length ms)) path (unat stride * unat h) = Ok bs"
    then obtain latest where "st = InSession w h stride path latest" using ms(2) by auto
    with rs(2) have "handle_message (view (length ms)) (FrameReady w h stride g' True) rs
        = Continue (send_event (frame_of w h stride bs) rs)"
      using a by (intro frame_handled [of w h stride path latest]) simp_all
    then show "\<exists>rs. read_loop fj view 0 (out @ encode_line tj (FrameReady w h stride g' True)) start_reader
        = Continue (send_event (frame_of w h stride bs) rs)"
      by (simp add: step rs(1) del: handle_message.simps) blast
  qed (rule ms(1))
qed

end

text \<open>The four bytes of a shown pixel.\<close>

lemma frame_pixel:
  assumes "x < unat w" and "y < unat h"
  shows "take 4 (drop ((y * unat w + x) * 4) (uf_rgba (frame_of w h stride bs)))
    = rgba_of_rgb565 (pixel565_at bs (y * unat stride + x * 2))"
proof (rule nth_equalityI)
  have "Suc y * unat w \<le> unat h * unat w" using assms(2) by (intro mult_le_mono1) simp
  then have k: "y * unat w + x < unat w * unat h" using assms(1) by (simp add: mult.commute)
  then show "length (take 4 (drop ((y * unat w + x) * 4) (uf_rgba (frame_of w h stride bs))))
      = length (rgba_of_rgb565 (pixel565_at bs (y * unat stride + x * 2)))" by (simp add: frame_of_def)
  fix i assume "i < length (take 4 (drop ((y * unat w + x) * 4) (uf_rgba (frame_of w h stride bs))))"
  then have i: "i < 4" by simp
  have "(n * 4 + i) div 4 = n" "(n * 4 + i) mod 4 = i" for n using i by simp_all
  note this [of "y * unat w + x"]
  moreover have "(y * unat w + x) div unat w = y" "(y * unat w + x) mod unat w = x" using assms(1) by simp_all
  ultimately show "take 4 (drop ((y * unat w + x) * 4) (uf_rgba (frame_of w h stride bs))) ! i
      = rgba_of_rgb565 (pixel565_at bs (y * unat stride + x * 2)) ! i"
    using i k by (simp add: frame_of_def rgba_byte_def)
qed

section \<open>A lost daemon\<close>

text \<open>
  \<open>Disconnected\<close> sets \<open>waiting_sent\<close>, and no later frame clears it. When the daemon then goes away
  without a message the failing connection attempts report nothing, and the last frame stays shown.
\<close>

lemma failed_attempts_silent:
  "rs_waiting_sent rs \<Longrightarrow> socket_thread fj (replicate k ConnectFails) rs = Continue rs"
  by (induction k) simp_all

lemma stale_frame_kept:
  fixes w h stride path g
  defines "ms \<equiv> [Hello 1, MsgDisconnected, SessionStart w h stride PfRgb565 path, FrameReady w h stride g True]"
  assumes "json_ok tj fj" and "session_shape w h stride" and "keeps_up view 0 ms"
  shows "\<exists>rs bs. socket_thread fj (Connected (encode_lines tj ms) view # replicate k ConnectFails) start_reader
    = Continue rs \<and> rs_events rs = [UiWaiting, frame_of w h stride bs]"
proof -
  have open_ok: "fv_open (view 2) path = Ok (unat stride * unat h)"
    using assms(4) by (auto simp: keeps_up_def ms_def dest: spec [of _ 2])
  obtain bs where bs: "fv_read (view 3) path (unat stride * unat h) = Ok bs" "length bs = unat stride * unat h"
  proof -
    have "\<forall>path len. \<exists>bs. fv_read (view 3) path len = Ok bs \<and> length bs = len"
      using assms(4) by (auto simp: keeps_up_def ms_def dest!: spec [of _ 3])
    then show thesis using that by blast
  qed
  let ?rs = "\<lparr> rs_shared = Some \<lparr> sf_width = w, sf_height = h, sf_stride = unat stride, sf_path = path,
      sf_len = unat stride * unat h \<rparr>, rs_waiting_sent = True, rs_events = [UiWaiting] \<rparr>"
  have "handle_message (view 3) (FrameReady w h stride g True) ?rs = Continue (send_event (frame_of w h stride bs) ?rs)"
    by (rule frame_handled [of w h stride path None, OF _ bs]) (simp add: assms(3))
  then have "handle_all view 0 ms start_reader = Continue (send_event (frame_of w h stride bs) ?rs)"
    using open_ok by (simp add: ms_def start_reader_def send_event_def open_shared_framebuffer_def ensure_def
        and_then_def numeral_2_eq_2 numeral_3_eq_3)
  then have "read_loop fj view 0 (encode_lines tj ms) (start_reader\<lparr> rs_waiting_sent := False, rs_shared := None \<rparr>)
      = Continue (send_event (frame_of w h stride bs) ?rs)"
    by (simp add: read_loop_encoded [OF assms(2)] start_reader_def)
  then show ?thesis
    using failed_attempts_silent [of "(send_event (frame_of w h stride bs) ?rs)\<lparr> rs_shared := None \<rparr>" fj k]
    by (auto simp: send_event_def)
qed

end
