(* ===== verification/Viewer_Daemon.thy ===== *)
theory Viewer_Daemon
  imports Viewer_Gtk
begin

text \<open>
  The viewer daemon \<^verbatim>\<open>viewerd/src/main.rs\<close>: configuration, the advertised modes, the published
  session with its shared framebuffer, the clients of the control socket, and the main loop that
  turns GUD events into framebuffer contents and messages.

  The files of the daemon are reached through \<open>fs\<close>, the kernel's answer to each call. A published
  session's map is the contents of the shared file. \<open>ViewerEnv\<close> holds the third-party functions
  and the build profile; \<open>Turn\<close> is what one iteration of the loop meets. As elsewhere the
  statistics and log lines are left out, and plain arithmetic is that of a release build.
\<close>

section \<open>Configuration\<close>

datatype ViewerFormat = VRgb565 | VRgb888

definition viewer_format_from_env :: "env_value \<Rightarrow> ViewerFormat" where
  "viewer_format_from_env raw =
     (case raw of
        Some (Utf8 s) \<Rightarrow>
          (let f = to_ascii_lowercase (trim s) in
           if f = ''rgb565'' then VRgb565 else if f = ''rgb888'' then VRgb888 else VRgb565)
      | _ \<Rightarrow> VRgb565)"

fun viewer_pixel_format :: "ViewerFormat \<Rightarrow> u8" where
  "viewer_pixel_format VRgb565 = GUD_PIXEL_FORMAT_RGB565"
| "viewer_pixel_format VRgb888 = GUD_PIXEL_FORMAT_RGB888"

fun viewer_bytes_per_pixel :: "ViewerFormat \<Rightarrow> usize" where
  "viewer_bytes_per_pixel VRgb565 = 2"
| "viewer_bytes_per_pixel VRgb888 = 3"

definition parse_env_u32 :: "env_value \<Rightarrow> u32 \<Rightarrow> u32" where
  "parse_env_u32 value dflt =
     (case Option.bind value to_str of
        None \<Rightarrow> dflt
      | Some s \<Rightarrow> (case parse_unsigned (2 ^ 32) s of None \<Rightarrow> dflt | Some v \<Rightarrow> of_nat v))"

record RuntimePaths =
  rp_socket_path :: string
  rp_framebuffer_path :: string

definition build_runtime_paths :: "string option \<Rightarrow> string option \<Rightarrow> u32 \<Rightarrow> RuntimePaths" where
  "build_runtime_paths env_socket env_shm uid =
     \<lparr> rp_socket_path = (case env_socket of Some p \<Rightarrow> p | None \<Rightarrow> default_socket_path uid),
       rp_framebuffer_path = (case env_shm of Some p \<Rightarrow> p | None \<Rightarrow> default_framebuffer_path uid) \<rparr>"

section \<open>Advertised modes\<close>

definition DEFAULT_NATIVE_MODE :: DisplayMode where
  "DEFAULT_NATIVE_MODE =
     \<lparr> dm_clock = 174359, dm_hdisplay = 1080, dm_hsync_start = 1192, dm_hsync_end = 1208, dm_htotal = 1244,
       dm_vdisplay = 2280, dm_vsync_start = 2316, dm_vsync_end = 2324, dm_vtotal = 2336,
       dm_flags = GUD_DISPLAY_MODE_FLAG_PREFERRED \<rparr>"

definition PORTRAIT_FALLBACKS :: "(u16 \<times> u16) list" where
  "PORTRAIT_FALLBACKS = [(900, 1900), (810, 1710), (720, 1520)]"

text \<open>The daemon's own copy of the timing derivation, one porch after the other.\<close>

definition viewer_scale_dimension :: "u16 \<Rightarrow> u16 \<Rightarrow> u16 \<Rightarrow> u16 result" where
  "viewer_scale_dimension delta native_active target_active =
     (if ucast native_active = (0 :: u32) then panic ''attempt to divide by zero''
      else let scaled = (ucast delta * ucast target_active :: u32) div ucast native_active in
           Ok (ucast (max scaled 1)))"

definition viewer_derive_mode :: "DisplayMode \<Rightarrow> u16 \<Rightarrow> u16 \<Rightarrow> DisplayMode result" where
  "viewer_derive_mode native target_width target_height =
     and_then (viewer_scale_dimension (dm_hsync_start native - dm_hdisplay native) (dm_hdisplay native) target_width) (\<lambda>h_front.
     and_then (viewer_scale_dimension (dm_hsync_end native - dm_hsync_start native) (dm_hdisplay native) target_width) (\<lambda>h_sync.
     and_then (viewer_scale_dimension (dm_htotal native - dm_hsync_end native) (dm_hdisplay native) target_width) (\<lambda>h_back.
     and_then (viewer_scale_dimension (dm_vsync_start native - dm_vdisplay native) (dm_vdisplay native) target_height) (\<lambda>v_front.
     and_then (viewer_scale_dimension (dm_vsync_end native - dm_vsync_start native) (dm_vdisplay native) target_height) (\<lambda>v_sync.
     and_then (viewer_scale_dimension (dm_vtotal native - dm_vsync_end native) (dm_vdisplay native) target_height) (\<lambda>v_back.
     let hsync_start = target_width + h_front;
         hsync_end = hsync_start + h_sync;
         htotal = hsync_end + h_back;
         vsync_start = target_height + v_front;
         vsync_end = vsync_start + v_sync;
         vtotal = vsync_end + v_back in
     if ucast (dm_htotal native) = (0 :: u64) \<or> ucast (dm_vtotal native) = (0 :: u64)
     then panic ''attempt to divide by zero''
     else Ok \<lparr> dm_clock = ucast (ucast (dm_clock native) * ucast htotal * ucast vtotal
                                   div ucast (dm_htotal native) div (ucast (dm_vtotal native) :: u64)),
               dm_hdisplay = target_width, dm_hsync_start = hsync_start, dm_hsync_end = hsync_end,
               dm_htotal = htotal, dm_vdisplay = target_height, dm_vsync_start = vsync_start,
               dm_vsync_end = vsync_end, dm_vtotal = vtotal, dm_flags = 0 \<rparr>))))))"

fun push_fallbacks :: "DisplayMode list \<Rightarrow> (u16 \<times> u16) list \<Rightarrow> DisplayMode list result" where
  "push_fallbacks ms [] = Ok ms"
| "push_fallbacks ms ((width, height) # rest) =
     and_then (viewer_derive_mode DEFAULT_NATIVE_MODE width height) (\<lambda>m. push_fallbacks (ms @ [m]) rest)"

definition build_advertised_modes :: "DisplayMode list result" where
  "build_advertised_modes = push_fallbacks [DEFAULT_NATIVE_MODE] PORTRAIT_FALLBACKS"

section \<open>Files\<close>

text \<open>A \<open>Path::parent\<close> of a path without \<open>.\<close> components, and the calls on the file system.\<close>

definition strip_slashes :: "string \<Rightarrow> string" where
  "strip_slashes p = rev (dropWhile ((=) (CHR ''/'')) (rev p))"

definition path_parent :: "string \<Rightarrow> string option" where
  "path_parent p =
     (let q = strip_slashes p; d = rev (dropWhile ((\<noteq>) (CHR ''/'')) (rev q)) in
      if q = [] then None
      else if d \<noteq> [] \<and> strip_slashes d = [] then Some ''/''
      else Some (strip_slashes d))"

datatype FsCall =
    CreateDirAll string
  | SetPermissions string nat
  | Chown string u32 u32
  | BindSocket string
  | SetNonblocking string
  | OpenTruncate string
  | SetLen string usize
  | MapMut string usize

type_synonym fs_answers = "FsCall \<Rightarrow> unit result"

definition prepare_runtime_path :: "fs_answers \<Rightarrow> string \<Rightarrow> u32 \<Rightarrow> u32 \<Rightarrow> unit result" where
  "prepare_runtime_path fs path uid gid =
     and_then (ctx (path_parent path) ''no parent directory'') (\<lambda>parent.
     and_then (fs (CreateDirAll parent)) (\<lambda>_.
     and_then (fs (SetPermissions parent 0x1F8)) (\<lambda>_.
     fs (Chown parent uid gid))))"

section \<open>The published session\<close>

record PublishedSession =
  pu_width :: u32
  pu_height :: u32
  pu_stride :: usize
  pu_generation :: u64
  pu_map :: bytes
  pu_shm_path :: string

definition new_session :: "fs_answers \<Rightarrow> u32 \<Rightarrow> u32 \<Rightarrow> string \<Rightarrow> u32 \<Rightarrow> u32 \<Rightarrow> PublishedSession result" where
  "new_session fs width height shm_path uid gid =
     (let stride = unat width * 2 in
      and_then (ctx (checked_mul_usize stride (unat height)) ''framebuffer size overflow'') (\<lambda>len.
      and_then (fs (OpenTruncate shm_path)) (\<lambda>_.
      and_then (fs (SetLen shm_path len)) (\<lambda>_.
      and_then (fs (SetPermissions shm_path 0x1B0)) (\<lambda>_.
      and_then (fs (Chown shm_path uid gid)) (\<lambda>_.
      and_then (fs (MapMut shm_path len)) (\<lambda>_.
      Ok \<lparr> pu_width = width, pu_height = height, pu_stride = stride, pu_generation = 0,
           pu_map = replicate len 0, pu_shm_path = shm_path \<rparr>)))))))"

definition metadata_message :: "PublishedSession \<Rightarrow> ServerMessage" where
  "metadata_message s =
     SessionStart (pu_width s) (pu_height s) (of_nat (pu_stride s)) PfRgb565 (pu_shm_path s)"

definition frame_ready_message :: "PublishedSession \<Rightarrow> ServerMessage" where
  "frame_ready_message s =
     FrameReady (pu_width s) (pu_height s) (of_nat (pu_stride s)) (pu_generation s) True"

section \<open>Clients\<close>

record ViewerPublisher =
  vp_clients :: "ViewerClient list"
  vp_session :: "PublishedSession option"

definition new_publisher :: "fs_answers \<Rightarrow> RuntimePaths \<Rightarrow> u32 \<Rightarrow> u32 \<Rightarrow> ViewerPublisher result" where
  "new_publisher fs paths uid gid =
     and_then (prepare_runtime_path fs (rp_socket_path paths) uid gid) (\<lambda>_.
     and_then (prepare_runtime_path fs (rp_framebuffer_path paths) uid gid) (\<lambda>_.
     and_then (fs (BindSocket (rp_socket_path paths))) (\<lambda>_.
     and_then (fs (SetNonblocking (rp_socket_path paths))) (\<lambda>_.
     and_then (fs (SetPermissions (rp_socket_path paths) 0x1B0)) (\<lambda>_.
     and_then (fs (Chown (rp_socket_path paths) uid gid)) (\<lambda>_.
     Ok \<lparr> vp_clients = [], vp_session = None \<rparr>))))))"

type_synonym to_json = "ServerMessage \<Rightarrow> string result"

text \<open>The loop of \<open>broadcast\<close>: a client whose send fails is removed, and the next one takes its index.\<close>

function broadcast_from :: "to_json \<Rightarrow> ServerMessage \<Rightarrow> nat \<Rightarrow> ViewerClient list \<Rightarrow> ViewerClient list" where
  "broadcast_from tj message idx clients =
     (if idx < length clients then
        (case send_message tj (clients ! idx) message of
           (Inl e, c) \<Rightarrow> broadcast_from tj message idx (take idx clients @ drop (Suc idx) clients)
         | (Inr _, c) \<Rightarrow> broadcast_from tj message (Suc idx) (clients[idx := c]))
      else clients)"
  by pat_completeness auto
termination
  by (relation "measure (\<lambda>(tj, m, idx, cs). length cs - idx)") auto

declare broadcast_from.simps [simp del]

definition broadcast :: "to_json \<Rightarrow> ServerMessage \<Rightarrow> ViewerPublisher \<Rightarrow> ViewerPublisher" where
  "broadcast tj message p = p\<lparr> vp_clients := broadcast_from tj message 0 (vp_clients p) \<rparr>"

text \<open>What \<open>accept\<close> gives: a stream on which nothing has been written, \<open>WouldBlock\<close>, or an error.\<close>

datatype accept_outcome = Accepted "nat option list" | WouldBlock | AcceptError

fun send_all :: "to_json \<Rightarrow> ViewerClient \<Rightarrow> ServerMessage list \<Rightarrow> ViewerClient option" where
  "send_all tj stream [] = Some stream"
| "send_all tj stream (m # ms) =
     (case send_message tj stream m of (Inl e, _) \<Rightarrow> None | (Inr _, stream) \<Rightarrow> send_all tj stream ms)"

definition greeting :: "PublishedSession option \<Rightarrow> ServerMessage list" where
  "greeting session =
     Hello PROTOCOL_VERSION #
     (case session of Some s \<Rightarrow> [metadata_message s, frame_ready_message s] | None \<Rightarrow> [MsgDisconnected])"

fun accept_new_clients :: "to_json \<Rightarrow> accept_outcome list \<Rightarrow> ViewerPublisher \<Rightarrow> ViewerPublisher" where
  "accept_new_clients tj [] p = p"
| "accept_new_clients tj (WouldBlock # _) p = p"
| "accept_new_clients tj (AcceptError # _) p = p"
| "accept_new_clients tj (Accepted writes # outcomes) p =
     (case send_all tj \<lparr> vc_out = [], vc_writes = writes \<rparr> (greeting (vp_session p)) of
        None \<Rightarrow> accept_new_clients tj outcomes p
      | Some stream \<Rightarrow> accept_new_clients tj outcomes (p\<lparr> vp_clients := vp_clients p @ [stream] \<rparr>))"

definition ensure_session ::
  "to_json \<Rightarrow> fs_answers \<Rightarrow> ActiveScanoutState \<Rightarrow> RuntimePaths \<Rightarrow> u32 \<Rightarrow> u32 \<Rightarrow> ViewerPublisher \<Rightarrow>
   PublishedSession result \<times> ViewerPublisher" where
  "ensure_session tj fs state paths uid gid p =
     (let needs_new = (case vp_session p of
            None \<Rightarrow> True
          | Some session \<Rightarrow> pu_width session \<noteq> as_width state \<or> pu_height session \<noteq> as_height state) in
      case (if needs_new then
              (case new_session fs (as_width state) (as_height state) (rp_framebuffer_path paths) uid gid of
                 Inl e \<Rightarrow> (Inl e, p)
               | Inr session \<Rightarrow>
                   (Ok (), broadcast tj (metadata_message session) (p\<lparr> vp_session := Some session \<rparr>)))
            else (Ok (), p)) of
        (Inl e, p) \<Rightarrow> (Inl e, p)
      | (Inr _, p) \<Rightarrow> (ctx (vp_session p) ''shared framebuffer session unavailable'', p))"

definition publish_frame_ready :: "to_json \<Rightarrow> ViewerPublisher \<Rightarrow> ViewerPublisher" where
  "publish_frame_ready tj p =
     (case vp_session p of
        None \<Rightarrow> p
      | Some session \<Rightarrow>
          let session = session\<lparr> pu_generation := pu_generation session + 1 \<rparr> in
          broadcast tj (frame_ready_message session) (p\<lparr> vp_session := Some session \<rparr>))"

definition publish_disconnected :: "to_json \<Rightarrow> ViewerPublisher \<Rightarrow> ViewerPublisher" where
  "publish_disconnected tj p = broadcast tj MsgDisconnected (p\<lparr> vp_session := None \<rparr>)"

definition publish_shutdown :: "to_json \<Rightarrow> ViewerPublisher \<Rightarrow> ViewerPublisher" where
  "publish_shutdown tj p = broadcast tj MsgShutdown p"

section \<open>RGB888 payloads\<close>

definition rgb565_of_888 :: "u8 \<Rightarrow> u8 \<Rightarrow> u8 \<Rightarrow> u16" where
  "rgb565_of_888 r g b =
     push_bit 11 (drop_bit 3 (ucast r)) OR push_bit 5 (drop_bit 2 (ucast g)) OR drop_bit 3 (ucast b)"

definition rgb888_pixel_body :: "bytes \<Rightarrow> nat \<Rightarrow> bytes \<Rightarrow> bytes result" where
  "rgb888_pixel_body src_row col dst_row =
     (let src_idx = col * 3 in
      if \<not> src_idx + 2 < length src_row then panic ''index out of bounds''
      else copy_into dst_row (col * 2)
             (to_le_bytes 2 (rgb565_of_888 (src_row ! src_idx) (src_row ! (src_idx + 1)) (src_row ! (src_idx + 2)))))"

text \<open>The row offsets of the source are below its checked length; those of the destination wrap.\<close>

definition rgb888_row_body :: "SetBuffer \<Rightarrow> bytes \<Rightarrow> usize \<Rightarrow> nat \<Rightarrow> bytes \<Rightarrow> bytes result" where
  "rgb888_row_body info buf fb_pitch row fb =
     (let width = unat (sb_width info) in
      and_then (slice buf (row * width * 3) ((row + 1) * width * 3)) (\<lambda>src_row.
      let dst_start = wrap_usize ((unat (sb_y info) + row) * fb_pitch + unat (sb_x info) * 2) in
      and_then (slice fb dst_start (wrap_usize (dst_start + width * 2))) (\<lambda>dst_row.
      and_then (for_range 0 width (rgb888_pixel_body src_row) dst_row) (\<lambda>dst_row.
      copy_into fb dst_start dst_row))))"

definition copy_rgb888_to_rgb565_framebuffer :: "SetBuffer \<Rightarrow> bytes \<Rightarrow> bytes \<Rightarrow> usize \<Rightarrow> bytes result" where
  "copy_rgb888_to_rgb565_framebuffer info buf fb fb_pitch =
     (let width = unat (sb_width info); height = unat (sb_height info) in
      and_then (ctx (Option.bind (checked_mul_usize width height) (\<lambda>pixels. checked_mul_usize pixels 3))
                  ''rgb888 buffer length overflow'') (\<lambda>expected_len.
      ensure (length buf \<ge> expected_len) ''rgb888 payload too short''
      (for_range 0 height (rgb888_row_body info buf fb_pitch) fb)))"

definition copy_payload :: "ViewerFormat \<Rightarrow> SetBuffer \<Rightarrow> bytes \<Rightarrow> PublishedSession \<Rightarrow> bytes result" where
  "copy_payload format info payload session =
     (case format of
        VRgb565 \<Rightarrow> copy_buffer_to_framebuffer info payload (pu_map session) (pu_stride session) 2
      | VRgb888 \<Rightarrow> copy_rgb888_to_rgb565_framebuffer info payload (pu_map session) (pu_stride session))"

section \<open>The main loop\<close>

record ViewerEnv =
  ve_overflow_checks :: bool
  ve_connectors :: "ConnectorDescriptor serializer"
  ve_header :: "StateCheckHeader deserializer"
  ve_buffer :: "SetBuffer deserializer"
  ve_descriptor :: "DisplayDescriptor serializer"
  ve_modes :: "DisplayMode serializer"
  ve_lz4 :: "bytes \<Rightarrow> 32 word \<Rightarrow> bytes \<Rightarrow> (bytes \<times> usize) result"
  ve_json :: to_json

record ViewerConfig =
  vcfg_uid :: u32
  vcfg_gid :: u32
  vcfg_paths :: RuntimePaths
  vcfg_format :: ViewerFormat
  vcfg_modes :: "DisplayMode list"

record ViewerState =
  vm_publisher :: ViewerPublisher
  vm_globals :: Globals
  vm_endpoint :: PixelDataEndpoint
  vm_had_host_session :: bool

datatype UdcState =
    NotAttached | Attached | Powered | Reconnecting | Unauthenticated | UdcDefault | Addressed
  | Configured | Suspended | UdcUnknown

fun udc_is_detached :: "UdcState result \<Rightarrow> bool" where
  "udc_is_detached (Inr state) = (state \<noteq> Configured)"
| "udc_is_detached (Inl e) = False"

text \<open>
  What one turn of the loop meets: the connections waiting on the socket, the answer of
  \<open>event_timeout\<close>, the controller's state, the file system, the kernel's reads of the payload
  with the time they took, and the flush of the mapping.
\<close>

record Turn =
  tn_accepts :: "accept_outcome list"
  tn_event :: "FfsEvent option result"
  tn_udc :: "UdcState result"
  tn_fs :: fs_answers
  tn_worker :: "read_outcome option"
  tn_reads :: "read_outcome list"
  tn_elapsed :: nat
  tn_flush :: "unit result"

definition record_host_activity :: "Event \<Rightarrow> ViewerState \<Rightarrow> ViewerState" where
  "record_host_activity ev vm =
     (if event_is_host_activity ev \<and> \<not> vm_had_host_session vm
      then vm\<lparr> vm_had_host_session := True \<rparr> else vm)"

abbreviation detached_error :: "unit result" where
  "detached_error \<equiv> Err ''USB detached after active host session; restart to recreate gadget''"

text \<open>The two places where a missing event leads to a look at the controller.\<close>

definition check_detached :: "ViewerEnv \<Rightarrow> Turn \<Rightarrow> ViewerState \<Rightarrow> unit result \<times> ViewerState" where
  "check_detached env tn vm =
     (if vm_had_host_session vm \<and> udc_is_detached (tn_udc tn)
      then (detached_error, vm\<lparr> vm_publisher := publish_disconnected (ve_json env) (vm_publisher vm) \<rparr>)
      else (Ok (), vm))"

definition with_globals :: "ViewerState \<Rightarrow> unit result \<times> Globals \<times> bytes option \<Rightarrow> unit result \<times> ViewerState" where
  "with_globals vm out = (case out of (r, g, _) \<Rightarrow> (r, vm\<lparr> vm_globals := g \<rparr>))"

text \<open>
  \<open>Event::Buffer\<close>. \<open>None\<close> means the thread is still blocked in the read of the payload.
\<close>

definition handle_buffer ::
  "ViewerEnv \<Rightarrow> ViewerConfig \<Rightarrow> Turn \<Rightarrow> SetBuffer \<Rightarrow> ViewerState \<Rightarrow> (unit result \<times> ViewerState) option" where
  "handle_buffer env cfg tn info vm =
     (case active_scanout_state (vm_globals vm) of
        None \<Rightarrow> Some (Err ''buffer upload arrived without committed scanout state'', vm)
      | Some active_state \<Rightarrow>
      case ensure_session (ve_json env) (tn_fs tn) active_state (vcfg_paths cfg) (vcfg_uid cfg) (vcfg_gid cfg)
             (vm_publisher vm) of
        (Inl e, p) \<Rightarrow> Some (Inl e, vm\<lparr> vm_publisher := p \<rparr>)
      | (Inr session, p) \<Rightarrow>
      case recv_payload (ve_lz4 env) (tn_worker tn) (tn_reads tn)
             (functionfs_lifecycle_generation (vm_globals vm)) (tn_elapsed tn) info (vm_endpoint vm) of
        None \<Rightarrow> None
      | Some (Inl e, ep, _) \<Rightarrow> Some (Inl e, vm\<lparr> vm_publisher := p, vm_endpoint := ep \<rparr>)
      | Some (Inr (payload, _), ep, _) \<Rightarrow>
      case copy_payload (vcfg_format cfg) info payload session of
        Inl e \<Rightarrow> Some (Inl e, vm\<lparr> vm_publisher := p, vm_endpoint := ep \<rparr>)
      | Inr fb \<Rightarrow>
          let p = p\<lparr> vp_session := Some (session\<lparr> pu_map := fb \<rparr>) \<rparr> in
          case tn_flush tn of
            Inl e \<Rightarrow> Some (Inl e, vm\<lparr> vm_publisher := p, vm_endpoint := ep \<rparr>)
          | Inr _ \<Rightarrow> Some (Ok (), vm\<lparr> vm_publisher := publish_frame_ready (ve_json env) p, vm_endpoint := ep \<rparr>))"

fun handle_gud_event ::
  "ViewerEnv \<Rightarrow> ViewerConfig \<Rightarrow> Turn \<Rightarrow> Event \<Rightarrow> ViewerState \<Rightarrow> (unit result \<times> ViewerState) option" where
  "handle_gud_event env cfg tn (StatusSent _) vm = Some (Ok (), vm)"
| "handle_gud_event env cfg tn (GetDescriptor req) vm =
     Some (with_globals vm (send_descriptor_with_options (ve_descriptor env) req 640 480
       (ucast (dm_hdisplay DEFAULT_NATIVE_MODE)) (ucast (dm_vdisplay DEFAULT_NATIVE_MODE)) GUD_COMPRESSION_LZ4
       None 0 (vm_globals vm)))"
| "handle_gud_event env cfg tn (GetPixelFormats req) vm =
     Some (with_globals vm (send_pixel_formats req [viewer_pixel_format (vcfg_format cfg)] (vm_globals vm)))"
| "handle_gud_event env cfg tn (GetDisplayModes req) vm =
     Some (with_globals vm (send_modes (ve_modes env) req (vcfg_modes cfg) (vm_globals vm)))"
| "handle_gud_event env cfg tn (StateChecked _) vm = Some (Ok (), vm)"
| "handle_gud_event env cfg tn (StateCommitted _) vm = Some (Ok (), vm)"
| "handle_gud_event env cfg tn (ProtocolStateInvalidated _ reason) vm =
     (if reason \<noteq> Disconnected then Some (Ok (), vm)
      else
        let vm = vm\<lparr> vm_publisher := publish_disconnected (ve_json env) (vm_publisher vm) \<rparr> in
        Some (if vm_had_host_session vm then detached_error else Ok (), vm))"
| "handle_gud_event env cfg tn (Buffer info) vm = handle_buffer env cfg tn info vm"

text \<open>
  One iteration. The result \<open>Ok\<close> goes back to the head of the loop, an error is \<open>main\<close>'s result.
\<close>

definition viewer_turn ::
  "ViewerEnv \<Rightarrow> ViewerConfig \<Rightarrow> Turn \<Rightarrow> ViewerState \<Rightarrow> (unit result \<times> ViewerState) option" where
  "viewer_turn env cfg tn vm =
     (let vm = vm\<lparr> vm_publisher := accept_new_clients (ve_json env) (tn_accepts tn) (vm_publisher vm) \<rparr> in
      case tn_event tn of
        Inl e \<Rightarrow> Some (check_detached env tn vm)
      | Inr None \<Rightarrow> Some (check_detached env tn vm)
      | Inr (Some ev) \<Rightarrow>
          (case event (ve_overflow_checks env) (ve_connectors env) (ve_header env) (ve_buffer env) ev (vm_globals vm) of
             (r, g, _) \<Rightarrow>
               let vm = vm\<lparr> vm_globals := g \<rparr> in
               case r of
                 Inr (Some gud_event) \<Rightarrow>
                   handle_gud_event env cfg tn gud_event (record_host_activity gud_event vm)
               | Inr None \<Rightarrow> Some (Ok (), vm)
               | Inl (Error _) \<Rightarrow> Some (check_detached env tn vm)
               | Inl (Panic m) \<Rightarrow> Some (Inl (Panic m), vm)))"

text \<open>After the loop: \<open>running\<close> was cleared by the signal handler.\<close>

definition viewer_stop :: "ViewerEnv \<Rightarrow> ViewerState \<Rightarrow> ViewerState" where
  "viewer_stop env vm = vm\<lparr> vm_publisher := publish_shutdown (ve_json env) (vm_publisher vm) \<rparr>"

section \<open>Startup\<close>

record ViewerVars =
  vv_uid :: env_value
  vv_gid :: env_value
  vv_socket :: "string option"
  vv_shm :: "string option"
  vv_format :: env_value

text \<open>\<open>udc\<close>: a controller was found. The gadget calls and the signal handler are their results.\<close>

record ViewerBoot =
  vb_udc :: bool
  vb_remove_all :: "unit result"
  vb_bind :: "unit result"
  vb_handler :: "unit result"

definition viewer_start ::
  "ViewerVars \<Rightarrow> ViewerBoot \<Rightarrow> fs_answers \<Rightarrow> (ViewerConfig \<times> ViewerState) result" where
  "viewer_start vars boot fs =
     (let uid = parse_env_u32 (vv_uid vars) 10000;
          gid = parse_env_u32 (vv_gid vars) 10000;
          paths = build_runtime_paths (vv_socket vars) (vv_shm vars) uid;
          format = viewer_format_from_env (vv_format vars) in
      if \<not> vb_udc boot then panic ''no UDC found''
      else
      and_then build_advertised_modes (\<lambda>modes.
      let globals = configure_state_check_validation 1 [viewer_pixel_format format] modes init_globals in
      and_then (vb_remove_all boot) (\<lambda>_.
      let gud_data = new_legacy_512 in
      and_then (vb_bind boot) (\<lambda>_.
      and_then (vb_handler boot) (\<lambda>_.
      and_then (new_publisher fs paths uid gid) (\<lambda>publisher.
      Ok (\<lparr> vcfg_uid = uid, vcfg_gid = gid, vcfg_paths = paths, vcfg_format = format, vcfg_modes = modes \<rparr>,
          \<lparr> vm_publisher = publisher, vm_globals = globals, vm_endpoint = gud_data,
            vm_had_host_session = False \<rparr>)))))))"

section \<open>Equivalences\<close>

text \<open>The daemon's timing derivation is the one of the display service.\<close>

lemma ucast_u16_zero [simp]: "ucast (w :: u16) = (0 :: u32) \<longleftrightarrow> w = 0" "ucast w = (0 :: u64) \<longleftrightarrow> w = 0"
proof -
  have "unat (ucast w :: u64) = unat w"
    by (simp add: unsigned_ucast_eq take_bit_nat_eq_self unat_u16_bound [THEN less_trans])
  then show "ucast w = (0 :: u32) \<longleftrightarrow> w = 0" "ucast w = (0 :: u64) \<longleftrightarrow> w = 0"
    by (metis unat_eq_zero unat_u16_as_u32, metis unat_eq_zero)
qed

lemma viewer_scale_dimension_eq: "viewer_scale_dimension = scale_dimension"
  by (intro ext) (simp add: viewer_scale_dimension_def scale_dimension_def Let_def)

lemma viewer_derive_mode_eq:
  assumes "dm_hdisplay native \<noteq> 0" and "dm_vdisplay native \<noteq> 0"
  shows "viewer_derive_mode native w h = derive_mode_from_native native w h"
  using assms
  by (simp add: viewer_derive_mode_def viewer_scale_dimension_eq derive_mode_from_native_def scale_dimension_def
      and_then_def Let_def)

text \<open>\<open>broadcast\<close> sends to every client in order and keeps those that took the message.\<close>

definition sent_to :: "to_json \<Rightarrow> ServerMessage \<Rightarrow> ViewerClient \<Rightarrow> ViewerClient option" where
  "sent_to tj m c = (case send_message tj c m of (Inl _, _) \<Rightarrow> None | (Inr _, c') \<Rightarrow> Some c')"

lemma broadcast_from_eq:
  "idx \<le> length clients \<Longrightarrow>
     broadcast_from tj m idx clients = take idx clients @ List.map_filter (sent_to tj m) (drop idx clients)"
proof (induction tj m idx clients rule: broadcast_from.induct)
  case (1 tj m idx clients)
  show ?case
  proof (cases "idx < length clients")
    case False
    then have "broadcast_from tj m idx clients = clients" by (subst broadcast_from.simps) simp
    with False 1(3) show ?thesis by (simp add: List.map_filter_def)
  next
    case True
    let ?c = "clients ! idx"
    have split: "drop idx clients = ?c # drop (Suc idx) clients" using True by (rule Cons_nth_drop_Suc [symmetric])
    show ?thesis
    proof (cases "send_message tj ?c m")
      case (Pair r c')
      show ?thesis
      proof (cases r)
        case (Inl e)
        have "min (length clients) idx = idx" using True by simp
        then show ?thesis
          using 1(1) [OF True Pair [symmetric] Inl] True Pair Inl split
          by (simp add: broadcast_from.simps [of tj m idx clients] sent_to_def List.map_filter_simps)
      next
        case (Inr u)
        then show ?thesis
          using 1(2) [OF True Pair [symmetric] Inr] True Pair split
          by (simp add: broadcast_from.simps [of tj m idx clients] sent_to_def List.map_filter_simps
              take_Suc_conv_app_nth take_update_cancel drop_update_cancel)
      qed
    qed
  qed
qed

lemma broadcast_eq:
  "broadcast tj m p = p\<lparr> vp_clients := List.map_filter (sent_to tj m) (vp_clients p) \<rparr>"
  by (simp add: broadcast_def broadcast_from_eq)

end
