(* ===== verification/Viewer_Publish.thy ===== *)
theory Viewer_Publish
  imports Viewer_Daemon
begin

text \<open>
  The viewer daemon and the viewer together: the daemon's publisher provides the stream contract
  the viewer relies on (\<open>stream_publisher\<close>), in every state its loop can reach; a payload that
  the daemon receives is what the viewer shows; a lost host ends the daemon and is seen by every
  viewer. The last section before the properties is a concrete run from startup to an enabled
  display, with a concrete line format in the place of \<open>serde_json\<close>.
\<close>

section \<open>The streams of the publisher\<close>

definition session_ok :: "PublishedSession \<Rightarrow> bool" where
  "session_ok s \<longleftrightarrow> unat (pu_width s) < 2 ^ 16 \<and> unat (pu_height s) < 2 ^ 16
     \<and> pu_stride s = unat (pu_width s) * 2 \<and> length (pu_map s) = pu_stride s * unat (pu_height s)"

definition view_of :: "PublishedSession \<Rightarrow> u32 \<times> u32 \<times> u32 \<times> string \<times> u64" where
  "view_of s = (pu_width s, pu_height s, of_nat (pu_stride s), pu_shm_path s, pu_generation s)"

definition publisher_ok :: "to_json \<Rightarrow> ViewerPublisher \<Rightarrow> bool" where
  "publisher_ok tj p \<longleftrightarrow> pred_option session_ok (vp_session p)
     \<and> (\<forall>c \<in> set (vp_clients p). stream_of tj (map_option view_of (vp_session p)) (vc_out c))"

lemma session_stride: "session_ok s \<Longrightarrow> unat (of_nat (pu_stride s) :: u32) = unat (pu_width s) * 2"
proof -
  assume "session_ok s"
  then have "pu_stride s = unat (pu_width s) * 2" "pu_stride s < 2 ^ 32" by (simp_all add: session_ok_def)
  then show ?thesis by (simp only: unat_of_nat) (simp add: take_bit_nat_eq_self del: of_nat_mult)
qed

lemma session_ok_shape: "session_ok s \<Longrightarrow> session_shape (pu_width s) (pu_height s) (of_nat (pu_stride s))"
proof -
  assume s: "session_ok s"
  then have "unat (pu_width s) * 2 * unat (pu_height s) \<le> 2 ^ 17 * 2 ^ 16"
    by (intro mult_le_mono) (simp_all add: session_ok_def)
  then show ?thesis by (simp add: session_shape_def session_stride [OF s])
qed

lemma stream_of_sent:
  assumes "stream_of tj v out" and "\<And>st. session_agrees v st \<Longrightarrow> \<exists>st'. stream_step m st = Some st' \<and> session_agrees v' st'"
  shows "stream_of tj v' (out @ encode_line tj m)"
proof -
  obtain ms st where ms: "out = encode_lines tj ms" "stream_run ms Opening = Some st" "session_agrees v st"
    using assms(1) by (auto simp: stream_of_def)
  with assms(2) obtain st' where "stream_step m st = Some st'" "session_agrees v' st'" by blast
  with ms show ?thesis
    unfolding stream_of_def by (intro exI [of _ "ms @ [m]"] exI [of _ st']) (simp add: stream_run_append)
qed

lemma broadcast_stream:
  assumes "\<forall>c \<in> set (vp_clients p). stream_of tj v (vc_out c)"
    and "\<And>st. session_agrees v st \<Longrightarrow> \<exists>st'. stream_step m st = Some st' \<and> session_agrees v' st'"
  shows "\<forall>c \<in> set (vp_clients (broadcast tj m p)). stream_of tj v' (vc_out c)"
proof
  fix c assume "c \<in> set (vp_clients (broadcast tj m p))"
  then obtain c0 where "c0 \<in> set (vp_clients p)" "sent_to tj m c0 = Some c"
    by (auto simp: broadcast_eq List.map_filter_def)
  then show "stream_of tj v' (vc_out c)"
    using stream_of_sent [OF _ assms(2)] assms(1)
    by (auto simp: sent_to_def split: prod.splits sum.splits dest!: send_message_Ok)
qed

lemma broadcast_session [simp]: "vp_session (broadcast tj m p) = vp_session p"
  by (simp add: broadcast_eq)

lemma broadcast_latest:
  "c \<in> set (vp_clients (broadcast tj m p)) \<Longrightarrow>
     \<exists>c0 \<in> set (vp_clients p). vc_out c = vc_out c0 @ encode_line tj m"
proof -
  assume "c \<in> set (vp_clients (broadcast tj m p))"
  then obtain c0 where "c0 \<in> set (vp_clients p)" "sent_to tj m c0 = Some c"
    by (auto simp: broadcast_eq List.map_filter_def)
  then show ?thesis
    by (auto simp: sent_to_def split: prod.splits sum.splits dest!: send_message_Ok)
qed

lemma metadata_step:
  assumes "session_ok s" and "st \<noteq> Opening" and "st \<noteq> Closed"
  shows "stream_step (metadata_message s) st
    = Some (InSession (pu_width s) (pu_height s) (of_nat (pu_stride s)) (pu_shm_path s) None)"
  using assms by (simp add: metadata_message_def session_ok_shape)

lemma send_all_out: "send_all tj c ms = Some c' \<Longrightarrow> vc_out c' = vc_out c @ encode_lines tj ms"
  by (induction tj c ms rule: send_all.induct)
    (auto split: prod.splits sum.splits dest!: send_message_Ok)

lemma greeting_stream:
  assumes "pred_option session_ok session"
  shows "stream_of tj (map_option view_of session) (encode_lines tj (greeting session))"
  unfolding stream_of_def using assms
  by (intro exI [of _ "greeting session"])
    (auto simp: greeting_def view_of_def frame_ready_message_def metadata_step split: option.splits)

lemma accept_ok:
  "publisher_ok tj p \<Longrightarrow> publisher_ok tj (accept_new_clients tj outcomes p)"
proof (induction tj outcomes p rule: accept_new_clients.induct)
  case (4 tj writes outcomes p)
  have "publisher_ok tj (p\<lparr> vp_clients := vp_clients p @ [stream] \<rparr>)"
    if "send_all tj \<lparr> vc_out = [], vc_writes = writes \<rparr> (greeting (vp_session p)) = Some stream" for stream
    using 4(3) greeting_stream [of "vp_session p" tj] send_all_out [OF that]
    by (simp add: publisher_ok_def)
  with 4 show ?case by (auto split: option.splits)
qed simp_all

lemma new_session_ok:
  assumes "new_session fs w h path uid gid = Inr s" and "unat w < 2 ^ 16" and "unat h < 2 ^ 16"
  shows "session_ok s \<and> pu_width s = w \<and> pu_height s = h \<and> pu_generation s = 0 \<and> pu_shm_path s = path
    \<and> pu_map s = replicate (unat w * 2 * unat h) 0"
  using assms
  by (auto simp: new_session_def and_then_def session_ok_def Let_def split: sum.splits)

lemma ensure_session_ok:
  assumes "publisher_ok tj p" and "unat (as_width st) < 2 ^ 16" and "unat (as_height st) < 2 ^ 16"
    and "ensure_session tj fs st paths uid gid p = (r, p')"
  shows "publisher_ok tj p' \<and> (\<forall>s. r = Inr s \<longrightarrow> vp_session p' = Some s \<and> session_ok s
    \<and> pu_width s = as_width st \<and> pu_height s = as_height st)"
proof (cases "\<exists>s. vp_session p = Some s \<and> pu_width s = as_width st \<and> pu_height s = as_height st")
  case True
  then show ?thesis using assms by (auto simp: ensure_session_def Let_def publisher_ok_def)
next
  case False
  then have new: "(case vp_session p of None \<Rightarrow> True
      | Some s \<Rightarrow> pu_width s \<noteq> as_width st \<or> pu_height s \<noteq> as_height st) = True"
    by (auto split: option.splits)
  show ?thesis
  proof (cases "new_session fs (as_width st) (as_height st) (rp_framebuffer_path paths) uid gid")
    case (Inl e)
    then have "(r, p') = (Inl e, p)" using assms(4) new by (simp add: ensure_session_def)
    then show ?thesis using assms(1) by simp
  next
    case (Inr s)
    note s = new_session_ok [OF Inr assms(2,3)]
    let ?p = "broadcast tj (metadata_message s) (p\<lparr> vp_session := Some s \<rparr>)"
    have "\<forall>c \<in> set (vp_clients ?p). stream_of tj (Some (view_of s)) (vc_out c)"
    proof (rule broadcast_stream)
      fix st0 assume "session_agrees (map_option view_of (vp_session p)) st0"
      then show "\<exists>st'. stream_step (metadata_message s) st0 = Some st' \<and> session_agrees (Some (view_of s)) st'"
        using s session_agrees_live [of _ st0] by (simp add: metadata_step view_of_def)
    qed (use assms(1) in \<open>simp add: publisher_ok_def\<close>)
    then have "publisher_ok tj ?p" using s by (simp add: publisher_ok_def)
    moreover have "(r, p') = (Inr s, ?p)"
      using assms(4) new Inr by (simp add: ensure_session_def)
    ultimately show ?thesis using s by simp
  qed
qed

lemma frame_ready_ok:
  assumes "publisher_ok tj p"
  shows "publisher_ok tj (publish_frame_ready tj p)"
proof (cases "vp_session p")
  case None
  then show ?thesis using assms by (simp add: publish_frame_ready_def)
next
  case (Some s)
  let ?s = "s\<lparr> pu_generation := pu_generation s + 1 \<rparr>"
  have s: "session_ok s" "session_ok ?s" using assms Some by (simp_all add: publisher_ok_def session_ok_def)
  have "\<forall>c \<in> set (vp_clients (broadcast tj (frame_ready_message ?s) (p\<lparr> vp_session := Some ?s \<rparr>))).
      stream_of tj (Some (view_of ?s)) (vc_out c)"
  proof (rule broadcast_stream)
    fix st assume "session_agrees (Some (view_of s)) st"
    then show "\<exists>st'. stream_step (frame_ready_message ?s) st = Some st' \<and> session_agrees (Some (view_of ?s)) st'"
      by (auto simp: view_of_def frame_ready_message_def)
  qed (use assms Some in \<open>simp add: publisher_ok_def\<close>)
  then show ?thesis using s(2) Some by (simp add: publish_frame_ready_def publisher_ok_def Let_def)
qed

lemma disconnected_ok:
  assumes "publisher_ok tj p"
  shows "publisher_ok tj (publish_disconnected tj p)"
proof -
  have "\<forall>c \<in> set (vp_clients (publish_disconnected tj p)). stream_of tj None (vc_out c)"
    unfolding publish_disconnected_def
  proof (rule broadcast_stream)
    fix st assume "session_agrees (map_option view_of (vp_session p)) st"
    then show "\<exists>st'. stream_step MsgDisconnected st = Some st' \<and> session_agrees None st'"
      using session_agrees_live by auto
  qed (use assms in \<open>simp add: publisher_ok_def\<close>)
  then show ?thesis by (simp add: publisher_ok_def publish_disconnected_def)
qed

interpretation daemon: stream_publisher publisher_ok "\<lambda>p. map vc_out (vp_clients p)"
  "\<lambda>p. map_option view_of (vp_session p)"
  by unfold_locales (auto simp: publisher_ok_def)

section \<open>Pixels of a payload\<close>

text \<open>
  \<open>payload_pixel\<close> is the 16-bit value of pixel \<open>k\<close> of a payload, \<open>shown_pixel\<close> what the shared
  framebuffer holds at \<open>(x, y)\<close> after a payload was copied into \<open>fb\<close>.
\<close>

fun payload_pixel :: "ViewerFormat \<Rightarrow> bytes \<Rightarrow> nat \<Rightarrow> u16" where
  "payload_pixel VRgb565 payload k = pixel565_at payload (k * 2)"
| "payload_pixel VRgb888 payload k =
     rgb565_of_888 (payload ! (k * 3)) (payload ! (k * 3 + 1)) (payload ! (k * 3 + 2))"

definition in_rect :: "SetBuffer \<Rightarrow> nat \<Rightarrow> nat \<Rightarrow> bool" where
  "in_rect info x y \<longleftrightarrow>
     unat (sb_x info) \<le> x \<and> x < unat (sb_x info) + unat (sb_width info)
     \<and> unat (sb_y info) \<le> y \<and> y < unat (sb_y info) + unat (sb_height info)"

definition shown_pixel :: "ViewerFormat \<Rightarrow> SetBuffer \<Rightarrow> bytes \<Rightarrow> bytes \<Rightarrow> usize \<Rightarrow> nat \<Rightarrow> nat \<Rightarrow> u16" where
  "shown_pixel format info payload fb stride x y =
     (if in_rect info x y
      then payload_pixel format payload ((y - unat (sb_y info)) * unat (sb_width info) + (x - unat (sb_x info)))
      else pixel565_at fb (y * stride + x * 2))"

text \<open>The bytes of an RGB565 payload with the pixels of an RGB888 one.\<close>

definition converted :: "bytes \<Rightarrow> nat \<Rightarrow> bytes" where
  "converted payload n = concat (map (\<lambda>k. to_le_bytes 2 (payload_pixel VRgb888 payload k)) [0..<n])"

lemma length_converted [simp]: "length (converted payload n) = n * 2"
  by (simp add: converted_def length_chunks [where k = 2] del: payload_pixel.simps)

lemma nth_converted:
  "i < n * 2 \<Longrightarrow> converted payload n ! i = to_le_bytes 2 (payload_pixel VRgb888 payload (i div 2)) ! (i mod 2)"
  unfolding converted_def by (rule nth_chunks) (simp_all del: payload_pixel.simps)

lemma pixel_converted:
  assumes "k < n"
  shows "pixel565_at (converted payload n) (k * 2) = payload_pixel VRgb888 payload k"
proof -
  define p where "p = payload_pixel VRgb888 payload k"
  have "(k * 2 + 1) div 2 = k" "(k * 2 + 1) mod 2 = 1" by presburger+
  then have "converted payload n ! (k * 2) = to_le_bytes 2 p ! 0" "converted payload n ! (k * 2 + 1) = to_le_bytes 2 p ! 1"
    using assms nth_converted [of "k * 2" n payload] nth_converted [of "k * 2 + 1" n payload]
    by (simp_all only: p_def) simp_all
  then have "pixel565_at (converted payload n) (k * 2) = from_le_bytes (to_le_bytes 2 p)"
    by (simp add: pixel565_at_def numeral_2_eq_2)
  then show ?thesis by (simp add: p_def)
qed

lemma rgb888_row_ok:
  assumes "length src = w * 3" and "length dst = w * 2"
  shows "for_range 0 w (rgb888_pixel_body src) dst = Ok (converted src w)"
  unfolding converted_def
  by (rule for_range_chunks [where k = 2]) (use assms in \<open>simp_all add: rgb888_pixel_body_def Let_def\<close>)

lemma converted_slice:
  assumes "a + w \<le> n" and "n * 3 \<le> length payload"
  shows "converted (take (w * 3) (drop (a * 3) payload)) w = take (w * 2) (drop (a * 2) (converted payload n))"
  (is "?l = ?r")
proof (rule nth_equalityI)
  show "length ?l = length ?r" using assms by simp
  fix i assume "i < length ?l"
  then have i: "i < w * 2" by simp
  then have k: "i div 2 < w" by (simp add: less_mult_imp_div_less)
  have "a * 2 + i < n * 2" "(a * 2 + i) div 2 = a + i div 2" "(a * 2 + i) mod 2 = i mod 2"
    using i assms(1) by simp_all
  moreover have "payload_pixel VRgb888 (take (w * 3) (drop (a * 3) payload)) (i div 2)
      = payload_pixel VRgb888 payload (a + i div 2)"
    using k assms by (simp add: algebra_simps)
  ultimately show "?l ! i = ?r ! i" using i assms by (simp add: nth_converted del: payload_pixel.simps)
qed

text \<open>The rectangle lies in a framebuffer of \<open>width\<close> by \<open>height\<close> packed 16-bit pixels.\<close>

definition rect_fits :: "SetBuffer \<Rightarrow> nat \<Rightarrow> nat \<Rightarrow> bool" where
  "rect_fits info width height \<longleftrightarrow>
     0 < unat (sb_width info) \<and> 0 < unat (sb_height info)
     \<and> unat (sb_x info) + unat (sb_width info) \<le> width \<and> unat (sb_y info) + unat (sb_height info) \<le> height"

lemma copy_row_body_Inr:
  "copy_row_body info buf pitch ls ll y (fb, pos) = Inr (fb', pos') \<Longrightarrow>
     fb' = blit fb (y * pitch + ls) (take ll (drop pos buf))"
  by (auto simp: copy_row_body_def Option.bind_eq_Some_conv split: option.splits sum.splits)

lemma rgb888_copied:
  assumes fit: "rect_fits info width height" and fb: "length fb = width * 2 * height" "length fb < usize_bound"
    and buf: "unat (sb_width info) * unat (sb_height info) * 3 \<le> length buf" "length buf < usize_bound"
  shows "\<exists>fb'. copy_rgb888_to_rgb565_framebuffer info buf fb (width * 2) = Ok fb' \<and> length fb' = length fb
    \<and> (\<forall>i < length fb. fb' ! i = copied_byte (converted buf (unat (sb_width info) * unat (sb_height info))) fb
          (width * 2) (unat (sb_x info) * 2) (unat (sb_width info) * 2)
          (unat (sb_y info)) (unat (sb_y info) + unat (sb_height info)) i)"
proof -
  define x0 y0 w h where d: "x0 = unat (sb_x info)" "y0 = unat (sb_y info)" "w = unat (sb_width info)" "h = unat (sb_height info)"
  let ?conv = "converted buf (w * h)"
  let ?I = "\<lambda>r fb'. copy_inv ?conv fb (width * 2) (x0 * 2) (w * 2) y0 (y0 + r) (fb', r * (w * 2))"
  have fit': "x0 + w \<le> width" "y0 + h \<le> height" using fit by (simp_all add: rect_fits_def d)
  have rows: "(y0 + h) * (width * 2) \<le> length fb"
    using mult_le_mono1 [OF fit'(2), of "width * 2"] fb(1) by (simp add: mult.commute)
  have "\<exists>fb'. for_range 0 h (rgb888_row_body info buf (width * 2)) fb = Inr fb' \<and> ?I h fb'"
  proof (rule for_range_total [where I = ?I])
    fix r fb' assume r: "r < h" and I: "?I r fb'"
    have len: "length fb' = length fb" using I by (simp add: copy_inv_def)
    obtain st where st: "copy_row_body info ?conv (width * 2) (x0 * 2) (w * 2) (y0 + r) (fb', r * (w * 2)) = Inr st"
      "copy_inv ?conv fb (width * 2) (x0 * 2) (w * 2) y0 (Suc (y0 + r)) st"
      using copy_row_step [of "x0 * 2" "w * 2" "width * 2" y0 "y0 + r" "y0 + h" fb ?conv "(fb', r * (w * 2))" info]
        fit' r rows fb(2) I by (auto simp: algebra_simps)
    obtain fb2 where fb2: "st = (fb2, Suc r * (w * 2))"
      using st(2) by (cases st) (simp add: copy_inv_def)
    have "Suc (y0 + r) * (width * 2) \<le> length fb"
      using mult_le_mono1 [of "Suc (y0 + r)" "y0 + h" "width * 2"] r rows by simp
    then have room: "(y0 + r) * (width * 2) + x0 * 2 + w * 2 \<le> length fb'" using fit'(1) len by simp
    have "Suc r * w \<le> w * h" using mult_le_mono1 [of "Suc r" h w] r by (simp add: mult.commute)
    then have src: "(r * w + w) * 3 \<le> length buf" and row: "r * w + w \<le> w * h" using buf(1) by (simp_all add: d)
    let ?line = "take (w * 2) (drop (r * w * 2) ?conv)"
    have line: "fb2 = blit fb' ((y0 + r) * (width * 2) + x0 * 2) ?line" "length ?line = w * 2"
      using copy_row_body_Inr [OF st(1) [unfolded fb2]] row by (simp_all add: algebra_simps)
    have conv: "converted (take (w * 3) (drop (r * w * 3) buf)) w = ?line"
      by (rule converted_slice [OF row]) (use buf(1) in \<open>simp add: d\<close>)
    have wrap: "wrap_usize ((y0 + r) * (width * 2) + x0 * 2) = (y0 + r) * (width * 2) + x0 * 2"
      "wrap_usize ((y0 + r) * (width * 2) + x0 * 2 + w * 2) = (y0 + r) * (width * 2) + x0 * 2 + w * 2"
      using room len fb(2) by (simp_all add: wrap_usize_def)
    have sl: "slice buf (r * w * 3) ((r + 1) * w * 3) = Inr (take (w * 3) (drop (r * w * 3) buf))"
      "slice fb' ((y0 + r) * (width * 2) + x0 * 2) ((y0 + r) * (width * 2) + x0 * 2 + w * 2)
         = Inr (take (w * 2) (drop ((y0 + r) * (width * 2) + x0 * 2) fb'))"
      using src room by (simp_all add: algebra_simps)
    have px: "for_range 0 w (rgb888_pixel_body (take (w * 3) (drop (r * w * 3) buf)))
        (take (w * 2) (drop ((y0 + r) * (width * 2) + x0 * 2) fb')) = Ok ?line"
      using rgb888_row_ok [of "take (w * 3) (drop (r * w * 3) buf)" w] src room conv by (simp add: algebra_simps)
    have "rgb888_row_body info buf (width * 2) r fb' = Inr fb2"
      using line room by (simp only: rgb888_row_body_def Let_def d [symmetric] and_then_def sl wrap px sum.case) simp
    then show "\<exists>fb''. rgb888_row_body info buf (width * 2) r fb' = Inr fb'' \<and> ?I (Suc r) fb''"
      using st(2) fb2 by simp
  next
    show "?I 0 fb" by (auto simp: copy_inv_def copied_byte_def Let_def)
  qed simp
  then obtain fb' where run: "for_range 0 h (rgb888_row_body info buf (width * 2)) fb = Inr fb'" "?I h fb'" by blast
  have "copy_rgb888_to_rgb565_framebuffer info buf fb (width * 2) = Ok fb'"
    using run(1) buf by (simp add: copy_rgb888_to_rgb565_framebuffer_def Let_def d [symmetric] and_then_def ensure_def
        checked_mul_usize_def)
  with run(2) show ?thesis by (simp add: copy_inv_def d)
qed

lemma copied_pixel:
  assumes new: "\<forall>i < length fb. fb' ! i = copied_byte buf fb (width * 2) (x0 * 2) (w * 2) y0 (y0 + h) i"
    and fb: "length fb = width * 2 * height" and xy: "x < width" "y < height"
  shows "pixel565_at fb' (y * (width * 2) + x * 2) =
    (if x0 \<le> x \<and> x < x0 + w \<and> y0 \<le> y \<and> y < y0 + h then pixel565_at buf (((y - y0) * w + (x - x0)) * 2)
     else pixel565_at fb (y * (width * 2) + x * 2))"
proof -
  let ?i = "y * (width * 2) + x * 2"
  have "Suc y * (width * 2) \<le> height * (width * 2)" using xy(2) by (intro mult_le_mono1) simp
  then have i: "?i + 1 < length fb" using fb xy(1) by (simp add: mult.commute)
  have q: "?i div (width * 2) = y" "(?i + 1) div (width * 2) = y" using xy(1) by (intro div_nat_eqI; simp)+
  have m: "?i mod (width * 2) = x * 2" "(?i + 1) mod (width * 2) = x * 2 + 1"
    using q by (simp_all add: modulo_nat_def)
  have side: "x0 * 2 \<le> x * 2 + 1 \<longleftrightarrow> x0 \<le> x" "x * 2 + 1 < x0 * 2 + w * 2 \<longleftrightarrow> x < x0 + w" by presburger+
  let ?in = "x0 \<le> x \<and> x < x0 + w \<and> y0 \<le> y \<and> y < y0 + h"
  let ?k = "((y - y0) * w + (x - x0)) * 2"
  have side0: "x0 * 2 \<le> x * 2 \<longleftrightarrow> x0 \<le> x" "x * 2 < x0 * 2 + w * 2 \<longleftrightarrow> x < x0 + w" by presburger+
  have k: "(y - y0) * (w * 2) + (x * 2 - x0 * 2) = ?k"
    "x0 \<le> x \<Longrightarrow> (y - y0) * (w * 2) + (x * 2 + 1 - x0 * 2) = ?k + 1"
    by (simp_all add: diff_mult_distrib add_mult_distrib)
  have "fb' ! ?i = copied_byte buf fb (width * 2) (x0 * 2) (w * 2) y0 (y0 + h) ?i"
    "fb' ! (?i + 1) = copied_byte buf fb (width * 2) (x0 * 2) (w * 2) y0 (y0 + h) (?i + 1)"
    using new i by simp_all
  then have "fb' ! ?i = (if ?in then buf ! ?k else fb ! ?i)"
    "fb' ! (?i + 1) = (if ?in then buf ! (?k + 1) else fb ! (?i + 1))"
    by (simp_all only: copied_byte_def Let_def q m side side0 k(1)) (auto simp only: k(2) if_P if_not_P split: if_split)
  then show ?thesis unfolding pixel565_at_def by (cases ?in) (simp_all only: if_P if_False)
qed

text \<open>Both formats: the copy succeeds and the rectangle shows the payload's pixels.\<close>

lemma copy_payload_ok:
  assumes s: "session_ok s" and fit: "rect_fits info (unat (pu_width s)) (unat (pu_height s))"
    and len: "unat (sb_width info) * unat (sb_height info) * viewer_bytes_per_pixel format \<le> length payload"
    and bound: "length payload < usize_bound"
  shows "\<exists>fb. copy_payload format info payload s = Ok fb \<and> length fb = length (pu_map s)
    \<and> (\<forall>x < unat (pu_width s). \<forall>y < unat (pu_height s).
         pixel565_at fb (y * pu_stride s + x * 2) = shown_pixel format info payload (pu_map s) (pu_stride s) x y)"
proof -
  define width height where wh: "width = unat (pu_width s)" "height = unat (pu_height s)"
  define x0 y0 w h where d: "x0 = unat (sb_x info)" "y0 = unat (sb_y info)" "w = unat (sb_width info)" "h = unat (sb_height info)"
  have st: "pu_stride s = width * 2" and ml: "length (pu_map s) = width * 2 * height"
    and small: "width < 2 ^ 16" "height < 2 ^ 16" using s by (simp_all add: session_ok_def wh)
  have "width * 2 * height \<le> 2 ^ 17 * 2 ^ 16" using small by (intro mult_le_mono) simp_all
  then have mb: "length (pu_map s) < usize_bound" by (simp add: ml usize_bound_def)
  have r: "0 < w" "0 < h" "x0 + w \<le> width" "y0 + h \<le> height" using fit by (simp_all add: rect_fits_def d wh)
  define conv where "conv = (case format of VRgb565 \<Rightarrow> payload | VRgb888 \<Rightarrow> converted payload (w * h))"
  have px: "pixel565_at conv (k * 2) = payload_pixel format payload k" if "k < w * h" for k
    using that pixel_converted by (cases format) (simp_all add: conv_def del: payload_pixel.simps(2))
  have "\<exists>fb. copy_payload format info payload s = Ok fb \<and> length fb = length (pu_map s)
    \<and> (\<forall>i < length (pu_map s). fb ! i = copied_byte conv (pu_map s) (width * 2) (x0 * 2) (w * 2) y0 (y0 + h) i)"
  proof (cases format)
    case VRgb565
    have "(y0 + h) * (width * 2) \<le> height * (width * 2)" using r(4) by (rule mult_le_mono1)
    then show ?thesis
      using copy_buffer_ok [OF mb bound, of "width * 2" 2 info] VRgb565 r len small
      by (simp add: copy_payload_def conv_def st ml d [symmetric] usize_bound_def algebra_simps)
  next
    case VRgb888
    then show ?thesis
      using rgb888_copied [OF fit [folded wh] ml mb _ bound] len
      by (simp add: copy_payload_def conv_def st d [symmetric])
  qed
  then obtain fb where fb: "copy_payload format info payload s = Ok fb" "length fb = length (pu_map s)"
    "\<forall>i < length (pu_map s). fb ! i = copied_byte conv (pu_map s) (width * 2) (x0 * 2) (w * 2) y0 (y0 + h) i" by blast
  have "pixel565_at fb (y * (width * 2) + x * 2) = shown_pixel format info payload (pu_map s) (width * 2) x y"
    if xy: "x < width" "y < height" for x y
  proof (cases "in_rect info x y")
    case True
    then have i: "x0 \<le> x \<and> x < x0 + w \<and> y0 \<le> y \<and> y < y0 + h" by (simp add: in_rect_def d)
    have "Suc (y - y0) * w \<le> h * w" using i by (intro mult_le_mono1) linarith
    moreover have "x - x0 < w" using i by linarith
    ultimately have "(y - y0) * w + (x - x0) < w * h" by (simp only: mult_Suc mult.commute [of w h])
    with copied_pixel [OF fb(3) ml xy] i px True show ?thesis by (simp add: shown_pixel_def d)
  next
    case False
    then have "\<not> (x0 \<le> x \<and> x < x0 + w \<and> y0 \<le> y \<and> y < y0 + h)" by (simp add: in_rect_def d)
    with copied_pixel [OF fb(3) ml xy] False show ?thesis by (simp only: shown_pixel_def if_False)
  qed
  with fb(1,2) show ?thesis by (auto simp: st wh)
qed

section \<open>Runs of the daemon\<close>

text \<open>
  From startup the loop takes turns that come back to its head; the driver hands over and takes back
  the endpoint's receiver in between.
\<close>

inductive viewer_run :: "ViewerEnv \<Rightarrow> ViewerConfig \<Rightarrow> ViewerState \<Rightarrow> bool" for env cfg where
  start: "viewer_start vars boot fs = Ok (cfg, vm) \<Longrightarrow> viewer_run env cfg vm"
| receiver: "viewer_run env cfg vm \<Longrightarrow>
    viewer_run env cfg (vm\<lparr> vm_endpoint := (vm_endpoint vm)\<lparr> pe_ep_rx := rx \<rparr> \<rparr>)"
| turn: "viewer_run env cfg vm \<Longrightarrow> viewer_turn env cfg tn vm = Some (Ok (), vm') \<Longrightarrow> viewer_run env cfg vm'"

definition viewer_contract :: "ViewerConfig \<Rightarrow> StateCheckValidation" where
  "viewer_contract cfg = \<lparr> scv_connector_count = 1, scv_formats = [viewer_pixel_format (vcfg_format cfg)],
     scv_modes = vcfg_modes cfg \<rparr>"

definition viewer_ok :: "ViewerEnv \<Rightarrow> ViewerConfig \<Rightarrow> ViewerState \<Rightarrow> bool" where
  "viewer_ok env cfg vm \<longleftrightarrow> publisher_ok (ve_json env) (vm_publisher vm)
     \<and> gud_run 0 (viewer_contract cfg) (vm_globals vm)
     \<and> pe_legacy_512 (vm_endpoint vm) \<and> pe_prearmed_read (vm_endpoint vm) = None"

lemma read_legacy_length:
  "read_legacy_loop len reads buf stats = Some (Ok stats', buf', rest) \<Longrightarrow> length buf' = len"
  by (induction len reads buf stats rule: read_legacy_loop.induct)
    (auto simp: Let_def split: if_splits sum.splits prod.splits)

lemma legacy_outcome:
  "bulk_outcome st ep (r0, buf, rest0) = (r, ep', rest) \<Longrightarrow> read_legacy_512_payload reads len = Some (r0, buf, rest0) \<Longrightarrow>
     ep' = ep\<lparr> pe_buf := buf \<rparr> \<and> (\<forall>s. r = Inr s \<longrightarrow> length buf = len)"
  by (cases r0) (auto simp: bulk_outcome_def read_legacy_512_payload_def dest: read_legacy_length)

lemma recv_bytes_legacy:
  assumes "recv_payload_bytes worker reads gen elapsed info ep = Some (r, ep', rest)"
    and legacy: "pe_legacy_512 ep" "pe_prearmed_read ep = None"
  shows "pe_legacy_512 ep' \<and> pe_prearmed_read ep' = None \<and> (\<forall>s. r = Inr s \<longrightarrow> length (pe_buf ep') = payload_bytes info)"
proof -
  obtain b ep1 where be: "bulk_endpoint gen (ep\<lparr> pe_payload_seq := pe_payload_seq ep + 1 \<rparr>) = (b, ep1)" by (meson surj_pair)
  then have ep1: "pe_legacy_512 ep1" "pe_prearmed_read ep1 = None"
    using legacy by (auto simp: bulk_endpoint_def split: if_splits option.splits)
  show ?thesis
    using assms(1) legacy be ep1
    by (auto simp: recv_payload_bytes_def Let_def split: if_splits sum.splits dest!: legacy_outcome)
qed

lemma recv_payload_keeps:
  assumes "recv_payload lz4 worker reads gen elapsed info ep = Some (r, ep', rest)"
    and "pe_legacy_512 ep" and "pe_prearmed_read ep = None"
  shows "pe_legacy_512 ep' \<and> pe_prearmed_read ep' = None"
proof -
  obtain r0 ep0 rest0 where b: "recv_payload_bytes worker reads gen elapsed info ep = Some (r0, ep0, rest0)"
    using assms(1) by (auto simp: recv_payload_def split: option.splits)
  from recv_bytes_legacy [OF this assms(2,3)] show ?thesis
    using assms(1) b by (auto simp: recv_payload_def split: sum.splits prod.splits)
qed

text \<open>A received payload has at least its announced size.\<close>

lemma recv_payload_length:
  assumes "recv_payload lz4 worker reads gen elapsed info ep = Some (Inr (payload, stats), ep', rest)"
    and "pe_legacy_512 ep" and "pe_prearmed_read ep = None"
    and lz4: "\<And>src n dest dest' k. lz4 src n dest = Ok (dest', k) \<Longrightarrow> length dest' = length dest"
  shows "unat (sb_length info) \<le> length payload"
proof -
  obtain st ep0 where b: "recv_payload_bytes worker reads gen elapsed info ep = Some (Inr st, ep0, rest)"
    "fst (finish_payload lz4 info (pe_buf ep0) (pe_compress_buf ep0)) = Ok payload"
    using assms(1) by (auto simp: recv_payload_def split: option.splits sum.splits prod.splits)
  have len: "length (pe_buf ep0) = payload_bytes info" using recv_bytes_legacy [OF b(1) assms(2,3)] by simp
  show ?thesis
  proof (cases "sb_compression info > 0")
    case True
    then show ?thesis using b(2) by (auto simp: finish_payload_def Let_def split: sum.splits prod.splits dest!: lz4)
  next
    case False
    then show ?thesis using b(2) len by (simp add: finish_payload_def payload_bytes_def)
  qed
qed

lemma copy_payload_length:
  assumes "copy_payload format info payload s = Inr fb"
  shows "length fb = length (pu_map s)"
proof (cases format)
  case VRgb565
  have "length (fst st') = length (pu_map s)"
    if "for_range i n (copy_row_body info payload p ls ll) (pu_map s, 0) = Inr st'" for i n p ls ll st'
    by (rule for_range_keeps [OF that, where I = "\<lambda>st. length (fst st) = length (pu_map s)"])
      (auto simp: copy_row_body_def Option.bind_eq_Some_conv split: option.splits sum.splits)
  from this [of _ _ _ _ _ "(fb, _)"] show ?thesis
    using assms VRgb565
    by (auto simp: copy_payload_def copy_buffer_to_framebuffer_def split: if_splits option.splits sum.splits prod.splits)
next
  case VRgb888
  have px: "length d' = length d" if "for_range 0 w (rgb888_pixel_body src) d = Inr d'" for w src d d'
    by (rule for_range_keeps [OF that, where I = "\<lambda>x. length x = length d"])
      (auto simp: rgb888_pixel_body_def Let_def split: if_splits)
  have "length fb' = length (pu_map s)"
    if "for_range 0 h (rgb888_row_body info payload p) (pu_map s) = Inr fb'" for h p fb'
    by (rule for_range_keeps [OF that, where I = "\<lambda>x. length x = length (pu_map s)"])
      (auto simp: rgb888_row_body_def Let_def and_then_def split: sum.splits)
  then show ?thesis
    using assms VRgb888
    by (auto simp: copy_payload_def copy_rgb888_to_rgb565_framebuffer_def Let_def and_then_def ensure_def
        split: sum.splits if_splits)
qed

lemma map_update_ok:
  "publisher_ok tj p \<Longrightarrow> vp_session p = Some s \<Longrightarrow> length fb = length (pu_map s) \<Longrightarrow>
     publisher_ok tj (p\<lparr> vp_session := Some (s\<lparr> pu_map := fb \<rparr>) \<rparr>)"
proof -
  have "view_of (s\<lparr> pu_map := fb \<rparr>) = view_of s" by (simp add: view_of_def)
  moreover assume "publisher_ok tj p" "vp_session p = Some s" "length fb = length (pu_map s)"
  moreover from this have "session_ok (s\<lparr> pu_map := fb \<rparr>)" by (simp add: publisher_ok_def session_ok_def)
  ultimately show ?thesis by (simp add: publisher_ok_def)
qed

lemma active_scanout_small:
  "active_scanout_state g = Some st \<Longrightarrow> unat (as_width st) < 2 ^ 16 \<and> unat (as_height st) < 2 ^ 16"
  using unat_u16_bound by (auto simp: active_scanout_state_def)

lemma handle_buffer_ok:
  assumes ok: "viewer_ok env cfg vm" and h: "handle_buffer env cfg tn info vm = Some (r, vm')"
  shows "viewer_ok env cfg vm'"
proof (cases "active_scanout_state (vm_globals vm)")
  case None
  then show ?thesis using assms by (simp add: handle_buffer_def)
next
  case (Some st)
  obtain r1 p where es: "ensure_session (ve_json env) (tn_fs tn) st (vcfg_paths cfg) (vcfg_uid cfg) (vcfg_gid cfg)
      (vm_publisher vm) = (r1, p)" by (meson surj_pair)
  have p: "publisher_ok (ve_json env) p" "\<And>s. r1 = Inr s \<Longrightarrow> vp_session p = Some s"
    using ensure_session_ok [OF _ _ _ es] ok active_scanout_small [OF Some] by (simp_all add: viewer_ok_def)
  have ep: "pe_legacy_512 ep' \<and> pe_prearmed_read ep' = None"
    if "recv_payload (ve_lz4 env) (tn_worker tn) (tn_reads tn) gen (tn_elapsed tn) info (vm_endpoint vm)
      = Some (r', ep', rest)" for gen r' ep' rest
    using recv_payload_keeps [OF that] ok by (simp add: viewer_ok_def)
  show ?thesis
    using h ok es p Some ep copy_payload_length map_update_ok [OF p(1)] frame_ready_ok
    by (auto simp: handle_buffer_def viewer_ok_def Let_def split: option.splits sum.splits prod.splits)
qed

lemma reply_ok:
  assumes "viewer_ok env cfg vm" and "with_globals vm out = (r, vm')"
    and "gud_run 0 (viewer_contract cfg) (fst (snd out))"
  shows "viewer_ok env cfg vm'"
  using assms by (cases out) (auto simp: viewer_ok_def with_globals_def)

lemma handle_gud_event_ok:
  assumes ok: "viewer_ok env cfg vm" and h: "handle_gud_event env cfg tn ev vm = Some (r, vm')"
  shows "viewer_ok env cfg vm'"
proof -
  have g: "gud_run 0 (viewer_contract cfg) (vm_globals vm)" using ok by (simp add: viewer_ok_def)
  show ?thesis
proof (cases ev)
  case (Buffer info)
  then show ?thesis using handle_buffer_ok [OF ok] h by simp
next
  case (ProtocolStateInvalidated generation reason)
  then show ?thesis using ok h disconnected_ok by (auto simp: viewer_ok_def Let_def split: if_splits)
next
  case (GetDescriptor req)
  then have "with_globals vm (send_descriptor_with_options (ve_descriptor env) req 640 480
       (ucast (dm_hdisplay DEFAULT_NATIVE_MODE)) (ucast (dm_vdisplay DEFAULT_NATIVE_MODE)) GUD_COMPRESSION_LZ4
       None 0 (vm_globals vm)) = (r, vm')" using h by simp
  then show ?thesis by (rule reply_ok [OF ok _ gud_run.descriptor [OF g]])
next
  case (GetDisplayModes req)
  then have "with_globals vm (send_modes (ve_modes env) req (vcfg_modes cfg) (vm_globals vm)) = (r, vm')"
    using h by simp
  then show ?thesis by (rule reply_ok [OF ok _ gud_run.modes [OF g]])
next
  case (GetPixelFormats req)
  then have "with_globals vm (send_pixel_formats req [viewer_pixel_format (vcfg_format cfg)] (vm_globals vm)) = (r, vm')"
    using h by simp
  then show ?thesis by (rule reply_ok [OF ok _ gud_run.formats [OF g]])
qed (use assms in simp_all)
qed

lemma check_detached_ok: "viewer_ok env cfg vm \<Longrightarrow> viewer_ok env cfg (snd (check_detached env tn vm))"
  by (simp add: check_detached_def viewer_ok_def disconnected_ok)

lemma viewer_turn_ok:
  assumes ok: "viewer_ok env cfg vm" and t: "viewer_turn env cfg tn vm = Some (r, vm')"
  shows "viewer_ok env cfg vm'"
proof -
  let ?vm = "vm\<lparr> vm_publisher := accept_new_clients (ve_json env) (tn_accepts tn) (vm_publisher vm) \<rparr>"
  have a: "viewer_ok env cfg ?vm" using ok accept_ok by (simp add: viewer_ok_def)
  show ?thesis
  proof (cases "\<exists>ev. tn_event tn = Inr (Some ev)")
    case False
    then have "viewer_turn env cfg tn vm = Some (check_detached env tn ?vm)"
      by (cases "tn_event tn") (auto simp: viewer_turn_def Let_def split: option.split)
    then have "check_detached env tn ?vm = (r, vm')" using t by simp
    then show ?thesis using check_detached_ok [OF a, of tn] by simp
  next
    case True
    then obtain ev where ev: "tn_event tn = Inr (Some ev)" by blast
    obtain r1 g sent where e: "event (ve_overflow_checks env) (ve_connectors env) (ve_header env) (ve_buffer env) ev
        (vm_globals vm) = (r1, g, sent)" by (rule prod_cases3)
    have "gud_run 0 (viewer_contract cfg) g"
      using gud_run.event [of 0 "viewer_contract cfg" "vm_globals vm" "ve_overflow_checks env" "ve_connectors env"
          "ve_header env" "ve_buffer env" ev] ok e by (simp add: viewer_ok_def)
    then have b: "viewer_ok env cfg (?vm\<lparr> vm_globals := g \<rparr>)" using a by (simp add: viewer_ok_def)
    then have c: "viewer_ok env cfg (record_host_activity ge (?vm\<lparr> vm_globals := g \<rparr>))" for ge
      by (simp add: record_host_activity_def viewer_ok_def)
    show ?thesis
    proof (cases r1)
      case (Inl x)
      then show ?thesis using t ev e b check_detached_ok [OF b, of tn]
        by (cases x) (auto simp: viewer_turn_def Let_def)
    next
      case (Inr x)
      then show ?thesis using t ev e b handle_gud_event_ok [OF c]
        by (cases x) (auto simp: viewer_turn_def Let_def)
    qed
  qed
qed

lemma viewer_run_ok: "viewer_run env cfg vm \<Longrightarrow> viewer_ok env cfg vm"
proof (induction rule: viewer_run.induct)
  case (start vars boot fs vm)
  have limit: "configure_status_on_set_diagnostic 0 init_globals = init_globals"
    by (simp add: configure_status_on_set_diagnostic_def init_globals_def)
  have "gud_run 0 (viewer_contract cfg) (configure_state_check_validation 1
      [viewer_pixel_format (vcfg_format cfg)] (vcfg_modes cfg) init_globals)"
    using gud_run.start [of 0 "viewer_contract cfg"] by (simp add: viewer_contract_def limit)
  moreover have "vm_globals vm = configure_state_check_validation 1 [viewer_pixel_format (vcfg_format cfg)]
      (vcfg_modes cfg) init_globals \<and> vp_clients (vm_publisher vm) = [] \<and> vp_session (vm_publisher vm) = None
      \<and> vm_endpoint vm = new_legacy_512"
    using start by (auto simp: viewer_start_def Let_def and_then_def new_publisher_def split: if_splits sum.splits)
  ultimately show ?case
    by (simp add: viewer_ok_def publisher_ok_def new_legacy_512_def build_endpoint_def)
next
  case (turn vm tn vm')
  then show ?case using viewer_turn_ok by blast
qed (simp add: viewer_ok_def)

section \<open>A received buffer\<close>

text \<open>What the shared framebuffer holds before the payload: the running session's pixels, or zeros.\<close>

definition base_map :: "PublishedSession option \<Rightarrow> u32 \<Rightarrow> u32 \<Rightarrow> bytes" where
  "base_map session width height =
     (case session of
        Some s \<Rightarrow> if pu_width s = width \<and> pu_height s = height then pu_map s
                 else replicate (unat width * 2 * unat height) 0
      | None \<Rightarrow> replicate (unat width * 2 * unat height) 0)"

lemma accept_session [simp]: "vp_session (accept_new_clients tj outcomes p) = vp_session p"
  by (induction tj outcomes p rule: accept_new_clients.induct) (simp_all split: option.split)

lemma ensure_session_total:
  assumes small: "unat (as_width st) < 2 ^ 16" "unat (as_height st) < 2 ^ 16" and fs: "\<forall>call. fs call = Ok ()"
  shows "\<exists>s p'. ensure_session tj fs st paths uid gid p = (Inr s, p')
    \<and> pu_map s = base_map (vp_session p) (as_width st) (as_height st)"
proof (cases "\<exists>s. vp_session p = Some s \<and> pu_width s = as_width st \<and> pu_height s = as_height st")
  case True
  then show ?thesis by (auto simp: ensure_session_def base_map_def)
next
  case False
  then have new: "(case vp_session p of None \<Rightarrow> True
      | Some s \<Rightarrow> pu_width s \<noteq> as_width st \<or> pu_height s \<noteq> as_height st) = True"
    and base: "base_map (vp_session p) (as_width st) (as_height st)
      = replicate (unat (as_width st) * 2 * unat (as_height st)) 0"
    by (auto simp: base_map_def split: option.splits)
  have "unat (as_width st) * 2 * unat (as_height st) \<le> 2 ^ 17 * 2 ^ 16" using small by (intro mult_le_mono) simp_all
  then have "checked_mul_usize (unat (as_width st) * 2) (unat (as_height st))
      = Some (unat (as_width st) * 2 * unat (as_height st))" by (simp add: usize_bound_def)
  then obtain s where "new_session fs (as_width st) (as_height st) (rp_framebuffer_path paths) uid gid = Inr s"
    "pu_map s = replicate (unat (as_width st) * 2 * unat (as_height st)) 0"
    by (simp add: new_session_def and_then_def fs Let_def)
  then show ?thesis using new base by (simp add: ensure_session_def)
qed

lemma buffer_turn:
  assumes ok: "viewer_ok env cfg vm" and ev: "tn_event tn = Ok (Some ffs)"
    and buf: "event (ve_overflow_checks env) (ve_connectors env) (ve_header env) (ve_buffer env) ffs (vm_globals vm)
      = (Ok (Some (Buffer info)), g, sent)"
    and rcv: "recv_payload (ve_lz4 env) (tn_worker tn) (tn_reads tn)
      (functionfs_lifecycle_generation (vm_globals vm)) (tn_elapsed tn) info (vm_endpoint vm)
      = Some (Ok (payload, stats), ep, rest)"
    and lz4: "\<forall>src n dest dest' k. ve_lz4 env src n dest = Ok (dest', k) \<longrightarrow> length dest' = length dest"
    and bound: "length payload < usize_bound" and fs: "\<forall>call. tn_fs tn call = Ok ()" and flush: "tn_flush tn = Ok ()"
  shows "\<exists>vm' p s. viewer_turn env cfg tn vm = Some (Ok (), vm')
    \<and> vm_publisher vm' = publish_frame_ready (ve_json env) p \<and> publisher_ok (ve_json env) p
    \<and> vp_session p = Some s \<and> session_ok s
    \<and> (\<forall>x < unat (pu_width s). \<forall>y < unat (pu_height s). pixel565_at (pu_map s) (y * pu_stride s + x * 2)
        = shown_pixel (vcfg_format cfg) info payload
            (base_map (vp_session (vm_publisher vm)) (pu_width s) (pu_height s)) (pu_stride s) x y)"
proof -
  have D: "g = vm_globals vm" "validate_buffer_request (ve_overflow_checks env) info (vm_globals vm) = Ok ()"
    using event_Buffer_D [OF buf] by blast+
  obtain sn where sn: "committed_state (protocol_state (vm_globals vm)) = Some sn" "buffer_fits sn info"
    using validate_buffer_request_fits [OF D(2)] by blast
  have "protocol_ok (vm_globals vm)" "state_check_validation (vm_globals vm) = viewer_contract cfg"
    using gud_run_ok [of 0 "viewer_contract cfg" "vm_globals vm"] ok by (simp_all add: viewer_ok_def)
  then have "sn_format sn = viewer_pixel_format (vcfg_format cfg)"
    using sn(1) by (simp add: protocol_ok_def snapshot_ok_def snapshot_advertised_def viewer_contract_def Let_def)
  then have bpp: "bytes_per_pixel (sn_format sn) = Ok (viewer_bytes_per_pixel (vcfg_format cfg))"
    by (cases "vcfg_format cfg") (simp_all add: bytes_per_pixel_def)
  define st where "st = \<lparr> as_width = ucast (dm_hdisplay (sn_mode sn)) :: u32, as_height = ucast (dm_vdisplay (sn_mode sn)) :: u32,
    as_format = sn_format sn, as_connector = sn_connector sn \<rparr>"
  have st: "active_scanout_state (vm_globals vm) = Some st" by (simp add: active_scanout_state_def sn(1) st_def)
  note small = active_scanout_small [OF st]
  define p0 where "p0 = accept_new_clients (ve_json env) (tn_accepts tn) (vm_publisher vm)"
  have p0: "publisher_ok (ve_json env) p0" "vp_session p0 = vp_session (vm_publisher vm)"
    using ok accept_ok by (simp_all add: p0_def viewer_ok_def)
  obtain s p where es: "ensure_session (ve_json env) (tn_fs tn) st (vcfg_paths cfg) (vcfg_uid cfg) (vcfg_gid cfg) p0
      = (Inr s, p)" and base: "pu_map s = base_map (vp_session p0) (as_width st) (as_height st)"
    using ensure_session_total [OF small [THEN conjunct1] small [THEN conjunct2] fs] by blast
  note s = ensure_session_ok [OF p0(1) small [THEN conjunct1] small [THEN conjunct2] es]
  have fit: "rect_fits info (unat (pu_width s)) (unat (pu_height s))"
    and len: "unat (sb_length info) = unat (sb_width info) * unat (sb_height info) * viewer_bytes_per_pixel (vcfg_format cfg)"
    using sn(2) s bpp by (simp_all add: buffer_fits_def rect_fits_def st_def)
  have "unat (sb_length info) \<le> length payload"
    using recv_payload_length [OF rcv] lz4 ok by (simp add: viewer_ok_def)
  then obtain fb where fb: "copy_payload (vcfg_format cfg) info payload s = Ok fb" "length fb = length (pu_map s)"
    "\<forall>x < unat (pu_width s). \<forall>y < unat (pu_height s). pixel565_at fb (y * pu_stride s + x * 2)
      = shown_pixel (vcfg_format cfg) info payload (pu_map s) (pu_stride s) x y"
    using copy_payload_ok [OF _ fit _ bound, of "vcfg_format cfg"] s len by auto
  let ?p = "p\<lparr> vp_session := Some (s\<lparr> pu_map := fb \<rparr>) \<rparr>"
  let ?vm = "record_host_activity (Buffer info) (vm\<lparr> vm_publisher := p0, vm_globals := g \<rparr>)"
  have rec: "vm_globals ?vm = vm_globals vm" "vm_publisher ?vm = p0" "vm_endpoint ?vm = vm_endpoint vm"
    by (simp_all add: record_host_activity_def D(1))
  have "viewer_turn env cfg tn vm = handle_buffer env cfg tn info ?vm"
    using ev buf by (simp add: viewer_turn_def Let_def p0_def)
  also have "\<dots> = Some (Ok (), ?vm\<lparr> vm_publisher := publish_frame_ready (ve_json env) ?p, vm_endpoint := ep \<rparr>)"
    using st es rcv fb(1) flush rec by (simp add: handle_buffer_def Let_def)
  finally have "viewer_turn env cfg tn vm = \<dots>" .
  moreover have "publisher_ok (ve_json env) ?p" using map_update_ok [OF _ _ fb(2)] s by blast
  moreover have "session_ok s \<Longrightarrow> session_ok (s\<lparr> pu_map := fb \<rparr>)" by (simp add: session_ok_def fb(2))
  then have "session_ok (s\<lparr> pu_map := fb \<rparr>)" using s by blast
  moreover have "pixel565_at fb (y * pu_stride s + x * 2) = shown_pixel (vcfg_format cfg) info payload
      (base_map (vp_session (vm_publisher vm)) (pu_width s) (pu_height s)) (pu_stride s) x y"
    if "x < unat (pu_width s)" "y < unat (pu_height s)" for x y
    using that fb(3) base s p0(2) by simp
  ultimately show ?thesis
    by (intro exI [of _ "?vm\<lparr> vm_publisher := publish_frame_ready (ve_json env) ?p, vm_endpoint := ep \<rparr>"]
        exI [of _ ?p] exI [of _ "s\<lparr> pu_map := fb \<rparr>"]) simp
qed

text \<open>The frame a viewer shows of a session, and the notice that makes it do so.\<close>

definition shown_frame :: "PublishedSession \<Rightarrow> UiEvent" where
  "shown_frame s = frame_of (pu_width s) (pu_height s) (of_nat (pu_stride s)) (pu_map s)"

lemma shown_frame_eq: "shown_frame s = UiFrame (pu_width s) (pu_height s) (uf_rgba (shown_frame s))"
  by (simp add: shown_frame_def frame_of_def)

lemma shown_frame_pixel:
  "session_ok s \<Longrightarrow> x < unat (pu_width s) \<Longrightarrow> y < unat (pu_height s) \<Longrightarrow>
     take 4 (drop ((y * unat (pu_width s) + x) * 4) (uf_rgba (shown_frame s)))
     = rgba_of_rgb565 (pixel565_at (pu_map s) (y * pu_stride s + x * 2))"
  unfolding shown_frame_def by (subst frame_pixel, assumption, assumption)
    (simp only: session_stride, simp add: session_ok_def)

lemma notice_shows_frame:
  assumes json: "json_ok tj from_json" and p: "publisher_ok tj p" and s: "vp_session p = Some s" "session_ok s"
    and c: "c \<in> set (vp_clients (publish_frame_ready tj p))"
  shows "\<exists>ms. vc_out c = encode_lines tj (ms @ [frame_ready_message (s\<lparr> pu_generation := pu_generation s + 1 \<rparr>)])
    \<and> (\<forall>view. keeps_up view 0 ms \<and> fv_read (view (length ms)) (pu_shm_path s) (length (pu_map s)) = Ok (pu_map s) \<longrightarrow>
         (\<exists>rs. read_loop from_json view 0 (vc_out c) start_reader
           = Continue (send_event (UiFrame (pu_width s) (pu_height s) (uf_rgba (shown_frame s))) rs)))"
proof -
  let ?m = "frame_ready_message (s\<lparr> pu_generation := pu_generation s + 1 \<rparr>)"
  let ?stride = "of_nat (pu_stride s) :: u32"
  have len: "length (pu_map s) = unat ?stride * unat (pu_height s)"
    using session_stride [OF s(2)] s(2) by (simp only: session_ok_def)
  have m: "?m = FrameReady (pu_width s) (pu_height s) ?stride (pu_generation s + 1) True"
    by (simp add: frame_ready_message_def)
  obtain c0 where c0: "c0 \<in> set (vp_clients p)" "vc_out c = vc_out c0 @ encode_line tj ?m"
    using c s(1) broadcast_latest [of c tj ?m] by (fastforce simp: publish_frame_ready_def Let_def)
  have sess: "map_option view_of (vp_session p)
      = Some (pu_width s, pu_height s, ?stride, pu_shm_path s, pu_generation s)"
    by (simp add: s(1) view_of_def)
  have "vc_out c0 \<in> set (map vc_out (vp_clients p))" using c0(1) by simp
  from daemon.reader_next [OF json p this] obtain ms where ms: "vc_out c0 = encode_lines tj ms"
    and all: "\<forall>view. keeps_up view 0 ms \<longrightarrow> (\<forall>w h stride path g g' bs.
      map_option view_of (vp_session p) = Some (w, h, stride, path, g) \<and> length bs = unat stride * unat h
      \<and> fv_read (view (length ms)) path (unat stride * unat h) = Ok bs \<longrightarrow>
      (\<exists>rs. read_loop from_json view 0 (vc_out c0 @ encode_line tj (FrameReady w h stride g' True)) start_reader
        = Continue (send_event (frame_of w h stride bs) rs)))"
    by blast
  have "\<exists>rs. read_loop from_json view 0 (vc_out c) start_reader = Continue (send_event (shown_frame s) rs)"
    if "keeps_up view 0 ms" "fv_read (view (length ms)) (pu_shm_path s) (length (pu_map s)) = Ok (pu_map s)" for view
    using all that sess len unfolding c0(2) m shown_frame_def by (metis (no_types))
  moreover have "vc_out c = encode_lines tj (ms @ [?m])" by (simp add: c0(2) ms)
  ultimately show ?thesis using shown_frame_eq [of s] by metis
qed

text \<open>The end of a session as a viewer sees it.\<close>

lemma notice_ends_session:
  assumes json: "json_ok tj from_json" and p: "publisher_ok tj p"
    and c: "c \<in> set (vp_clients (publish_disconnected tj p))"
  shows "\<exists>ms. vc_out c = encode_lines tj (ms @ [MsgDisconnected]) \<and> (\<forall>view. keeps_up view 0 ms \<longrightarrow>
    (\<exists>rs. read_loop from_json view 0 (vc_out c) start_reader = Continue rs \<and> rs_shared rs = None
      \<and> (\<forall>ui. \<exists>ui'. ui_tick (rs_events rs) ui = Continue ui' \<and> ui_page ui' = PageWaiting)))"
proof -
  obtain c0 where c0: "c0 \<in> set (vp_clients p)" "vc_out c = vc_out c0 @ encode_line tj MsgDisconnected"
    using c broadcast_latest [of c tj MsgDisconnected] by (fastforce simp: publish_disconnected_def)
  have "vc_out c0 \<in> set (map vc_out (vp_clients p))" using c0(1) by simp
  from daemon.reader_next [OF json p this] obtain ms where ms: "vc_out c0 = encode_lines tj ms"
    and all: "\<forall>view. keeps_up view 0 ms \<longrightarrow>
      (\<exists>rs. read_loop from_json view 0 (vc_out c) start_reader = Continue (send_event UiWaiting rs) \<and> rs_shared rs = None)"
    unfolding c0(2) by blast
  have "\<exists>rs. read_loop from_json view 0 (vc_out c) start_reader = Continue rs \<and> rs_shared rs = None
      \<and> (\<forall>ui. \<exists>ui'. ui_tick (rs_events rs) ui = Continue ui' \<and> ui_page ui' = PageWaiting)"
    if k: "keeps_up view 0 ms" for view
  proof -
    obtain rs where rs: "read_loop from_json view 0 (vc_out c) start_reader = Continue (send_event UiWaiting rs)"
      "rs_shared rs = None" using all k by blast
    have "UiShutdown \<notin> set (rs_events (send_event UiWaiting rs))"
      by (rule read_loop_no_shutdown [OF rs(1)]) (simp add: start_reader_def)
    then have "UiShutdown \<notin> set (rs_events rs)" by (simp add: send_event_def)
    then show ?thesis using rs ui_tick_waiting by (intro exI [of _ "send_event UiWaiting rs"]) (simp add: send_event_def)
  qed
  then show ?thesis by (intro exI [of _ ms]) (simp add: c0(2) ms)
qed

text \<open>
  The daemon reads the first byte of an RGB888 pixel as red, the display service as blue: for the
  same payload the two show red and blue exchanged.
\<close>

lemma rgb888_channels_differ:
  "payload_pixel VRgb888 [0xFF, 0, 0] 0 = rgb565_of (rgb 0xFF 0 0)"
  "read_pixel [0xFF, 0, 0] 3 0 0 Rgb888 = Ok (rgb 0 0 0xFF)"
  by (simp_all add: rgb565_of_888_def rgb565_of_def read_pixel_def pixel_offset_def
      checked_mul_usize_def checked_add_usize_def usize_bound_def)

section \<open>A concrete run\<close>

lemma viewer_modes: "\<exists>rest. build_advertised_modes = Ok (DEFAULT_NATIVE_MODE # rest)"
  by (simp add: build_advertised_modes_def PORTRAIT_FALLBACKS_def and_then_def viewer_derive_mode_def viewer_scale_dimension_def DEFAULT_NATIVE_MODE_def Let_def)

text \<open>A concrete line format.\<close>

definition unary :: "nat \<Rightarrow> string" where
  "unary n = replicate n CHR ''1'' @ ''0''"

fun ununary :: "nat \<Rightarrow> string \<Rightarrow> nat list" where
  "ununary n [] = []"
| "ununary n (c # cs) = (if c = CHR ''1'' then ununary (Suc n) cs else n # ununary 0 cs)"

lemma ununary_unary: "ununary 0 (concat (map unary ns)) = ns"
proof (induction ns)
  case (Cons n ns)
  have "ununary k (replicate n CHR ''1'' @ CHR ''0'' # rest) = (k + n) # ununary 0 rest" for k rest
    by (induction n arbitrary: k) simp_all
  with Cons show ?case by (simp add: unary_def)
qed simp

fun message_nats :: "ServerMessage \<Rightarrow> nat list" where
  "message_nats (Hello v) = [0, unat v]"
| "message_nats (SessionStart w h s f path) = 1 # unat w # unat h # unat s # map of_char path"
| "message_nats (FrameReady w h s g full) = [2, unat w, unat h, unat s, unat g, of_bool full]"
| "message_nats MsgDisconnected = [3]"
| "message_nats MsgShutdown = [4]"

definition sample_to_json :: to_json where
  "sample_to_json m = Ok (concat (map unary (message_nats m)))"

definition sample_from_json :: "string \<Rightarrow> ServerMessage result" where
  "sample_from_json s =
     (let ns = ununary 0 s; n = (\<lambda>i. ns ! i) in
      if ns = [] then Err ''empty''
      else if hd ns = 0 then Ok (Hello (of_nat (n 1)))
      else if hd ns = 1 then
        Ok (SessionStart (of_nat (n 1)) (of_nat (n 2)) (of_nat (n 3)) PfRgb565 (map char_of (drop 4 ns)))
      else if hd ns = 2 then
        Ok (FrameReady (of_nat (n 1)) (of_nat (n 2)) (of_nat (n 3)) (of_nat (n 4)) (n 5 = 1))
      else if hd ns = 3 then Ok MsgDisconnected
      else Ok MsgShutdown)"

lemma message_nats_ne: "message_nats m \<noteq> []"
  by (cases m) simp_all

lemma last_unary: "ns \<noteq> [] \<Longrightarrow> last (concat (map unary ns)) = CHR ''0''"
  by (induction ns rule: rev_induct) (simp_all add: unary_def)

lemma sample_decodes: "sample_from_json (concat (map unary (message_nats m))) = Ok m"
proof (cases m)
  case (SessionStart w h s f path)
  have "f = PfRgb565" by (cases f)
  with SessionStart show ?thesis
    unfolding sample_from_json_def ununary_unary by (simp add: comp_def Let_def)
qed (simp_all only: sample_from_json_def ununary_unary, simp_all add: Let_def)

lemma sample_json_ok: "json_ok sample_to_json sample_from_json"
  unfolding json_ok_def
proof
  fix m
  let ?t = "concat (map unary (message_nats m))"
  have "set ?t \<subseteq> {CHR ''1'', CHR ''0''}" by (auto simp: unary_def)
  then have "CHR ''\<newline>'' \<notin> set ?t" by auto
  moreover have "?t \<noteq> []" using message_nats_ne [of m] by (cases "message_nats m") (simp_all add: unary_def)
  moreover have "\<not> is_ws (last ?t)" by (simp add: last_unary message_nats_ne is_ws_def)
  moreover have "sample_from_json ?t = Ok m" by (rule sample_decodes)
  ultimately show "\<exists>text. sample_to_json m = Ok text \<and> text \<noteq> [] \<and> CHR ''\<newline>'' \<notin> set text
      \<and> \<not> is_ws (last text) \<and> sample_from_json text = Ok m"
    by (simp add: sample_to_json_def)
qed


definition sample_env :: ViewerEnv where
  "sample_env = \<lparr> ve_overflow_checks = False, ve_connectors = ser_ConnectorDescriptor, ve_header = de_StateCheckHeader,
     ve_buffer = de_SetBuffer, ve_descriptor = ser_DisplayDescriptor, ve_modes = ser_DisplayMode,
     ve_lz4 = (\<lambda>_ _ dest. Ok (dest, 0)), ve_json = sample_to_json \<rparr>"

definition sample_viewer_modes :: "DisplayMode list" where
  "sample_viewer_modes = (case build_advertised_modes of Inl _ \<Rightarrow> [] | Inr ms \<Rightarrow> ms)"

definition sample_viewer_config :: ViewerConfig where
  "sample_viewer_config = \<lparr> vcfg_uid = 10000, vcfg_gid = 10000, vcfg_paths = build_runtime_paths None None 10000,
     vcfg_format = VRgb565, vcfg_modes = sample_viewer_modes \<rparr>"

definition sample_viewer :: ViewerState where
  "sample_viewer = \<lparr> vm_publisher = \<lparr> vp_clients = [], vp_session = None \<rparr>,
     vm_globals = configure_state_check_validation 1 [GUD_PIXEL_FORMAT_RGB565] sample_viewer_modes init_globals,
     vm_endpoint = new_legacy_512, vm_had_host_session = False \<rparr>"

lemma sample_viewer_modes: "\<exists>rest. sample_viewer_modes = DEFAULT_NATIVE_MODE # rest"
proof -
  obtain rest where "build_advertised_modes = Ok (DEFAULT_NATIVE_MODE # rest)" using viewer_modes by blast
  then show ?thesis unfolding sample_viewer_modes_def by (rule ssubst) simp
qed

lemma sample_viewer_start: "viewer_run sample_env sample_viewer_config sample_viewer"
proof (rule viewer_run.start)
  have m: "build_advertised_modes = Ok sample_viewer_modes" 
  proof -
    obtain ms where "build_advertised_modes = Ok ms" using viewer_modes by blast
    then show ?thesis unfolding sample_viewer_modes_def by (rule ssubst) simp
  qed
  have "prepare_runtime_path (\<lambda>_. Ok ()) p uid gid = Ok ()" if "path_parent p \<noteq> None" for p uid gid
    using that by (auto simp: prepare_runtime_path_def and_then_def)
  moreover have "path_parent (default_runtime_dir 10000 @ ''/control.sock'') \<noteq> None"
    "path_parent (default_runtime_dir 10000 @ ''/framebuffer.bin'') \<noteq> None"
    by (simp_all add: path_parent_def strip_slashes_def Let_def)
  ultimately show "viewer_start \<lparr> vv_uid = None, vv_gid = None, vv_socket = None, vv_shm = None, vv_format = None \<rparr>
      \<lparr> vb_udc = True, vb_remove_all = Ok (), vb_bind = Ok (), vb_handler = Ok () \<rparr> (\<lambda>_. Ok ())
    = Ok (sample_viewer_config, sample_viewer)"
    by (simp add: viewer_start_def m parse_env_u32_def viewer_format_from_env_def build_runtime_paths_def
        new_publisher_def and_then_def default_paths sample_viewer_config_def sample_viewer_def Let_def)
qed

definition quiet_turn :: "FfsEvent option \<Rightarrow> Turn" where
  "quiet_turn ev = \<lparr> tn_accepts = [], tn_event = Ok ev, tn_udc = Ok Configured, tn_fs = (\<lambda>_. Ok ()),
     tn_worker = None, tn_reads = [], tn_elapsed = 0, tn_flush = Ok () \<rparr>"

definition native_snapshot :: DisplayStateSnapshot where
  "native_snapshot = \<lparr> sn_mode = DEFAULT_NATIVE_MODE, sn_format = GUD_PIXEL_FORMAT_RGB565, sn_connector = 0,
     sn_generation = 1 \<rparr>"

definition sample_shown :: ViewerState where
  "sample_shown = sample_viewer\<lparr> vm_had_host_session := True, vm_globals := (vm_globals sample_viewer)\<lparr> protocol_state :=
     \<lparr> pending_state = None, committed_state = Some native_snapshot, next_generation = 1,
       controller_enabled = True, display_enabled = True \<rparr> \<rparr>,
     vm_endpoint := new_legacy_512\<lparr> pe_ep_rx := \<lparr> er_io = Some (new_driver 1), er_file = True \<rparr> \<rparr> \<rparr>"

lemma native_check_payload:
  "validate_state_check_payload de_StateCheckHeader
     \<lparr> scv_connector_count = 1, scv_formats = [GUD_PIXEL_FORMAT_RGB565], scv_modes = sample_viewer_modes \<rparr>
     (enc_StateCheckHeader \<lparr> sch_mode = DEFAULT_NATIVE_MODE, sch_format = GUD_PIXEL_FORMAT_RGB565, sch_connector = 0 \<rparr>)
   = Ok \<lparr> ds_mode = DEFAULT_NATIVE_MODE, ds_format = GUD_PIXEL_FORMAT_RGB565, ds_connector = 0 \<rparr>"
proof -
  have "list_ex (\<lambda>mode. modes_have_same_user_timing mode DEFAULT_NATIVE_MODE) sample_viewer_modes"
  proof -
    obtain rest where "sample_viewer_modes = DEFAULT_NATIVE_MODE # rest" using sample_viewer_modes by blast
    then show ?thesis by (rule ssubst) (simp add: modes_have_same_user_timing_def)
  qed
  then show ?thesis
    using state_check_header.de_enc [of _ "[]"] by (simp add: validate_state_check_payload_def)
qed

lemmas sample_viewer_defs = sample_viewer_def sample_env_def sample_viewer_config_def quiet_turn_def

lemma sample_shown_run: "viewer_run sample_env sample_viewer_config sample_shown"
proof -
  let ?p = "\<lambda>a b c d. \<lparr> pending_state = a, committed_state = b, next_generation = 1,
       controller_enabled = c, display_enabled = d \<rparr>"
  let ?vm = "\<lambda>a b c d. sample_viewer\<lparr> vm_had_host_session := True,
       vm_globals := (vm_globals sample_viewer)\<lparr> protocol_state := ?p a b c d \<rparr> \<rparr>"
  let ?turn = "\<lambda>req data. viewer_turn sample_env sample_viewer_config (quiet_turn (Some (host_request req data)))"
  have "?turn GUD_REQ_SET_STATE_CHECK (enc_StateCheckHeader \<lparr> sch_mode = DEFAULT_NATIVE_MODE,
      sch_format = GUD_PIXEL_FORMAT_RGB565, sch_connector = 0 \<rparr>) sample_viewer
    = Some (Ok (), ?vm (Some native_snapshot) None False False)"
    by (simp add: viewer_turn_def sample_viewer_defs host_request_def setup_host_to_device_def handle_state_check_def
        native_check_payload configure_state_check_validation_def init_globals_def store_pending_state_def checked_add_def
        status_ops record_host_activity_def native_snapshot_def)
  from viewer_run.turn [OF sample_viewer_start this]
  have 1: "viewer_run sample_env sample_viewer_config (?vm (Some native_snapshot) None False False)" .
  have "?turn GUD_REQ_SET_STATE_COMMIT [] (?vm (Some native_snapshot) None False False)
    = Some (Ok (), ?vm None (Some native_snapshot) False False)"
    by (simp add: viewer_turn_def sample_viewer_defs host_request_def setup_host_to_device_def handle_state_commit_def
        configure_state_check_validation_def init_globals_def commit_pending_state_def status_ops record_host_activity_def)
  from viewer_run.turn [OF 1 this]
  have 2: "viewer_run sample_env sample_viewer_config (?vm None (Some native_snapshot) False False)" .
  have "?turn GUD_REQ_SET_CONTROLLER_ENABLE [1] (?vm None (Some native_snapshot) False False)
    = Some (Ok (), ?vm None (Some native_snapshot) True False)"
    by (simp add: viewer_turn_def sample_viewer_defs host_request_def setup_host_to_device_def handle_controller_enable_def
        configure_state_check_validation_def init_globals_def parse_enable_request_def update_controller_enabled_def status_ops)
  from viewer_run.turn [OF 2 this]
  have 3: "viewer_run sample_env sample_viewer_config (?vm None (Some native_snapshot) True False)" .
  have "?turn GUD_REQ_SET_DISPLAY_ENABLE [1] (?vm None (Some native_snapshot) True False)
    = Some (Ok (), ?vm None (Some native_snapshot) True True)"
    by (simp add: viewer_turn_def sample_viewer_defs host_request_def setup_host_to_device_def handle_display_enable_def
        configure_state_check_validation_def init_globals_def parse_enable_request_def update_display_enabled_def status_ops)
  from viewer_run.receiver [OF viewer_run.turn [OF 3 this], of "\<lparr> er_io = Some (new_driver 1), er_file = True \<rparr>"]
  show ?thesis by (simp add: sample_shown_def sample_viewer_def)
qed

definition pixel_buffer :: SetBuffer where
  "pixel_buffer = \<lparr> sb_x = 0, sb_y = 0, sb_width = 1, sb_height = 1, sb_length = 2, sb_compression = 0,
     sb_compressed_length = 0 \<rparr>"

definition pixel_turn :: Turn where
  "pixel_turn = (quiet_turn (Some (host_request GUD_REQ_SET_BUFFER (enc_SetBuffer pixel_buffer))))
     \<lparr> tn_accepts := [Accepted []], tn_reads := [Ok (2, [7, 8])] \<rparr>"

section \<open>Main properties\<close>

text \<open>C39. What a viewer knows is what the daemon publishes. Whatever one more turn of the loop does to a
  running daemon, its end included, each client that is still connected has been sent a well-formed stream
  (greeting first, frame notices only inside a session and counted up one by one) whose last word is the
  published session; and a viewer that keeps up reads the whole stream without a fault and holds a mapping
  of exactly that session's framebuffer, or none when there is no session.\<close>

theorem viewer_stream_consistent:
  assumes "viewer_run env cfg vm" and "viewer_turn env cfg tn vm = Some (r, vm')"
    and "json_ok (ve_json env) from_json" and "c \<in> set (vp_clients (vm_publisher vm'))"
  shows "\<exists>ms st. vc_out c = encode_lines (ve_json env) ms \<and> stream_run ms Opening = Some st
    \<and> session_agrees (map_option view_of (vp_session (vm_publisher vm'))) st
    \<and> (\<forall>view. keeps_up view 0 ms \<longrightarrow>
         (\<exists>rs. read_loop from_json view 0 (vc_out c) start_reader = Continue rs \<and> reader_sync st rs))"
proof -
  have "publisher_ok (ve_json env) (vm_publisher vm')"
    using viewer_turn_ok [OF viewer_run_ok [OF assms(1)] assms(2)] by (simp add: viewer_ok_def)
  then show ?thesis using daemon.reader_follows [OF assms(3)] assms(4) by simp
qed

theorem viewer_stream_consistent_witness:
  "\<exists>vm' c. viewer_turn sample_env sample_viewer_config ((quiet_turn None)\<lparr> tn_accepts := [Accepted []] \<rparr>) sample_shown
      = Some (Ok (), vm') \<and> vp_clients (vm_publisher vm') = [c]
    \<and> (\<exists>ms st. vc_out c = encode_lines sample_to_json ms \<and> stream_run ms Opening = Some st)"
proof -
  let ?tn = "(quiet_turn None)\<lparr> tn_accepts := [Accepted []] \<rparr>"
  obtain vm' c where t: "viewer_turn sample_env sample_viewer_config ?tn sample_shown = Some (Ok (), vm')"
    "vp_clients (vm_publisher vm') = [c]"
    by (simp add: viewer_turn_def quiet_turn_def check_detached_def sample_shown_def sample_viewer_def sample_env_def
        greeting_def send_message_def sample_to_json_def write_all_def)
  show ?thesis
    using viewer_stream_consistent [OF sample_shown_run t(1), of sample_from_json c] sample_json_ok t
    by (simp add: sample_env_def) blast
qed



text \<open>C40. Losing the host ends the daemon visibly. When the controller is detached after an active host
  session and no event arrives, the turn ends \<open>main\<close> with the error that asks for a restart, the
  session is gone, and every client still connected has been told: its reader drops the framebuffer, and
  the next tick of its window goes back to the waiting page, whatever it showed.\<close>

theorem viewer_detach_reported:
  assumes run: "viewer_run env cfg vm" and json: "json_ok (ve_json env) from_json"
    and host: "vm_had_host_session vm" and gone: "udc_is_detached (tn_udc tn)"
    and none: "\<And>ev. tn_event tn \<noteq> Ok (Some ev)"
  shows "\<exists>vm'. viewer_turn env cfg tn vm = Some (detached_error, vm') \<and> vp_session (vm_publisher vm') = None
    \<and> (\<forall>c \<in> set (vp_clients (vm_publisher vm')). \<exists>ms.
         vc_out c = encode_lines (ve_json env) (ms @ [MsgDisconnected])
         \<and> (\<forall>view. keeps_up view 0 ms \<longrightarrow>
              (\<exists>rs. read_loop from_json view 0 (vc_out c) start_reader = Continue rs \<and> rs_shared rs = None
                 \<and> (\<forall>ui. \<exists>ui'. ui_tick (rs_events rs) ui = Continue ui' \<and> ui_page ui' = PageWaiting))))"
proof -
  define p where "p = accept_new_clients (ve_json env) (tn_accepts tn) (vm_publisher vm)"
  have p: "publisher_ok (ve_json env) p"
    using viewer_run_ok [OF run] accept_ok by (simp add: viewer_ok_def p_def)
  let ?vm = "vm\<lparr> vm_publisher := publish_disconnected (ve_json env) p \<rparr>"
  have turn: "viewer_turn env cfg tn vm = Some (detached_error, ?vm)"
    using none host gone
    by (cases "tn_event tn") (auto simp: viewer_turn_def check_detached_def p_def Let_def split: option.split)
  have "\<exists>ms. vc_out c = encode_lines (ve_json env) (ms @ [MsgDisconnected]) \<and> (\<forall>view. keeps_up view 0 ms \<longrightarrow>
      (\<exists>rs. read_loop from_json view 0 (vc_out c) start_reader = Continue rs \<and> rs_shared rs = None
        \<and> (\<forall>ui. \<exists>ui'. ui_tick (rs_events rs) ui = Continue ui' \<and> ui_page ui' = PageWaiting)))"
    if c: "c \<in> set (vp_clients (vm_publisher ?vm))" for c
    using notice_ends_session [OF json p] c by simp
  with turn show ?thesis by (intro exI [of _ ?vm]) (simp add: publish_disconnected_def)
qed

theorem viewer_detach_reported_witness:
  "\<exists>vm'. viewer_turn sample_env sample_viewer_config ((quiet_turn None)\<lparr> tn_udc := Ok NotAttached \<rparr>) sample_shown
     = Some (detached_error, vm')"
  using viewer_detach_reported [OF sample_shown_run, of sample_from_json "(quiet_turn None)\<lparr> tn_udc := Ok NotAttached \<rparr>"]
    sample_json_ok
  by (auto simp: quiet_turn_def sample_shown_def sample_env_def)

end
