(* ===== verification/Spec2Isabelle.thy ===== *)
theory Spec2Isabelle
  imports Drm_Loop_Display Viewer_Publish
begin

text \<open>
  Verification of the GUD USB display gadget.

  \<^bold>\<open>The program.\<close> The repository turns a Linux board into a USB display. A host that speaks the GUD protocol
  configures the display over the control endpoint EP0 and sends pixels over a bulk endpoint; the gadget
  shows them on a DRM output, or hands them to viewer windows. Its parts are a library for the gadget side of the
  protocol (\<^verbatim>\<open>gadget/src/lib.rs\<close>), the display service \<^verbatim>\<open>gud-drm\<close> (\<^verbatim>\<open>drm/src/main.rs\<close>, \<^verbatim>\<open>modes.rs\<close>,
  \<^verbatim>\<open>scanout.rs\<close>), and the viewer: a daemon (\<^verbatim>\<open>viewerd\<close>), its messages (\<^verbatim>\<open>viewer-ipc\<close>) and a window
  (\<^verbatim>\<open>viewer-gtk\<close>). The bulk endpoint is driven by the bundled AIO driver (\<^verbatim>\<open>vendor/usb-gadget\<close>, custom function).

  \<^bold>\<open>How the parts interact.\<close> FunctionFS delivers lifecycle and setup events to \<^verbatim>\<open>gud_gadget::event\<close>, which updates the
  statics of the library (protocol state, status latch, admission guard, generations) and returns the events an
  application handles. An admitted SET_BUFFER makes the display service arm one receive: its aggregate session
  goes from Idle through Arming to InFlight, the endpoint submits one AIO operation, and the host may send
  only after GET_STATUS has reported success. A completion moves both to Processing; the payload is
  decompressed, drawn along the committed route and presented, and both return to Idle. Lifecycle events either
  find this path idle, or contain it: the session and the transaction are poisoned together until the USB epoch
  is destroyed and retired. A state check prepares a scanout for the requested timing in a free slot, a commit
  switches to it or falls back to scaling, and the waiting screen covers what has not been drawn yet.

  \<^bold>\<open>Theories.\<close> State is a record of the same fields as the struct or the local variables of the code, an operation
  a function from the state to its result and the new state; a \<^verbatim>\<open>Result\<close> is a sum, with the error on the left
  and a panic as an error of its own (\<open>Panic\<close>). Machine integers are words of their width, \<^verbatim>\<open>usize\<close> is
  \<open>nat\<close> with the bound written out where it matters; arithmetic that overflows is parametrised by whether the build
  checks it.

    \<^item> \<open>Gud_Base\<close>: results, checked arithmetic, slices, \<open>for\<close> loops over ranges and the loop rules that all others use.
    \<^item> \<open>Gud_Wire\<close>: the protocol structures and their serialization (descriptor, connector, modes, state check,
      buffer header, contract hash). The locale \<open>ssmarshal\<close> states the layout the code relies on; it is interpreted
      on a little-endian encoder for each structure.
    \<^item> \<open>Gud_Protocol\<close>: the statics as one record \<open>Globals\<close>, the admission guard, check, commit, enables, SET_BUFFER
      validation, \<open>event\<close>, and the three replies the application completes. \<open>protocol_ok\<close> is the invariant;
      \<open>gud_run\<close> the reachable states.
    \<^item> \<open>Usb_Aio\<close>: the bundled AIO driver, its queue shared with a thread and the kernel, with every interleaving as a
      step relation (\<open>aio_step\<close>).
    \<^item> \<open>Gud_Exact_Aio\<close>: the transaction machine of one exact receive and its history.
    \<^item> \<open>Gud_Bulk\<close>: the blocking reads, LZ4 hand-over and the copy of a payload into a framebuffer.
    \<^item> \<open>Gud_Endpoint\<close>: the pixel endpoint over a receiver. The locale \<open>aio_receiver\<close> states what it needs of the driver and
      is interpreted on the model of \<open>Usb_Aio\<close>; \<open>endpoint_step\<close> interleaves all operations with the kernel.
    \<^item> \<open>Drm_Session\<close>: STATUS_ON_SET drain, aggregate receive session (compare-exchange loops with explicit
      interference), gadget shutdown handshake.
    \<^item> \<open>Drm_Lifecycle\<close>: the idle gate and the handling of lifecycle events on the whole receive path.
    \<^item> \<open>Drm_Modes\<close>: mode keys, derived modes, route catalog.
    \<^item> \<open>Drm_Raster\<close>: pixel formats, raster checks, patterns, scaling, waiting screen.
    \<^item> \<open>Drm_Config\<close>: the environment variables, the startup configuration, descriptor limits, startup catalog, memory estimate.
    \<^item> \<open>Drm_Shadow\<close>: the shadow framebuffer of scaled routes.
    \<^item> \<open>Drm_Scanout\<close>: creation, mapping and release of scanout allocations. The locale \<open>scanout_backend\<close> states what the
      device calls do to the device's objects; \<open>drm_kernel\<close> gives it for the DRM device from the ioctls, and is
      interpreted on a simulated card.
    \<^item> \<open>Drm_Pool\<close>: slots, roles, waiting scanout and accounting of the scanout manager.
    \<^item> \<open>Drm_Routes\<close>: preparation, commit, switch and invalidation of dynamic routes, lifecycle surfaces, startup.
    \<^item> \<open>Drm_Frame\<close>: drawing and presenting a received payload.
    \<^item> \<open>Drm_Display\<close>: runs of display events and the properties of what is shown.
    \<^item> \<open>Drm_Loop\<close>: one turn of the event loop, composing all of the above, and the teardown;
      \<open>Drm_Loop_Safety\<close>: every turn is a run of endpoint operations, and the invariant of the receive path;
      \<open>Drm_Loop_Runs\<close>: the properties of its turns and of its end; \<open>Drm_Loop_Display\<close>: its display is a run of display events.
    \<^item> \<open>Viewer_Ipc\<close>, \<open>Viewer_Gtk\<close>, \<open>Viewer_Daemon\<close>: messages and stream automaton, the window, the daemon;
      \<open>Viewer_Publish\<close>: both together. The locale \<open>stream_publisher\<close> is what the reader needs of a publisher and is
      interpreted on the daemon.

  \<^bold>\<open>What the lemmas show.\<close> The control plane keeps its invariant and accepts a buffer only inside the committed mode
  and after the whole handshake; replies decode to what was advertised; refusals are reported. The driver never loses or
  duplicates an operation, the endpoint owns at most one receive, and a delivered payload has the announced length and
  activation. The session is claimed for teardown only when unowned, and an unbind request is never lost. The
  scaler agrees with its pixel-wise reference, rendering stays inside the visible area. Creating a scanout is all or
  nothing, no run of display events leaks one, and what is shown is what was committed. The event loop keeps
  session, transaction, pending receive and gate in agreement, processes a completed payload once, and does not
  end while the kernel owns a receive. Each viewer is sent a well-formed stream and shows the
  pixels of the payload.

  \<^bold>\<open>Bounds and fuel.\<close> Recursion is structural or has a measure, except where the code can wait for ever; there the
  outcome \<open>None\<close> or \<open>Blocked\<close> says so. The answers of the kernel to reads are a list, as long as there are
  answers: a read of \<open>n\<close> bytes uses at most one answer per started request size (\<open>payload_read_exact\<close>), and an empty list is a read
  that still blocks. A compare-exchange loop takes the list of values stored by the other thread, and ends with it.
  Setting the CRTC at startup tries 20 times, as the code does.

  \<^bold>\<open>Not modelled.\<close> The kernel, the DRM ioctls, FunctionFS, the file system, sockets, GTK, \<^verbatim>\<open>serde_json\<close>,
  \<^verbatim>\<open>ssmarshal\<close> and LZ4 are parameters, with the behaviour the code relies on as hypotheses or locale assumptions. Left
  out are logging and its counters (\<^verbatim>\<open>ReceiveTelemetry::emit\<close>, the row checksum trace of \<^verbatim>\<open>main\<close>), the dumps of framebuffers and
  payloads to files (\<^verbatim>\<open>dump_framebuffer_*\<close>, \<^verbatim>\<open>dump_pixel_buffer_*\<close>), which write and never change the state, the discovery of
  the DRM card and its connector, the configfs side of \<^verbatim>\<open>vendor/usb-gadget\<close>, the waiting loop of the test-only barrier (its outcome is an
  input of a turn), \<^verbatim>\<open>with_waiting_buffer\<close> (only for the startup dump) and the test modules, with the function only
  they call (\<^verbatim>\<open>promote_candidate\<close>).
\<close>

end
